(* ===== verification/Iris_Prelude.thy ===== *)
theory Iris_Prelude
  imports Complex_Main "HOL-Library.AList" "HOL-Library.Multiset"
begin

text \<open>
  Shared vocabulary of the development: Python values, dictionaries in insertion order, list
  slices and in-place replacement, with the lemmas every component uses.

  \<^item> \<open>pyobj\<close> are the values of a Python \<open>dict[str, object]\<close> (room and account
    metadata, candidate payloads).
  \<^item> A Python \<open>dict\<close> keeps insertion order, which the code relies on when it iterates, so
    it is an association list with \<open>AList.update\<close> (assignment: replaces in place or
    appends), \<open>AList.delete\<close> (\<open>del\<close>/\<open>pop\<close>) and \<open>map_of\<close> (\<open>get\<close>).
  \<^item> \<open>slice_last n xs\<close> is the slice \<open>xs[-n:]\<close>, including its behaviour at
    \<open>n = 0\<close> (the whole list) and at negative \<open>n\<close>.
  \<^item> \<open>upd_first P f xs\<close> is the loop that replaces the first matching element and breaks.
\<close>

named_theorems store_simps \<open>how the operations of a store read back\<close>
named_theorems inv_intros \<open>operations that keep a component's invariant\<close>

section \<open>Python values\<close>

datatype pyobj =
    PNone
  | PBool bool
  | PInt int
  | PFloat real
  | PStr string
  | PList "pyobj list"
  | PDict "(string \<times> pyobj) list"

type_synonym ('k, 'v) dict = "('k \<times> 'v) list"

text \<open>Truth of a value in a condition.\<close>

definition py_truthy :: "pyobj \<Rightarrow> bool" where
  "py_truthy v = (case v of PNone \<Rightarrow> False | PBool b \<Rightarrow> b | PInt i \<Rightarrow> i \<noteq> 0 | PFloat x \<Rightarrow> x \<noteq> 0
     | PStr s \<Rightarrow> s \<noteq> [] | PList xs \<Rightarrow> xs \<noteq> [] | PDict d \<Rightarrow> d \<noteq> [])"

abbreviation dget :: "('k, 'v) dict \<Rightarrow> 'k \<Rightarrow> 'v option" where
  "dget d k \<equiv> map_of d k"

abbreviation dput :: "'k \<Rightarrow> 'v \<Rightarrow> ('k, 'v) dict \<Rightarrow> ('k, 'v) dict" where
  "dput \<equiv> AList.update"

abbreviation ddel :: "'k \<Rightarrow> ('k, 'v) dict \<Rightarrow> ('k, 'v) dict" where
  "ddel \<equiv> AList.delete"

abbreviation dkeys :: "('k, 'v) dict \<Rightarrow> 'k list" where
  "dkeys d \<equiv> map fst d"

abbreviation dvalues :: "('k, 'v) dict \<Rightarrow> 'v list" where
  "dvalues d \<equiv> map snd d"

definition dget_or :: "('k, 'v) dict \<Rightarrow> 'k \<Rightarrow> 'v \<Rightarrow> 'v" where
  "dget_or d k v = (case dget d k of None \<Rightarrow> v | Some x \<Rightarrow> x)"

lemma dget_dput [simp]: "dget (dput k v d) k' = (if k' = k then Some v else dget d k')"
  by (simp add: update_conv')

lemma dget_ddel [simp]: "dget (ddel k d) k' = (if k' = k then None else dget d k')"
  by (simp add: delete_conv')

lemma distinct_dput [simp]: "distinct (dkeys d) \<Longrightarrow> distinct (dkeys (dput k v d))"
  by (rule distinct_update)

lemma distinct_ddel [simp]: "distinct (dkeys d) \<Longrightarrow> distinct (dkeys (ddel k d))"
  by (rule distinct_delete)

lemma set_dkeys_dput [simp]: "set (dkeys (dput k v d)) = insert k (set (dkeys d))"
  by (induction d) auto

lemma set_dkeys_ddel [simp]: "set (dkeys (ddel k d)) = set (dkeys d) - {k}"
  by (induction d) (auto simp: AList.delete_eq)

lemma dget_None_iff: "dget d k = None \<longleftrightarrow> k \<notin> set (dkeys d)"
  by (simp add: map_of_eq_None_iff image_iff)

lemma dget_Some_in: "dget d k = Some v \<Longrightarrow> (k, v) \<in> set d"
  by (rule map_of_SomeD)

lemma dget_eq_iff: "distinct (dkeys d) \<Longrightarrow> dget d k = Some v \<longleftrightarrow> (k, v) \<in> set d"
  by simp

lemma dget_filter_snd:
  "distinct (dkeys ps) \<Longrightarrow>
    dget (filter (\<lambda>p. P (snd p)) ps) n = (case dget ps n of None \<Rightarrow> None | Some v \<Rightarrow> if P v then Some v else None)"
  by (induction ps) (auto simp: dget_None_iff split: option.splits)

lemma set_dput:
  "distinct (dkeys d) \<Longrightarrow> set (dput k v d) = insert (k, v) {p \<in> set d. fst p \<noteq> k}"
  by (induction d) (auto simp: image_iff)

lemma set_ddel: "set (ddel k d) = {p \<in> set d. fst p \<noteq> k}"
  by (auto simp: AList.delete_eq)

lemma dget_or_dput [simp]: "dget_or (dput k v d) k' w = (if k' = k then v else dget_or d k' w)"
  by (simp add: dget_or_def)

lemma dvalues_dput: "set (dvalues (dput k v d)) \<subseteq> insert v (set (dvalues d))"
  by (induction d) auto

lemma dput_not_Nil: "dput k v d \<noteq> []"
  by (cases d) auto

section \<open>Slices\<close>

definition lastn :: "nat \<Rightarrow> 'a list \<Rightarrow> 'a list" where
  "lastn n xs = drop (length xs - n) xs"

definition slice_last :: "int \<Rightarrow> 'a list \<Rightarrow> 'a list" where
  "slice_last n xs = (if 0 < n then lastn (nat n) xs else drop (nat (- n)) xs)"

lemma length_lastn [simp]: "length (lastn n xs) = min n (length xs)"
  by (auto simp: lastn_def)

lemma lastn_all [simp]: "length xs \<le> n \<Longrightarrow> lastn n xs = xs"
  by (simp add: lastn_def)

lemma lastn_0 [simp]: "lastn 0 xs = []"
  by (simp add: lastn_def)

lemma lastn_append_lastn: "lastn n (lastn n xs @ ys) = lastn n (xs @ ys)"
proof (cases "length xs \<le> n")
  case False
  then have "xs = take (length xs - n) xs @ lastn n xs"
    by (simp add: lastn_def)
  moreover have "lastn n ((us @ vs) @ ws) = lastn n (vs @ ws)" if "n \<le> length vs" for us vs ws :: "'a list"
    using that by (simp add: lastn_def)
  moreover have "n \<le> length (lastn n xs)"
    using False by simp
  ultimately show ?thesis
    by metis
qed simp

lemma lastn_Suc_snoc: "0 < n \<Longrightarrow> lastn n (xs @ [x]) = lastn (n - 1) xs @ [x]"
  by (auto simp: lastn_def)

lemma lastn_tl: "length xs = Suc n \<Longrightarrow> lastn n xs = tl xs"
  by (simp add: lastn_def drop_Suc)

lemma set_lastn_subset: "set (lastn n xs) \<subseteq> set xs"
  by (auto simp: lastn_def dest: in_set_dropD)

lemma set_slice_last_subset: "set (slice_last n xs) \<subseteq> set xs"
  by (auto simp: slice_last_def lastn_def dest: in_set_dropD)

lemma length_slice_last_le: "0 < n \<Longrightarrow> length (slice_last n xs) \<le> nat n"
  by (simp add: slice_last_def)

text \<open>The slice \<open>xs[:k]\<close>.\<close>

definition slice_to :: "int \<Rightarrow> 'a list \<Rightarrow> 'a list" where
  "slice_to k xs = (if k < 0 then take (length xs - nat (- k)) xs else take (nat k) xs)"

lemma slice_to_neg: "0 < k \<Longrightarrow> slice_to (- k) xs = take (length xs - nat k) xs"
  by (simp add: slice_to_def)

lemma slice_to_last: "0 < k \<Longrightarrow> slice_to (- k) xs @ slice_last k xs = xs"
  by (simp add: slice_to_neg slice_last_def lastn_def)

section \<open>Replacing the first match\<close>

fun upd_first :: "('a \<Rightarrow> bool) \<Rightarrow> ('a \<Rightarrow> 'a) \<Rightarrow> 'a list \<Rightarrow> 'a list" where
  "upd_first P f [] = []"
| "upd_first P f (x # xs) = (if P x then f x # xs else x # upd_first P f xs)"

lemma length_upd_first [simp]: "length (upd_first P f xs) = length xs"
  by (induction xs) auto

lemma map_upd_first:
  "(\<And>x. x \<in> set xs \<Longrightarrow> P x \<Longrightarrow> g (f x) = g x) \<Longrightarrow> map g (upd_first P f xs) = map g xs"
  by (induction xs) auto

lemma upd_first_no_match: "\<forall>x \<in> set xs. \<not> P x \<Longrightarrow> upd_first P f xs = xs"
  by (induction xs) auto

lemma set_upd_first_subset: "set (upd_first P f xs) \<subseteq> set xs \<union> f ` {x \<in> set xs. P x}"
  by (induction xs) auto

lemma upd_first_id: "find P xs = Some y \<Longrightarrow> upd_first P (\<lambda>_. y) xs = xs"
  by (induction xs) (auto split: if_splits)

lemma find_key_upd_first:
  assumes "key r = k"
  shows "find (\<lambda>x. key x = k') (upd_first (\<lambda>x. key x = k) (\<lambda>_. r) xs) =
    (if k' = k \<and> find (\<lambda>x. key x = k) xs \<noteq> None then Some r else find (\<lambda>x. key x = k') xs)"
  using assms by (induction xs) auto

lemma find_append: "find P (xs @ ys) = (case find P xs of None \<Rightarrow> find P ys | Some x \<Rightarrow> Some x)"
  by (induction xs) auto

lemma find_SomeD: "find P xs = Some x \<Longrightarrow> P x \<and> x \<in> set xs"
  by (induction xs) (auto split: if_splits)

lemma find_None_iff': "find P xs = None \<longleftrightarrow> (\<forall>x \<in> set xs. \<not> P x)"
  by (induction xs) auto

lemma find_filter_neq:
  "find (\<lambda>r. key r = k') (filter (\<lambda>r. key r \<noteq> k) xs) =
    (if k' = k then None else find (\<lambda>r. key r = k') xs)"
  by (induction xs) auto

lemma distinct_map_filter: "distinct (map f xs) \<Longrightarrow> distinct (map f (filter P xs))"
  by (induction xs) auto

lemma distinct_key_eq:
  "distinct (map f xs) \<Longrightarrow> x \<in> set xs \<Longrightarrow> y \<in> set xs \<Longrightarrow> f x = f y \<Longrightarrow> x = y"
  by (auto simp: distinct_map inj_on_def)

lemma find_distinct_key:
  "distinct (map f xs) \<Longrightarrow> x \<in> set xs \<Longrightarrow> find (\<lambda>y. f y = f x) xs = Some x"
  by (induction xs) (auto simp: image_iff)

lemma set_upd_first_distinct:
  assumes "distinct (map key xs)" and "y \<in> set xs" and "key r = key y"
  shows "set (upd_first (\<lambda>x. key x = key y) (\<lambda>_. r) xs) = insert r (set xs - {y})"
  using assms by (induction xs) (auto simp: image_iff)

section \<open>Strings\<close>

definition starts_with :: "string \<Rightarrow> string \<Rightarrow> bool" where
  "starts_with p s = (take (length p) s = p)"

text \<open>\<open>str.strip()\<close> on the code points of Latin-1.\<close>

definition py_space :: "char \<Rightarrow> bool" where
  "py_space c \<longleftrightarrow> (let n = (of_char c :: nat) in (9 \<le> n \<and> n \<le> 13) \<or> (28 \<le> n \<and> n \<le> 32) \<or> n = 133 \<or> n = 160)"

definition py_strip :: "string \<Rightarrow> string" where
  "py_strip s = rev (dropWhile py_space (rev (dropWhile py_space s)))"

text \<open>Decimal numerals, padded with zeros on the left as \<open>:03d\<close> does.\<close>

definition digit :: "nat \<Rightarrow> char" where
  "digit n = char_of (48 + n)"

fun show_nat :: "nat \<Rightarrow> string" where
  "show_nat n = (if n < 10 then [digit n] else show_nat (n div 10) @ [digit (n mod 10)])"

declare show_nat.simps [simp del]

definition show_int :: "int \<Rightarrow> string" where
  "show_int i = (if i < 0 then CHR ''-'' # show_nat (nat (- i)) else show_nat (nat i))"

definition pad_left :: "nat \<Rightarrow> string \<Rightarrow> string" where
  "pad_left w s = replicate (w - length s) (CHR ''0'') @ s"

definition join_with :: "string \<Rightarrow> string list \<Rightarrow> string" where
  "join_with sep ws = (case ws of [] \<Rightarrow> [] | w # ws \<Rightarrow> w @ concat (map (\<lambda>x. sep @ x) ws))"

definition read_nat :: "string \<Rightarrow> nat" where
  "read_nat s = foldl (\<lambda>a c. a * 10 + (of_char c - 48)) 0 s"

lemma of_char_digit: "n < 10 \<Longrightarrow> of_char (digit n) - 48 = (n :: nat)"
  by (simp add: digit_def)

lemma read_show_nat: "read_nat (show_nat n) = n"
proof (induction n rule: less_induct)
  case (less n)
  have snoc: "read_nat (s @ [c]) = read_nat s * 10 + (of_char c - 48)" for s c
    by (simp add: read_nat_def)
  show ?case
  proof (cases "n < 10")
    case True
    then show ?thesis
      by (simp add: show_nat.simps read_nat_def of_char_digit)
  next
    case False
    then show ?thesis
      using less [of "n div 10"] by (subst show_nat.simps) (simp add: snoc of_char_digit)
  qed
qed

lemma read_zeros: "foldl (\<lambda>a c. a * 10 + (of_char c - 48)) (0 :: nat) (replicate k (CHR ''0'')) = 0"
  by (induction k) auto

lemma read_pad_left: "read_nat (pad_left w s) = read_nat s"
  by (simp add: read_nat_def pad_left_def read_zeros)

lemma show_nat_inj [simp]: "show_nat m = show_nat n \<longleftrightarrow> m = n"
  by (metis read_show_nat)

lemma pad_show_inj [simp]: "pad_left w (show_nat m) = pad_left w (show_nat n) \<longleftrightarrow> m = n"
  by (metis read_pad_left read_show_nat)

definition or_else :: "string \<Rightarrow> string \<Rightarrow> string" where
  "or_else a b = (if a = [] then b else a)"

lemma or_else_simps [simp]:
  "or_else [] b = b"
  "a \<noteq> [] \<Longrightarrow> or_else a b = a"
  by (simp_all add: or_else_def)

definition clamp :: "real \<Rightarrow> real \<Rightarrow> real \<Rightarrow> real" where
  "clamp lo hi x = max lo (min hi x)"

lemma clamp_bounds [simp, intro]: "lo \<le> hi \<Longrightarrow> lo \<le> clamp lo hi x" "lo \<le> hi \<Longrightarrow> clamp lo hi x \<le> hi"
  by (auto simp: clamp_def)

lemma clamp_id [simp]: "lo \<le> x \<Longrightarrow> x \<le> hi \<Longrightarrow> clamp lo hi x = x"
  by (auto simp: clamp_def)

lemma clamp_mono: "x \<le> y \<Longrightarrow> clamp lo hi x \<le> clamp lo hi y"
  by (auto simp: clamp_def)

end
