(* ===== verification/Iris_Interfaces.thy ===== *)
theory Iris_Interfaces
  imports Iris_Prelude
begin

text \<open>
  The contracts between components, as locales; each is interpreted in the theory of every
  component that provides it.

  \<^item> \<open>record_store\<close>: a list of keyed records with add, look-up of the first match and
    replacement of the first match (rooms, members, accounts, identities, JSONL items);
    \<open>deletable_store\<close> extends it by deletion.
  \<^item> \<open>bounded_log\<close>: an append-only log that forgets its oldest entries beyond a
    capacity (event trace, short-term turns, debug captures, JSONL files).
  \<^item> \<open>priority_registry\<close>: handlers kept sorted by priority, registration order among
    equals (hook handlers, control and command dispatchers).
\<close>

section \<open>Keyed record stores\<close>

locale record_store =
  fixes entries :: "'s \<Rightarrow> 'r list"
    and key :: "'r \<Rightarrow> 'k"
    and add :: "'r \<Rightarrow> 's \<Rightarrow> 's"
    and lookup :: "'k \<Rightarrow> 's \<Rightarrow> 'r option"
    and put :: "'r \<Rightarrow> 's \<Rightarrow> 's"
  assumes entries_add: "entries (add r s) = entries s @ [r]"
    and lookup_entries: "lookup k s = find (\<lambda>r. key r = k) (entries s)"
    and entries_put: "entries (put r s) = upd_first (\<lambda>x. key x = key r) (\<lambda>_. r) (entries s)"
begin

lemma lookup_SomeD: "lookup k s = Some r \<Longrightarrow> key r = k \<and> r \<in> set (entries s)"
  by (simp add: lookup_entries) (drule find_SomeD, simp)

lemma lookup_None: "lookup k s = None \<longleftrightarrow> k \<notin> key ` set (entries s)"
  by (auto simp: lookup_entries find_None_iff')

lemma lookup_add:
  "lookup k (add r s) =
    (case lookup k s of None \<Rightarrow> if key r = k then Some r else None | Some x \<Rightarrow> Some x)"
  by (simp add: lookup_entries entries_add find_append split: option.splits)

lemma lookup_put:
  "lookup k (put r s) = (if k = key r \<and> lookup (key r) s \<noteq> None then Some r else lookup k s)"
  by (simp add: lookup_entries entries_put find_key_upd_first)

lemma keys_put: "map key (entries (put r s)) = map key (entries s)"
  unfolding entries_put by (rule map_upd_first) simp

lemma distinct_put: "distinct (map key (entries s)) \<Longrightarrow> distinct (map key (entries (put r s)))"
  by (simp add: keys_put)

lemma distinct_add:
  "distinct (map key (entries s)) \<Longrightarrow> lookup (key r) s = None \<Longrightarrow>
    distinct (map key (entries (add r s)))"
  by (simp add: entries_add lookup_None)

lemma lookup_distinct:
  "distinct (map key (entries s)) \<Longrightarrow> r \<in> set (entries s) \<Longrightarrow> lookup (key r) s = Some r"
  by (simp add: lookup_entries find_distinct_key)

lemma set_put:
  assumes "distinct (map key (entries s))" and "lookup (key r) s = Some y"
  shows "set (entries (put r s)) = insert r (set (entries s) - {y})"
proof -
  have "key y = key r" and "y \<in> set (entries s)"
    using lookup_SomeD [OF assms(2)] by auto
  with assms(1) show ?thesis
    using set_upd_first_distinct [of key "entries s" y r] by (simp add: entries_put)
qed

lemma put_absent: "lookup (key r) s = None \<Longrightarrow> entries (put r s) = entries s"
  unfolding entries_put lookup_None by (rule upd_first_no_match) (metis imageI)

end

locale deletable_store = record_store entries key add lookup put
  for entries :: "'s \<Rightarrow> 'r list" and key :: "'r \<Rightarrow> 'k" and add and lookup and put +
  fixes del :: "'k \<Rightarrow> 's \<Rightarrow> 's"
  assumes entries_del: "entries (del k s) = filter (\<lambda>r. key r \<noteq> k) (entries s)"
begin

lemma lookup_del: "lookup k' (del k s) = (if k' = k then None else lookup k' s)"
  by (simp add: lookup_entries entries_del find_filter_neq)

lemma distinct_del: "distinct (map key (entries s)) \<Longrightarrow> distinct (map key (entries (del k s)))"
  by (simp add: entries_del distinct_map_filter)

lemma del_add: "lookup (key r) s = None \<Longrightarrow> entries (del (key r) (add r s)) = entries s"
  unfolding entries_del entries_add lookup_None by (simp, rule filter_True) (metis imageI)

end

section \<open>Bounded logs\<close>

locale bounded_log =
  fixes items :: "'s \<Rightarrow> 'a list"
    and push :: "'a \<Rightarrow> 's \<Rightarrow> 's"
    and cap :: "'s \<Rightarrow> nat"
  assumes items_push: "length (items s) \<le> cap s \<Longrightarrow> items (push x s) = lastn (cap s) (items s @ [x])"
    and cap_push: "cap (push x s) = cap s"
begin

lemma length_push: "length (items s) \<le> cap s \<Longrightarrow> length (items (push x s)) \<le> cap (push x s)"
  by (simp add: items_push cap_push)

lemma cap_fold: "cap (fold push xs s) = cap s"
  by (induction xs arbitrary: s) (auto simp: cap_push)

lemma items_fold:
  "length (items s) \<le> cap s \<Longrightarrow> items (fold push xs s) = lastn (cap s) (items s @ xs)"
proof (induction xs arbitrary: s)
  case Nil
  then show ?case by simp
next
  case (Cons x xs)
  then have "items (fold push (x # xs) s) = lastn (cap s) (lastn (cap s) (items s @ [x]) @ xs)"
    by (simp add: items_push cap_push)
  then show ?case
    by (simp add: lastn_append_lastn)
qed

lemma length_fold: "length (items s) \<le> cap s \<Longrightarrow> length (items (fold push xs s)) \<le> cap s"
  by (simp add: items_fold)

end

section \<open>Priority registries\<close>

locale priority_registry =
  fixes rank :: "'e \<Rightarrow> int"
    and register :: "'e \<Rightarrow> 'e list \<Rightarrow> 'e list"
  assumes register_sort: "register e es = sort_key rank (es @ [e])"
begin

lemma sorted_fold_register:
  "sorted (map rank es) \<Longrightarrow> sorted (map rank (fold register ns es))"
  by (induction ns arbitrary: es) (auto simp: register_sort)

lemma mset_fold_register: "mset (fold register ns es) = mset es + mset ns"
  by (induction ns arbitrary: es) (auto simp: register_sort)

lemma filter_rank_register:
  "filter (\<lambda>x. rank x = k) (register e es) = filter (\<lambda>x. rank x = k) (es @ [e])"
  by (simp only: register_sort sort_key_stable)

lemma fold_register_stable:
  "filter (\<lambda>x. rank x = k) (fold register ns es) = filter (\<lambda>x. rank x = k) (es @ ns)"
  by (induction ns arbitrary: es) (simp_all add: filter_rank_register)

end

end
