(* ===== verification/Event_Tracing.thy ===== *)
theory Event_Tracing
  imports Iris_Interfaces
begin

text \<open>
  The event type of the bus (\<open>iris/event/base.py\<close>) and the \<open>EventTracer\<close>
  (\<open>iris/event/tracer.py\<close>): a bounded ring of trace entries with an index from the
  category of a \<open>DebugSnapshotEvent\<close> to the positions of its entries in the ring.

  An event carries its class name (\<open>type(event).__name__\<close>), its bookkeeping fields and its
  other fields as one Python dictionary (\<open>model_dump\<close>); \<open>ev_debug\<close> holds
  (category, data, trigger) exactly when the event is a \<open>DebugSnapshotEvent\<close>.
  Main results: the index always lists exactly the positions of the entries of a category
  (\<open>tracer_inv\<close>), so \<open>find\<close> by category returns what a scan of the ring would,
  and the ring is a \<open>bounded_log\<close>.
\<close>

section \<open>Events\<close>

record event =
  ev_class :: string
  ev_timestamp :: "string option"
  ev_source :: string
  ev_trace_id :: string
  ev_debug :: "(string \<times> pyobj \<times> string) option"
  ev_fields :: "(string, pyobj) dict"

section \<open>The tracer\<close>

record trace_entry =
  te_timestamp :: string
  te_source :: string
  te_trace_id :: string
  te_type :: string
  te_debug :: "(string \<times> pyobj \<times> string) option"
  te_raw :: "(string, pyobj) dict"

record tracer =
  tr_buffer :: "trace_entry list"
  tr_max_entries :: int
  tr_enabled :: bool
  tr_publish_count :: nat
  tr_error_count :: nat
  tr_subscriber_count :: nat
  tr_category_index :: "(string, nat list) dict"

definition new_tracer :: "int \<Rightarrow> tracer" where
  "new_tracer n = \<lparr>tr_buffer = [], tr_max_entries = n, tr_enabled = True, tr_publish_count = 0,
     tr_error_count = 0, tr_subscriber_count = 0, tr_category_index = []\<rparr>"

definition tracer_set_enabled :: "bool \<Rightarrow> tracer \<Rightarrow> tracer" where
  "tracer_set_enabled v t = t\<lparr>tr_enabled := v\<rparr>"

text \<open>\<open>now\<close> is \<open>datetime.now()\<close> for an event without a timestamp.\<close>

definition trace_entry_of :: "string \<Rightarrow> event \<Rightarrow> trace_entry" where
  "trace_entry_of now e =
    \<lparr>te_timestamp = (case ev_timestamp e of None \<Rightarrow> now | Some ts \<Rightarrow> ts),
     te_source = ev_source e, te_trace_id = ev_trace_id e, te_type = ev_class e,
     te_debug = ev_debug e, te_raw = ev_fields e\<rparr>"

text \<open>The re-indexing loop after \<open>pop(0)\<close>: shift every position, drop the popped one,
  delete a category that is left without entries.\<close>

definition shift_index :: "(string, nat list) dict \<Rightarrow> (string, nat list) dict" where
  "shift_index idx =
    filter (\<lambda>p. snd p \<noteq> [])
      (map (\<lambda>(cat, is). (cat, map (\<lambda>i. i - 1) (filter (\<lambda>i. 0 < i) is))) idx)"

definition tracer_append :: "trace_entry \<Rightarrow> tracer \<Rightarrow> tracer" where
  "tracer_append en t =
    (let idx = (case te_debug en of
                  None \<Rightarrow> tr_category_index t
                | Some (cat, _) \<Rightarrow>
                    dput cat (dget_or (tr_category_index t) cat [] @ [length (tr_buffer t)])
                      (tr_category_index t));
         buf = tr_buffer t @ [en]
     in if tr_max_entries t < int (length buf)
        then t\<lparr>tr_buffer := tl buf, tr_category_index := shift_index idx\<rparr>
        else t\<lparr>tr_buffer := buf, tr_category_index := idx\<rparr>)"

definition on_event :: "string \<Rightarrow> event \<Rightarrow> tracer \<Rightarrow> tracer" where
  "on_event now e t =
    (if \<not> tr_enabled t then t
     else tracer_append (trace_entry_of now e) (t\<lparr>tr_publish_count := Suc (tr_publish_count t)\<rparr>))"

definition of_type :: "string option \<Rightarrow> trace_entry list \<Rightarrow> trace_entry list" where
  "of_type flt es =
    (case flt of None \<Rightarrow> es | Some ty \<Rightarrow> if ty = [] then es else filter (\<lambda>e. te_type e = ty) es)"

definition tracer_recent :: "int \<Rightarrow> string option \<Rightarrow> tracer \<Rightarrow> trace_entry list" where
  "tracer_recent n flt t = slice_last n (of_type flt (tr_buffer t))"

definition tracer_find :: "string option \<Rightarrow> string option \<Rightarrow> int \<Rightarrow> tracer \<Rightarrow> trace_entry list" where
  "tracer_find cat flt n t =
    (let by_cat = (case cat of
           None \<Rightarrow> tr_buffer t
         | Some c \<Rightarrow> if c = [] then tr_buffer t
             else map (\<lambda>i. tr_buffer t ! i)
                    (filter (\<lambda>i. i < length (tr_buffer t)) (dget_or (tr_category_index t) c [])))
     in slice_last n (of_type flt by_cat))"

definition tracer_by_trace_id :: "string \<Rightarrow> tracer \<Rightarrow> trace_entry list" where
  "tracer_by_trace_id tid t = filter (\<lambda>e. te_trace_id e = tid) (tr_buffer t)"

section \<open>The index invariant\<close>

definition entry_category :: "trace_entry \<Rightarrow> string option" where
  "entry_category e = map_option fst (te_debug e)"

definition positions :: "string \<Rightarrow> trace_entry list \<Rightarrow> nat list" where
  "positions cat buf = filter (\<lambda>i. entry_category (buf ! i) = Some cat) [0..<length buf]"

definition tracer_inv :: "tracer \<Rightarrow> bool" where
  "tracer_inv t \<longleftrightarrow>
     distinct (dkeys (tr_category_index t)) \<and>
     (\<forall>cat. dget_or (tr_category_index t) cat [] = positions cat (tr_buffer t)) \<and>
     (\<forall>p \<in> set (tr_category_index t). snd p \<noteq> []) \<and>
     int (length (tr_buffer t)) \<le> max 0 (tr_max_entries t)"

lemma positions_Nil [simp]: "positions cat [] = []"
  by (simp add: positions_def)

lemma positions_snoc:
  "positions cat (buf @ [en]) =
     positions cat buf @ (if entry_category en = Some cat then [length buf] else [])"
proof -
  have "filter (\<lambda>i. entry_category ((buf @ [en]) ! i) = Some cat) [0..<length buf] =
      filter (\<lambda>i. entry_category (buf ! i) = Some cat) [0..<length buf]"
    by (rule filter_cong) (auto simp: nth_append)
  then show ?thesis
    by (simp add: positions_def nth_append)
qed

lemma positions_Cons:
  "positions cat (en # buf) =
     (if entry_category en = Some cat then [0] else []) @ map Suc (positions cat buf)"
proof -
  have "[0..<length (en # buf)] = 0 # map Suc [0..<length buf]"
    by (simp add: upt_conv_Cons map_Suc_upt del: upt_Suc)
  then show ?thesis
    by (simp add: positions_def filter_map comp_def)
qed

lemma positions_tl:
  "map (\<lambda>i. i - 1) (filter (\<lambda>i. 0 < i) (positions cat buf)) = positions cat (tl buf)"
  by (cases buf) (auto simp: positions_Cons filter_map comp_def)

lemma map_nth_positions: "map (\<lambda>i. buf ! i) (positions cat buf) = filter (\<lambda>e. entry_category e = Some cat) buf"
proof (induction buf rule: rev_induct)
  case (snoc en buf)
  have "map (\<lambda>i. (buf @ [en]) ! i) (positions cat buf) = map (\<lambda>i. buf ! i) (positions cat buf)"
    by (rule map_cong) (auto simp: positions_def nth_append)
  with snoc show ?case
    by (simp add: positions_snoc)
qed simp

lemma positions_less: "filter (\<lambda>i. i < length buf) (positions cat buf) = positions cat buf"
  unfolding positions_def filter_filter by (rule filter_cong) auto

lemma dget_shift_index_absent: "dget idx c = None \<Longrightarrow> dget (shift_index idx) c = None"
  by (auto simp: shift_index_def dget_None_iff image_iff)

lemma dget_shift_index:
  "distinct (dkeys idx) \<Longrightarrow>
     dget_or (shift_index idx) cat [] = map (\<lambda>i. i - 1) (filter (\<lambda>i. 0 < i) (dget_or idx cat []))"
proof (induction idx)
  case (Cons p idx)
  obtain c "is" where p: "p = (c, is)" by force
  from Cons.prems p have "dget idx c = None"
    by (simp add: dget_None_iff)
  then have "dget_or (shift_index idx) c [] = []"
    by (simp add: dget_or_def dget_shift_index_absent)
  with Cons p show ?case
    by (auto simp: shift_index_def dget_or_def)
qed (simp add: shift_index_def dget_or_def)

lemma distinct_shift_index: "distinct (dkeys idx) \<Longrightarrow> distinct (dkeys (shift_index idx))"
proof -
  assume "distinct (dkeys idx)"
  then have "distinct (map fst (map (\<lambda>(cat, is). (cat, map (\<lambda>i. i - (1::nat)) (filter (\<lambda>i. 0 < i) is))) idx))"
    by (simp add: comp_def case_prod_beta)
  then show ?thesis
    unfolding shift_index_def by (rule distinct_map_filter)
qed

lemma shift_index_nonempty: "p \<in> set (shift_index idx) \<Longrightarrow> snd p \<noteq> []"
  by (auto simp: shift_index_def)

lemma tracer_inv_new [inv_intros]: "tracer_inv (new_tracer n)"
  by (simp add: tracer_inv_def new_tracer_def dget_or_def)

text \<open>The index after recording the new position, before any \<open>pop(0)\<close>.\<close>

lemma index_step:
  assumes "tracer_inv t"
    and idx: "idx = (case te_debug en of None \<Rightarrow> tr_category_index t
        | Some (cat, _) \<Rightarrow> dput cat (dget_or (tr_category_index t) cat [] @ [length (tr_buffer t)])
            (tr_category_index t))"
  shows "distinct (dkeys idx)"
    and "dget_or idx cat [] = positions cat (tr_buffer t @ [en])"
    and "\<forall>p \<in> set idx. snd p \<noteq> []"
  using assms
  by (auto simp: tracer_inv_def positions_snoc entry_category_def set_dput split: option.splits)

lemma tracer_append_inv [inv_intros]:
  assumes inv: "tracer_inv t"
  shows "tracer_inv (tracer_append en t)"
proof -
  define idx where "idx = (case te_debug en of None \<Rightarrow> tr_category_index t
      | Some (cat, _) \<Rightarrow> dput cat (dget_or (tr_category_index t) cat [] @ [length (tr_buffer t)])
          (tr_category_index t))"
  note step = index_step [OF inv idx_def]
  have len: "int (length (tr_buffer t)) \<le> max 0 (tr_max_entries t)"
    using inv by (simp add: tracer_inv_def)
  show ?thesis
  proof (cases "tr_max_entries t < int (length (tr_buffer t @ [en]))")
    case True
    then have eq: "tracer_append en t = t\<lparr>tr_buffer := tl (tr_buffer t @ [en]), tr_category_index := shift_index idx\<rparr>"
      by (simp add: tracer_append_def idx_def Let_def)
    show ?thesis
      using step len shift_index_nonempty unfolding eq tracer_inv_def
      by (auto simp: dget_shift_index distinct_shift_index positions_tl [simplified])
  next
    case False
    then have eq: "tracer_append en t = t\<lparr>tr_buffer := tr_buffer t @ [en], tr_category_index := idx\<rparr>"
      by (simp add: tracer_append_def idx_def Let_def)
    show ?thesis
      using step len False unfolding eq tracer_inv_def by auto
  qed
qed

lemma on_event_inv [inv_intros]: "tracer_inv t \<Longrightarrow> tracer_inv (on_event now e t)"
  using tracer_append_inv [of "t\<lparr>tr_publish_count := Suc (tr_publish_count t)\<rparr>"]
  by (simp add: on_event_def tracer_inv_def)

interpretation trace: bounded_log tr_buffer tracer_append "\<lambda>t. nat (tr_max_entries t)"
proof unfold_locales
  fix t :: tracer and en
  assume "length (tr_buffer t) \<le> nat (tr_max_entries t)"
  then show "tr_buffer (tracer_append en t) = lastn (nat (tr_max_entries t)) (tr_buffer t @ [en])"
  proof (cases "tr_max_entries t < int (length (tr_buffer t @ [en]))")
    case True
    with \<open>length (tr_buffer t) \<le> nat (tr_max_entries t)\<close>
    have "length (tr_buffer t @ [en]) = Suc (nat (tr_max_entries t))" by simp
    with True show ?thesis
      by (simp add: tracer_append_def Let_def lastn_tl del: length_append)
  qed (simp add: tracer_append_def Let_def)
next
  fix t :: tracer and en
  show "nat (tr_max_entries (tracer_append en t)) = nat (tr_max_entries t)"
    by (simp add: tracer_append_def Let_def)
qed

text \<open>Looking a category up in the index is a scan of the ring.\<close>

lemma category_scan:
  assumes "tracer_inv t"
  shows "map (\<lambda>i. tr_buffer t ! i)
      (filter (\<lambda>i. i < length (tr_buffer t)) (dget_or (tr_category_index t) c [])) =
    filter (\<lambda>e. entry_category e = Some c) (tr_buffer t)"
  using assms by (simp add: tracer_inv_def positions_less map_nth_positions)

definition run_tracer :: "(string \<times> event) list \<Rightarrow> tracer \<Rightarrow> tracer" where
  "run_tracer evs t = fold (\<lambda>(now, e). on_event now e) evs t"

lemma run_tracer_inv: "tracer_inv t \<Longrightarrow> tracer_inv (run_tracer evs t)"
  unfolding run_tracer_def by (induction evs arbitrary: t) (auto intro: on_event_inv)

section \<open>Properties\<close>

text \<open>
  After any sequence of events published to a fresh tracer, looking a category up through
  the position index (\<open>find(category=...)\<close>) returns the last \<open>n\<close> entries that a
  scan of the ring for that category finds, although evicting an entry shifts every position
  under the index. The empty category returns the last \<open>n\<close> entries of the whole ring.
\<close>

theorem tracer_find_is_scan:
  "tracer_find (Some c) None n (run_tracer evs (new_tracer m)) =
    slice_last n (if c = [] then tr_buffer (run_tracer evs (new_tracer m))
      else filter (\<lambda>e. entry_category e = Some c) (tr_buffer (run_tracer evs (new_tracer m))))"
  using category_scan [OF run_tracer_inv [OF tracer_inv_new]]
  by (simp add: tracer_find_def of_type_def Let_def)

end
