(* ===== verification/Event_Bus.thy ===== *)
theory Event_Bus
  imports Event_Tracing
begin

text \<open>
  The global \<open>EventBus\<close> (\<open>iris/event/event_bus.py\<close>) and the agency layer's
  \<open>InternalBus\<close> (\<open>iris/agency/internal_bus.py\<close>).

  Handlers are Python callables: here names \<open>'h\<close> with an environment \<open>run\<close> that
  gives what calling one does to the event object (handlers may assign its attributes) and to
  the whole state, bus included, so a handler may publish, subscribe and unsubscribe while it
  runs. The outcome is a normal return with the elapsed time, or a raised exception.
  \<open>world\<close> is everything outside the bus.
  Main results: a publish without \<open>strict\<close> calls exactly the handlers subscribed when it
  was made, in order, whatever they do to the subscriptions and whichever of them raise; with
  \<open>strict\<close> it stops at the first that raises; the counters add up.
\<close>

section \<open>State\<close>

record bus_metrics =
  bm_published :: nat
  bm_handled :: nat
  bm_errors :: nat
  bm_handler_times :: "(string, real) dict"

definition new_metrics :: bus_metrics where
  "new_metrics = \<lparr>bm_published = 0, bm_handled = 0, bm_errors = 0, bm_handler_times = []\<rparr>"

definition metrics_reset :: "bus_metrics \<Rightarrow> bus_metrics" where
  "metrics_reset m = m\<lparr>bm_published := 0, bm_handled := 0, bm_errors := 0, bm_handler_times := []\<rparr>"

record metrics_summary =
  ms_published :: nat
  ms_handled :: nat
  ms_errors :: nat
  ms_handler_count :: nat
  ms_slowest :: "(string \<times> real) list"

definition bus_summary :: "bus_metrics \<Rightarrow> metrics_summary" where
  "bus_summary m =
    \<lparr>ms_published = bm_published m, ms_handled = bm_handled m, ms_errors = bm_errors m,
     ms_handler_count = length (bm_handler_times m),
     ms_slowest = take 5 (sort_key (\<lambda>p. - snd p) (bm_handler_times m))\<rparr>"

record ('h, 'w) bus =
  eb_subscribers :: "(string, 'h list) dict"
  eb_tracer :: "tracer option"
  eb_metrics :: bus_metrics
  eb_world :: 'w

datatype outcome = Returned real | Raised string

type_synonym ('h, 's) runner = "'h \<Rightarrow> event \<Rightarrow> 's \<Rightarrow> event \<times> 's \<times> outcome"

section \<open>Subscriptions\<close>

definition bus_handlers :: "string \<Rightarrow> ('h, 'w) bus \<Rightarrow> 'h list" where
  "bus_handlers ty b = dget_or (eb_subscribers b) ty []"

text \<open>\<open>self._subscribers\<close> is a \<open>defaultdict(list)\<close>: reading it creates the entry.\<close>

definition bus_subscribe :: "string \<Rightarrow> 'h \<Rightarrow> ('h, 'w) bus \<Rightarrow> ('h, 'w) bus" where
  "bus_subscribe ty h b =
    b\<lparr>eb_subscribers := dput ty (bus_handlers ty b @ [h]) (eb_subscribers b)\<rparr>"

definition bus_unsubscribe :: "string \<Rightarrow> 'h \<Rightarrow> ('h, 'w) bus \<Rightarrow> ('h, 'w) bus" where
  "bus_unsubscribe ty h b =
    b\<lparr>eb_subscribers := dput ty (remove1 h (bus_handlers ty b)) (eb_subscribers b)\<rparr>"

definition bus_set_tracer :: "tracer option \<Rightarrow> ('h, 'w) bus \<Rightarrow> ('h, 'w) bus" where
  "bus_set_tracer t b = b\<lparr>eb_tracer := t\<rparr>"

section \<open>Publishing\<close>

definition count_ok :: "string \<Rightarrow> real \<Rightarrow> ('h, 'w) bus \<Rightarrow> ('h, 'w) bus" where
  "count_ok nm t b = b\<lparr>eb_metrics := (eb_metrics b)
     \<lparr>bm_handler_times := dput nm t (bm_handler_times (eb_metrics b)),
      bm_handled := Suc (bm_handled (eb_metrics b))\<rparr>\<rparr>"

definition count_handled :: "('h, 'w) bus \<Rightarrow> ('h, 'w) bus" where
  "count_handled b = b\<lparr>eb_metrics := (eb_metrics b)\<lparr>bm_handled := Suc (bm_handled (eb_metrics b))\<rparr>\<rparr>"

definition count_error :: "('h, 'w) bus \<Rightarrow> ('h, 'w) bus" where
  "count_error b = b\<lparr>eb_metrics := (eb_metrics b)\<lparr>bm_errors := Suc (bm_errors (eb_metrics b))\<rparr>\<rparr>"

text \<open>The loop over the handlers; \<open>ok\<close> is the bookkeeping after a normal return (the
  asynchronous loop does not time its handlers). A strict run re-raises the first exception.\<close>

fun dispatch ::
  "('h, ('h, 'w) bus) runner \<Rightarrow> ('h \<Rightarrow> real \<Rightarrow> ('h, 'w) bus \<Rightarrow> ('h, 'w) bus) \<Rightarrow> bool \<Rightarrow>
    'h list \<Rightarrow> event \<Rightarrow> ('h, 'w) bus \<Rightarrow> event \<times> ('h, 'w) bus \<times> string option" where
  "dispatch run ok strict [] e b = (e, b, None)"
| "dispatch run ok strict (h # hs) e b =
    (case run h e b of
       (e', b', Returned t) \<Rightarrow> dispatch run ok strict hs e' (ok h t b')
     | (e', b', Raised x) \<Rightarrow>
         if strict then (e', count_error b', Some x)
         else dispatch run ok strict hs e' (count_error b'))"

text \<open>\<open>now\<close> and \<open>fresh\<close> are the readings of the clock and of \<open>new_trace_id\<close>.\<close>

definition stamp :: "string \<Rightarrow> string \<Rightarrow> event \<Rightarrow> event" where
  "stamp now fresh e =
    e\<lparr>ev_timestamp := (case ev_timestamp e of None \<Rightarrow> Some now | Some t \<Rightarrow> Some t),
      ev_trace_id := or_else (ev_trace_id e) fresh\<rparr>"

definition before_dispatch :: "string \<Rightarrow> event \<Rightarrow> ('h, 'w) bus \<Rightarrow> ('h, 'w) bus" where
  "before_dispatch now e b =
    b\<lparr>eb_tracer := map_option (on_event now e) (eb_tracer b),
      eb_metrics := (eb_metrics b)\<lparr>bm_published := Suc (bm_published (eb_metrics b))\<rparr>\<rparr>"

definition bus_publish ::
  "('h \<Rightarrow> string) \<Rightarrow> ('h, ('h, 'w) bus) runner \<Rightarrow> bool \<Rightarrow> string \<Rightarrow> string \<Rightarrow> event \<Rightarrow>
    ('h, 'w) bus \<Rightarrow> event \<times> ('h, 'w) bus \<times> string option" where
  "bus_publish qualname run strict now fresh e b =
    (let e1 = stamp now fresh e; b1 = before_dispatch now e1 b
     in dispatch run (\<lambda>h. count_ok (qualname h)) strict (bus_handlers (ev_class e1) b1) e1 b1)"

definition bus_publish_async ::
  "('h, ('h, 'w) bus) runner \<Rightarrow> bool \<Rightarrow> string \<Rightarrow> string \<Rightarrow> event \<Rightarrow>
    ('h, 'w) bus \<Rightarrow> event \<times> ('h, 'w) bus \<times> string option" where
  "bus_publish_async run strict now fresh e b =
    (let e1 = stamp now fresh e; b1 = before_dispatch now e1 b
     in dispatch run (\<lambda>_ _. count_handled) strict (bus_handlers (ev_class e1) b1) e1 b1)"

section \<open>The internal bus\<close>

record ('h, 'w) internal_bus =
  ib_subscribers :: "(string, 'h list) dict"
  ib_world :: 'w

definition ib_handlers :: "string \<Rightarrow> ('h, 'w) internal_bus \<Rightarrow> 'h list" where
  "ib_handlers ty b = dget_or (ib_subscribers b) ty []"

definition ib_subscribe :: "string \<Rightarrow> 'h \<Rightarrow> ('h, 'w) internal_bus \<Rightarrow> ('h, 'w) internal_bus" where
  "ib_subscribe ty h b = b\<lparr>ib_subscribers := dput ty (ib_handlers ty b @ [h]) (ib_subscribers b)\<rparr>"

definition ib_unsubscribe :: "string \<Rightarrow> 'h \<Rightarrow> ('h, 'w) internal_bus \<Rightarrow> ('h, 'w) internal_bus" where
  "ib_unsubscribe ty h b = b\<lparr>ib_subscribers := dput ty (remove1 h (ib_handlers ty b)) (ib_subscribers b)\<rparr>"

fun ib_dispatch ::
  "('h \<Rightarrow> 'e \<Rightarrow> 's \<Rightarrow> 'e \<times> 's \<times> string option) \<Rightarrow> 'h list \<Rightarrow> 'e \<Rightarrow> 's \<Rightarrow> 'e \<times> 's" where
  "ib_dispatch run [] e b = (e, b)"
| "ib_dispatch run (h # hs) e b = (case run h e b of (e', b', _) \<Rightarrow> ib_dispatch run hs e' b')"

definition ib_publish ::
  "('h \<Rightarrow> 'e \<Rightarrow> ('h, 'w) internal_bus \<Rightarrow> 'e \<times> ('h, 'w) internal_bus \<times> string option) \<Rightarrow>
    ('e \<Rightarrow> string) \<Rightarrow> 'e \<Rightarrow> ('h, 'w) internal_bus \<Rightarrow> 'e \<times> ('h, 'w) internal_bus" where
  "ib_publish run type_name e b = ib_dispatch run (ib_handlers (type_name e) b) e b"

section \<open>A subscription table is a subscription contract\<close>

text \<open>Both buses keep the same promise about their subscription tables.\<close>

locale subscription_table =
  fixes handlers :: "string \<Rightarrow> 'b \<Rightarrow> 'h list"
    and subscribe :: "string \<Rightarrow> 'h \<Rightarrow> 'b \<Rightarrow> 'b"
    and unsubscribe :: "string \<Rightarrow> 'h \<Rightarrow> 'b \<Rightarrow> 'b"
  assumes handlers_subscribe: "handlers ty' (subscribe ty h b) =
      (if ty' = ty then handlers ty b @ [h] else handlers ty' b)"
    and handlers_unsubscribe: "handlers ty' (unsubscribe ty h b) =
      (if ty' = ty then remove1 h (handlers ty b) else handlers ty' b)"
begin

lemma mset_subscribe_unsubscribe:
  "mset (handlers ty' (unsubscribe ty h (subscribe ty h b))) = mset (handlers ty' b)"
  by (simp add: handlers_subscribe handlers_unsubscribe)

lemma subscribe_unsubscribe:
  "h \<notin> set (handlers ty b) \<Longrightarrow> handlers ty' (unsubscribe ty h (subscribe ty h b)) = handlers ty' b"
  by (simp add: handlers_subscribe handlers_unsubscribe remove1_append)

lemma unsubscribe_absent:
  "h \<notin> set (handlers ty b) \<Longrightarrow> handlers ty' (unsubscribe ty h b) = handlers ty' b"
  by (simp add: handlers_unsubscribe remove1_idem)

lemma handlers_fold_subscribe:
  "handlers ty (fold (\<lambda>(t, h). subscribe t h) subs b) =
    handlers ty b @ map snd (filter (\<lambda>p. fst p = ty) subs)"
  by (induction subs arbitrary: b) (auto simp: handlers_subscribe)

end

interpretation global_subs: subscription_table bus_handlers bus_subscribe bus_unsubscribe
  by unfold_locales (auto simp: bus_handlers_def bus_subscribe_def bus_unsubscribe_def)

interpretation internal_subs: subscription_table ib_handlers ib_subscribe ib_unsubscribe
  by unfold_locales (auto simp: ib_handlers_def ib_subscribe_def ib_unsubscribe_def)

section \<open>Lemmas on the dispatch loop\<close>

text \<open>An observer is a log kept in the world that every handler extends with its own name and
  that the bookkeeping does not touch.\<close>

definition observes :: "('h, ('h, 'w) bus) runner \<Rightarrow> ('w \<Rightarrow> 'h list) \<Rightarrow> bool" where
  "observes run lg \<longleftrightarrow> (\<forall>h e b. lg (eb_world (fst (snd (run h e b)))) = lg (eb_world b) @ [h])"

lemma observesD: "observes run lg \<Longrightarrow> run h e b = (e', b', r) \<Longrightarrow> lg (eb_world b') = lg (eb_world b) @ [h]"
  unfolding observes_def by (metis fst_conv snd_conv)

lemma world_counts [simp]:
  "eb_world (count_ok nm t b) = eb_world b"
  "eb_world (count_handled b) = eb_world b"
  "eb_world (count_error b) = eb_world b"
  "eb_world (before_dispatch now e b) = eb_world b"
  "bus_handlers ty (before_dispatch now e b) = bus_handlers ty b"
  by (simp_all add: count_ok_def count_handled_def count_error_def before_dispatch_def bus_handlers_def)

lemma dispatch_log:
  assumes "observes run lg" and "\<And>h t b. eb_world (ok h t b) = eb_world b"
    and "dispatch run ok strict hs e b = (e', b', x)"
  shows "\<exists>called rest. hs = called @ rest \<and> lg (eb_world b') = lg (eb_world b) @ called \<and>
    (x = None \<longrightarrow> rest = []) \<and> (x \<noteq> None \<longrightarrow> strict)"
  using assms(3)
proof (induction hs arbitrary: e b)
  case Nil
  then show ?case by simp
next
  case (Cons h hs)
  obtain e1 b1 r where r: "run h e b = (e1, b1, r)" by (metis prod_cases3)
  have lg1: "lg (eb_world b1) = lg (eb_world b) @ [h]"
    by (rule observesD [OF assms(1) r])
  have step: "\<exists>called rest. h # hs = called @ rest \<and> lg (eb_world b') = lg (eb_world b) @ called \<and>
      (x = None \<longrightarrow> rest = []) \<and> (x \<noteq> None \<longrightarrow> strict)"
    if "dispatch run ok strict hs e1 b2 = (e', b', x)" "eb_world b2 = eb_world b1" for b2
  proof -
    from Cons.IH [OF that(1)] obtain called rest where
      "hs = called @ rest" "lg (eb_world b') = lg (eb_world b2) @ called"
      "x = None \<longrightarrow> rest = []" "x \<noteq> None \<longrightarrow> strict" by blast
    with lg1 that(2) show ?thesis
      by (intro exI [of _ "h # called"] exI [of _ rest]) simp
  qed
  show ?case
  proof (cases r)
    case (Returned t)
    with Cons.prems r show ?thesis by (intro step [of "ok h t b1"]) (simp_all add: assms(2))
  next
    case (Raised y)
    show ?thesis
    proof (cases strict)
      case True
      with Cons.prems r Raised have "b' = count_error b1" "x = Some y" by auto
      with True lg1 show ?thesis by (intro exI [of _ "[h]"] exI [of _ hs]) simp
    next
      case False
      with Cons.prems r Raised show ?thesis by (intro step [of "count_error b1"]) simp_all
    qed
  qed
qed

definition metrics_total :: "('h, 'w) bus \<Rightarrow> nat" where
  "metrics_total b = bm_handled (eb_metrics b) + bm_errors (eb_metrics b)"

lemma dispatch_counts:
  assumes "\<And>h e b. eb_metrics (fst (snd (run h e b))) = eb_metrics b"
    and "\<And>h t b. metrics_total (ok h t b) = Suc (metrics_total b)"
    and "\<And>h t b. bm_published (eb_metrics (ok h t b)) = bm_published (eb_metrics b)"
    and "dispatch run ok False hs e b = (e', b', x)"
  shows "x = None \<and> metrics_total b' = metrics_total b + length hs \<and>
    bm_published (eb_metrics b') = bm_published (eb_metrics b)"
  using assms(4)
proof (induction hs arbitrary: e b)
  case (Cons h hs)
  obtain e1 b1 r where r: "run h e b = (e1, b1, r)" by (metis prod_cases3)
  then have m: "eb_metrics b1 = eb_metrics b" using assms(1) by (metis fst_conv snd_conv)
  show ?case
    using Cons.prems Cons.IH [of e1] r m assms(2,3)
    by (cases r) (fastforce simp: metrics_total_def count_error_def)+
qed simp

section \<open>Properties\<close>

text \<open>
  Publishing without \<open>strict\<close> never raises and calls every handler that was subscribed
  to the event's class when the publish was made, each once and in subscription order, whichever of
  them raise and even when a handler subscribes or unsubscribes others while it runs. (The calls
  are read off any log that each handler extends with its own name.)
\<close>

theorem publish_calls_snapshot:
  assumes "observes run lg"
    and "bus_publish qualname run False now fresh e b = (e', b', x)"
  shows "x = None \<and> lg (eb_world b') = lg (eb_world b) @ bus_handlers (ev_class e) b"
proof -
  have "dispatch run (\<lambda>h. count_ok (qualname h)) False (bus_handlers (ev_class e) b)
      (stamp now fresh e) (before_dispatch now (stamp now fresh e) b) = (e', b', x)"
    using assms(2) by (simp add: bus_publish_def Let_def stamp_def)
  from dispatch_log [OF assms(1) _ this] show ?thesis by force
qed

text \<open>
  With \<open>strict\<close>, a publish calls the handlers in order up to the first one that raises
  and re-raises that exception; no later handler is called. If nothing raises, all are called.
\<close>

theorem publish_strict_stops:
  assumes "observes run lg"
    and "bus_publish qualname run True now fresh e b = (e', b', x)"
  shows "\<exists>called rest. bus_handlers (ev_class e) b = called @ rest \<and>
    lg (eb_world b') = lg (eb_world b) @ called \<and> (x = None \<longrightarrow> rest = [])"
proof -
  have "dispatch run (\<lambda>h. count_ok (qualname h)) True (bus_handlers (ev_class e) b)
      (stamp now fresh e) (before_dispatch now (stamp now fresh e) b) = (e', b', x)"
    using assms(2) by (simp add: bus_publish_def Let_def stamp_def)
  from dispatch_log [OF assms(1) _ this] show ?thesis by force
qed

text \<open>
  The metrics of the bus add up: when handlers leave the metrics alone, a publish without
  \<open>strict\<close> raises \<open>published\<close> by one and \<open>handled + errors\<close> by the number
  of handlers subscribed to the event, however many of them raise.
\<close>

theorem publish_metrics_add_up:
  assumes "\<And>h e b. eb_metrics (fst (snd (run h e b))) = eb_metrics b"
    and "bus_publish qualname run False now fresh e b = (e', b', x)"
  shows "bm_published (eb_metrics b') = Suc (bm_published (eb_metrics b)) \<and>
    metrics_total b' = metrics_total b + length (bus_handlers (ev_class e) b)"
proof -
  have "dispatch run (\<lambda>h. count_ok (qualname h)) False (bus_handlers (ev_class e) b)
      (stamp now fresh e) (before_dispatch now (stamp now fresh e) b) = (e', b', x)"
    using assms(2) by (simp add: bus_publish_def Let_def stamp_def)
  from dispatch_counts [OF assms(1) _ _ this] show ?thesis
    by (simp add: metrics_total_def count_ok_def before_dispatch_def)
qed

end
