(* ===== verification/Plugin_Order.thy ===== *)
theory Plugin_Order
  imports Iris_Interfaces
begin

text \<open>
  Plugin manifests (\<open>iris/kernel/plugin/manifest.py\<close>) and the start-up order
  (\<open>iris/kernel/plugin/lifecycle/dependency.py\<close>).

  The order is computed phase by phase with \<open>graphlib.TopologicalSorter\<close> of the standard
  library, modelled here: \<open>kahn\<close> passes ready nodes out first-in first-out and counts down the
  unmet predecessors of their successors. Passing out a group of ready nodes and collecting the
  newly ready ones behind it is a queue. \<open>static_order\<close> is \<open>None\<close> for the
  \<open>CycleError\<close>; \<open>static_order_None_iff\<close> shows that this is exactly the case where
  the graph has a cycle. A Python set of dependencies is a duplicate-free list in its iteration
  order, over which the theorems quantify.
  Main results: the sorter is correct; with no dependency of a plugin on a plugin of another phase
  the start-up order is a duplicate-free topological order of all plugins; a dependency on a plugin
  of another phase puts that plugin into the order twice, as happens for the shipped manifests.
\<close>

section \<open>Manifests\<close>

datatype plugin_phase = INFRA | CORE | STORE | LAYER | COGNITIVE | FEATURE | READY_PHASE

fun phase_value :: "plugin_phase \<Rightarrow> int" where
  "phase_value INFRA = 0"
| "phase_value CORE = 10"
| "phase_value STORE = 15"
| "phase_value LAYER = 20"
| "phase_value COGNITIVE = 30"
| "phase_value FEATURE = 40"
| "phase_value READY_PHASE = 50"

lemma phase_value_inject [simp]: "phase_value a = phase_value b \<longleftrightarrow> a = b"
  by (cases a; cases b) simp_all

instantiation plugin_phase :: linorder
begin

definition less_eq_plugin_phase :: "plugin_phase \<Rightarrow> plugin_phase \<Rightarrow> bool" where
  "less_eq_plugin_phase a b \<longleftrightarrow> phase_value a \<le> phase_value b"

definition less_plugin_phase :: "plugin_phase \<Rightarrow> plugin_phase \<Rightarrow> bool" where
  "less_plugin_phase a b \<longleftrightarrow> phase_value a < phase_value b"

instance
  by intro_classes (auto simp: less_eq_plugin_phase_def less_plugin_phase_def)

end

record manifest =
  mf_name :: string
  mf_phase :: plugin_phase
  mf_dependencies :: "string list"
  mf_provides :: "string list"

section \<open>The topological sorter\<close>

type_synonym dep_graph = "(string, string list) dict"

definition preds :: "dep_graph \<Rightarrow> string \<Rightarrow> string list" where
  "preds g n = dget_or g n []"

definition add_node :: "string \<Rightarrow> string list \<Rightarrow> string list" where
  "add_node n ns = (if n \<in> set ns then ns else ns @ [n])"

definition ts_nodes :: "dep_graph \<Rightarrow> string list" where
  "ts_nodes g = fold (\<lambda>(n, ps) ns. fold add_node ps (add_node n ns)) g []"

definition succs :: "dep_graph \<Rightarrow> string \<Rightarrow> string list" where
  "succs g n = map fst (filter (\<lambda>p. n \<in> set (snd p)) g)"

definition dec_counts :: "string list \<Rightarrow> (string \<Rightarrow> int) \<Rightarrow> string \<Rightarrow> int" where
  "dec_counts ss c = (\<lambda>m. if m \<in> set ss then c m - 1 else c m)"

fun kahn :: "nat \<Rightarrow> dep_graph \<Rightarrow> (string \<Rightarrow> int) \<Rightarrow> string list \<Rightarrow> string list" where
  "kahn 0 g c q = []"
| "kahn (Suc f) g c [] = []"
| "kahn (Suc f) g c (n # q) =
    (let c' = dec_counts (succs g n) c
     in n # kahn f g c' (q @ filter (\<lambda>m. c' m = 0) (succs g n)))"

definition static_order :: "dep_graph \<Rightarrow> string list option" where
  "static_order g =
    (let ns = ts_nodes g; c = (\<lambda>n. int (length (preds g n)));
         out = kahn (length ns) g c (filter (\<lambda>n. c n = 0) ns)
     in if length out = length ns then Some out else None)"

section \<open>The start-up order\<close>

datatype order_error = UnresolvedDependency string | CycleError plugin_phase | DependencyError string "string list"

definition known_services :: "(string, manifest) dict \<Rightarrow> string list \<Rightarrow> string set" where
  "known_services ps builtin = set (dkeys ps) \<union> (\<Union>m \<in> set (dvalues ps). set (mf_provides m)) \<union> set builtin"

definition phase_names :: "(string, manifest) dict \<Rightarrow> plugin_phase \<Rightarrow> string list" where
  "phase_names ps ph = map fst (filter (\<lambda>p. mf_phase (snd p) = ph) ps)"

definition phase_graph :: "(string, manifest) dict \<Rightarrow> plugin_phase \<Rightarrow> dep_graph" where
  "phase_graph ps ph = map (\<lambda>p. (fst p, mf_dependencies (snd p))) (filter (\<lambda>p. mf_phase (snd p) = ph) ps)"

fun order_phases :: "(string, manifest) dict \<Rightarrow> plugin_phase list \<Rightarrow> order_error + string list" where
  "order_phases ps [] = Inr []"
| "order_phases ps (ph # phs) =
    (if phase_names ps ph = [] then order_phases ps phs
     else case static_order (phase_graph ps ph) of
       None \<Rightarrow> Inl (CycleError ph)
     | Some po \<Rightarrow>
        (case order_phases ps phs of
          Inl e \<Rightarrow> Inl e
        | Inr rest \<Rightarrow> Inr (filter (\<lambda>n. n \<in> set (dkeys ps)) po @ rest)))"

definition all_phases :: "plugin_phase list" where
  "all_phases = sort [INFRA, CORE, STORE, LAYER, COGNITIVE, FEATURE, READY_PHASE]"

definition resolve_order :: "(string, manifest) dict \<Rightarrow> string list \<Rightarrow> order_error + string list" where
  "resolve_order ps builtin =
    (case find (\<lambda>d. d \<notin> known_services ps builtin) (concat (map mf_dependencies (dvalues ps))) of
       Some d \<Rightarrow> Inl (UnresolvedDependency d)
     | None \<Rightarrow> order_phases ps all_phases)"

fun verify_loop :: "string set \<Rightarrow> (string, manifest) dict \<Rightarrow> order_error option" where
  "verify_loop known [] = None"
| "verify_loop known ((n, m) # ps) =
    (let missing = filter (\<lambda>d. d \<notin> known) (mf_dependencies m)
     in if missing \<noteq> [] then Some (DependencyError n missing) else verify_loop known ps)"

definition verify_dependencies :: "(string, manifest) dict \<Rightarrow> string list \<Rightarrow> order_error option" where
  "verify_dependencies ps builtin = verify_loop (known_services ps builtin) ps"

section \<open>Correctness of the sorter\<close>

definition wf_graph :: "dep_graph \<Rightarrow> bool" where
  "wf_graph g \<longleftrightarrow> distinct (dkeys g) \<and> (\<forall>p \<in> set g. distinct (snd p))"

definition edges :: "dep_graph \<Rightarrow> (string \<times> string) set" where
  "edges g = {(p, n). p \<in> set (preds g n)}"

lemma add_node_simps [simp]:
  "set (add_node n ns) = insert n (set ns)"
  "distinct ns \<Longrightarrow> distinct (add_node n ns)"
  by (auto simp: add_node_def)

lemma fold_add_node:
  "set (fold add_node ps ns) = set ps \<union> set ns \<and> (distinct ns \<longrightarrow> distinct (fold add_node ps ns))"
  by (induction ps arbitrary: ns) auto

lemma ts_nodes_fold:
  "set (fold (\<lambda>(n, ps) ns. fold add_node ps (add_node n ns)) g acc) =
     set acc \<union> set (dkeys g) \<union> (\<Union>p \<in> set g. set (snd p)) \<and>
   (distinct acc \<longrightarrow> distinct (fold (\<lambda>(n, ps) ns. fold add_node ps (add_node n ns)) g acc))"
  by (induction g arbitrary: acc) (auto simp: fold_add_node)

lemma set_ts_nodes: "set (ts_nodes g) = set (dkeys g) \<union> (\<Union>p \<in> set g. set (snd p))"
  using ts_nodes_fold [of g "[]"] by (simp add: ts_nodes_def)

lemma distinct_ts_nodes: "distinct (ts_nodes g)"
  using ts_nodes_fold [of g "[]"] by (simp add: ts_nodes_def)

lemma preds_in_nodes:
  assumes "p \<in> set (preds g n)"
  shows "p \<in> set (ts_nodes g) \<and> n \<in> set (ts_nodes g)"
proof -
  from assms obtain ps where "dget g n = Some ps" "p \<in> set ps"
    by (cases "dget g n") (auto simp: preds_def dget_or_def)
  then have "(n, ps) \<in> set g" "p \<in> set ps" by (simp_all add: dget_Some_in)
  then show ?thesis by (force simp: set_ts_nodes)
qed

lemma set_succs: "wf_graph g \<Longrightarrow> set (succs g n) = {m. n \<in> set (preds g m)}"
  by (force simp: succs_def preds_def dget_or_def wf_graph_def image_iff
      split: option.splits dest: dget_Some_in)

lemma distinct_succs: "wf_graph g \<Longrightarrow> distinct (succs g n)"
  unfolding succs_def wf_graph_def by (rule distinct_map_filter) simp

lemma distinct_preds: "wf_graph g \<Longrightarrow> distinct (preds g n)"
  by (auto simp: preds_def dget_or_def wf_graph_def dest: dget_Some_in split: option.splits)

text \<open>What the loop maintains: \<open>done\<close> has been passed out, \<open>q\<close> is ready, and the
  counters say how many predecessors of a node have not been passed out.\<close>

definition kahn_inv :: "dep_graph \<Rightarrow> string list \<Rightarrow> string list \<Rightarrow> (string \<Rightarrow> int) \<Rightarrow> bool" where
  "kahn_inv g dn q c \<longleftrightarrow>
     distinct (dn @ q) \<and> set (dn @ q) \<subseteq> set (ts_nodes g) \<and>
     (\<forall>m. c m = int (length (filter (\<lambda>p. p \<notin> set dn) (preds g m)))) \<and>
     (\<forall>m \<in> set (ts_nodes g). m \<in> set (dn @ q) \<longleftrightarrow> c m = 0)"

lemma filter_insert_count:
  "distinct ps \<Longrightarrow> n \<notin> set dn \<Longrightarrow>
    length (filter (\<lambda>p. p \<notin> insert n (set dn)) ps) + (if n \<in> set ps then 1 else 0) =
    length (filter (\<lambda>p. p \<notin> set dn) ps)"
  by (induction ps) auto

lemma kahn_inv_start:
  "kahn_inv g [] (filter (\<lambda>n. int (length (preds g n)) = 0) (ts_nodes g)) (\<lambda>n. int (length (preds g n)))"
  by (auto simp: kahn_inv_def distinct_ts_nodes)

lemma kahn_inv_step:
  assumes wf: "wf_graph g" and inv: "kahn_inv g dn (n # q) c"
    and c': "c' = dec_counts (succs g n) c"
  shows "kahn_inv g (dn @ [n]) (q @ filter (\<lambda>m. c' m = 0) (succs g n)) c'"
proof -
  have n: "n \<notin> set dn" "n \<notin> set q" "n \<in> set (ts_nodes g)" "c n = 0"
    using inv by (auto simp: kahn_inv_def)
  have cnt: "c m = int (length (filter (\<lambda>p. p \<notin> set dn) (preds g m)))" for m
    using inv by (simp add: kahn_inv_def)
  have cnt': "c' m = int (length (filter (\<lambda>p. p \<notin> set (dn @ [n])) (preds g m)))" for m
    using filter_insert_count [OF distinct_preds [OF wf] n(1), of m]
    by (auto simp: c' dec_counts_def set_succs [OF wf] cnt split: if_splits)
  have new: "m \<notin> set (dn @ n # q)" "m \<in> set (ts_nodes g)" if "m \<in> set (succs g n)" for m
  proof -
    have "n \<in> set (preds g m)" using that by (simp add: set_succs [OF wf])
    then have "c m \<noteq> 0" using n(1) by (auto simp: cnt filter_empty_conv)
    then show "m \<in> set (ts_nodes g)" "m \<notin> set (dn @ n # q)"
      using inv preds_in_nodes [OF \<open>n \<in> set (preds g m)\<close>] by (auto simp: kahn_inv_def)
  qed
  have "c' m = 0 \<longleftrightarrow> c m = 0 \<or> (m \<in> set (succs g n) \<and> c' m = 0)" for m
  proof (cases "m \<in> set (succs g n)")
    case True
    with new [OF True] inv have "c m \<noteq> 0" by (auto simp: kahn_inv_def)
    with True show ?thesis by simp
  qed (simp add: c' dec_counts_def)
  then have zero: "c' m = 0 \<longleftrightarrow> m \<in> set (dn @ n # q) \<or> (m \<in> set (succs g n) \<and> c' m = 0)"
    if "m \<in> set (ts_nodes g)" for m
    using inv that unfolding kahn_inv_def by blast
  let ?new = "filter (\<lambda>m. c' m = 0) (succs g n)"
  have "distinct (dn @ n # q)" "set (dn @ n # q) \<subseteq> set (ts_nodes g)"
    using inv by (simp_all add: kahn_inv_def)
  moreover have "set ?new \<inter> set (dn @ n # q) = {}" "set ?new \<subseteq> set (ts_nodes g)"
    using new by auto
  moreover have "distinct ?new"
    using distinct_succs [OF wf] by simp
  ultimately have "distinct ((dn @ [n]) @ (q @ ?new))" "set ((dn @ [n]) @ (q @ ?new)) \<subseteq> set (ts_nodes g)"
    by auto
  with cnt' zero show ?thesis
    unfolding kahn_inv_def by (auto simp del: distinct_append)
qed

fun topo_from :: "dep_graph \<Rightarrow> string set \<Rightarrow> string list \<Rightarrow> bool" where
  "topo_from g D [] = True"
| "topo_from g D (n # ns) = (set (preds g n) \<subseteq> D \<and> topo_from g (insert n D) ns)"

lemma kahn_correct:
  assumes "wf_graph g" and "kahn_inv g dn q c" and "length (ts_nodes g) \<le> length dn + f"
  shows "topo_from g (set dn) (kahn f g c q) \<and> (\<exists>c'. kahn_inv g (dn @ kahn f g c q) [] c')"
  using assms
proof (induction f g c q arbitrary: dn rule: kahn.induct)
  case (1 g c q)
  have "distinct (dn @ q)" "set (dn @ q) \<subseteq> set (ts_nodes g)"
    using "1.prems"(2) by (simp_all only: kahn_inv_def)
  then have "length (dn @ q) \<le> length (ts_nodes g)"
    by (metis card_mono distinct_card distinct_ts_nodes List.finite_set)
  with "1.prems"(3) have "length q = 0"
    unfolding length_append by linarith
  with "1.prems"(2) show ?case by auto
next
  case (2 f g c)
  then show ?case by auto
next
  case (3 f g c n q)
  let ?c' = "dec_counts (succs g n) c"
  let ?q' = "q @ filter (\<lambda>m. ?c' m = 0) (succs g n)"
  have "kahn_inv g (dn @ [n]) ?q' ?c'"
    using "3.prems"(1,2) by (intro kahn_inv_step) auto
  moreover have "length (ts_nodes g) \<le> length (dn @ [n]) + f"
    using "3.prems"(3) by simp
  ultimately have IH: "topo_from g (set (dn @ [n])) (kahn f g ?c' ?q') \<and>
      (\<exists>c'. kahn_inv g ((dn @ [n]) @ kahn f g ?c' ?q') [] c')"
    using "3.IH" [OF refl "3.prems"(1)] by blast
  have "set (preds g n) \<subseteq> set dn"
  proof -
    have "c n = 0" using "3.prems"(2) by (auto simp: kahn_inv_def)
    then have "length (filter (\<lambda>p. p \<notin> set dn) (preds g n)) = 0"
      using "3.prems"(2) by (simp add: kahn_inv_def)
    then show ?thesis by (auto simp: filter_empty_conv)
  qed
  with IH show ?case by (simp add: Let_def)
qed

text \<open>A graph is cyclic when some node is its own indirect predecessor.\<close>

definition cyclic_graph :: "dep_graph \<Rightarrow> bool" where
  "cyclic_graph g \<longleftrightarrow> (\<exists>n. (n, n) \<in> (edges g)\<^sup>+)"

lemma topo_from_prefix:
  "topo_from g D xs \<longleftrightarrow> (\<forall>us n vs. xs = us @ n # vs \<longrightarrow> set (preds g n) \<subseteq> D \<union> set us)"
proof (induction xs arbitrary: D)
  case (Cons x xs)
  show ?case
  proof
    assume "topo_from g D (x # xs)"
    then show "\<forall>us n vs. x # xs = us @ n # vs \<longrightarrow> set (preds g n) \<subseteq> D \<union> set us"
      using Cons.IH by (auto simp: Cons_eq_append_conv) blast+
  next
    assume *: "\<forall>us n vs. x # xs = us @ n # vs \<longrightarrow> set (preds g n) \<subseteq> D \<union> set us"
    then have "set (preds g x) \<subseteq> D"
      by (metis append_Nil list.set(1) sup_bot.right_neutral)
    moreover have "set (preds g n) \<subseteq> insert x D \<union> set us" if "xs = us @ n # vs" for us n vs
      using * [rule_format, of "x # us" n vs] that by auto
    then have "topo_from g (insert x D) xs"
      by (subst Cons.IH) blast
    ultimately show "topo_from g D (x # xs)"
      by simp
  qed
qed simp

lemma topo_fromD: "topo_from g D xs \<Longrightarrow> xs = us @ n # vs \<Longrightarrow> set (preds g n) \<subseteq> D \<union> set us"
  unfolding topo_from_prefix by blast

lemma topo_from_trancl:
  assumes topo: "topo_from g {} xs"
  shows "(p, n) \<in> (edges g)\<^sup>+ \<Longrightarrow> xs = us @ n # vs \<Longrightarrow> p \<in> set us"
proof (induction p n arbitrary: us vs rule: trancl.induct)
  case (r_into_trancl a b)
  then show ?case using topo_fromD [OF topo r_into_trancl(2)] by (auto simp: edges_def)
next
  case (trancl_into_trancl a b c)
  then have "b \<in> set us"
    using topo_fromD [OF topo trancl_into_trancl(4)] by (auto simp: edges_def)
  then obtain us1 us2 where us: "us = us1 @ b # us2" by (meson split_list)
  with trancl_into_trancl have "a \<in> set us1" by auto
  with us show ?case by simp
qed

lemma topo_acyclic:
  assumes "topo_from g {} xs" and "set (ts_nodes g) \<subseteq> set xs"
  shows "\<not> cyclic_graph g"
proof
  assume "cyclic_graph g"
  then obtain n where n: "(n, n) \<in> (edges g)\<^sup>+" by (auto simp: cyclic_graph_def)
  then have "n \<in> set (ts_nodes g)"
    by (cases rule: trancl.cases) (auto simp: edges_def dest: preds_in_nodes)
  with assms(2) obtain us vs where "xs = us @ n # vs" "n \<notin> set us"
    by (meson split_list_first subset_iff)
  with topo_from_trancl [OF assms(1) n] show False by blast
qed

lemma stuck_cyclic:
  assumes inv: "kahn_inv g dn [] c" and "set dn \<noteq> set (ts_nodes g)"
  shows "cyclic_graph g"
proof (rule ccontr)
  assume acyc: "\<not> cyclic_graph g"
  let ?U = "set (ts_nodes g) - set dn"
  have "\<exists>p \<in> ?U. (p, m) \<in> edges g" if "m \<in> ?U" for m
  proof -
    have "c m \<noteq> 0" using inv that by (auto simp: kahn_inv_def)
    then obtain p where "p \<in> set (preds g m)" "p \<notin> set dn"
      using inv by (auto simp: kahn_inv_def filter_empty_conv)
    then show ?thesis by (auto simp: edges_def dest: preds_in_nodes)
  qed
  moreover have "finite (edges g)"
    by (rule finite_subset [of _ "set (ts_nodes g) \<times> set (ts_nodes g)"])
      (auto simp: edges_def dest: preds_in_nodes)
  moreover have "acyclic (edges g)"
    using acyc by (simp add: acyclic_def cyclic_graph_def)
  ultimately have "wf (edges g)" "\<forall>m \<in> ?U. \<exists>p \<in> ?U. (p, m) \<in> edges g"
    by (auto intro: finite_acyclic_wf)
  then have "?U = {}"
    unfolding wf_eq_minimal by (metis ex_in_conv)
  with inv assms(2) show False by (auto simp: kahn_inv_def)
qed

lemma static_order_run:
  assumes "wf_graph g"
  shows "\<exists>out c. static_order g = (if set out = set (ts_nodes g) then Some out else None) \<and>
    kahn_inv g out [] c \<and> topo_from g {} out"
proof -
  let ?c = "\<lambda>n. int (length (preds g n))"
  let ?out = "kahn (length (ts_nodes g)) g ?c (filter (\<lambda>n. ?c n = 0) (ts_nodes g))"
  have "topo_from g (set []) ?out \<and> (\<exists>c'. kahn_inv g ([] @ ?out) [] c')"
    by (rule kahn_correct [OF assms kahn_inv_start]) simp
  then obtain c' where t: "topo_from g {} ?out" and inv: "kahn_inv g ?out [] c'" by auto
  then have "distinct ?out" "set ?out \<subseteq> set (ts_nodes g)"
    by (simp_all add: kahn_inv_def)
  then have "length ?out = length (ts_nodes g) \<longleftrightarrow> set ?out = set (ts_nodes g)"
    by (metis card_subset_eq distinct_card distinct_ts_nodes List.finite_set)
  then have "static_order g = (if set ?out = set (ts_nodes g) then Some ?out else None)"
    by (simp add: static_order_def Let_def)
  with t inv show ?thesis by blast
qed

lemma static_order_Some:
  assumes "wf_graph g" and "static_order g = Some out"
  shows "distinct out" and "set out = set (ts_nodes g)" and "topo_from g {} out"
  using static_order_run [OF assms(1)] assms(2) by (auto simp: kahn_inv_def split: if_splits)

lemma static_order_None_iff:
  assumes "wf_graph g"
  shows "static_order g = None \<longleftrightarrow> cyclic_graph g"
proof -
  obtain out c where o: "static_order g = (if set out = set (ts_nodes g) then Some out else None)"
    and inv: "kahn_inv g out [] c" and t: "topo_from g {} out"
    using static_order_run [OF assms] by blast
  show ?thesis
    using o stuck_cyclic [OF inv] topo_acyclic [OF t] by auto
qed

section \<open>The phases of the order\<close>

definition wf_plugins :: "(string, manifest) dict \<Rightarrow> bool" where
  "wf_plugins ps \<longleftrightarrow> distinct (dkeys ps) \<and> (\<forall>m \<in> set (dvalues ps). distinct (mf_dependencies m))"

text \<open>The dependencies of a plugin that name a plugin (and not a service).\<close>

definition plugin_graph :: "(string, manifest) dict \<Rightarrow> dep_graph" where
  "plugin_graph ps = map (\<lambda>p. (fst p, filter (\<lambda>d. d \<in> set (dkeys ps)) (mf_dependencies (snd p)))) ps"

definition phase_of :: "(string, manifest) dict \<Rightarrow> string \<Rightarrow> plugin_phase option" where
  "phase_of ps n = map_option mf_phase (dget ps n)"

definition backward_deps :: "(string, manifest) dict \<Rightarrow> bool" where
  "backward_deps ps \<longleftrightarrow>
     (\<forall>p \<in> set ps. \<forall>d \<in> set (mf_dependencies (snd p)).
        (case phase_of ps d of None \<Rightarrow> True | Some ph \<Rightarrow> ph \<le> mf_phase (snd p)))"

definition same_phase_deps :: "(string, manifest) dict \<Rightarrow> bool" where
  "same_phase_deps ps \<longleftrightarrow>
     (\<forall>p \<in> set ps. \<forall>d \<in> set (mf_dependencies (snd p)).
        (case phase_of ps d of None \<Rightarrow> True | Some ph \<Rightarrow> ph = mf_phase (snd p)))"

lemma all_phases_eq: "all_phases = [INFRA, CORE, STORE, LAYER, COGNITIVE, FEATURE, READY_PHASE]"
  by (simp add: all_phases_def less_eq_plugin_phase_def)

lemma all_phases_props: "distinct all_phases" "sorted all_phases" "ph \<in> set all_phases"
proof -
  show "distinct all_phases" by (simp add: all_phases_eq)
  show "sorted all_phases" unfolding all_phases_def by (rule sorted_sort)
  show "ph \<in> set all_phases" by (cases ph) (simp_all add: all_phases_eq)
qed

lemma dget_map_snd: "dget (map (\<lambda>p. (fst p, f (snd p))) ps) n = map_option f (dget ps n)"
  by (induction ps) auto

lemma preds_phase_graph:
  assumes "wf_plugins ps"
  shows "preds (phase_graph ps ph) n =
    (case dget ps n of None \<Rightarrow> [] | Some m \<Rightarrow> if mf_phase m = ph then mf_dependencies m else [])"
proof -
  have "dget (phase_graph ps ph) n = map_option mf_dependencies (dget (filter (\<lambda>p. mf_phase (snd p) = ph) ps) n)"
    unfolding phase_graph_def by (rule dget_map_snd)
  moreover have "distinct (dkeys ps)" using assms by (simp add: wf_plugins_def)
  ultimately show ?thesis
    using dget_filter_snd [of ps "\<lambda>m. mf_phase m = ph" n]
    unfolding preds_def dget_or_def by (cases "dget ps n") simp_all
qed

lemma preds_plugin_graph:
  "preds (plugin_graph ps) n =
    (case dget ps n of None \<Rightarrow> [] | Some m \<Rightarrow> filter (\<lambda>d. d \<in> set (dkeys ps)) (mf_dependencies m))"
proof -
  have "dget (plugin_graph ps) n =
    map_option (\<lambda>m. filter (\<lambda>d. d \<in> set (dkeys ps)) (mf_dependencies m)) (dget ps n)"
    unfolding plugin_graph_def by (rule dget_map_snd)
  then show ?thesis
    unfolding preds_def dget_or_def by (cases "dget ps n") simp_all
qed

lemma wf_phase_graph: "wf_plugins ps \<Longrightarrow> wf_graph (phase_graph ps ph)"
  by (auto simp: wf_plugins_def wf_graph_def phase_graph_def comp_def distinct_map_filter)

lemma dkeys_phase_graph: "dkeys (phase_graph ps ph) = phase_names ps ph"
  by (simp add: phase_graph_def phase_names_def comp_def)

lemma set_phase_names:
  "wf_plugins ps \<Longrightarrow> n \<in> set (phase_names ps ph) \<longleftrightarrow> phase_of ps n = Some ph"
  by (auto simp: phase_names_def phase_of_def wf_plugins_def image_iff)

lemma phase_of_keys: "n \<in> set (dkeys ps) \<longleftrightarrow> phase_of ps n \<noteq> None"
  unfolding phase_of_def option.map_disc_iff dget_None_iff by blast

lemma set_phase_nodes:
  assumes "wf_plugins ps"
  shows "set (ts_nodes (phase_graph ps ph)) =
    set (phase_names ps ph) \<union> {d. \<exists>n m. dget ps n = Some m \<and> mf_phase m = ph \<and> d \<in> set (mf_dependencies m)}"
proof -
  have "(\<Union>p \<in> set (phase_graph ps ph). set (snd p)) =
    {d. \<exists>n m. (n, m) \<in> set ps \<and> mf_phase m = ph \<and> d \<in> set (mf_dependencies m)}"
    unfolding phase_graph_def set_map set_filter by force
  moreover have "(n, m) \<in> set ps \<longleftrightarrow> dget ps n = Some m" for n m
    using assms unfolding wf_plugins_def by simp
  ultimately show ?thesis
    unfolding set_ts_nodes dkeys_phase_graph by simp
qed

text \<open>The order is the concatenation of one chunk per phase.\<close>

definition is_chunk :: "(string, manifest) dict \<Rightarrow> plugin_phase \<Rightarrow> string list \<Rightarrow> bool" where
  "is_chunk ps ph c \<longleftrightarrow>
     (if phase_names ps ph = [] then c = []
      else \<exists>po. static_order (phase_graph ps ph) = Some po \<and> c = filter (\<lambda>n. n \<in> set (dkeys ps)) po)"

lemma order_phases_chunks:
  "distinct phs \<Longrightarrow> order_phases ps phs = Inr order \<Longrightarrow>
    \<exists>C. order = concat (map C phs) \<and> (\<forall>ph \<in> set phs. is_chunk ps ph (C ph))"
proof (induction phs arbitrary: order)
  case (Cons ph phs)
  obtain c rest where c: "is_chunk ps ph c" and rest: "order_phases ps phs = Inr rest" and o: "order = c @ rest"
    using Cons.prems(2)
    by (auto simp: is_chunk_def split: if_splits option.splits sum.splits)
  from Cons.IH [OF _ rest] Cons.prems(1) obtain C where
    C: "rest = concat (map C phs)" "\<forall>ph \<in> set phs. is_chunk ps ph (C ph)" by auto
  have "map (C(ph := c)) phs = map C phs"
    using Cons.prems(1) by (intro map_cong) auto
  then have "order = concat (map (C(ph := c)) (ph # phs))"
    using o C(1) by (simp only: list.map concat.simps fun_upd_same)
  moreover have "\<forall>ph' \<in> set (ph # phs). is_chunk ps ph' ((C(ph := c)) ph')"
    using c C(2) by simp
  ultimately show ?case by blast
qed simp

lemma chunk_members:
  assumes "wf_plugins ps" and "is_chunk ps ph c"
  shows "set c = {n. n \<in> set (dkeys ps) \<and> (phase_of ps n = Some ph \<or>
      (\<exists>k m. dget ps k = Some m \<and> mf_phase m = ph \<and> n \<in> set (mf_dependencies m)))}"
    and "distinct c"
proof -
  show "set c = {n. n \<in> set (dkeys ps) \<and> (phase_of ps n = Some ph \<or>
      (\<exists>k m. dget ps k = Some m \<and> mf_phase m = ph \<and> n \<in> set (mf_dependencies m)))}" (is "_ = ?R")
  proof (cases "phase_names ps ph = []")
    case True
    then have none: "phase_of ps n \<noteq> Some ph" for n
      using set_phase_names [OF assms(1), of n ph] by simp
    have "?R = {}"
      using none by (auto simp: phase_of_def)
    with True assms(2) show ?thesis by (simp add: is_chunk_def)
  next
    case False
    then obtain po where po: "static_order (phase_graph ps ph) = Some po"
      and c: "c = filter (\<lambda>n. n \<in> set (dkeys ps)) po"
      using assms(2) by (auto simp: is_chunk_def)
    have "set po = {n. phase_of ps n = Some ph} \<union>
        {d. \<exists>n m. dget ps n = Some m \<and> mf_phase m = ph \<and> d \<in> set (mf_dependencies m)}"
      using static_order_Some(2) [OF wf_phase_graph [OF assms(1)] po] set_phase_nodes [OF assms(1), of ph]
        set_phase_names [OF assms(1), of _ ph] by blast
    then show ?thesis
      unfolding c set_filter by blast
  qed
  show "distinct c"
    using assms static_order_Some(1) [OF wf_phase_graph [OF assms(1)]]
    by (auto simp: is_chunk_def split: if_splits)
qed

lemma topo_from_append:
  "topo_from g D (xs @ ys) \<longleftrightarrow> topo_from g D xs \<and> topo_from g (D \<union> set xs) ys"
  by (induction xs arbitrary: D) auto

lemma backward_depsD:
  "backward_deps ps \<Longrightarrow> dget ps n = Some m \<Longrightarrow> d \<in> set (mf_dependencies m) \<Longrightarrow>
    phase_of ps d = Some ph \<Longrightarrow> ph \<le> mf_phase m"
  unfolding backward_deps_def by (drule bspec, erule dget_Some_in) force

lemma same_phase_depsD:
  "same_phase_deps ps \<Longrightarrow> dget ps n = Some m \<Longrightarrow> d \<in> set (mf_dependencies m) \<Longrightarrow>
    phase_of ps d = Some ph \<Longrightarrow> ph = mf_phase m"
  unfolding same_phase_deps_def by (drule bspec, erule dget_Some_in) force

lemma filter_phase_topo:
  assumes wf: "wf_plugins ps" and bw: "backward_deps ps"
    and D: "\<And>n ph'. phase_of ps n = Some ph' \<Longrightarrow> ph' < ph \<Longrightarrow> n \<in> D"
  shows "topo_from (phase_graph ps ph) E ns \<Longrightarrow>
    (\<And>n m. n \<in> set ns \<Longrightarrow> dget ps n = Some m \<Longrightarrow> mf_phase m \<le> ph) \<Longrightarrow>
    topo_from (plugin_graph ps) (D \<union> (E \<inter> set (dkeys ps))) (filter (\<lambda>n. n \<in> set (dkeys ps)) ns)"
proof (induction ns arbitrary: E)
  case (Cons n ns)
  have IH: "topo_from (plugin_graph ps) (D \<union> (insert n E \<inter> set (dkeys ps))) (filter (\<lambda>n. n \<in> set (dkeys ps)) ns)"
  proof (rule Cons.IH)
    show "topo_from (phase_graph ps ph) (insert n E) ns" using Cons.prems(1) by simp
    show "mf_phase m \<le> ph" if "k \<in> set ns" "dget ps k = Some m" for k m
      by (rule Cons.prems(2) [of k]) (simp_all add: that)
  qed
  show ?case
  proof (cases "dget ps n")
    case None
    then have "n \<notin> set (dkeys ps)" unfolding dget_None_iff .
    then have eqs: "insert n E \<inter> set (dkeys ps) = E \<inter> set (dkeys ps)"
      "filter (\<lambda>n. n \<in> set (dkeys ps)) (n # ns) = filter (\<lambda>n. n \<in> set (dkeys ps)) ns"
      by (blast, simp del: set_map)
    from IH show ?thesis unfolding eqs .
  next
    case (Some m)
    then have key: "n \<in> set (dkeys ps)" by (metis dget_None_iff option.distinct(1))
    have le: "mf_phase m \<le> ph" by (rule Cons.prems(2) [of n]) (simp_all add: Some)
    have "d \<in> D \<union> (E \<inter> set (dkeys ps))" if d: "d \<in> set (mf_dependencies m)" "d \<in> set (dkeys ps)" for d
    proof (cases "mf_phase m = ph")
      case True
      then have "preds (phase_graph ps ph) n = mf_dependencies m"
        unfolding preds_phase_graph [OF wf] Some by simp
      with Cons.prems(1) d show ?thesis by auto
    next
      case False
      obtain ph' where ph': "phase_of ps d = Some ph'"
        using d(2) phase_of_keys [of d ps] by auto
      with le False backward_depsD [OF bw Some d(1) ph'] have "ph' < ph" by simp
      with D [OF ph'] show ?thesis by simp
    qed
    then have "set (preds (plugin_graph ps) n) \<subseteq> D \<union> (E \<inter> set (dkeys ps))"
      unfolding preds_plugin_graph Some option.case set_filter by blast
    moreover have "insert n (D \<union> (E \<inter> set (dkeys ps))) = D \<union> (insert n E \<inter> set (dkeys ps))"
      using key by blast
    moreover have "filter (\<lambda>n. n \<in> set (dkeys ps)) (n # ns) = n # filter (\<lambda>n. n \<in> set (dkeys ps)) ns"
      using key by (simp del: set_map)
    ultimately show ?thesis using IH by (simp only: topo_from.simps)
  qed
qed simp

lemma chunk_topo:
  assumes wf: "wf_plugins ps" and bw: "backward_deps ps" and c: "is_chunk ps ph c"
    and D: "\<And>n ph'. phase_of ps n = Some ph' \<Longrightarrow> ph' < ph \<Longrightarrow> n \<in> D"
  shows "topo_from (plugin_graph ps) D c"
proof (cases "phase_names ps ph = []")
  case False
  then obtain po where po: "static_order (phase_graph ps ph) = Some po"
    and c': "c = filter (\<lambda>n. n \<in> set (dkeys ps)) po"
    using c by (auto simp: is_chunk_def)
  have "mf_phase m \<le> ph" if n: "n \<in> set po" "dget ps n = Some m" for n m
  proof -
    have "n \<in> set (phase_names ps ph) \<or> (\<exists>k m'. dget ps k = Some m' \<and> mf_phase m' = ph \<and> n \<in> set (mf_dependencies m'))"
      using n(1) static_order_Some(2) [OF wf_phase_graph [OF wf] po] set_phase_nodes [OF wf, of ph] by blast
    moreover have "phase_of ps n = Some (mf_phase m)" using n(2) by (simp add: phase_of_def)
    ultimately show ?thesis
      using set_phase_names [OF wf, of n ph] backward_depsD [OF bw] by (metis option.inject order_refl)
  qed
  from filter_phase_topo [OF wf bw D static_order_Some(3) [OF wf_phase_graph [OF wf] po] this]
  show ?thesis by (simp add: c' del: set_map)
qed (use c in \<open>simp add: is_chunk_def\<close>)

lemma chunks_topo:
  assumes wf: "wf_plugins ps" and bw: "backward_deps ps"
  shows "sorted phs \<Longrightarrow> distinct phs \<Longrightarrow> \<forall>ph \<in> set phs. is_chunk ps ph (C ph) \<Longrightarrow>
    (\<And>n ph. phase_of ps n = Some ph \<Longrightarrow> ph \<in> set phs \<or> n \<in> D) \<Longrightarrow>
    topo_from (plugin_graph ps) D (concat (map C phs))"
proof (induction phs arbitrary: D)
  case (Cons ph phs)
  have lt: "ph < ph'" if "ph' \<in> set phs" for ph'
    using Cons.prems(1,2) that by (metis distinct.simps(2) le_neq_trans sorted_simps(2))
  have "topo_from (plugin_graph ps) D (C ph)"
  proof (rule chunk_topo [OF wf bw])
    show "is_chunk ps ph (C ph)" using Cons.prems(3) by simp
    fix n ph' assume "phase_of ps n = Some ph'" "ph' < ph"
    with Cons.prems(4) lt show "n \<in> D" by fastforce
  qed
  moreover have "topo_from (plugin_graph ps) (D \<union> set (C ph)) (concat (map C phs))"
  proof (rule Cons.IH)
    fix n ph' assume n: "phase_of ps n = Some ph'"
    have "n \<in> set (C ph)" if "ph' = ph"
      using n that chunk_members(1) [OF wf, of ph "C ph"] Cons.prems(3) phase_of_keys by auto
    with Cons.prems(4) [OF n] show "ph' \<in> set phs \<or> n \<in> D \<union> set (C ph)" by auto
  qed (use Cons.prems in auto)
  ultimately show ?case by (simp add: topo_from_append)
qed simp

section \<open>Properties of the start-up order\<close>

lemma resolve_order_phases: "resolve_order ps builtin = Inr order \<Longrightarrow> order_phases ps all_phases = Inr order"
  by (simp add: resolve_order_def split: option.splits)

lemma resolve_chunks:
  assumes "resolve_order ps builtin = Inr order"
  shows "\<exists>C. order = concat (map C all_phases) \<and> (\<forall>ph. is_chunk ps ph (C ph))"
  using order_phases_chunks [OF all_phases_props(1) resolve_order_phases [OF assms]] all_phases_props(3) by blast

lemma resolve_set:
  assumes wf: "wf_plugins ps" and "resolve_order ps builtin = Inr order"
  shows "set order = set (dkeys ps)"
proof -
  obtain C where o: "order = concat (map C all_phases)" and C: "\<And>ph. is_chunk ps ph (C ph)"
    using resolve_chunks [OF assms(2)] by blast
  have "n \<in> set (dkeys ps)" if "n \<in> set order" for n
  proof -
    from that obtain ph where "n \<in> set (C ph)" by (auto simp: o)
    then show ?thesis unfolding chunk_members(1) [OF wf C] by blast
  qed
  moreover have "n \<in> set order" if n: "n \<in> set (dkeys ps)" for n
  proof -
    obtain ph where "phase_of ps n = Some ph" using n phase_of_keys by fastforce
    then have "n \<in> set (C ph)" unfolding chunk_members(1) [OF wf C] using n by blast
    then show ?thesis using all_phases_props(3) by (auto simp: o)
  qed
  ultimately show ?thesis by blast
qed

lemma resolve_topo:
  assumes wf: "wf_plugins ps" and bw: "backward_deps ps" and r: "resolve_order ps builtin = Inr order"
  shows "topo_from (plugin_graph ps) {} order"
proof -
  obtain C where o: "order = concat (map C all_phases)" and C: "\<And>ph. is_chunk ps ph (C ph)"
    using resolve_chunks [OF r] by blast
  show ?thesis
    unfolding o
    by (rule chunks_topo [OF wf bw all_phases_props(2,1)]) (simp_all add: C all_phases_props(3))
qed

lemma concat_distinct_chunks:
  "distinct phs \<Longrightarrow> (\<And>ph. ph \<in> set phs \<Longrightarrow> distinct (C ph)) \<Longrightarrow>
    (\<And>a b n. n \<in> set (C a) \<Longrightarrow> n \<in> set (C b) \<Longrightarrow> a = b) \<Longrightarrow> distinct (concat (map C phs))"
  by (induction phs) auto

lemma resolve_distinct:
  assumes wf: "wf_plugins ps" and same: "same_phase_deps ps" and r: "resolve_order ps builtin = Inr order"
  shows "distinct order"
proof -
  obtain C where o: "order = concat (map C all_phases)" and C: "\<And>ph. is_chunk ps ph (C ph)"
    using resolve_chunks [OF r] by blast
  have own: "phase_of ps n = Some ph" if "n \<in> set (C ph)" for n ph
  proof -
    have n: "n \<in> set (dkeys ps)" and or: "phase_of ps n = Some ph \<or>
        (\<exists>k m. dget ps k = Some m \<and> mf_phase m = ph \<and> n \<in> set (mf_dependencies m))"
      using that unfolding chunk_members(1) [OF wf C] by blast+
    obtain ph' where ph': "phase_of ps n = Some ph'" using n phase_of_keys by fastforce
    from or show ?thesis
    proof
      assume "\<exists>k m. dget ps k = Some m \<and> mf_phase m = ph \<and> n \<in> set (mf_dependencies m)"
      then show ?thesis using same_phase_depsD [OF same _ _ ph'] ph' by blast
    qed
  qed
  have "a = b" if "n \<in> set (C a)" "n \<in> set (C b)" for a b n
    using own [OF that(1)] own [OF that(2)] by simp
  then show ?thesis
    unfolding o by (rule concat_distinct_chunks [OF all_phases_props(1) chunk_members(2) [OF wf C]])
qed

lemma count_list_distinct: "distinct xs \<Longrightarrow> x \<in> set xs \<Longrightarrow> count_list xs x = 1"
  by (induction xs) (auto simp: count_list_0_iff)

lemma count_concat: "count_list (concat xss) x = (\<Sum>xs\<leftarrow>xss. count_list xs x)"
  by (induction xss) auto

lemma resolve_count:
  assumes wf: "wf_plugins ps" and r: "resolve_order ps builtin = Inr order"
    and n: "dget ps n = Some m" and d: "d \<in> set (mf_dependencies m)"
    and dm: "dget ps d = Some m'" and ne: "mf_phase m' \<noteq> mf_phase m"
  shows "2 \<le> count_list order d"
proof -
  obtain C where o: "order = concat (map C all_phases)" and C: "\<And>ph. is_chunk ps ph (C ph)"
    using resolve_chunks [OF r] by blast
  have key: "d \<in> set (dkeys ps)" using dm by (metis dget_None_iff option.distinct(1))
  have one: "count_list (C ph) d = 1" if "ph = mf_phase m \<or> ph = mf_phase m'" for ph
  proof -
    have "d \<in> set (C ph)"
      unfolding chunk_members(1) [OF wf C] using that key n d dm by (auto simp: phase_of_def simp del: set_map)
    then show ?thesis by (rule count_list_distinct [OF chunk_members(2) [OF wf C]])
  qed
  have "count_list order d = (\<Sum>ph\<leftarrow>all_phases. count_list (C ph) d)"
    by (simp add: o count_concat comp_def)
  also have "\<dots> = (\<Sum>ph \<in> set all_phases. count_list (C ph) d)"
    by (simp add: sum_list_distinct_conv_sum_set all_phases_props(1))
  also have "\<dots> \<ge> (\<Sum>ph \<in> {mf_phase m, mf_phase m'}. count_list (C ph) d)"
    using all_phases_props(3) by (intro sum_mono2) auto
  finally show ?thesis using ne one by simp
qed

lemma order_phases_Inr_iff:
  "(\<exists>order. order_phases ps phs = Inr order) \<longleftrightarrow>
    (\<forall>ph \<in> set phs. phase_names ps ph = [] \<or> static_order (phase_graph ps ph) \<noteq> None)"
  by (induction phs) (auto split: option.splits sum.splits)

lemma phase_graph_acyclic_iff:
  assumes "wf_plugins ps"
  shows "phase_names ps ph = [] \<or> static_order (phase_graph ps ph) \<noteq> None \<longleftrightarrow> \<not> cyclic_graph (phase_graph ps ph)"
proof (cases "phase_names ps ph = []")
  case True
  then have "phase_graph ps ph = []" by (simp add: phase_names_def phase_graph_def)
  then have "edges (phase_graph ps ph) = {}" by (simp add: edges_def preds_def dget_or_def)
  with True show ?thesis by (simp add: cyclic_graph_def)
qed (use static_order_None_iff [OF wf_phase_graph [OF assms]] in simp)

lemma verify_loop_None: "verify_loop known ps = None \<longleftrightarrow> (\<forall>p \<in> set ps. set (mf_dependencies (snd p)) \<subseteq> known)"
  by (induction ps rule: list.induct) (auto simp: Let_def filter_empty_conv split: if_splits)

section \<open>The shipped manifests\<close>

definition account_manifest :: manifest where
  "account_manifest = \<lparr>mf_name = ''account'', mf_phase = STORE, mf_dependencies = [''EventBus''],
     mf_provides = [''AccountManager'', ''AccountStore'', ''AccountDispatcher'']\<rparr>"

definition agency_manifest :: manifest where
  "agency_manifest = \<lparr>mf_name = ''agency'', mf_phase = COGNITIVE,
     mf_dependencies = [''EventBus'', ''LLMBridge'', ''MemoryManager'', ''ToolRegistry''],
     mf_provides = [''AgencyManager'', ''InhibitionManager'', ''PlanningManager'', ''FlowExecutor'']\<rparr>"

definition heartbeat_manifest :: manifest where
  "heartbeat_manifest = \<lparr>mf_name = ''heartbeat'', mf_phase = CORE, mf_dependencies = [''EventBus''],
     mf_provides = [''TimerService'']\<rparr>"

definition io_manifest :: manifest where
  "io_manifest = \<lparr>mf_name = ''io'', mf_phase = CORE, mf_dependencies = [''EventBus''],
     mf_provides = [''IOManager'', ''SessionManager'', ''GrpcListener'']\<rparr>"

definition limbic_manifest :: manifest where
  "limbic_manifest = \<lparr>mf_name = ''limbic'', mf_phase = LAYER,
     mf_dependencies = [''EventBus'', ''AccountManager'', ''RoomManager''],
     mf_provides = [''LimbicOrchestrator'']\<rparr>"

definition llm_manifest :: manifest where
  "llm_manifest = \<lparr>mf_name = ''llm'', mf_phase = CORE, mf_dependencies = [],
     mf_provides = [''LLMBridge'', ''TokenizerManager'', ''DebugCapture'', ''CapabilityChecker'']\<rparr>"

definition memory_manifest :: manifest where
  "memory_manifest = \<lparr>mf_name = ''memory'', mf_phase = LAYER,
     mf_dependencies = [''EventBus'', ''account'', ''room''],
     mf_provides = [''MemoryManager'', ''SensoryMemoryManager'', ''ShortTermMemoryManager'',
       ''LongTermMemoryManager'']\<rparr>"

definition room_manifest :: manifest where
  "room_manifest = \<lparr>mf_name = ''room'', mf_phase = STORE, mf_dependencies = [''EventBus'', ''account''],
     mf_provides = [''RoomManager'', ''RoomStore'', ''RoomJoinBatcher'']\<rparr>"

definition tools_manifest :: manifest where
  "tools_manifest = \<lparr>mf_name = ''tools'', mf_phase = CORE, mf_dependencies = [],
     mf_provides = [''ToolRegistry'', ''ToolEngine'']\<rparr>"

definition shipped_plugins :: "(string, manifest) dict" where
  "shipped_plugins = map (\<lambda>m. (mf_name m, m))
     [account_manifest, agency_manifest, heartbeat_manifest, io_manifest, limbic_manifest,
      llm_manifest, memory_manifest, room_manifest, tools_manifest]"

lemmas manifest_defs = account_manifest_def agency_manifest_def heartbeat_manifest_def io_manifest_def
  limbic_manifest_def llm_manifest_def memory_manifest_def room_manifest_def tools_manifest_def

lemma wf_shipped: "wf_plugins shipped_plugins"
  by (simp add: wf_plugins_def shipped_plugins_def manifest_defs)

lemma dkeys_shipped: "dkeys shipped_plugins =
  [''account'', ''agency'', ''heartbeat'', ''io'', ''limbic'', ''llm'', ''memory'', ''room'', ''tools'']"
  by (simp add: shipped_plugins_def manifest_defs)

lemma resolve_shipped: "resolve_order shipped_plugins [''EventBus''] =
  Inr [''llm'', ''tools'', ''heartbeat'', ''io'', ''account'', ''room'', ''account'', ''room'',
       ''limbic'', ''memory'', ''agency'']"
  by code_simp

section \<open>Claims\<close>

text \<open>
  C3: the sorter behind the start-up order is correct and complete. When no dependency points
  to a later phase, every order \<open>resolve_order\<close> returns lists exactly the loaded plugins,
  and each plugin stands behind all the plugins it depends on, wherever it is listed.
\<close>

theorem resolve_order_topological:
  assumes "wf_plugins ps" and "backward_deps ps" and "resolve_order ps builtin = Inr order"
  shows "set order = set (dkeys ps) \<and>
    (\<forall>us n vs m d. order = us @ n # vs \<longrightarrow> dget ps n = Some m \<longrightarrow> d \<in> set (mf_dependencies m) \<longrightarrow>
       d \<in> set (dkeys ps) \<longrightarrow> d \<in> set us)"
proof (intro conjI allI impI)
  show "set order = set (dkeys ps)" by (rule resolve_set [OF assms(1,3)])
  fix us n vs m d
  assume "order = us @ n # vs" "dget ps n = Some m" "d \<in> set (mf_dependencies m)" "d \<in> set (dkeys ps)"
  moreover from this(2-4) have "d \<in> set (preds (plugin_graph ps) n)"
    unfolding preds_plugin_graph by simp
  ultimately show "d \<in> set us"
    using topo_fromD [OF resolve_topo [OF assms], of us n vs] by blast
qed

theorem resolve_order_topological_witness:
  "''account'' \<in> set [''llm'', ''tools'', ''heartbeat'', ''io'', ''account'']"
proof -
  have bw: "backward_deps shipped_plugins" by code_simp
  have "dget shipped_plugins ''room'' = Some room_manifest" by code_simp
  moreover have "''account'' \<in> set (mf_dependencies room_manifest)" "''account'' \<in> set (dkeys shipped_plugins)"
    by (simp_all add: room_manifest_def dkeys_shipped del: set_map)
  ultimately show ?thesis
    using conjunct2 [OF resolve_order_topological [OF wf_shipped bw resolve_shipped], rule_format,
        of "[''llm'', ''tools'', ''heartbeat'', ''io'', ''account'']" "''room''"
           "[''account'', ''room'', ''limbic'', ''memory'', ''agency'']"]
    by simp
qed

text \<open>
  \<open>resolve_order\<close> succeeds exactly when every dependency names a loaded plugin, a
  provided service or a built-in service and the dependency graph of every phase is acyclic; and
  \<open>verify_dependencies\<close>, which runs after it, reports exactly a dependency that names none.
\<close>

theorem resolve_order_succeeds_iff:
  assumes "wf_plugins ps"
  shows "((\<exists>order. resolve_order ps builtin = Inr order) \<longleftrightarrow>
      (\<forall>p \<in> set ps. set (mf_dependencies (snd p)) \<subseteq> known_services ps builtin) \<and>
      (\<forall>ph. \<not> cyclic_graph (phase_graph ps ph))) \<and>
    (verify_dependencies ps builtin = None \<longleftrightarrow>
      (\<forall>p \<in> set ps. set (mf_dependencies (snd p)) \<subseteq> known_services ps builtin))"
proof -
  have "find (\<lambda>d. d \<notin> known_services ps builtin) (concat (map mf_dependencies (dvalues ps))) = None \<longleftrightarrow>
      (\<forall>p \<in> set ps. set (mf_dependencies (snd p)) \<subseteq> known_services ps builtin)"
    unfolding find_None_iff' by auto
  moreover have "(\<exists>order. order_phases ps all_phases = Inr order) \<longleftrightarrow> (\<forall>ph. \<not> cyclic_graph (phase_graph ps ph))"
    using order_phases_Inr_iff [of ps all_phases] all_phases_props(3) phase_graph_acyclic_iff [OF assms] by blast
  ultimately show ?thesis
    unfolding verify_dependencies_def verify_loop_None resolve_order_def
    by (cases "find (\<lambda>d. d \<notin> known_services ps builtin) (concat (map mf_dependencies (dvalues ps)))") simp_all
qed

text \<open>
  a dependency on a plugin of another phase puts that plugin into the start-up order more
  than once, because the sorter of a phase also returns the predecessors outside the phase and
  the code keeps every returned name that is a loaded plugin.
\<close>

theorem resolve_order_repeats:
  assumes "wf_plugins ps" and "resolve_order ps builtin = Inr order"
    and "dget ps n = Some m" and "d \<in> set (mf_dependencies m)"
    and "dget ps d = Some m'" and "mf_phase m' \<noteq> mf_phase m"
  shows "2 \<le> count_list order d"
  by (rule resolve_count [OF assms])

text \<open>
  When every dependency on a plugin stays within its phase, no plugin is listed twice.
\<close>

theorem resolve_order_distinct:
  assumes "wf_plugins ps" and "same_phase_deps ps" and "resolve_order ps builtin = Inr order"
  shows "distinct order"
  by (rule resolve_distinct [OF assms])

theorem resolve_order_distinct_witness:
  "distinct [''account'', ''room'']"
  by (rule resolve_order_distinct [of "[(''account'', account_manifest), (''room'', room_manifest)]" "[''EventBus'']"])
    (simp add: wf_plugins_def manifest_defs, code_simp, code_simp)

end
