(* ===== verification/Plugin_Services.thy ===== *)
theory Plugin_Services
  imports Iris_Interfaces
begin

text \<open>
  What the plugin manager hands to plugins: the service container
  (\<open>iris/kernel/plugin/service_container.py\<close>), the hook registry
  (\<open>iris/kernel/plugin/hooks.py\<close>) and the kernel state
  (\<open>iris/kernel/plugin/kernel_state.py\<close>).

  A class used as a key is its name, a \<open>RuntimeError\<close> or \<open>KeyError\<close> is the left
  side of a sum. Hook handlers are a parameter: a handler returns new data (\<open>Some\<close>) or raises
  (\<open>None\<close>), in either case in a new state. The asynchronous and the synchronous execution of
  a hook run the same loop.
\<close>

section \<open>The service container\<close>

datatype registry_error = Frozen string | NotFound string string

record 'v container =
  sc_services :: "(string \<times> string, 'v) dict"
  sc_frozen :: bool

definition new_container :: "'v container" where
  "new_container = \<lparr>sc_services = [], sc_frozen = False\<rparr>"

definition sc_provide :: "string \<Rightarrow> string \<Rightarrow> 'v \<Rightarrow> 'v container \<Rightarrow> registry_error + 'v container" where
  "sc_provide ty nm v c =
    (if sc_frozen c then Inl (Frozen ty)
     else Inr (c\<lparr>sc_services := dput (ty, nm) v (sc_services c)\<rparr>))"

definition sc_resolve :: "string \<Rightarrow> string \<Rightarrow> 'v container \<Rightarrow> registry_error + 'v" where
  "sc_resolve ty nm c =
    (case dget (sc_services c) (ty, nm) of None \<Rightarrow> Inl (NotFound ty nm) | Some v \<Rightarrow> Inr v)"

definition sc_resolve_optional :: "string \<Rightarrow> string \<Rightarrow> 'v container \<Rightarrow> 'v option" where
  "sc_resolve_optional ty nm c = dget (sc_services c) (ty, nm)"

definition sc_has :: "string \<Rightarrow> string \<Rightarrow> 'v container \<Rightarrow> bool" where
  "sc_has ty nm c \<longleftrightarrow> (ty, nm) \<in> set (dkeys (sc_services c))"

definition sc_list :: "'v container \<Rightarrow> (string \<times> string) list" where
  "sc_list c = dkeys (sc_services c)"

definition sc_freeze :: "'v container \<Rightarrow> 'v container" where
  "sc_freeze c = c\<lparr>sc_frozen := True\<rparr>"

lemma sc_resolve_provide [store_simps]:
  "sc_provide ty nm v c = Inr c' \<Longrightarrow>
    sc_resolve ty' nm' c' = (if (ty', nm') = (ty, nm) then Inr v else sc_resolve ty' nm' c)"
  by (auto simp: sc_provide_def sc_resolve_def split: if_splits)

lemma sc_has_resolve: "sc_has ty nm c \<longleftrightarrow> (\<exists>v. sc_resolve ty nm c = Inr v)"
  unfolding sc_has_def sc_resolve_def
  by (cases "dget (sc_services c) (ty, nm)") (simp_all add: dget_None_iff [symmetric] del: set_map, metis dget_None_iff option.distinct(1))

lemma sc_provide_frozen: "sc_frozen c \<Longrightarrow> sc_provide ty nm v c = Inl (Frozen ty)"
  by (simp add: sc_provide_def)

section \<open>The hook registry\<close>

record 'h hook_registry =
  hr_handlers :: "(string, (int \<times> 'h) list) dict"
  hr_frozen :: bool

definition new_hook_registry :: "'h hook_registry" where
  "new_hook_registry = \<lparr>hr_handlers = [], hr_frozen = False\<rparr>"

definition insert_handler :: "int \<times> 'h \<Rightarrow> (int \<times> 'h) list \<Rightarrow> (int \<times> 'h) list" where
  "insert_handler e es = sort_key fst (es @ [e])"

definition hr_register :: "string \<Rightarrow> 'h \<Rightarrow> int \<Rightarrow> 'h hook_registry \<Rightarrow> registry_error + 'h hook_registry" where
  "hr_register hook h prio r =
    (if hr_frozen r then Inl (Frozen hook)
     else Inr (r\<lparr>hr_handlers := dput hook (insert_handler (prio, h) (dget_or (hr_handlers r) hook [])) (hr_handlers r)\<rparr>))"

text \<open>The attributes of an instance in \<open>dir\<close> order, with the metadata the decorator
  \<open>hook\<close> left on some of them.\<close>

fun hr_register_decorated ::
  "((string \<times> int) option \<times> 'h) list \<Rightarrow> 'h hook_registry \<Rightarrow> 'h hook_registry \<times> registry_error option" where
  "hr_register_decorated [] r = (r, None)"
| "hr_register_decorated ((None, h) # as) r = hr_register_decorated as r"
| "hr_register_decorated ((Some (hook, prio), h) # as) r =
    (case hr_register hook h prio r of Inl e \<Rightarrow> (r, Some e) | Inr r' \<Rightarrow> hr_register_decorated as r')"

definition hr_freeze :: "'h hook_registry \<Rightarrow> 'h hook_registry" where
  "hr_freeze r = r\<lparr>hr_frozen := True\<rparr>"

fun run_handlers :: "('h \<Rightarrow> 'd \<Rightarrow> 's \<Rightarrow> 'd option \<times> 's) \<Rightarrow> (int \<times> 'h) list \<Rightarrow> 'd \<Rightarrow> 's \<Rightarrow> 'd \<times> 's" where
  "run_handlers run [] d s = (d, s)"
| "run_handlers run ((p, h) # hs) d s =
    (case run h d s of (None, s') \<Rightarrow> run_handlers run hs d s' | (Some d', s') \<Rightarrow> run_handlers run hs d' s')"

definition hr_execute :: "('h \<Rightarrow> 'd \<Rightarrow> 's \<Rightarrow> 'd option \<times> 's) \<Rightarrow> string \<Rightarrow> 'd \<Rightarrow> 'h hook_registry \<Rightarrow> 's \<Rightarrow> 'd \<times> 's" where
  "hr_execute run hook d r s = run_handlers run (dget_or (hr_handlers r) hook []) d s"

interpretation hooks: priority_registry fst insert_handler
  by unfold_locales (simp add: insert_handler_def)

fun register_all :: "(string \<times> int \<times> 'h) list \<Rightarrow> 'h hook_registry \<Rightarrow> registry_error + 'h hook_registry" where
  "register_all [] r = Inr r"
| "register_all ((hook, prio, h) # es) r =
    (case hr_register hook h prio r of Inl e \<Rightarrow> Inl e | Inr r' \<Rightarrow> register_all es r')"

definition of_hook :: "string \<Rightarrow> (string \<times> int \<times> 'h) list \<Rightarrow> (int \<times> 'h) list" where
  "of_hook hook es = map snd (filter (\<lambda>e. fst e = hook) es)"

lemma register_all_handlers:
  "\<not> hr_frozen r \<Longrightarrow> \<exists>r'. register_all es r = Inr r' \<and> \<not> hr_frozen r' \<and>
    (\<forall>hook. dget_or (hr_handlers r') hook [] =
      fold insert_handler (of_hook hook es) (dget_or (hr_handlers r) hook []))"
proof (induction es arbitrary: r)
  case (Cons e es)
  obtain hook prio h where e: "e = (hook, prio, h)" by (rule prod_cases3)
  let ?r = "r\<lparr>hr_handlers := dput hook (insert_handler (prio, h) (dget_or (hr_handlers r) hook [])) (hr_handlers r)\<rparr>"
  have "\<not> hr_frozen ?r" using Cons.prems by simp
  from Cons.IH [OF this] obtain r' where r': "register_all es ?r = Inr r'" "\<not> hr_frozen r'"
    "\<And>hk. dget_or (hr_handlers r') hk [] = fold insert_handler (of_hook hk es) (dget_or (hr_handlers ?r) hk [])"
    by blast
  have "register_all (e # es) r = Inr r'"
    using r'(1) Cons.prems by (simp add: e hr_register_def)
  moreover have "dget_or (hr_handlers r') hk [] = fold insert_handler (of_hook hk (e # es)) (dget_or (hr_handlers r) hk [])" for hk
    unfolding r'(3) by (simp add: e of_hook_def dget_or_def)
  ultimately show ?case using r'(2) by blast
qed (simp add: of_hook_def)

lemma sort_key_fold_insert: "fold insert_handler es [] = sort_key fst es"
proof (rule sym, rule properties_for_sort_key)
  show "mset (fold insert_handler es []) = mset es"
    using hooks.mset_fold_register [of es "[]"] by simp
  show "filter (\<lambda>x. fst k = fst x) (fold insert_handler es []) = filter (\<lambda>x. fst k = fst x) es"
    if "k \<in> set (fold insert_handler es [])" for k
    using hooks.fold_register_stable [of "fst k" es "[]"] by (simp add: eq_commute)
  show "sorted (map fst (fold insert_handler es []))"
    using hooks.sorted_fold_register [of "[]" es] by simp
qed

lemma run_handlers_fold:
  "run_handlers run es d s =
    fold (\<lambda>(p, h) (d, s). case run h d s of (None, s') \<Rightarrow> (d, s') | (Some d', s') \<Rightarrow> (d', s')) es (d, s)"
  by (induction run es d s rule: run_handlers.induct) (auto split: prod.splits option.splits)

section \<open>The kernel state\<close>

record kernel_state =
  ks_layers :: "(string, string) dict"
  ks_shutdown :: bool

definition new_kernel_state :: kernel_state where
  "new_kernel_state = \<lparr>ks_layers = [], ks_shutdown = False\<rparr>"

definition global_state :: "kernel_state \<Rightarrow> string" where
  "global_state k =
    (if ks_layers k = [] then ''IDLE''
     else if \<exists>s \<in> set (dvalues (ks_layers k)). s = ''EXECUTING'' then ''EXECUTING''
     else if \<exists>s \<in> set (dvalues (ks_layers k)). s = ''DECIDING'' then ''DECIDING''
     else if \<exists>s \<in> set (dvalues (ks_layers k)). s = ''SENSING'' then ''SENSING''
     else ''IDLE'')"

definition set_layer_state :: "string \<Rightarrow> string \<Rightarrow> kernel_state \<Rightarrow> kernel_state" where
  "set_layer_state layer st k = k\<lparr>ks_layers := dput layer st (ks_layers k)\<rparr>"

definition request_shutdown :: "kernel_state \<Rightarrow> kernel_state" where
  "request_shutdown k = k\<lparr>ks_shutdown := True\<rparr>"

text \<open>The priority of the states, as a number.\<close>

definition activity :: "string \<Rightarrow> nat" where
  "activity s = (if s = ''EXECUTING'' then 3 else if s = ''DECIDING'' then 2 else if s = ''SENSING'' then 1 else 0)"

lemma most_active:
  assumes "finite V"
  shows "activity (if ''EXECUTING'' \<in> V then ''EXECUTING'' else if ''DECIDING'' \<in> V then ''DECIDING''
    else if ''SENSING'' \<in> V then ''SENSING'' else ''IDLE'') = Max (insert 0 (activity ` V))" (is "activity ?g = _")
proof -
  have "activity s \<le> activity ?g" if "s \<in> V" for s
    using that by (auto simp: activity_def)
  moreover have "activity ?g \<in> insert 0 (activity ` V)"
    by (cases "?g \<in> V") (auto simp: activity_def)
  ultimately show ?thesis
    using assms by (intro Max_eqI [symmetric]) auto
qed

lemma global_state_mem:
  "global_state k = (let V = set (dvalues (ks_layers k)) in
     if ''EXECUTING'' \<in> V then ''EXECUTING'' else if ''DECIDING'' \<in> V then ''DECIDING''
     else if ''SENSING'' \<in> V then ''SENSING'' else ''IDLE'')"
  unfolding global_state_def Let_def by (cases "ks_layers k = []") (simp_all del: set_map)

section \<open>Claims\<close>

text \<open>
  hook handlers run in ascending priority and, among equal priorities, in the order of
  their registration, whatever order the hooks were registered in; each passes its result on to
  the next, and one that raises is skipped with the data unchanged.
\<close>

theorem hooks_run_by_priority:
  "\<exists>r. register_all es new_hook_registry = Inr r \<and>
    hr_execute run hook d (hr_freeze r) s =
      fold (\<lambda>(p, h) (d, s). case run h d s of (None, s') \<Rightarrow> (d, s') | (Some d', s') \<Rightarrow> (d', s'))
        (sort_key fst (of_hook hook es)) (d, s)"
proof -
  have "\<not> hr_frozen (new_hook_registry :: 'a hook_registry)" by (simp add: new_hook_registry_def)
  from register_all_handlers [OF this, of es] obtain r where
    r: "register_all es new_hook_registry = Inr r"
    "dget_or (hr_handlers r) hook [] = fold insert_handler (of_hook hook es) []"
    by (auto simp: new_hook_registry_def dget_or_def)
  have "hr_execute run hook d (hr_freeze r) s = run_handlers run (sort_key fst (of_hook hook es)) d s"
    by (simp add: hr_execute_def hr_freeze_def r(2) sort_key_fold_insert)
  with r(1) show ?thesis by (auto simp: run_handlers_fold)
qed

text \<open>
  The global state of the kernel is the most active of the layer states, in the order
  executing, deciding, sensing, idle, so a layer that becomes idle never hides a busy one.
\<close>

theorem global_state_is_most_active:
  "activity (global_state k) = Max (insert 0 (activity ` set (dvalues (ks_layers k))))"
  unfolding global_state_mem Let_def by (rule most_active) simp

end
