(* ===== verification/Plugin_Lifecycle.thy ===== *)
theory Plugin_Lifecycle
  imports Plugin_Order Plugin_Services
begin

text \<open>
  The life of plugins (\<open>iris/kernel/plugin/lifecycle/__init__.py\<close>, \<open>models.py\<close>) and
  the plugin manager (\<open>iris/kernel/manager.py\<close>).

  A plugin's own code is a parameter \<open>call\<close>: it runs one of the plugin's six methods in the
  world it shares with the manager and says whether it returned (\<open>True\<close>) or raised. What
  \<open>_resolve_plugin\<close> reads of a module is a \<open>module_obj\<close>. \<open>importlib.reload\<close> is the
  parameter \<open>reimport\<close>. The loops follow \<open>_order\<close>, in which a name may occur twice
  and which names loaded plugins only (\<open>resolve_order_topological\<close>); the notification loops
  pass over a name that is not loaded, where \<open>init_all\<close> and \<open>start_all\<close> raise.
\<close>

section \<open>Instances\<close>

datatype plugin_state = UNLOADED | INITIALIZED | STARTED | READY | STOPPING | STOPPED | ERROR

datatype plugin_call = Init | Start | Stop | OnConfigLoaded | OnAllReady | OnPreShutdown

text \<open>The attribute \<open>plugin\<close> when it is a plugin, what instantiating the plugin classes in
  \<open>dir\<close> order gives (\<open>None\<close>: the constructor raises), the module itself when it is one.\<close>

record 'p module_obj =
  md_name :: string
  md_plugin :: "'p option"
  md_classes :: "'p option list"
  md_self :: "'p option"

record 'p plugin_instance =
  pi_manifest :: manifest
  pi_module :: "'p module_obj option"
  pi_state :: plugin_state

type_synonym 'p plugins = "(string, 'p plugin_instance) dict"
type_synonym ('p, 'w) caller = "'p \<Rightarrow> plugin_call \<Rightarrow> 'w \<Rightarrow> 'w \<times> bool"

definition resolve_plugin :: "'p module_obj option \<Rightarrow> 'p option" where
  "resolve_plugin md =
    (case md of None \<Rightarrow> None
     | Some m \<Rightarrow>
        (case md_plugin m of Some p \<Rightarrow> Some p
         | None \<Rightarrow> (case md_classes m of c # _ \<Rightarrow> c | [] \<Rightarrow> md_self m)))"

definition run_call :: "('p, 'w) caller \<Rightarrow> 'p plugin_instance \<Rightarrow> plugin_call \<Rightarrow> 'w \<Rightarrow> 'w \<times> bool" where
  "run_call call p k w = (case resolve_plugin (pi_module p) of None \<Rightarrow> (w, False) | Some pl \<Rightarrow> call pl k w)"

definition set_state :: "string \<Rightarrow> plugin_state \<Rightarrow> 'p plugins \<Rightarrow> 'p plugins" where
  "set_state n s ps = (case dget ps n of None \<Rightarrow> ps | Some p \<Rightarrow> dput n (p\<lparr>pi_state := s\<rparr>) ps)"

definition state_of :: "'p plugins \<Rightarrow> string \<Rightarrow> plugin_state option" where
  "state_of ps n = map_option pi_state (dget ps n)"

definition running :: "plugin_state \<Rightarrow> bool" where
  "running s \<longleftrightarrow> s \<in> {STARTED, READY, INITIALIZED}"

record 'p lifecycle =
  lc_plugins :: "'p plugins"
  lc_order :: "string list"
  lc_builtin :: "string list"

definition new_lifecycle :: "string list \<Rightarrow> 'p lifecycle" where
  "new_lifecycle builtin = \<lparr>lc_plugins = [], lc_order = [], lc_builtin = builtin\<rparr>"

section \<open>Loading\<close>

fun load_plugins :: "string list \<Rightarrow> ('p module_obj \<times> manifest) list \<Rightarrow> 'p plugins \<Rightarrow> 'p plugins" where
  "load_plugins disabled [] ps = ps"
| "load_plugins disabled ((md, mf) # ms) ps =
    load_plugins disabled ms
      (if mf_name mf \<in> set disabled then ps
       else dput (mf_name mf) \<lparr>pi_manifest = mf, pi_module = Some md, pi_state = UNLOADED\<rparr> ps)"

definition manifests_of :: "'p plugins \<Rightarrow> (string, manifest) dict" where
  "manifests_of ps = map (\<lambda>p. (fst p, pi_manifest (snd p))) ps"

definition lc_load :: "('p module_obj \<times> manifest) list \<Rightarrow> string list \<Rightarrow> 'p lifecycle \<Rightarrow>
    'p lifecycle \<times> order_error option" where
  "lc_load ms disabled lc =
    (let ps = load_plugins disabled ms (lc_plugins lc); lc1 = lc\<lparr>lc_plugins := ps\<rparr>
     in case resolve_order (manifests_of ps) (lc_builtin lc) of
          Inl e \<Rightarrow> (lc1, Some e)
        | Inr order \<Rightarrow> (lc1\<lparr>lc_order := order\<rparr>, verify_dependencies (manifests_of ps) (lc_builtin lc)))"

section \<open>Initialising and starting\<close>

text \<open>The loops return the name at which they raised.\<close>

fun init_all :: "('p, 'w) caller \<Rightarrow> string list \<Rightarrow> 'p plugins \<Rightarrow> 'w \<Rightarrow> 'p plugins \<times> 'w \<times> string option" where
  "init_all call [] ps w = (ps, w, None)"
| "init_all call (n # ns) ps w =
    (case dget ps n of None \<Rightarrow> (ps, w, Some n)
     | Some p \<Rightarrow>
        (case run_call call p Init w of
           (w', True) \<Rightarrow> init_all call ns (set_state n INITIALIZED ps) w'
         | (w', False) \<Rightarrow> (set_state n ERROR ps, w', Some n)))"

text \<open>The notification loops ignore what the called method raises.\<close>

fun notify_all :: "('p, 'w) caller \<Rightarrow> plugin_call \<Rightarrow> (plugin_state \<Rightarrow> bool) \<Rightarrow> string list \<Rightarrow> 'p plugins \<Rightarrow> 'w \<Rightarrow> 'w" where
  "notify_all call k ok [] ps w = w"
| "notify_all call k ok (n # ns) ps w =
    notify_all call k ok ns ps
      (case dget ps n of None \<Rightarrow> w | Some p \<Rightarrow> if ok (pi_state p) then fst (run_call call p k w) else w)"

definition notify_config_loaded :: "('p, 'w) caller \<Rightarrow> 'p lifecycle \<Rightarrow> 'w \<Rightarrow> 'w" where
  "notify_config_loaded call lc w =
    notify_all call OnConfigLoaded (\<lambda>s. s = INITIALIZED) (lc_order lc) (lc_plugins lc) w"

fun stop_started :: "('p, 'w) caller \<Rightarrow> string list \<Rightarrow> 'p plugins \<Rightarrow> 'w \<Rightarrow> 'p plugins \<times> 'w" where
  "stop_started call [] ps w = (ps, w)"
| "stop_started call (n # ns) ps w =
    (case dget ps n of None \<Rightarrow> stop_started call ns ps w
     | Some p \<Rightarrow>
        if pi_state p \<noteq> STARTED then stop_started call ns ps w
        else (case run_call call p Stop w of
                (w', True) \<Rightarrow> stop_started call ns (set_state n STOPPED ps) w'
              | (w', False) \<Rightarrow> stop_started call ns ps w'))"

text \<open>\<open>order.index(failed)\<close> is the first position of the failed name.\<close>

definition stop_started_before :: "('p, 'w) caller \<Rightarrow> string list \<Rightarrow> string \<Rightarrow> 'p plugins \<Rightarrow> 'w \<Rightarrow> 'p plugins \<times> 'w" where
  "stop_started_before call order failed ps w =
    stop_started call (rev (takeWhile (\<lambda>n. n \<noteq> failed) order)) ps w"

fun start_loop :: "('p, 'w) caller \<Rightarrow> string list \<Rightarrow> string list \<Rightarrow> 'p plugins \<Rightarrow> 'w \<Rightarrow> 'p plugins \<times> 'w \<times> string option" where
  "start_loop call order [] ps w = (ps, w, None)"
| "start_loop call order (n # ns) ps w =
    (case dget ps n of None \<Rightarrow> (ps, w, Some n)
     | Some p \<Rightarrow>
        if pi_state p = ERROR then start_loop call order ns ps w
        else (case run_call call p Start w of
                (w', True) \<Rightarrow> start_loop call order ns (set_state n STARTED ps) w'
              | (w', False) \<Rightarrow>
                  (case stop_started_before call order n (set_state n ERROR ps) w' of
                     (ps', w'') \<Rightarrow> (ps', w'', Some n))))"

definition start_all :: "('p, 'w) caller \<Rightarrow> string list \<Rightarrow> 'p plugins \<Rightarrow> 'w \<Rightarrow> 'p plugins \<times> 'w \<times> string option" where
  "start_all call order ps w = start_loop call order order ps w"

definition mark_ready :: "string list \<Rightarrow> 'p plugins \<Rightarrow> 'p plugins" where
  "mark_ready order ps = fold (\<lambda>n ps. if state_of ps n = Some STARTED then set_state n READY ps else ps) order ps"

definition mark_all_ready :: "('p, 'w) caller \<Rightarrow> bool \<Rightarrow> string list \<Rightarrow> 'p plugins \<Rightarrow> 'w \<Rightarrow> 'p plugins \<times> 'w" where
  "mark_all_ready call notify order ps w =
    (let ps' = mark_ready order ps
     in (ps', if notify then notify_all call OnAllReady (\<lambda>s. s \<in> {READY, STARTED}) order ps' w else w))"

section \<open>Stopping and reloading\<close>

definition notify_pre_shutdown :: "('p, 'w) caller \<Rightarrow> string list \<Rightarrow> 'p plugins \<Rightarrow> 'w \<Rightarrow> 'w" where
  "notify_pre_shutdown call order ps w = notify_all call OnPreShutdown running (rev order) ps w"

fun stop_loop :: "('p, 'w) caller \<Rightarrow> string list \<Rightarrow> 'p plugins \<Rightarrow> 'w \<Rightarrow> 'p plugins \<times> 'w" where
  "stop_loop call [] ps w = (ps, w)"
| "stop_loop call (n # ns) ps w =
    (case dget ps n of None \<Rightarrow> stop_loop call ns ps w
     | Some p \<Rightarrow>
        if \<not> running (pi_state p) then stop_loop call ns ps w
        else (case resolve_plugin (pi_module p) of
                None \<Rightarrow> stop_loop call ns ps w
              | Some pl \<Rightarrow>
                 (case call pl Stop w of
                    (w', True) \<Rightarrow> stop_loop call ns (set_state n STOPPED ps) w'
                  | (w', False) \<Rightarrow> stop_loop call ns (set_state n STOPPING ps) w')))"

definition stop_all :: "('p, 'w) caller \<Rightarrow> string list \<Rightarrow> 'p plugins \<Rightarrow> 'w \<Rightarrow> 'p plugins \<times> 'w" where
  "stop_all call order ps w = stop_loop call (rev order) ps w"

definition set_module :: "string \<Rightarrow> 'p module_obj \<Rightarrow> 'p plugins \<Rightarrow> 'p plugins" where
  "set_module n md ps = (case dget ps n of None \<Rightarrow> ps | Some p \<Rightarrow> dput n (p\<lparr>pi_module := Some md\<rparr>) ps)"

definition restart :: "('p, 'w) caller \<Rightarrow> string \<Rightarrow> 'p module_obj \<Rightarrow> 'p plugins \<Rightarrow> 'w \<Rightarrow> 'p plugins \<times> 'w \<times> bool" where
  "restart call n md ps w =
    (case resolve_plugin (Some md) of
       None \<Rightarrow> (set_state n ERROR ps, w, False)
     | Some pl \<Rightarrow>
        (case call pl Init w of
           (w1, False) \<Rightarrow> (set_state n ERROR ps, w1, False)
         | (w1, True) \<Rightarrow>
            (case call pl Start w1 of
               (w2, False) \<Rightarrow> (set_state n ERROR ps, w2, False)
             | (w2, True) \<Rightarrow> (set_state n STARTED ps, w2, True))))"

definition reload_plugin :: "('p, 'w) caller \<Rightarrow> ('p module_obj \<Rightarrow> 'w \<Rightarrow> 'w \<times> 'p module_obj option) \<Rightarrow>
    string \<Rightarrow> 'p plugins \<Rightarrow> 'w \<Rightarrow> 'p plugins \<times> 'w \<times> bool" where
  "reload_plugin call reimport n ps w =
    (case dget ps n of
       None \<Rightarrow> (ps, w, False)
     | Some p \<Rightarrow>
        if pi_state p \<notin> {STARTED, READY} then (ps, w, False)
        else
         (case run_call call p Stop w of
            (w1, False) \<Rightarrow> (set_state n ERROR ps, w1, False)
          | (w1, True) \<Rightarrow>
             (case pi_module p of
                None \<Rightarrow> (set_state n ERROR ps, w1, False)
              | Some md \<Rightarrow>
                 (case reimport md w1 of
                    (w2, None) \<Rightarrow> (set_state n ERROR ps, w2, False)
                  | (w2, Some md') \<Rightarrow> restart call n md' (set_module n md' (set_state n STOPPED ps)) w2))))"

section \<open>The plugin manager\<close>

record ('h, 'v, 'x) kernel =
  k_di :: "'v container"
  k_hooks :: "'h hook_registry"
  k_state :: kernel_state
  k_ext :: 'x

record ('p, 'h, 'v, 'x) plugin_manager =
  pm_lifecycle :: "'p lifecycle"
  pm_kernel :: "('h, 'v, 'x) kernel"

definition new_plugin_manager :: "'x \<Rightarrow> ('p, 'h, 'v, 'x) plugin_manager" where
  "new_plugin_manager x = \<lparr>pm_lifecycle = new_lifecycle [''EventBus''],
     pm_kernel = \<lparr>k_di = new_container, k_hooks = new_hook_registry, k_state = new_kernel_state, k_ext = x\<rparr>\<rparr>"

datatype build_error = ServiceError registry_error | LoadError order_error | InitError string

definition k_provide :: "string \<times> 'v \<Rightarrow> ('h, 'v, 'x) kernel \<Rightarrow> ('h, 'v, 'x) kernel \<times> registry_error option" where
  "k_provide s k =
    (case sc_provide (fst s) ''default'' (snd s) (k_di k) of
       Inl e \<Rightarrow> (k, Some e) | Inr c \<Rightarrow> (k\<lparr>k_di := c\<rparr>, None))"

fun provide_all :: "(string \<times> 'v) list \<Rightarrow> ('h, 'v, 'x) kernel \<Rightarrow> ('h, 'v, 'x) kernel \<times> registry_error option" where
  "provide_all [] k = (k, None)"
| "provide_all (s # ss) k =
    (case k_provide s k of (k', Some e) \<Rightarrow> (k', Some e) | (k', None) \<Rightarrow> provide_all ss k')"

definition freeze_kernel :: "('h, 'v, 'x) kernel \<Rightarrow> ('h, 'v, 'x) kernel" where
  "freeze_kernel k = k\<lparr>k_hooks := hr_freeze (k_hooks k), k_di := sc_freeze (k_di k)\<rparr>"

text \<open>\<open>infra\<close> are the four services the manager provides itself, \<open>ms\<close> what
  \<open>discover_plugin_manifests\<close> found.\<close>

definition build_all :: "('p, ('h, 'v, 'x) kernel) caller \<Rightarrow> (string \<times> 'v) list \<Rightarrow>
    ('p module_obj \<times> manifest) list \<Rightarrow> string list \<Rightarrow>
    ('p, 'h, 'v, 'x) plugin_manager \<Rightarrow> ('p, 'h, 'v, 'x) plugin_manager \<times> build_error option" where
  "build_all call infra ms disabled pm =
    (case provide_all infra (pm_kernel pm) of
       (k, Some e) \<Rightarrow> (pm\<lparr>pm_kernel := k\<rparr>, Some (ServiceError e))
     | (k, None) \<Rightarrow>
        (case lc_load ms disabled (pm_lifecycle pm) of
           (lc, Some e) \<Rightarrow> (pm\<lparr>pm_kernel := k, pm_lifecycle := lc\<rparr>, Some (LoadError e))
         | (lc, None) \<Rightarrow>
            (case init_all call (lc_order lc) (lc_plugins lc) k of
               (ps, k', Some n) \<Rightarrow> (pm\<lparr>pm_kernel := k', pm_lifecycle := lc\<lparr>lc_plugins := ps\<rparr>\<rparr>, Some (InitError n))
             | (ps, k', None) \<Rightarrow>
                (let lc' = lc\<lparr>lc_plugins := ps\<rparr>
                 in (pm\<lparr>pm_kernel := freeze_kernel (notify_config_loaded call lc' k'), pm_lifecycle := lc'\<rparr>, None)))))"

definition pm_start_all :: "('p, ('h, 'v, 'x) kernel) caller \<Rightarrow> ('p, 'h, 'v, 'x) plugin_manager \<Rightarrow>
    ('p, 'h, 'v, 'x) plugin_manager \<times> string option" where
  "pm_start_all call pm =
    (let order = lc_order (pm_lifecycle pm)
     in case start_all call order (lc_plugins (pm_lifecycle pm)) (pm_kernel pm) of
          (ps, k, Some n) \<Rightarrow> (pm\<lparr>pm_kernel := k, pm_lifecycle := (pm_lifecycle pm)\<lparr>lc_plugins := ps\<rparr>\<rparr>, Some n)
        | (ps, k, None) \<Rightarrow>
            (case mark_all_ready call True order ps k of
               (ps', k') \<Rightarrow> (pm\<lparr>pm_kernel := k', pm_lifecycle := (pm_lifecycle pm)\<lparr>lc_plugins := ps'\<rparr>\<rparr>, None)))"

definition pm_stop_all :: "('p, ('h, 'v, 'x) kernel) caller \<Rightarrow> ('p, 'h, 'v, 'x) plugin_manager \<Rightarrow>
    ('p, 'h, 'v, 'x) plugin_manager" where
  "pm_stop_all call pm =
    (let lc = pm_lifecycle pm; k = notify_pre_shutdown call (lc_order lc) (lc_plugins lc) (pm_kernel pm)
     in case stop_all call (lc_order lc) (lc_plugins lc) k of
          (ps, k') \<Rightarrow> pm\<lparr>pm_kernel := k', pm_lifecycle := lc\<lparr>lc_plugins := ps\<rparr>\<rparr>)"

definition register_manifest :: "manifest \<Rightarrow> ('p, 'h, 'v, 'x) plugin_manager \<Rightarrow> ('p, 'h, 'v, 'x) plugin_manager" where
  "register_manifest m pm =
    (let lc = pm_lifecycle pm
     in if mf_name m \<in> set (dkeys (lc_plugins lc)) then pm
        else pm\<lparr>pm_lifecycle := lc\<lparr>lc_plugins := dput (mf_name m)
          \<lparr>pi_manifest = m, pi_module = None, pi_state = UNLOADED\<rparr> (lc_plugins lc)\<rparr>\<rparr>)"

definition pm_reload_plugin where
  "pm_reload_plugin call reimport n pm =
    (case reload_plugin call reimport n (lc_plugins (pm_lifecycle pm)) (pm_kernel pm) of
       (ps, k, ok) \<Rightarrow> (pm\<lparr>pm_kernel := k, pm_lifecycle := (pm_lifecycle pm)\<lparr>lc_plugins := ps\<rparr>\<rparr>, ok))"

text \<open>Plugins as the shipped ones are: \<open>init\<close> builds the components and then provides them as
  services; the rest of the plugin's code is unconstrained.\<close>

definition plugin_code :: "('p, ('h, 'v, 'x) kernel) caller \<Rightarrow> ('p \<Rightarrow> (string \<times> 'v) list) \<Rightarrow>
    ('p, ('h, 'v, 'x) kernel) caller" where
  "plugin_code other services p k w =
    (if k = Init then
       (case other p Init w of
          (w', False) \<Rightarrow> (w', False)
        | (w', True) \<Rightarrow> (case provide_all (services p) w' of (w'', e) \<Rightarrow> (w'', e = None)))
     else other p k w)"

section \<open>How the steps change the states\<close>

lemma state_of_set_state [store_simps]:
  "state_of (set_state n s ps) m = (if m = n \<and> dget ps n \<noteq> None then Some s else state_of ps m)"
  by (auto simp: state_of_def set_state_def split: option.splits)

lemma state_of_set_module [store_simps]: "state_of (set_module n md ps) m = state_of ps m"
  by (auto simp: state_of_def set_module_def split: option.splits)

lemma dget_set_module [store_simps]:
  "dget (set_module n md ps) m = (if m = n then map_option (\<lambda>p. p\<lparr>pi_module := Some md\<rparr>) (dget ps n) else dget ps m)"
  by (auto simp: set_module_def split: option.splits)

lemma dget_set_state [store_simps]:
  "dget (set_state n s ps) m = (if m = n then map_option (\<lambda>p. p\<lparr>pi_state := s\<rparr>) (dget ps n) else dget ps m)"
  by (auto simp: set_state_def split: option.splits)

lemma state_of_None: "state_of ps n = None \<longleftrightarrow> dget ps n = None"
  by (simp add: state_of_def)

text \<open>What a running plugin is stopped through, if at all.\<close>

definition stop_target :: "'p plugins \<Rightarrow> string \<Rightarrow> 'p option" where
  "stop_target ps n =
    (case dget ps n of None \<Rightarrow> None
     | Some p \<Rightarrow> if running (pi_state p) then resolve_plugin (pi_module p) else None)"

lemma not_running [simp]: "\<not> running STOPPED" "\<not> running STOPPING" "\<not> running ERROR" "\<not> running UNLOADED"
  by (simp_all add: running_def)

lemma stop_target_set_state:
  "\<not> running s \<Longrightarrow> stop_target (set_state n s ps) = (stop_target ps)(n := None)"
  by (auto simp: stop_target_def store_simps fun_eq_iff split: option.splits)

definition logged :: "('p, 'w) caller \<Rightarrow> ('p, 'w \<times> ('p \<times> plugin_call) list) caller" where
  "logged call p k s = (case call p k (fst s) of (w, ok) \<Rightarrow> ((w, snd s @ [(p, k)]), ok))"

lemma remdups_snoc: "remdups (xs @ [x]) = filter (\<lambda>y. y \<noteq> x) (remdups xs) @ [x]"
  by (induction xs) auto

lemma map_filter_upd: "List.map_filter (f(x := None)) xs = List.map_filter f (filter (\<lambda>y. y \<noteq> x) xs)"
  by (induction xs) (auto simp: List.map_filter_simps split: option.splits)

lemma stop_loop_log:
  "snd (snd (stop_loop (logged call) ns ps (w, l))) =
    l @ map (\<lambda>pl. (pl, Stop)) (List.map_filter (stop_target ps) (rev (remdups (rev ns))))"
proof (induction ns arbitrary: ps w l)
  case (Cons n ns)
  have dd: "rev (remdups (rev (n # ns))) = n # filter (\<lambda>y. y \<noteq> n) (rev (remdups (rev ns)))"
    by (simp add: remdups_snoc rev_filter)
  show ?case
  proof (cases "stop_target ps n")
    case None
    then have "stop_loop (logged call) (n # ns) ps (w, l) = stop_loop (logged call) ns ps (w, l)"
      by (auto simp: stop_target_def split: option.splits if_splits)
    moreover have "(stop_target ps)(n := None) = stop_target ps" using None by auto
    then have "List.map_filter (stop_target ps) (filter (\<lambda>y. y \<noteq> n) (rev (remdups (rev ns)))) =
        List.map_filter (stop_target ps) (rev (remdups (rev ns)))"
      by (metis map_filter_upd)
    ultimately show ?thesis
      unfolding dd using None by (simp add: List.map_filter_simps Cons.IH)
  next
    case (Some pl)
    then obtain p where p: "dget ps n = Some p" "running (pi_state p)" "resolve_plugin (pi_module p) = Some pl"
      by (auto simp: stop_target_def split: option.splits if_splits)
    obtain w' ok where c: "call pl Stop w = (w', ok)" by fastforce
    have "stop_loop (logged call) (n # ns) ps (w, l) =
        stop_loop (logged call) ns (set_state n (if ok then STOPPED else STOPPING) ps) (w', l @ [(pl, Stop)])"
      by (simp add: p c logged_def split: bool.split)
    moreover have "List.map_filter (stop_target (set_state n (if ok then STOPPED else STOPPING) ps)) xs =
        List.map_filter (stop_target ps) (filter (\<lambda>y. y \<noteq> n) xs)" for xs
      by (subst stop_target_set_state) (simp, rule map_filter_upd)
    ultimately show ?thesis
      unfolding dd by (simp only: Cons.IH List.map_filter_simps Some) simp
  qed
qed (simp add: List.map_filter_simps)

lemma stop_loop_target: "stop_target (fst (stop_loop call ns ps w)) m = (if m \<in> set ns then None else stop_target ps m)"
proof (induction call ns ps w rule: stop_loop.induct)
  case (2 call n ns ps w)
  show ?case
    using 2
    by (cases "call (the (stop_target ps n)) Stop w")
      (auto simp: stop_target_set_state stop_target_def [of ps n] split: option.splits bool.splits if_splits)
qed simp

lemma stop_started_state:
  assumes "\<And>p w. snd (call p Stop w)"
    and "\<And>m p. dget ps m = Some p \<Longrightarrow> pi_state p = STARTED \<Longrightarrow> resolve_plugin (pi_module p) \<noteq> None"
  shows "state_of (fst (stop_started call ns ps w)) m = Some STARTED \<longleftrightarrow> state_of ps m = Some STARTED \<and> m \<notin> set ns"
  using assms(2)
proof (induction ns arbitrary: ps w)
  case (Cons n ns)
  show ?case
  proof (cases "state_of ps n = Some STARTED")
    case False
    then have "stop_started call (n # ns) ps w = stop_started call ns ps w"
      by (auto simp: state_of_def split: option.splits)
    with Cons False show ?thesis by auto
  next
    case True
    then obtain p where p: "dget ps n = Some p" "pi_state p = STARTED" by (auto simp: state_of_def)
    with Cons.prems obtain pl where pl: "resolve_plugin (pi_module p) = Some pl" by blast
    obtain w' where c: "call pl Stop w = (w', True)" using assms(1) [of pl w] by (cases "call pl Stop w") auto
    let ?ps = "set_state n STOPPED ps"
    have "stop_started call (n # ns) ps w = stop_started call ns ?ps w'"
      by (simp add: p pl c run_call_def)
    moreover have "resolve_plugin (pi_module q) \<noteq> None" if "dget ?ps m = Some q" "pi_state q = STARTED" for m q
      using that Cons.prems [of m] by (auto simp: store_simps split: if_splits)
    ultimately show ?thesis
      using Cons.IH [of ?ps w'] p(1) by (auto simp: store_simps)
  qed
qed simp

lemma start_loop_unwinds:
  assumes stops: "\<And>p w. snd (call p Stop w)"
  shows "start_loop call order ns ps w = (ps', w', Some n) \<Longrightarrow> order = us @ ns \<Longrightarrow> distinct order \<Longrightarrow>
    set order \<subseteq> set (dkeys ps) \<Longrightarrow>
    (\<And>m p. dget ps m = Some p \<Longrightarrow> pi_state p = STARTED \<Longrightarrow> m \<in> set us \<and> resolve_plugin (pi_module p) \<noteq> None) \<Longrightarrow>
    state_of ps' m \<noteq> Some STARTED"
proof (induction ns arbitrary: ps w us)
  case (Cons k ns)
  have "k \<in> set (dkeys ps)" using Cons.prems(2,4) by auto
  then obtain p where p: "dget ps k = Some p" by (metis dget_None_iff not_Some_eq)
  have keys: "set order \<subseteq> set (dkeys (set_state k s ps))" for s
    using Cons.prems(4) unfolding set_state_def p option.case set_dkeys_dput by blast
  show ?case
  proof (cases "pi_state p = ERROR")
    case True
    have "start_loop call order ns ps w = (ps', w', Some n)"
      using Cons.prems(1) by (simp add: p True)
    then show ?thesis
      by (rule Cons.IH [where us = "us @ [k]"]) (use Cons.prems in auto)
  next
    case False
    show ?thesis
    proof (cases "run_call call p Start w")
      case (Pair w1 ok)
      show ?thesis
      proof (cases ok)
        case True
        then have r: "resolve_plugin (pi_module p) \<noteq> None"
          using Pair by (auto simp: run_call_def split: option.splits)
        have "start_loop call order ns (set_state k STARTED ps) w1 = (ps', w', Some n)"
          using Cons.prems(1) False Pair True by (simp add: p)
        then show ?thesis
        proof (rule Cons.IH [where us = "us @ [k]"])
          show "m \<in> set (us @ [k]) \<and> resolve_plugin (pi_module q) \<noteq> None"
            if "dget (set_state k STARTED ps) m = Some q" "pi_state q = STARTED" for m q
            using that Cons.prems(5) [of m q] r p by (auto simp: store_simps split: if_splits)
        qed (use Cons.prems keys in auto)
      next
        case nok: False
        have tw: "takeWhile (\<lambda>x. x \<noteq> k) order = us"
          using Cons.prems(2,3) by (auto simp: takeWhile_append)
        have "stop_started call (rev us) (set_state k ERROR ps) w1 = (ps', w')"
          using Cons.prems(1) False Pair nok
          by (auto simp: p stop_started_before_def tw split: prod.splits)
        moreover have "state_of (fst (stop_started call (rev us) (set_state k ERROR ps) w1)) m = Some STARTED \<longleftrightarrow>
            state_of (set_state k ERROR ps) m = Some STARTED \<and> m \<notin> set (rev us)"
        proof (rule stop_started_state)
          show "snd (call p Stop w)" for p w by (rule stops)
          show "resolve_plugin (pi_module q) \<noteq> None"
            if "dget (set_state k ERROR ps) m = Some q" "pi_state q = STARTED" for m q
            using that Cons.prems(5) [of m q] by (auto simp: store_simps split: if_splits)
        qed
        ultimately show ?thesis
          using Cons.prems(5) by (auto simp: store_simps state_of_def split: if_splits)
      qed
    qed
  qed
qed simp

section \<open>Reloading after the registries are frozen\<close>

lemma provide_all_frozen:
  "sc_frozen (k_di k) \<Longrightarrow> ss \<noteq> [] \<Longrightarrow> snd (provide_all ss k) \<noteq> None"
  by (cases ss) (simp_all add: k_provide_def sc_provide_frozen)

lemma plugin_code_init_frozen:
  assumes "\<And>w. sc_frozen (k_di w) \<Longrightarrow> sc_frozen (k_di (fst (other p Init w)))"
    and "services p \<noteq> []" and "sc_frozen (k_di w)"
  shows "\<not> snd (plugin_code other services p Init w)"
proof (cases "other p Init w")
  case (Pair w' ok)
  then have "sc_frozen (k_di w')" using assms(1) [OF assms(3)] by simp
  then have "snd (provide_all (services p) w') \<noteq> None" by (rule provide_all_frozen [OF _ assms(2)])
  then show ?thesis by (cases ok) (auto simp: plugin_code_def Pair split: prod.splits)
qed

lemma reload_outcome:
  assumes "reload_plugin call reimport n ps w = (ps', w', ok)"
  shows "if state_of ps n \<in> {Some STARTED, Some READY}
    then state_of ps' n = Some (if ok then STARTED else ERROR) else ps' = ps \<and> w' = w \<and> \<not> ok"
  using assms unfolding reload_plugin_def
  by (auto simp: restart_def store_simps state_of_def split: option.splits if_splits prod.splits bool.splits)

lemma reload_okD:
  assumes "reload_plugin call reimport n ps w = (ps', w', True)"
  shows "\<exists>p w1 md w2 md' pl. run_call call p Stop w = (w1, True) \<and> reimport md w1 = (w2, Some md') \<and>
    snd (call pl Init w2)"
proof -
  obtain p w1 where p: "dget ps n = Some p" "run_call call p Stop w = (w1, True)"
    using assms by (auto simp: reload_plugin_def split: option.splits if_splits prod.splits bool.splits)
  then obtain md w2 md' where m: "pi_module p = Some md" "reimport md w1 = (w2, Some md')"
    "restart call n md' (set_module n md' (set_state n STOPPED ps)) w2 = (ps', w', True)"
    using assms by (auto simp: reload_plugin_def split: option.splits if_splits prod.splits)
  from m(3) obtain pl w3 where "call pl Init w2 = (w3, True)"
    by (auto simp: restart_def split: option.splits prod.splits bool.splits)
  then have "snd (call pl Init w2)" by simp
  with p m show ?thesis by blast
qed

section \<open>Claims\<close>


definition demo_plugins :: "string plugins" where
  "demo_plugins = map (\<lambda>n. (n, \<lparr>pi_manifest = tools_manifest,
     pi_module = Some \<lparr>md_name = n, md_plugin = Some n, md_classes = [], md_self = None\<rparr>,
     pi_state = INITIALIZED\<rparr>)) [''llm'', ''tools'', ''io'']"

text \<open>Starting \<open>io\<close> raises; everything else returns. The world records the calls.\<close>

definition demo_call :: "(string, (string \<times> plugin_call) list) caller" where
  "demo_call p k w = (w @ [(p, k)], \<not> (p = ''io'' \<and> k = Start))"

lemma demo_start: "start_all demo_call [''llm'', ''tools'', ''io''] demo_plugins [] =
  (set_state ''llm'' STOPPED (set_state ''tools'' STOPPED (set_state ''io'' ERROR demo_plugins)),
   [(''llm'', Start), (''tools'', Start), (''io'', Start), (''tools'', Stop), (''llm'', Stop)], Some ''io'')"
  by code_simp


text \<open>
  on shutdown every running plugin is stopped exactly once, in the reverse of the start-up
  order, even when the order lists a plugin twice and whatever the plugins do; afterwards no listed
  plugin could be stopped again.
\<close>

theorem stop_all_stops_once:
  "snd (snd (stop_all (logged call) order ps (w, []))) =
      map (\<lambda>pl. (pl, Stop)) (List.map_filter (stop_target ps) (rev (remdups order))) \<and>
    (\<forall>m \<in> set order. stop_target (fst (stop_all (logged call) order ps (w, []))) m = None)"
  by (simp add: stop_all_def stop_loop_log stop_loop_target)

text \<open>
  reloading touches a running plugin only and ends in one of two ways: it reports success
  and the plugin is started, or it reports failure and the plugin is in the error state; a plugin
  that is not running (or not loaded) is left as it was.
\<close>

theorem reload_outcomes:
  "case reload_plugin call reimport n ps w of (ps', w', ok) \<Rightarrow>
    if state_of ps n \<in> {Some STARTED, Some READY}
    then state_of ps' n = Some (if ok then STARTED else ERROR)
    else ps' = ps \<and> w' = w \<and> \<not> ok"
proof -
  obtain ps' w' ok where r: "reload_plugin call reimport n ps w = (ps', w', ok)"
    by (rule prod_cases3)
  show ?thesis
    unfolding r prod.case by (rule reload_outcome [OF r])
qed

text \<open>
  once the manager is built, no running plugin that provides a service can be reloaded:
  the container is frozen, the plugin's \<open>init\<close> raises, and the reload stops the plugin and
  leaves it in the error state. All shipped plugins provide services in \<open>init\<close>.
\<close>

theorem reload_fails_after_freeze:
  assumes "sc_frozen (k_di w)"
    and "\<And>p k w. sc_frozen (k_di w) \<Longrightarrow> sc_frozen (k_di (fst (other p k w)))"
    and "\<And>md w. sc_frozen (k_di w) \<Longrightarrow> sc_frozen (k_di (fst (reimport md w)))"
    and "\<And>p. services p \<noteq> []"
    and "state_of ps n \<in> {Some STARTED, Some READY}"
  shows "\<not> snd (snd (reload_plugin (plugin_code other services) reimport n ps w)) \<and>
    state_of (fst (reload_plugin (plugin_code other services) reimport n ps w)) n = Some ERROR"
proof -
  obtain ps' w' ok where r: "reload_plugin (plugin_code other services) reimport n ps w = (ps', w', ok)"
    by (rule prod_cases3)
  have no_init: "\<not> snd (plugin_code other services p Init w)" if "sc_frozen (k_di w)" for p w
    by (rule plugin_code_init_frozen) (simp_all add: assms that)
  have stop: "sc_frozen (k_di w1)" if "run_call (plugin_code other services) p Stop w = (w1, b)" for p w1 b
    using that assms(1) assms(2) [of w _ Stop]
    by (auto simp: run_call_def plugin_code_def split: option.splits) (metis fst_conv)
  have "\<not> ok"
  proof
    assume ok
    with r obtain p w1 md w2 md' pl where
      s: "run_call (plugin_code other services) p Stop w = (w1, True)"
      and i: "reimport md w1 = (w2, Some md')" "snd (plugin_code other services pl Init w2)"
      by (auto dest: reload_okD)
    have "sc_frozen (k_di w2)" using assms(3) [OF stop [OF s], of md] i(1) by simp
    with no_init i(2) show False by blast
  qed
  with reload_outcome [OF r] assms(5) r show ?thesis by (auto split: if_splits)
qed

definition demo_kernel :: "(unit, nat, unit) kernel" where
  "demo_kernel = freeze_kernel \<lparr>k_di = new_container, k_hooks = new_hook_registry, k_state = new_kernel_state, k_ext = ()\<rparr>"

end
