(* ===== verification/Account.thy ===== *)
theory Account
  imports Iris_Interfaces
begin

text \<open>
  Accounts and their external identities (\<open>iris/account\<close>: models, store, manager,
  dispatcher).

  The two JSONL files of \<open>AccountStore\<close> are the lists they hold: every operation loads the
  list, changes it and writes it back, and a loaded record is a copy. \<open>uuid4\<close> values and
  clock readings are the arguments \<open>fresh\<close> and \<open>now\<close>. Published events are appended to
  \<open>am_out\<close>. The identity of a control message is the dump of the transport's
  \<open>TransportIdentity\<close>, whose fields are strings. A reply's text is \<open>Text\<close>, or
  \<open>Json\<close> of the dumped value.
\<close>

section \<open>Models\<close>

datatype provider = LOCAL | DISCORD

fun provider_value :: "provider \<Rightarrow> string" where
  "provider_value LOCAL = ''local''"
| "provider_value DISCORD = ''discord''"

definition provider_of :: "string \<Rightarrow> provider option" where
  "provider_of s = find (\<lambda>p. provider_value p = s) [LOCAL, DISCORD]"

lemma provider_of_value [simp]: "provider_of (provider_value p) = Some p"
  by (cases p) (simp_all add: provider_of_def)

record identity_msg =
  im_provider :: string
  im_subject :: string
  im_provider_name :: string
  im_metadata :: "(string, pyobj) dict"

record resolved_identity =
  ri_provider :: "provider option"
  ri_subject :: string
  ri_provider_name :: string
  ri_metadata :: "(string, pyobj) dict"

definition parse_identity :: "identity_msg option \<Rightarrow> resolved_identity" where
  "parse_identity im =
    (case im of
       None \<Rightarrow> \<lparr>ri_provider = None, ri_subject = '''', ri_provider_name = '''', ri_metadata = []\<rparr>
     | Some i \<Rightarrow>
        (case provider_of (im_provider i) of
           None \<Rightarrow> \<lparr>ri_provider = None, ri_subject = '''', ri_provider_name = '''', ri_metadata = im_metadata i\<rparr>
         | Some p \<Rightarrow> \<lparr>ri_provider = Some p, ri_subject = im_subject i,
                     ri_provider_name = im_provider_name i, ri_metadata = im_metadata i\<rparr>))"

record account =
  ac_id :: string
  ac_display_name :: string
  ac_created_at :: string
  ac_last_seen :: "string option"
  ac_profile :: "(string, pyobj) dict"

definition new_account :: "string \<Rightarrow> string \<Rightarrow> string \<Rightarrow> account" where
  "new_account fresh now name =
    \<lparr>ac_id = fresh, ac_display_name = name, ac_created_at = now, ac_last_seen = None, ac_profile = []\<rparr>"

record identity =
  id_provider :: provider
  id_subject :: string
  id_account :: string
  id_provider_name :: string
  id_linked_at :: string
  id_last_seen :: "string option"
  id_metadata :: "(string, pyobj) dict"

definition id_key :: "identity \<Rightarrow> provider \<times> string" where
  "id_key i = (id_provider i, id_subject i)"

datatype account_event =
    AccountCreated string string
  | AccountUpdated string string pyobj pyobj
  | IdentityLinked string provider string string

record account_manager =
  am_accounts :: "account list"
  am_identities :: "identity list"
  am_out :: "account_event list"

definition new_account_manager :: account_manager where
  "new_account_manager = \<lparr>am_accounts = [], am_identities = [], am_out = []\<rparr>"

section \<open>The store\<close>

definition add_account :: "account \<Rightarrow> account_manager \<Rightarrow> account_manager" where
  "add_account a s = s\<lparr>am_accounts := am_accounts s @ [a]\<rparr>"

definition update_account :: "account \<Rightarrow> account_manager \<Rightarrow> account_manager" where
  "update_account a s = s\<lparr>am_accounts := upd_first (\<lambda>x. ac_id x = ac_id a) (\<lambda>_. a) (am_accounts s)\<rparr>"

definition delete_account :: "string \<Rightarrow> account_manager \<Rightarrow> account_manager" where
  "delete_account aid s = s\<lparr>am_accounts := filter (\<lambda>a. ac_id a \<noteq> aid) (am_accounts s)\<rparr>"

definition find_account_by_id :: "string \<Rightarrow> account_manager \<Rightarrow> account option" where
  "find_account_by_id aid s = find (\<lambda>a. ac_id a = aid) (am_accounts s)"

definition add_identity :: "identity \<Rightarrow> account_manager \<Rightarrow> account_manager" where
  "add_identity i s = s\<lparr>am_identities := am_identities s @ [i]\<rparr>"

definition update_identity :: "identity \<Rightarrow> account_manager \<Rightarrow> account_manager" where
  "update_identity i s = s\<lparr>am_identities := upd_first (\<lambda>x. id_key x = id_key i) (\<lambda>_. i) (am_identities s)\<rparr>"

definition find_identity :: "provider \<times> string \<Rightarrow> account_manager \<Rightarrow> identity option" where
  "find_identity k s = find (\<lambda>i. id_key i = k) (am_identities s)"

definition find_identities_by_account :: "string \<Rightarrow> account_manager \<Rightarrow> identity list" where
  "find_identities_by_account aid s = filter (\<lambda>i. id_account i = aid) (am_identities s)"

interpretation accounts: deletable_store am_accounts ac_id add_account find_account_by_id update_account delete_account
  by unfold_locales (simp_all add: add_account_def find_account_by_id_def update_account_def delete_account_def)

interpretation identities: record_store am_identities id_key add_identity find_identity update_identity
  by unfold_locales (simp_all add: add_identity_def find_identity_def update_identity_def)

lemma store_frame [store_simps]:
  "am_identities (add_account a s) = am_identities s"
  "am_identities (update_account a s) = am_identities s"
  "am_identities (delete_account aid s) = am_identities s"
  "am_accounts (add_identity i s) = am_accounts s"
  "am_accounts (update_identity i s) = am_accounts s"
  by (simp_all add: add_account_def update_account_def delete_account_def add_identity_def update_identity_def)

definition account_publish :: "account_event \<Rightarrow> account_manager \<Rightarrow> account_manager" where
  "account_publish e s = s\<lparr>am_out := am_out s @ [e]\<rparr>"

lemma account_publish_frame [store_simps]:
  "am_accounts (account_publish e s) = am_accounts s"
  "am_identities (account_publish e s) = am_identities s"
  by (simp_all add: account_publish_def)

section \<open>The manager\<close>

definition register :: "string \<Rightarrow> string \<Rightarrow> string \<Rightarrow> account_manager \<Rightarrow> account \<times> account_manager" where
  "register fresh now name s =
    (let a = new_account fresh now name
     in (a, account_publish (AccountCreated (ac_id a) (ac_display_name a)) (add_account a s)))"

definition resolve :: "string \<Rightarrow> account_manager \<Rightarrow> account option" where
  "resolve aid s = find_account_by_id aid s"

definition resolve_display_name :: "string \<Rightarrow> account_manager \<Rightarrow> string" where
  "resolve_display_name aid s = (case resolve aid s of None \<Rightarrow> aid | Some a \<Rightarrow> ac_display_name a)"

definition get_account_by_identity :: "provider \<Rightarrow> string \<Rightarrow> account_manager \<Rightarrow> account option" where
  "get_account_by_identity p subj s =
    (case find_identity (p, subj) s of None \<Rightarrow> None | Some i \<Rightarrow> resolve (id_account i) s)"

definition meta_or :: "(string, pyobj) dict option \<Rightarrow> (string, pyobj) dict \<Rightarrow> (string, pyobj) dict" where
  "meta_or m d = (case m of None \<Rightarrow> d | Some x \<Rightarrow> if x = [] then d else x)"

definition default_name :: "string \<Rightarrow> provider \<Rightarrow> string \<Rightarrow> string" where
  "default_name pname p subj = or_else pname (provider_value p @ '':'' @ subj)"

definition link_identity :: "string \<Rightarrow> string \<Rightarrow> provider \<Rightarrow> string \<Rightarrow> string \<Rightarrow> (string, pyobj) dict option \<Rightarrow>
    account_manager \<Rightarrow> bool \<times> account_manager" where
  "link_identity now aid p subj pname meta s =
    (let existing = find_identity (p, subj) s
     in if (case existing of None \<Rightarrow> False | Some i \<Rightarrow> id_account i \<noteq> aid) then (False, s)
        else if resolve aid s = None then (False, s)
        else
          (let s1 = (case existing of
               Some i \<Rightarrow> update_identity (i\<lparr>id_provider_name := or_else pname (id_provider_name i),
                 id_metadata := meta_or meta (id_metadata i), id_last_seen := Some now\<rparr>) s
             | None \<Rightarrow> add_identity \<lparr>id_provider = p, id_subject = subj, id_account = aid, id_provider_name = pname,
                 id_linked_at = now, id_last_seen = Some now, id_metadata = meta_or meta []\<rparr> s)
           in (True, account_publish (IdentityLinked aid p subj pname) s1)))"

definition update_existing_identity :: "string \<Rightarrow> string \<Rightarrow> identity \<Rightarrow> provider \<Rightarrow> string \<Rightarrow> string \<Rightarrow>
    (string, pyobj) dict option \<Rightarrow> account_manager \<Rightarrow> account \<times> account_manager" where
  "update_existing_identity fresh now i p subj pname meta s =
    (let i1 = i\<lparr>id_provider_name := or_else pname (id_provider_name i),
              id_metadata := meta_or meta (id_metadata i), id_last_seen := Some now\<rparr>;
         s1 = update_identity i1 s
     in case resolve (id_account i1) s1 of
          Some a \<Rightarrow>
            (let a1 = a\<lparr>ac_last_seen := Some now,
                      ac_display_name := (if pname \<noteq> [] \<and> ac_display_name a = [] then pname else ac_display_name a)\<rparr>
             in (a1, update_account a1 s1))
        | None \<Rightarrow>
            (case register fresh now (default_name pname p subj) s1 of
               (a, s2) \<Rightarrow> (a, update_identity (i1\<lparr>id_account := ac_id a, id_last_seen := Some now\<rparr>) s2)))"

definition create_new_identity :: "string \<Rightarrow> string \<Rightarrow> provider \<Rightarrow> string \<Rightarrow> string \<Rightarrow>
    (string, pyobj) dict option \<Rightarrow> account_manager \<Rightarrow> account \<times> account_manager" where
  "create_new_identity fresh now p subj pname meta s =
    (case register fresh now (default_name pname p subj) s of
       (a, s1) \<Rightarrow> (a, snd (link_identity now (ac_id a) p subj pname meta s1)))"

definition resolve_or_create_identity :: "string \<Rightarrow> string \<Rightarrow> provider \<Rightarrow> string \<Rightarrow> string \<Rightarrow>
    (string, pyobj) dict option \<Rightarrow> account_manager \<Rightarrow> account \<times> account_manager" where
  "resolve_or_create_identity fresh now p subj pname meta s =
    (case find_identity (p, subj) s of
       Some i \<Rightarrow> update_existing_identity fresh now i p subj pname meta s
     | None \<Rightarrow> create_new_identity fresh now p subj pname meta s)"

definition update_display_name :: "string \<Rightarrow> string \<Rightarrow> string \<Rightarrow> account_manager \<Rightarrow> account_manager" where
  "update_display_name now aid name s =
    (case resolve aid s of None \<Rightarrow> s
     | Some a \<Rightarrow> account_publish (AccountUpdated aid ''display_name'' (PStr (ac_display_name a)) (PStr name))
         (update_account (a\<lparr>ac_display_name := name, ac_last_seen := Some now\<rparr>) s))"

definition update_last_seen :: "string \<Rightarrow> string \<Rightarrow> account_manager \<Rightarrow> account_manager" where
  "update_last_seen now aid s =
    (case resolve aid s of None \<Rightarrow> s | Some a \<Rightarrow> update_account (a\<lparr>ac_last_seen := Some now\<rparr>) s)"

text \<open>The loop sets the fields of the loaded copy and publishes each change; the copy is
  written back at the end.\<close>

fun profile_loop :: "string \<Rightarrow> (string, pyobj) dict \<Rightarrow> (string, pyobj) dict \<Rightarrow> account_manager \<Rightarrow>
    (string, pyobj) dict \<times> account_manager" where
  "profile_loop aid [] prof s = (prof, s)"
| "profile_loop aid ((k, v) # fs) prof s =
    profile_loop aid fs (dput k v prof)
      (account_publish (AccountUpdated aid (''profile.'' @ k) (dget_or prof k PNone) v) s)"

definition apply_profile_update :: "string \<Rightarrow> string \<Rightarrow> (string, pyobj) dict \<Rightarrow> account_manager \<Rightarrow> account_manager" where
  "apply_profile_update now aid flds s =
    (if flds = [] then s
     else case resolve aid s of None \<Rightarrow> s
       | Some a \<Rightarrow>
          (case profile_loop aid flds (ac_profile a) s of
             (prof, s1) \<Rightarrow> update_account (a\<lparr>ac_profile := prof, ac_last_seen := Some now\<rparr>) s1))"

text \<open>\<open>update_profile(self, account_id, **fields)\<close>: a field named like one of the
  parameters is a \<open>TypeError\<close> of the call.\<close>

definition update_profile :: "string \<Rightarrow> string \<Rightarrow> (string, pyobj) dict \<Rightarrow> account_manager \<Rightarrow> account_manager option" where
  "update_profile now aid flds s =
    (if \<exists>k \<in> set (dkeys flds). k = ''self'' \<or> k = ''account_id'' then None
     else Some (apply_profile_update now aid flds s))"

section \<open>The dispatcher\<close>

record control_message =
  cm_action :: string
  cm_account_id :: string
  cm_room_id :: string
  cm_display_name :: string
  cm_text :: string
  cm_identity :: "identity_msg option"
  cm_profile :: "(string, pyobj) dict option"

datatype reply_text = Text string | Json pyobj

record control_reply =
  cr_source :: string
  cr_action :: string
  cr_account_id :: string
  cr_room_id :: string
  cr_display_name :: string
  cr_identity :: "identity_msg option"
  cr_text :: reply_text

definition reply :: "string \<Rightarrow> string \<Rightarrow> string \<Rightarrow> string \<Rightarrow> string \<Rightarrow> identity_msg option \<Rightarrow> reply_text \<Rightarrow> control_reply" where
  "reply src act aid rid nm idm txt =
    \<lparr>cr_source = src, cr_action = act, cr_account_id = aid, cr_room_id = rid, cr_display_name = nm,
     cr_identity = idm, cr_text = txt\<rparr>"

definition error_reply :: "string \<Rightarrow> string \<Rightarrow> string \<Rightarrow> control_reply" where
  "error_reply src act msg = reply src act '''' '''' '''' None (Text (''Error: '' @ msg))"

definition opt_str :: "string option \<Rightarrow> pyobj" where
  "opt_str x = (case x of None \<Rightarrow> PNone | Some s \<Rightarrow> PStr s)"

definition identity_dump :: "identity \<Rightarrow> pyobj" where
  "identity_dump i = PDict
    [(''provider'', PStr (provider_value (id_provider i))), (''subject'', PStr (id_subject i)),
     (''account_id'', PStr (id_account i)), (''provider_name'', PStr (id_provider_name i)),
     (''linked_at'', PStr (id_linked_at i)), (''last_seen'', opt_str (id_last_seen i)),
     (''metadata'', PDict (id_metadata i))]"

definition account_dump :: "account \<Rightarrow> identity list \<Rightarrow> pyobj" where
  "account_dump a is = PDict
    [(''account_id'', PStr (ac_id a)), (''display_name'', PStr (ac_display_name a)),
     (''created_at'', PStr (ac_created_at a)), (''last_seen'', opt_str (ac_last_seen a)),
     (''profile'', PDict (ac_profile a)), (''identities'', PList (map identity_dump is))]"

definition identify_message_speaker :: "string \<Rightarrow> string \<Rightarrow> identity_msg option \<Rightarrow> account_manager \<Rightarrow>
    (string \<times> string) \<times> account_manager" where
  "identify_message_speaker fresh now im s =
    (let r = parse_identity im
     in case ri_provider r of
          None \<Rightarrow> (('''', ''''), s)
        | Some p \<Rightarrow>
           if ri_subject r = [] then (('''', ''''), s)
           else case resolve_or_create_identity fresh now p (ri_subject r) (ri_provider_name r) (Some (ri_metadata r)) s of
                  (a, s1) \<Rightarrow> ((ac_id a, ac_display_name a), s1))"

definition handle_identify :: "string \<Rightarrow> string \<Rightarrow> control_message \<Rightarrow> account_manager \<Rightarrow> control_reply \<times> account_manager" where
  "handle_identify fresh now msg s =
    (let r = parse_identity (cm_identity msg);
         err = (error_reply ''account'' ''account.identify'' ''identity.provider and identity.subject required'', s)
     in case ri_provider r of
          None \<Rightarrow> err
        | Some p \<Rightarrow>
           if ri_subject r = [] then err
           else case resolve_or_create_identity fresh now p (ri_subject r)
                       (or_else (ri_provider_name r) (cm_display_name msg)) (Some (ri_metadata r)) s of
                  (a, s1) \<Rightarrow> (reply ''account'' ''account.identified'' (ac_id a) '''' (ac_display_name a) (cm_identity msg)
                     (Text (''Identified: '' @ ac_display_name a)), s1))"

definition resolve_target_account :: "control_message \<Rightarrow> account_manager \<Rightarrow> account option" where
  "resolve_target_account msg s =
    (case (if cm_account_id msg \<noteq> [] then resolve (cm_account_id msg) s else None) of
       Some a \<Rightarrow> Some a
     | None \<Rightarrow>
        (let r = parse_identity (cm_identity msg)
         in case ri_provider r of None \<Rightarrow> None
            | Some p \<Rightarrow> if ri_subject r = [] then None else get_account_by_identity p (ri_subject r) s))"

definition handle_profile :: "control_message \<Rightarrow> account_manager \<Rightarrow> control_reply \<times> account_manager" where
  "handle_profile msg s =
    (case resolve_target_account msg s of
       None \<Rightarrow> (error_reply ''account'' ''account.profile'' ''not identified'', s)
     | Some a \<Rightarrow> (reply ''account'' ''account.profile'' (ac_id a) '''' (ac_display_name a) None
         (Json (account_dump a (find_identities_by_account (ac_id a) s))), s))"

datatype 'a raised = Ok 'a | TypeError

text \<open>The second component is the state a raised \<open>TypeError\<close> leaves behind.\<close>

definition handle_update :: "string \<Rightarrow> control_message \<Rightarrow> account_manager \<Rightarrow> control_reply raised \<times> account_manager" where
  "handle_update now msg s =
    (case resolve_target_account msg s of
       None \<Rightarrow> (Ok (error_reply ''account'' ''account.update'' ''not identified''), s)
     | Some a \<Rightarrow>
        (let renamed = cm_display_name msg \<noteq> [];
             s1 = (if renamed then update_display_name now (ac_id a) (cm_display_name msg) s else s);
             nm = (if renamed then cm_display_name msg else ac_display_name a);
             done = (\<lambda>s2. (Ok (reply ''account'' ''account.updated'' (ac_id a) '''' nm None (Text (''Updated: '' @ nm))), s2))
         in case cm_profile msg of
              None \<Rightarrow> done s1
            | Some prof \<Rightarrow>
               if prof = [] then done s1
               else (case update_profile now (ac_id a) prof s1 of None \<Rightarrow> (TypeError, s1) | Some s2 \<Rightarrow> done s2)))"

definition handle_link :: "string \<Rightarrow> control_message \<Rightarrow> account_manager \<Rightarrow> control_reply \<times> account_manager" where
  "handle_link now msg s =
    (case resolve_target_account msg s of
       None \<Rightarrow> (error_reply ''account'' ''account.link'' ''not identified'', s)
     | Some a \<Rightarrow>
        (let r = parse_identity (cm_identity msg);
             err = (error_reply ''account'' ''account.link'' ''identity.provider and identity.subject required'', s)
         in case ri_provider r of
              None \<Rightarrow> err
            | Some p \<Rightarrow>
               if ri_subject r = [] then err
               else (case link_identity now (ac_id a) p (ri_subject r) (ri_provider_name r) (Some (ri_metadata r)) s of
                       (False, s1) \<Rightarrow> (error_reply ''account'' ''account.link'' ''identity already linked'', s1)
                     | (True, s1) \<Rightarrow>
                         (reply ''account'' ''account.linked'' (ac_id a) '''' (ac_display_name a) (cm_identity msg)
                            (Text (''Linked identity: '' @ provider_value p @ '':'' @ ri_subject r)), s1))))"

definition account_handle :: "string \<Rightarrow> string \<Rightarrow> control_message \<Rightarrow> account_manager \<Rightarrow>
    control_reply option raised \<times> account_manager" where
  "account_handle fresh now msg s =
    (if cm_action msg = ''account.identify'' then (case handle_identify fresh now msg s of (r, s1) \<Rightarrow> (Ok (Some r), s1))
     else if cm_action msg = ''account.profile'' then (case handle_profile msg s of (r, s1) \<Rightarrow> (Ok (Some r), s1))
     else if cm_action msg = ''account.update'' then
       (case handle_update now msg s of (Ok r, s1) \<Rightarrow> (Ok (Some r), s1) | (TypeError, s1) \<Rightarrow> (TypeError, s1))
     else if cm_action msg = ''account.link'' then (case handle_link now msg s of (r, s1) \<Rightarrow> (Ok (Some r), s1))
     else (Ok None, s))"

section \<open>What every operation keeps\<close>

definition account_inv :: "account_manager \<Rightarrow> bool" where
  "account_inv s \<longleftrightarrow> distinct (map ac_id (am_accounts s)) \<and> distinct (map id_key (am_identities s))"

lemma account_inv_update_account [inv_intros]: "account_inv s \<Longrightarrow> account_inv (update_account a s)"
  using accounts.distinct_put [of s a] by (simp add: account_inv_def store_simps)

lemma account_inv_update_identity [inv_intros]: "account_inv s \<Longrightarrow> account_inv (update_identity i s)"
  using identities.distinct_put [of s i] by (simp add: account_inv_def store_simps)

lemma account_inv_add_identity [inv_intros]:
  "account_inv s \<Longrightarrow> find_identity (id_key i) s = None \<Longrightarrow> account_inv (add_identity i s)"
  using identities.distinct_add [of s i] by (simp add: account_inv_def store_simps)

lemma account_inv_publish [inv_intros]: "account_inv s \<Longrightarrow> account_inv (account_publish e s)"
  by (simp add: account_inv_def store_simps)

lemma account_inv_delete [inv_intros]: "account_inv s \<Longrightarrow> account_inv (delete_account aid s)"
  using accounts.distinct_del [of s aid] by (simp add: account_inv_def store_simps)

lemma register_simps [simp]:
  "fst (register fresh now name s) = new_account fresh now name"
  "am_identities (snd (register fresh now name s)) = am_identities s"
  "am_accounts (snd (register fresh now name s)) = am_accounts s @ [new_account fresh now name]"
  by (simp_all add: register_def Let_def store_simps add_account_def)

lemma new_account_id [simp]: "ac_id (new_account fresh now name) = fresh"
  "ac_display_name (new_account fresh now name) = name"
  by (simp_all add: new_account_def)

lemma account_inv_register [inv_intros]:
  "account_inv s \<Longrightarrow> resolve fresh s = None \<Longrightarrow> account_inv (snd (register fresh now name s))"
  by (simp add: account_inv_def resolve_def accounts.lookup_None)

lemma account_inv_link [inv_intros]: "account_inv s \<Longrightarrow> account_inv (snd (link_identity now aid p subj pname meta s))"
  by (auto simp: link_identity_def Let_def id_key_def intro!: inv_intros split: option.splits)

lemma find_identity_register [simp]: "find_identity k (snd (register fresh now name s)) = find_identity k s"
  by (simp add: find_identity_def)

lemma account_inv_resolve_or_create [inv_intros]:
  assumes "account_inv s" and "resolve fresh s = None"
  shows "account_inv (snd (resolve_or_create_identity fresh now p subj pname meta s))"
proof (cases "find_identity (p, subj) s")
  case None
  with assms show ?thesis
    by (auto simp: resolve_or_create_identity_def create_new_identity_def intro!: inv_intros split: prod.split)
      (metis account_inv_link account_inv_register snd_conv)
next
  case (Some i)
  have r: "resolve fresh (update_identity i' s) = None" for i'
    using assms(2) by (simp add: resolve_def find_account_by_id_def store_simps)
  show ?thesis
    unfolding resolve_or_create_identity_def Some option.case update_existing_identity_def Let_def
    using assms(1) account_inv_register [OF _ r]
    by (auto intro!: inv_intros split: option.split prod.split) (metis account_inv_update_identity snd_conv)
qed

lemma account_inv_update_display_name [inv_intros]: "account_inv s \<Longrightarrow> account_inv (update_display_name now aid name s)"
  by (auto simp: update_display_name_def intro!: inv_intros split: option.split)

lemma account_inv_update_last_seen [inv_intros]: "account_inv s \<Longrightarrow> account_inv (update_last_seen now aid s)"
  by (auto simp: update_last_seen_def intro!: inv_intros split: option.split)

lemma profile_loop_frame [store_simps]:
  "am_accounts (snd (profile_loop aid fs prof s)) = am_accounts s"
  "am_identities (snd (profile_loop aid fs prof s)) = am_identities s"
  by (induction aid fs prof s rule: profile_loop.induct) (simp_all add: store_simps)

lemma account_inv_profile_loop [inv_intros]: "account_inv s \<Longrightarrow> account_inv (snd (profile_loop aid fs prof s))"
  by (simp add: account_inv_def store_simps)

lemma account_inv_update_profile [inv_intros]:
  assumes "account_inv s" and "update_profile now aid fs s = Some s'"
  shows "account_inv s'"
proof -
  have "account_inv (apply_profile_update now aid fs s)"
    using assms(1) account_inv_profile_loop [OF assms(1)]
    by (auto simp: apply_profile_update_def intro!: inv_intros split: option.split prod.split)
      (metis account_inv_update_account snd_conv)
  with assms(2) show ?thesis by (simp add: update_profile_def split: if_splits)
qed

text \<open>Every way the manager's state changes; a fresh id is one no account has.\<close>

inductive account_step :: "account_manager \<Rightarrow> account_manager \<Rightarrow> bool" where
  step_register: "resolve fresh s = None \<Longrightarrow> account_step s (snd (register fresh now name s))"
| step_resolve: "resolve fresh s = None \<Longrightarrow>
    account_step s (snd (resolve_or_create_identity fresh now p subj pname meta s))"
| step_link: "account_step s (snd (link_identity now aid p subj pname meta s))"
| step_display_name: "account_step s (update_display_name now aid name s)"
| step_last_seen: "account_step s (update_last_seen now aid s)"
| step_profile: "update_profile now aid fs s = Some s' \<Longrightarrow> account_step s s'"
| step_delete: "account_step s (delete_account aid s)"

inductive_cases account_stepE: "account_step s s'"

lemma account_step_inv: "account_step s s' \<Longrightarrow> account_inv s \<Longrightarrow> account_inv s'"
  by (erule account_stepE) (auto intro: inv_intros)

lemma account_reachable_inv: "account_step\<^sup>*\<^sup>* s s' \<Longrightarrow> account_inv s \<Longrightarrow> account_inv s'"
  by (induction rule: rtranclp_induct) (auto intro: account_step_inv)

section \<open>Resolving an identity\<close>

lemma link_new_identity:
  assumes "find_identity (p, subj) s = None" and "resolve aid s \<noteq> None"
  shows "\<exists>i. id_key i = (p, subj) \<and> id_account i = aid \<and>
    am_identities (snd (link_identity now aid p subj pname meta s)) = am_identities s @ [i] \<and>
    am_accounts (snd (link_identity now aid p subj pname meta s)) = am_accounts s"
  using assms by (simp add: link_identity_def Let_def store_simps add_identity_def id_key_def)

lemma create_new_spec:
  assumes new: "find_identity (p, subj) s = None" and fresh: "resolve fresh s = None"
    and r: "create_new_identity fresh now p subj pname meta s = (a, s1)"
  shows "get_account_by_identity p subj s1 = Some a"
    and "k \<noteq> (p, subj) \<Longrightarrow> find_identity k s1 = find_identity k s"
proof -
  let ?s = "snd (register fresh now (default_name pname p subj) s)"
  have a: "a = new_account fresh now (default_name pname p subj)"
    and s1: "s1 = snd (link_identity now fresh p subj pname meta ?s)"
    using r by (auto simp: create_new_identity_def register_def Let_def)
  have f: "resolve fresh ?s = Some a"
    using fresh by (simp add: a resolve_def find_account_by_id_def find_append)
  obtain i where i: "id_key i = (p, subj)" "id_account i = fresh"
    "am_identities s1 = am_identities s @ [i]" "am_accounts s1 = am_accounts ?s"
    using link_new_identity [of p subj ?s fresh now pname meta] new f s1 by auto
  have "find_identity (p, subj) s1 = Some i"
    using new i by (simp add: find_identity_def find_append)
  moreover have "resolve fresh s1 = Some a"
    using f i(4) by (simp add: resolve_def find_account_by_id_def)
  ultimately show "get_account_by_identity p subj s1 = Some a"
    by (simp add: get_account_by_identity_def i(2))
  show "find_identity k s1 = find_identity k s" if "k \<noteq> (p, subj)"
    using that i by (simp add: find_identity_def find_append split: option.split)
qed

lemma find_identity_update_other: "k \<noteq> id_key i \<Longrightarrow> find_identity k (update_identity i s) = find_identity k s"
  using identities.lookup_put [of k i s] by auto

lemma find_identity_update_account [simp]: "find_identity k (update_account a s) = find_identity k s"
  by (simp add: find_identity_def store_simps)

lemma update_existing_spec:
  assumes i: "find_identity (p, subj) s = Some i" and fresh: "resolve fresh s = None"
    and r: "update_existing_identity fresh now i p subj pname meta s = (a, s1)"
  shows "get_account_by_identity p subj s1 = Some a"
    and "k \<noteq> (p, subj) \<Longrightarrow> find_identity k s1 = find_identity k s"
proof -
  define i1 where "i1 = i\<lparr>id_provider_name := or_else pname (id_provider_name i),
    id_metadata := meta_or meta (id_metadata i), id_last_seen := Some now\<rparr>"
  let ?s = "update_identity i1 s"
  have k: "id_key i1 = (p, subj)" and acc: "id_account i1 = id_account i"
    using identities.lookup_SomeD [OF i] by (simp_all add: i1_def id_key_def)
  have fi: "find_identity (p, subj) ?s = Some i1"
    using identities.lookup_put [of "(p, subj)" i1 s] i k by simp
  have "get_account_by_identity p subj s1 = Some a \<and> (k \<noteq> (p, subj) \<longrightarrow> find_identity k s1 = find_identity k s)"
  proof (cases "resolve (id_account i) ?s")
    case (Some b)
    have "ac_id b = id_account i"
      using accounts.lookup_SomeD [of "id_account i" ?s b] Some by (simp add: resolve_def)
    then have a: "ac_id a = id_account i" and s1: "s1 = update_account a ?s"
      using r Some by (auto simp: update_existing_identity_def Let_def i1_def [symmetric] acc)
    have "resolve (id_account i) s1 = Some a"
      using accounts.lookup_put [of "ac_id a" a ?s] Some by (simp add: s1 resolve_def a)
    with fi show ?thesis
      by (simp add: get_account_by_identity_def s1 acc find_identity_update_other k)
  next
    case None
    let ?r = "snd (register fresh now (default_name pname p subj) ?s)"
    let ?i' = "i1\<lparr>id_account := fresh, id_last_seen := Some now\<rparr>"
    have a: "a = new_account fresh now (default_name pname p subj)" and s1: "s1 = update_identity ?i' ?r"
      using r None by (auto simp: update_existing_identity_def register_def Let_def i1_def [symmetric] acc)
    have k': "id_key ?i' = (p, subj)" using k by (simp add: id_key_def)
    have "find_identity (p, subj) s1 = Some ?i'"
      using identities.lookup_put [of "(p, subj)" ?i' ?r] fi k' by (simp add: s1)
    moreover have "resolve fresh s1 = Some a"
      using fresh by (simp add: s1 a resolve_def find_account_by_id_def store_simps find_append)
    ultimately show ?thesis
      by (simp add: get_account_by_identity_def) (simp add: s1 find_identity_update_other k k')
  qed
  then show "get_account_by_identity p subj s1 = Some a"
    and "k \<noteq> (p, subj) \<Longrightarrow> find_identity k s1 = find_identity k s" by blast+
qed

lemma resolve_or_create_spec:
  assumes "resolve fresh s = None"
    and "resolve_or_create_identity fresh now p subj pname meta s = (a, s1)"
  shows "get_account_by_identity p subj s1 = Some a"
    and "k \<noteq> (p, subj) \<Longrightarrow> find_identity k s1 = find_identity k s"
proof -
  have "get_account_by_identity p subj s1 = Some a \<and> (k \<noteq> (p, subj) \<longrightarrow> find_identity k s1 = find_identity k s)"
  proof (cases "find_identity (p, subj) s")
    case None
    then have "create_new_identity fresh now p subj pname meta s = (a, s1)"
      using assms(2) by (simp add: resolve_or_create_identity_def)
    from create_new_spec [OF None assms(1) this] show ?thesis by blast
  next
    case (Some i)
    then have "update_existing_identity fresh now i p subj pname meta s = (a, s1)"
      using assms(2) by (simp add: resolve_or_create_identity_def)
    from update_existing_spec [OF Some assms(1) this] show ?thesis by blast
  qed
  then show "get_account_by_identity p subj s1 = Some a"
    and "k \<noteq> (p, subj) \<Longrightarrow> find_identity k s1 = find_identity k s" by blast+
qed

lemma resolve_known_identity:
  assumes "get_account_by_identity p subj s = Some a"
  shows "ac_id (fst (resolve_or_create_identity fresh now p subj pname meta s)) = ac_id a"
    and "map ac_id (am_accounts (snd (resolve_or_create_identity fresh now p subj pname meta s))) = map ac_id (am_accounts s)"
    and "map id_key (am_identities (snd (resolve_or_create_identity fresh now p subj pname meta s))) = map id_key (am_identities s)"
proof -
  obtain i where i: "find_identity (p, subj) s = Some i" "resolve (id_account i) s = Some a"
    using assms by (auto simp: get_account_by_identity_def split: option.splits)
  have r: "resolve (id_account i) (update_identity j s) = Some a" for j
    using i(2) by (simp add: resolve_def find_account_by_id_def store_simps)
  show "ac_id (fst (resolve_or_create_identity fresh now p subj pname meta s)) = ac_id a"
    "map ac_id (am_accounts (snd (resolve_or_create_identity fresh now p subj pname meta s))) = map ac_id (am_accounts s)"
    "map id_key (am_identities (snd (resolve_or_create_identity fresh now p subj pname meta s))) = map id_key (am_identities s)"
    by (simp_all add: resolve_or_create_identity_def i(1) update_existing_identity_def Let_def r
        accounts.keys_put identities.keys_put store_simps)
qed

section \<open>Claims\<close>

text \<open>
  C26: however the account manager is used, an account id names at most one account and an
  external identity is linked at most once.
\<close>

theorem accounts_and_identities_unique:
  assumes "account_step\<^sup>*\<^sup>* new_account_manager s"
  shows "distinct (map ac_id (am_accounts s)) \<and> distinct (map id_key (am_identities s))"
  using account_reachable_inv [OF assms] by (simp add: account_inv_def new_account_manager_def)

theorem accounts_and_identities_unique_witness:
  "distinct (map ac_id (am_accounts (snd (register ''a1'' ''now'' ''Ann'' new_account_manager))))"
  by (rule conjunct1 [OF accounts_and_identities_unique], rule r_into_rtranclp, rule step_register)
    (simp add: resolve_def find_account_by_id_def new_account_manager_def)

text \<open>
  resolving an external identity always yields the account it is then linked to, creating
  or relinking it if need be; resolving it again yields the same account and creates neither an
  account nor an identity; other identities keep their accounts.
\<close>

theorem resolve_or_create_stable:
  assumes "resolve fresh s = None"
    and "resolve_or_create_identity fresh now p subj pname meta s = (a, s1)"
  shows "get_account_by_identity p subj s1 = Some a \<and>
    (\<forall>k. k \<noteq> (p, subj) \<longrightarrow> find_identity k s1 = find_identity k s) \<and>
    (\<forall>fresh' now' pname' meta'. case resolve_or_create_identity fresh' now' p subj pname' meta' s1 of (a', s2) \<Rightarrow>
       ac_id a' = ac_id a \<and> map ac_id (am_accounts s2) = map ac_id (am_accounts s1) \<and>
       map id_key (am_identities s2) = map id_key (am_identities s1))"
proof -
  have g: "get_account_by_identity p subj s1 = Some a" by (rule resolve_or_create_spec(1) [OF assms])
  show ?thesis
    using g resolve_or_create_spec(2) [OF assms] resolve_known_identity [OF g] by (simp add: case_prod_beta)
qed

text \<open>
  linking never takes an identity away from its account: it refuses an identity that
  another account holds and changes nothing, and whatever it does, a linked identity stays with the
  account it was linked to.
\<close>

theorem link_never_steals:
  assumes "find_identity k s = Some i"
  shows "map_option id_account (find_identity k (snd (link_identity now aid p subj pname meta s))) = Some (id_account i) \<and>
    (k = (p, subj) \<and> id_account i \<noteq> aid \<longrightarrow> link_identity now aid p subj pname meta s = (False, s))"
proof (cases "k = (p, subj)")
  case True
  let ?j = "i\<lparr>id_provider_name := or_else pname (id_provider_name i), id_metadata := meta_or meta (id_metadata i),
    id_last_seen := Some now\<rparr>"
  have "id_key i = (p, subj)" using identities.lookup_SomeD [OF assms] True by simp
  then have kj: "id_key ?j = (p, subj)" by (simp add: id_key_def)
  have "find_identity (p, subj) (update_identity ?j s) = Some ?j"
    using identities.lookup_put [of "(p, subj)" ?j s] assms True kj by simp
  then show ?thesis
    using assms True by (simp add: link_identity_def Let_def find_identity_def [of _ "account_publish _ _"] store_simps)
      (simp add: find_identity_def [symmetric])
next
  case False
  have pub: "find_identity k (account_publish e t) = find_identity k t" for e t
    by (simp add: find_identity_def store_simps)
  have add: "find_identity k (add_identity j s) = Some i" for j
    using assms by (simp add: find_identity_def add_identity_def find_append)
  have upd: "find_identity k (update_identity j s) = Some i" if "id_key j = (p, subj)" for j
    using find_identity_update_other [of k j s] that False assms by simp
  have key: "id_key j = (p, subj)" if "find_identity (p, subj) s = Some j" for j
    using identities.lookup_SomeD [OF that] by simp
  have "find_identity k (snd (link_identity now aid p subj pname meta s)) = Some i"
  proof (cases "find_identity (p, subj) s")
    case None
    then show ?thesis using assms by (simp add: link_identity_def Let_def pub add)
  next
    case (Some j)
    have "id_key (j\<lparr>id_provider_name := x, id_metadata := y, id_last_seen := z\<rparr>) = (p, subj)" for x y z
      using key [OF Some] by (simp add: id_key_def)
    then show ?thesis using Some assms by (simp add: link_identity_def Let_def pub upd)
  qed
  with False show ?thesis by simp
qed

definition ann_linked :: account_manager where
  "ann_linked = snd (resolve_or_create_identity ''a1'' ''now'' DISCORD ''42'' ''Ann'' None new_account_manager)"

text \<open>
  The field names of a profile become keyword arguments: one called \<open>account_id\<close> or
  \<open>self\<close> raises, after the display name has been changed.
\<close>

lemma profile_field_raises:
  assumes "resolve_target_account msg s = Some a" and "cm_profile msg = Some prof"
    and "k \<in> {''account_id'', ''self''}" and "k \<in> set (dkeys prof)"
  shows "account_handle fresh now (msg\<lparr>cm_action := ''account.update''\<rparr>) s =
    (TypeError, if cm_display_name msg \<noteq> [] then update_display_name now (ac_id a) (cm_display_name msg) s else s)"
proof -
  have "resolve_target_account (msg\<lparr>cm_action := x\<rparr>) s = resolve_target_account msg s" for x
    by (simp add: resolve_target_account_def Let_def split: option.split)
  moreover have "update_profile now (ac_id a) prof t = None" for t
    using assms(3,4) unfolding update_profile_def by (auto simp del: set_map)
  moreover have "prof \<noteq> []" using assms(4) by auto
  ultimately show ?thesis
    using assms(1,2) by (simp add: account_handle_def handle_update_def Let_def)
qed

end
