(* ===== verification/Room_Store.thy ===== *)
theory Room_Store
  imports Account
begin

text \<open>
  Rooms and memberships (\<open>iris/room/models.py\<close>), their in-memory store
  (\<open>store.py\<close>), the normalisation of updated fields (\<open>field_coercion.py\<close>) and the batching
  of join events (\<open>batcher.py\<close>).

  The store's lists hold the very objects the manager changes, so changing an object that was found
  by its key is replacing the first match. An event is a constructor with the fields the code sets;
  its time stamp is left out. A member's \<open>last_active\<close>, which nothing
  writes, is left out too.
\<close>

section \<open>Models\<close>

datatype room_state = ACTIVE | ARCHIVED

definition room_state_of :: "string \<Rightarrow> room_state option" where
  "room_state_of s = (if s = ''active'' then Some ACTIVE else if s = ''archived'' then Some ARCHIVED else None)"

record room =
  ro_id :: string
  ro_name :: string
  ro_description :: string
  ro_topic :: string
  ro_state :: room_state
  ro_created_by :: string
  ro_created_at :: string
  ro_updated_at :: "string option"
  ro_metadata :: "(string, pyobj) dict"

record member =
  me_room :: string
  me_account :: string
  me_sessions :: "string list"
  me_role :: string
  me_joined_at :: string
  me_disconnected :: "string option"

definition me_active :: "member \<Rightarrow> bool" where
  "me_active m \<longleftrightarrow> me_disconnected m = None"

definition me_key :: "member \<Rightarrow> string \<times> string" where
  "me_key m = (me_room m, me_account m)"

datatype field_value = FStr string | FState room_state | FDict "(string, pyobj) dict" | FOther

record joined =
  jo_room :: string
  jo_account :: string
  jo_display_name :: string

datatype room_event =
    RoomCreated string string string
  | RoomDeleted string
  | RoomUpdated string string field_value field_value
  | RoomJoined joined
  | RoomJoinedBatch string "joined list" nat
  | RoomLeft string string string

section \<open>The store\<close>

record room_store =
  rs_rooms :: "room list"
  rs_members :: "member list"

definition new_room_store :: room_store where
  "new_room_store = \<lparr>rs_rooms = [], rs_members = []\<rparr>"

definition add_room :: "room \<Rightarrow> room_store \<Rightarrow> room_store" where
  "add_room r s = s\<lparr>rs_rooms := rs_rooms s @ [r]\<rparr>"

definition put_room :: "room \<Rightarrow> room_store \<Rightarrow> room_store" where
  "put_room r s = s\<lparr>rs_rooms := upd_first (\<lambda>x. ro_id x = ro_id r) (\<lambda>_. r) (rs_rooms s)\<rparr>"

definition store_delete_room :: "string \<Rightarrow> room_store \<Rightarrow> room_store" where
  "store_delete_room rid s =
    s\<lparr>rs_rooms := filter (\<lambda>r. ro_id r \<noteq> rid) (rs_rooms s),
      rs_members := filter (\<lambda>m. me_room m \<noteq> rid) (rs_members s)\<rparr>"

definition add_member :: "member \<Rightarrow> room_store \<Rightarrow> room_store" where
  "add_member m s = s\<lparr>rs_members := rs_members s @ [m]\<rparr>"

definition put_member :: "member \<Rightarrow> room_store \<Rightarrow> room_store" where
  "put_member m s = s\<lparr>rs_members := upd_first (\<lambda>x. me_key x = me_key m) (\<lambda>_. m) (rs_members s)\<rparr>"

definition remove_member :: "string \<times> string \<Rightarrow> room_store \<Rightarrow> room_store" where
  "remove_member k s = s\<lparr>rs_members := filter (\<lambda>m. me_key m \<noteq> k) (rs_members s)\<rparr>"

definition find_room_by_id :: "string \<Rightarrow> room_store \<Rightarrow> room option" where
  "find_room_by_id rid s = find (\<lambda>r. ro_id r = rid) (rs_rooms s)"

definition find_rooms_by_state :: "room_state \<Rightarrow> room_store \<Rightarrow> room list" where
  "find_rooms_by_state st s = filter (\<lambda>r. ro_state r = st) (rs_rooms s)"

definition find_active_rooms :: "room_store \<Rightarrow> room list" where
  "find_active_rooms s = filter (\<lambda>r. ro_state r = ACTIVE) (rs_rooms s)"

definition find_member :: "string \<times> string \<Rightarrow> room_store \<Rightarrow> member option" where
  "find_member k s = find (\<lambda>m. me_key m = k) (rs_members s)"

definition find_members_by_room :: "string \<Rightarrow> room_store \<Rightarrow> member list" where
  "find_members_by_room rid s = filter (\<lambda>m. me_room m = rid \<and> me_active m) (rs_members s)"

definition find_active_members_containing_session :: "string \<Rightarrow> room_store \<Rightarrow> member list" where
  "find_active_members_containing_session sid s = filter (\<lambda>m. sid \<in> set (me_sessions m) \<and> me_active m) (rs_members s)"

definition find_all_session_ids_for_room :: "string \<Rightarrow> room_store \<Rightarrow> string list" where
  "find_all_session_ids_for_room rid s =
    concat (map me_sessions (filter (\<lambda>m. me_room m = rid \<and> me_active m) (rs_members s)))"

definition find_active_members_by_account :: "string \<Rightarrow> room_store \<Rightarrow> member list" where
  "find_active_members_by_account aid s = filter (\<lambda>m. me_account m = aid \<and> me_active m) (rs_members s)"

definition find_rooms_by_account :: "string \<Rightarrow> room_store \<Rightarrow> room list" where
  "find_rooms_by_account aid s =
    (let ids = map me_room (find_active_members_by_account aid s)
     in filter (\<lambda>r. ro_id r \<in> set ids \<and> ro_state r = ACTIVE) (rs_rooms s))"

interpretation rooms: record_store rs_rooms ro_id add_room find_room_by_id put_room
  by unfold_locales (simp_all add: add_room_def find_room_by_id_def put_room_def)

interpretation rooms_del: deletable_store rs_rooms ro_id add_room find_room_by_id put_room store_delete_room
  by unfold_locales (simp_all add: store_delete_room_def)

interpretation members: deletable_store rs_members me_key add_member find_member put_member remove_member
  by unfold_locales (simp_all add: add_member_def find_member_def put_member_def remove_member_def)

lemma room_store_frame [store_simps]:
  "rs_members (add_room r s) = rs_members s" "rs_members (put_room r s) = rs_members s"
  "rs_rooms (add_member m s) = rs_rooms s" "rs_rooms (put_member m s) = rs_rooms s"
  "rs_rooms (remove_member k s) = rs_rooms s"
  by (simp_all add: add_room_def put_room_def add_member_def put_member_def remove_member_def)

lemma find_member_delete_room:
  "find_member (rid', aid) (store_delete_room rid s) = (if rid' = rid then None else find_member (rid', aid) s)"
proof -
  have "find (\<lambda>m. me_key m = (rid', aid)) (filter (\<lambda>m. me_room m \<noteq> rid) ms) =
      (if rid' = rid then None else find (\<lambda>m. me_key m = (rid', aid)) ms)" for ms
    by (induction ms) (auto simp: me_key_def)
  then show ?thesis by (simp add: find_member_def store_delete_room_def)
qed

section \<open>Normalising an updated field\<close>

datatype room_error = UnknownField string | InvalidState | NotAnObject | NotAString string | NoSuchRoom string

definition get_field :: "room \<Rightarrow> string \<Rightarrow> field_value" where
  "get_field r k =
    (if k = ''name'' then FStr (ro_name r) else if k = ''description'' then FStr (ro_description r)
     else if k = ''topic'' then FStr (ro_topic r) else if k = ''state'' then FState (ro_state r)
     else if k = ''created_by'' then FStr (ro_created_by r) else if k = ''metadata'' then FDict (ro_metadata r)
     else FOther)"

definition set_field :: "string \<Rightarrow> field_value \<Rightarrow> room \<Rightarrow> room" where
  "set_field k v r =
    (case v of
       FStr x \<Rightarrow>
         (if k = ''name'' then r\<lparr>ro_name := x\<rparr> else if k = ''description'' then r\<lparr>ro_description := x\<rparr>
          else if k = ''topic'' then r\<lparr>ro_topic := x\<rparr> else if k = ''created_by'' then r\<lparr>ro_created_by := x\<rparr> else r)
     | FState st \<Rightarrow> (if k = ''state'' then r\<lparr>ro_state := st\<rparr> else r)
     | FDict d \<Rightarrow> (if k = ''metadata'' then r\<lparr>ro_metadata := d\<rparr> else r)
     | FOther \<Rightarrow> r)"

definition coerce_update_field :: "room \<Rightarrow> string \<Rightarrow> field_value \<Rightarrow> room_error + field_value \<times> field_value" where
  "coerce_update_field r k v =
    (if k \<notin> {''name'', ''description'', ''topic'', ''state'', ''created_by'', ''metadata''} then Inl (UnknownField k)
     else if k = ''state'' then
       (case v of FState st \<Rightarrow> Inr (get_field r k, v)
        | FStr x \<Rightarrow> (case room_state_of x of None \<Rightarrow> Inl InvalidState | Some st \<Rightarrow> Inr (get_field r k, FState st))
        | _ \<Rightarrow> Inl InvalidState)
     else if k = ''metadata'' then (case v of FDict d \<Rightarrow> Inr (get_field r k, v) | _ \<Rightarrow> Inl NotAnObject)
     else (case v of FStr x \<Rightarrow> Inr (get_field r k, v) | _ \<Rightarrow> Inl (NotAString k)))"

lemma ro_id_set_field [simp]: "ro_id (set_field k v r) = ro_id r"
  by (simp add: set_field_def split: field_value.split)

lemma set_field_coerced: "coerce_update_field r k v = Inr (old, new) \<Longrightarrow> k \<noteq> ''created_by'' \<Longrightarrow> get_field (set_field k new r) k = new"
  by (auto simp: coerce_update_field_def set_field_def get_field_def split: if_splits field_value.splits option.splits)

section \<open>Batching joins\<close>

record batcher =
  bt_pending :: "(string, joined list) dict"
  bt_timer :: bool

definition new_batcher :: batcher where
  "new_batcher = \<lparr>bt_pending = [], bt_timer = False\<rparr>"

definition batcher_add :: "joined \<Rightarrow> batcher \<Rightarrow> batcher" where
  "batcher_add j b =
    b\<lparr>bt_pending := dput (jo_room j) (dget_or (bt_pending b) (jo_room j) [] @ [j]) (bt_pending b), bt_timer := True\<rparr>"

definition flush_room :: "string \<times> joined list \<Rightarrow> room_event" where
  "flush_room p = (if length (snd p) = 1 then RoomJoined (hd (snd p)) else RoomJoinedBatch (fst p) (snd p) (length (snd p)))"

definition batcher_flush :: "batcher \<Rightarrow> room_event list \<times> batcher" where
  "batcher_flush b = (map flush_room (bt_pending b), b\<lparr>bt_pending := [], bt_timer := False\<rparr>)"

fun joins_of :: "room_event \<Rightarrow> joined list" where
  "joins_of (RoomJoined j) = [j]"
| "joins_of (RoomJoinedBatch rid js n) = js"
| "joins_of _ = []"

fun announced_room :: "room_event \<Rightarrow> string" where
  "announced_room (RoomJoined j) = jo_room j"
| "announced_room (RoomJoinedBatch rid js n) = rid"
| "announced_room _ = ''''"

definition batcher_inv :: "batcher \<Rightarrow> bool" where
  "batcher_inv b \<longleftrightarrow> distinct (dkeys (bt_pending b)) \<and>
     (\<forall>p \<in> set (bt_pending b). snd p \<noteq> [] \<and> (\<forall>j \<in> set (snd p). jo_room j = fst p)) \<and>
     (bt_timer b \<longleftrightarrow> bt_pending b \<noteq> [])"

lemma batcher_inv_add [inv_intros]: "batcher_inv b \<Longrightarrow> batcher_inv (batcher_add j b)"
proof -
  assume inv: "batcher_inv b"
  then have d: "distinct (dkeys (bt_pending b))" by (simp add: batcher_inv_def)
  have "j' \<in> set (dget_or (bt_pending b) (jo_room j) []) \<Longrightarrow> jo_room j' = jo_room j" for j'
    using inv by (force simp: batcher_inv_def dget_or_def split: option.splits dest: dget_Some_in)
  moreover have "dput (jo_room j) v (bt_pending b) \<noteq> []" for v
    using set_dkeys_dput [of "jo_room j" v "bt_pending b"] by force
  ultimately show ?thesis
    using inv distinct_dput [OF d] by (auto simp: batcher_inv_def batcher_add_def set_dput [OF d] simp del: set_map)
qed

lemma pending_add:
  "dget_or (bt_pending (batcher_add j b)) rid [] = dget_or (bt_pending b) rid [] @ (if jo_room j = rid then [j] else [])"
  by (simp add: batcher_add_def dget_or_def)

lemma pending_fold:
  "dget_or (bt_pending (fold batcher_add js b)) rid [] = dget_or (bt_pending b) rid [] @ filter (\<lambda>j. jo_room j = rid) js"
  by (induction js arbitrary: b) (simp_all add: pending_add)

lemma batcher_inv_fold: "batcher_inv b \<Longrightarrow> batcher_inv (fold batcher_add js b)"
  by (induction js arbitrary: b) (simp_all add: inv_intros)

lemma flush_lookup:
  assumes "batcher_inv b"
  shows "concat (map joins_of (filter (\<lambda>e. announced_room e = rid) (fst (batcher_flush b)))) = dget_or (bt_pending b) rid []"
proof -
  have "concat (map joins_of (filter (\<lambda>e. announced_room e = rid) (map flush_room ps))) = dget_or ps rid []"
    if "distinct (dkeys ps)" "\<forall>p \<in> set ps. snd p \<noteq> [] \<and> (\<forall>j \<in> set (snd p). jo_room j = fst p)" for ps
    using that
  proof (induction ps)
    case (Cons p ps)
    have a: "announced_room (flush_room p) = fst p" "joins_of (flush_room p) = snd p"
      using Cons.prems(2) by (auto simp: flush_room_def length_Suc_conv)
    have "dget ps (fst p) = None" using Cons.prems(1) by (simp add: dget_None_iff)
    then show ?case
      using Cons by (auto simp: a dget_or_def)
  qed (simp add: dget_or_def)
  with assms show ?thesis by (simp add: batcher_flush_def batcher_inv_def)
qed

section \<open>Claims\<close>

text \<open>
  batching loses, duplicates and reorders no join: whatever joins arrive in a window, the
  flush announces for every room exactly that room's joins in their order of arrival, in one event
  per room, and leaves the batcher empty with its timer off.
\<close>

theorem batch_announces_every_join:
  "let b = fold batcher_add js new_batcher; (out, b') = batcher_flush b
   in (\<forall>rid. concat (map joins_of (filter (\<lambda>e. announced_room e = rid) out)) = filter (\<lambda>j. jo_room j = rid) js) \<and>
      distinct (map announced_room out) \<and> b' = new_batcher"
proof -
  let ?b = "fold batcher_add js new_batcher"
  have inv: "batcher_inv ?b"
    by (rule batcher_inv_fold) (simp add: batcher_inv_def new_batcher_def)
  have a: "announced_room (flush_room p) = fst p" if "p \<in> set (bt_pending ?b)" for p
    using inv that by (auto simp: batcher_inv_def flush_room_def length_Suc_conv)
  then have "map announced_room (fst (batcher_flush ?b)) = dkeys (bt_pending ?b)"
    by (simp add: batcher_flush_def)
  then have "distinct (map announced_room (fst (batcher_flush ?b)))"
    using inv by (simp add: batcher_inv_def)
  moreover have "dget_or (bt_pending ?b) rid [] = filter (\<lambda>j. jo_room j = rid) js" for rid
    unfolding pending_fold by (simp add: new_batcher_def dget_or_def)
  moreover have "snd (batcher_flush ?b) = new_batcher"
    by (simp add: batcher_flush_def new_batcher_def)
  ultimately show ?thesis
    using flush_lookup [OF inv] by (simp add: case_prod_beta)
qed

end
