(* ===== verification/Room.thy ===== *)
theory Room
  imports Room_Store
begin

text \<open>
  The room manager (\<open>iris/room/manager.py\<close>), its event handler (\<open>handler.py\<close>) and its
  control dispatcher (\<open>dispatcher.py\<close>), as \<open>builder.py\<close> assembles them: with an event bus, a
  join batcher and the account manager.

  \<open>rm_out\<close> are the events published on the bus (a batched join only when it is flushed).
  \<open>fresh\<close> and \<open>now\<close> are the readings of \<open>uuid4\<close> and of the clock. Operations that may
  create an account work on the pair of the account manager and the room manager. What
  \<open>orjson.loads\<close> makes of an update text is an argument.
\<close>

section \<open>The manager\<close>

record room_manager =
  rm_store :: room_store
  rm_batcher :: batcher
  rm_out :: "room_event list"

definition new_room_manager :: room_manager where
  "new_room_manager = \<lparr>rm_store = new_room_store, rm_batcher = new_batcher, rm_out = []\<rparr>"

definition rm_publish :: "room_event \<Rightarrow> room_manager \<Rightarrow> room_manager" where
  "rm_publish e s = s\<lparr>rm_out := rm_out s @ [e]\<rparr>"

definition on_store :: "(room_store \<Rightarrow> room_store) \<Rightarrow> room_manager \<Rightarrow> room_manager" where
  "on_store f s = s\<lparr>rm_store := f (rm_store s)\<rparr>"

lemma rm_simps [simp]:
  "rm_store (rm_publish e s) = rm_store s" "rm_store (on_store f s) = f (rm_store s)"
  "rm_batcher (rm_publish e s) = rm_batcher s" "rm_batcher (on_store f s) = rm_batcher s"
  "rm_out (rm_publish e s) = rm_out s @ [e]" "rm_out (on_store f s) = rm_out s"
  by (simp_all add: rm_publish_def on_store_def)

text \<open>\<open>state\<close> is the already resolved state; \<open>RoomState(state)\<close> of an unknown string raises
  before anything happens.\<close>

definition create_room :: "string \<Rightarrow> string \<Rightarrow> string \<Rightarrow> string \<Rightarrow> string \<Rightarrow> string \<Rightarrow> room_state \<Rightarrow>
    (string, pyobj) dict option \<Rightarrow> room_manager \<Rightarrow> room \<times> room_manager" where
  "create_room fresh now name created_by description topic st metadata s =
    (let r = \<lparr>ro_id = fresh, ro_name = name, ro_description = description, ro_topic = topic, ro_state = st,
              ro_created_by = created_by, ro_created_at = now, ro_updated_at = None,
              ro_metadata = (case metadata of None \<Rightarrow> [] | Some d \<Rightarrow> d)\<rparr>
     in (r, rm_publish (RoomCreated (ro_id r) (ro_name r) created_by) (on_store (add_room r) s)))"

definition get_room :: "string \<Rightarrow> room_manager \<Rightarrow> room option" where
  "get_room rid s = find_room_by_id rid (rm_store s)"

text \<open>The loop of \<open>update_room\<close>: each field is set on the stored room and announced before
  the next one is looked at; a bad value raises and leaves the earlier ones in place.\<close>

fun update_loop :: "string \<Rightarrow> (string \<times> field_value) list \<Rightarrow> room_manager \<Rightarrow> room_manager \<times> room_error option" where
  "update_loop rid [] s = (s, None)"
| "update_loop rid ((k, v) # us) s =
    (case get_room rid s of
       None \<Rightarrow> (s, None)
     | Some r \<Rightarrow>
        (case coerce_update_field r k v of
           Inl e \<Rightarrow> (s, Some e)
         | Inr (old, new) \<Rightarrow>
             if old = new then update_loop rid us s
             else update_loop rid us
               (rm_publish (RoomUpdated rid k old new) (on_store (put_room (set_field k new r)) s))))"

record room_update =
  ru_name :: "field_value option"
  ru_description :: "field_value option"
  ru_topic :: "field_value option"
  ru_state :: "field_value option"
  ru_metadata :: "field_value option"

definition no_update :: room_update where
  "no_update = \<lparr>ru_name = None, ru_description = None, ru_topic = None, ru_state = None, ru_metadata = None\<rparr>"

definition updates_of :: "room_update \<Rightarrow> (string \<times> field_value) list" where
  "updates_of u = List.map_filter (\<lambda>(k, v). map_option (Pair k) v)
    [(''name'', ru_name u), (''description'', ru_description u), (''topic'', ru_topic u),
     (''state'', ru_state u), (''metadata'', ru_metadata u)]"

definition update_room :: "string \<Rightarrow> string \<Rightarrow> room_update \<Rightarrow> room_manager \<Rightarrow> room_manager \<times> room_error option" where
  "update_room now rid u s =
    (if get_room rid s = None then (s, Some (NoSuchRoom rid))
     else case update_loop rid (updates_of u) s of
       (s1, Some e) \<Rightarrow> (s1, Some e)
     | (s1, None) \<Rightarrow>
         (case get_room rid s1 of
            None \<Rightarrow> (s1, None)
          | Some r \<Rightarrow> (on_store (put_room (r\<lparr>ro_updated_at := Some now\<rparr>)) s1, None)))"

definition archive_room :: "string \<Rightarrow> string \<Rightarrow> room_manager \<Rightarrow> room_manager \<times> room_error option" where
  "archive_room now rid s = update_room now rid (no_update\<lparr>ru_state := Some (FState ARCHIVED)\<rparr>) s"

definition delete_room :: "string \<Rightarrow> room_manager \<Rightarrow> room_manager" where
  "delete_room rid s = rm_publish (RoomDeleted rid) (on_store (store_delete_room rid) s)"

definition sessions_from :: "string \<Rightarrow> string list" where
  "sessions_from sid = (if sid = [] then [] else [sid])"

definition announce_join :: "string \<Rightarrow> string \<Rightarrow> account_manager \<Rightarrow> room_manager \<Rightarrow> room_manager" where
  "announce_join rid aid am s =
    s\<lparr>rm_batcher := batcher_add \<lparr>jo_room = rid, jo_account = aid, jo_display_name = resolve_display_name aid am\<rparr> (rm_batcher s)\<rparr>"

definition join_room :: "account_manager \<Rightarrow> string \<Rightarrow> string \<Rightarrow> string \<Rightarrow> string \<Rightarrow> string \<Rightarrow> room_manager \<Rightarrow> bool \<times> room_manager" where
  "join_room am now rid aid sid role s =
    (case get_room rid s of
       None \<Rightarrow> (False, s)
     | Some r \<Rightarrow>
        if ro_state r \<noteq> ACTIVE then (False, s)
        else case find_member (rid, aid) (rm_store s) of
          None \<Rightarrow>
            (True, announce_join rid aid am (on_store (add_member
               \<lparr>me_room = rid, me_account = aid, me_sessions = sessions_from sid, me_role = role,
                me_joined_at = now, me_disconnected = None\<rparr>) s))
        | Some m \<Rightarrow>
            if me_active m then
              (True, if sid \<noteq> [] \<and> sid \<notin> set (me_sessions m)
                     then on_store (put_member (m\<lparr>me_sessions := me_sessions m @ [sid]\<rparr>)) s else s)
            else
              (True, announce_join rid aid am (on_store (put_member
                 (m\<lparr>me_disconnected := None, me_sessions := sessions_from sid, me_joined_at := now, me_role := role\<rparr>)) s)))"

definition protected_room :: "room \<Rightarrow> bool" where
  "protected_room r \<longleftrightarrow> ro_name r = ''default'' \<or> ro_created_by r = ''system''"

definition maybe_delete_empty_room :: "string \<Rightarrow> room_manager \<Rightarrow> room_manager" where
  "maybe_delete_empty_room rid s =
    (if find_members_by_room rid (rm_store s) \<noteq> [] then s
     else case get_room rid s of
       None \<Rightarrow> s
     | Some r \<Rightarrow> if protected_room r then s else delete_room rid s)"

definition leave_whole :: "account_manager \<Rightarrow> string \<Rightarrow> string \<Rightarrow> string \<Rightarrow> member \<Rightarrow> room_manager \<Rightarrow> room_manager" where
  "leave_whole am now rid aid m s =
    maybe_delete_empty_room rid
      (rm_publish (RoomLeft rid aid (resolve_display_name aid am))
        (on_store (put_member (m\<lparr>me_disconnected := Some now\<rparr>)) s))"

definition leave_room :: "account_manager \<Rightarrow> string \<Rightarrow> string \<Rightarrow> string \<Rightarrow> string \<Rightarrow> room_manager \<Rightarrow> bool \<times> room_manager" where
  "leave_room am now rid aid sid s =
    (case find_member (rid, aid) (rm_store s) of
       None \<Rightarrow> (False, s)
     | Some m \<Rightarrow>
        if \<not> me_active m then (False, s)
        else if sid = [] then (True, leave_whole am now rid aid m s)
        else if sid \<notin> set (me_sessions m) then (False, s)
        else (let m1 = m\<lparr>me_sessions := remove1 sid (me_sessions m)\<rparr>
              in if me_sessions m1 \<noteq> [] then (True, on_store (put_member m1) s)
                 else (True, leave_whole am now rid aid m1 s)))"

definition get_members :: "string \<Rightarrow> room_manager \<Rightarrow> member list" where
  "get_members rid s = find_members_by_room rid (rm_store s)"

definition is_member :: "string \<Rightarrow> string \<Rightarrow> room_manager \<Rightarrow> bool" where
  "is_member rid aid s = (case find_member (rid, aid) (rm_store s) of None \<Rightarrow> False | Some m \<Rightarrow> me_active m)"

definition get_default_room :: "string \<Rightarrow> string \<Rightarrow> room_manager \<Rightarrow> room \<times> room_manager" where
  "get_default_room fresh now s =
    (case find (\<lambda>r. ro_name r = ''default'' \<and> ro_state r = ACTIVE) (rs_rooms (rm_store s)) of
       Some r \<Rightarrow> (r, s)
     | None \<Rightarrow> create_room fresh now ''default'' ''system'' '''' '''' ACTIVE None s)"

definition flush_joins :: "room_manager \<Rightarrow> room_manager" where
  "flush_joins s = (case batcher_flush (rm_batcher s) of (es, b) \<Rightarrow> s\<lparr>rm_batcher := b, rm_out := rm_out s @ es\<rparr>)"

section \<open>The event handler\<close>

record message_event =
  mv_direction :: string
  mv_msg_type :: string
  mv_room_id :: string
  mv_account_id :: string
  mv_session_id :: string
  mv_speaker :: "identity_msg option"

definition resolve_speaker :: "string \<Rightarrow> string \<Rightarrow> message_event \<Rightarrow> account_manager \<Rightarrow> string \<times> account_manager" where
  "resolve_speaker fresh now e am =
    (case mv_speaker e of
       None \<Rightarrow> ('''', am)
     | Some sp \<Rightarrow>
        if im_provider sp = [] \<or> im_subject sp = [] then ('''', am)
        else case provider_of (im_provider sp) of
          None \<Rightarrow> ('''', am)
        | Some p \<Rightarrow>
           (case resolve_or_create_identity fresh now p (im_subject sp) (im_provider_name sp) (Some (im_metadata sp)) am of
              (a, am1) \<Rightarrow> (ac_id a, am1)))"

text \<open>The handler also writes the resolved account id into the event it was given.\<close>

definition on_message_event :: "string \<Rightarrow> string \<Rightarrow> message_event \<Rightarrow> account_manager \<times> room_manager \<Rightarrow>
    message_event \<times> account_manager \<times> room_manager" where
  "on_message_event fresh now e s =
    (case s of (am, rm) \<Rightarrow>
      if mv_direction e \<notin> {''request'', ''event''} \<or> mv_msg_type e \<notin> {''chat'', ''system''} \<or> mv_room_id e = [] then (e, am, rm)
      else
        (case (if mv_account_id e \<noteq> [] then (mv_account_id e, am) else resolve_speaker fresh now e am) of
           (aid, am1) \<Rightarrow>
             if aid = [] then (e, am1, rm)
             else (e\<lparr>mv_account_id := aid\<rparr>, am1,
                   snd (join_room am1 now (mv_room_id e) aid (mv_session_id e) ''member'' rm))))"

definition on_session_disconnect :: "account_manager \<Rightarrow> string \<Rightarrow> string \<Rightarrow> room_manager \<Rightarrow> room_manager" where
  "on_session_disconnect am now sid s =
    fold (\<lambda>m s. snd (leave_room am now (me_room m) (me_account m) sid s))
      (find_active_members_containing_session sid (rm_store s)) s"

text \<open>The counter of ticks is the handler's own state.\<close>

definition on_timer_tick :: "nat \<Rightarrow> room_manager \<Rightarrow> nat \<times> room_manager" where
  "on_timer_tick c s =
    (if Suc c mod 12 \<noteq> 0 then (Suc c, s)
     else (Suc c, fold (\<lambda>r s. if find_members_by_room (ro_id r) (rm_store s) \<noteq> [] \<or> protected_room r then s
                              else delete_room (ro_id r) s)
                    (find_active_rooms (rm_store s)) s))"

section \<open>The control dispatcher\<close>

definition room_dump :: "room \<Rightarrow> pyobj" where
  "room_dump r = PDict
    [(''room_id'', PStr (ro_id r)), (''name'', PStr (ro_name r)), (''description'', PStr (ro_description r)),
     (''topic'', PStr (ro_topic r)), (''state'', PStr (case ro_state r of ACTIVE \<Rightarrow> ''active'' | ARCHIVED \<Rightarrow> ''archived'')),
     (''created_by'', PStr (ro_created_by r)), (''created_at'', PStr (ro_created_at r)),
     (''updated_at'', opt_str (ro_updated_at r)), (''metadata'', PDict (ro_metadata r))]"

definition member_dump :: "member \<Rightarrow> pyobj" where
  "member_dump m = PDict
    [(''room_id'', PStr (me_room m)), (''account_id'', PStr (me_account m)),
     (''session_ids'', PList (map PStr (me_sessions m))), (''role'', PStr (me_role m)),
     (''joined_at'', PStr (me_joined_at m)), (''last_active'', PNone), (''disconnected_at'', opt_str (me_disconnected m))]"

type_synonym room_system = "account_manager \<times> room_manager"

abbreviation room_err :: "string \<Rightarrow> string \<Rightarrow> room_system \<Rightarrow> control_reply \<times> room_system" where
  "room_err act msg s \<equiv> (error_reply ''room'' act msg, s)"

definition handle_create :: "string \<Rightarrow> string \<Rightarrow> control_message \<Rightarrow> room_system \<Rightarrow> control_reply \<times> room_system" where
  "handle_create fresh now msg s =
    (let nm = py_strip (cm_text msg)
     in if nm = [] then room_err ''room.create'' ''room name required'' s
        else case create_room fresh now nm (cm_account_id msg) '''' '''' ACTIVE None (snd s) of
          (r, rm1) \<Rightarrow> (reply ''room'' ''room.created'' (cm_account_id msg) (ro_id r) '''' None
             (Text (''Created room: '' @ ro_name r)), (fst s, rm1)))"

definition handle_list :: "control_message \<Rightarrow> room_system \<Rightarrow> control_reply \<times> room_system" where
  "handle_list msg s =
    (reply ''room'' ''room.list'' (cm_account_id msg) (cm_room_id msg) '''' None
      (Json (PList (map room_dump (find_rooms_by_state ACTIVE (rm_store (snd s)))))), s)"

text \<open>Every other action first wants the id of an existing room.\<close>

definition with_room :: "string \<Rightarrow> control_message \<Rightarrow> room_system \<Rightarrow>
    (room \<Rightarrow> control_reply \<times> room_system) \<Rightarrow> control_reply \<times> room_system" where
  "with_room act msg s k =
    (if cm_room_id msg = [] then room_err act ''room_id required'' s
     else case get_room (cm_room_id msg) (snd s) of
       None \<Rightarrow> room_err act (''room not found: '' @ cm_room_id msg) s
     | Some r \<Rightarrow> k r)"

definition handle_info :: "control_message \<Rightarrow> room_system \<Rightarrow> control_reply \<times> room_system" where
  "handle_info msg s = with_room ''room.info'' msg s (\<lambda>r.
    (reply ''room'' ''room.info'' (cm_account_id msg) (cm_room_id msg) '''' None (Json (room_dump r)), s))"

definition target_account :: "string \<Rightarrow> string \<Rightarrow> control_message \<Rightarrow> account_manager \<Rightarrow> string \<times> account_manager" where
  "target_account fresh now msg am =
    (if cm_account_id msg \<noteq> [] then (cm_account_id msg, am)
     else let r = parse_identity (cm_identity msg)
       in case ri_provider r of None \<Rightarrow> ('''', am)
          | Some p \<Rightarrow>
             if ri_subject r = [] then ('''', am)
             else case resolve_or_create_identity fresh now p (ri_subject r)
                         (or_else (ri_provider_name r) (cm_display_name msg)) (Some (ri_metadata r)) am of
                    (a, am1) \<Rightarrow> (ac_id a, am1))"

definition handle_join :: "string \<Rightarrow> string \<Rightarrow> control_message \<Rightarrow> string \<Rightarrow> room_system \<Rightarrow> control_reply \<times> room_system" where
  "handle_join fresh now msg sid s = with_room ''room.join'' msg s (\<lambda>_.
    (case target_account fresh now msg (fst s) of
       (aid, am1) \<Rightarrow>
         if aid = [] then room_err ''room.join'' ''account_id or identity required'' (am1, snd s)
         else case join_room am1 now (cm_room_id msg) aid sid ''member'' (snd s) of
           (False, rm1) \<Rightarrow> room_err ''room.join'' (''room join failed: '' @ cm_room_id msg) (am1, rm1)
         | (True, rm1) \<Rightarrow> (reply ''room'' ''room.joined'' aid (cm_room_id msg) '''' None
             (Text (''Joined room: '' @ cm_room_id msg)), (am1, rm1))))"

definition handle_leave :: "string \<Rightarrow> string \<Rightarrow> control_message \<Rightarrow> string \<Rightarrow> room_system \<Rightarrow> control_reply \<times> room_system" where
  "handle_leave fresh now msg sid s = with_room ''room.leave'' msg s (\<lambda>_.
    (case target_account fresh now msg (fst s) of
       (aid, am1) \<Rightarrow>
         if aid = [] then room_err ''room.leave'' ''account_id or identity required'' (am1, snd s)
         else case leave_room am1 now (cm_room_id msg) aid sid (snd s) of
           (False, rm1) \<Rightarrow> room_err ''room.leave'' (''room leave failed: '' @ cm_room_id msg) (am1, rm1)
         | (True, rm1) \<Rightarrow> (reply ''room'' ''room.left'' aid (cm_room_id msg) '''' None
             (Text (''Left room: '' @ cm_room_id msg)), (am1, rm1))))"

text \<open>\<open>parse\<close> is \<open>orjson.loads\<close>, \<open>pstr\<close> is \<open>str\<close> on a parsed value and \<open>state_error\<close>
  the text of the \<open>ValueError\<close> of an unknown state.\<close>

datatype parsed = NotJson | JsonObject "(string, pyobj) dict" | JsonOther

fun to_field :: "(pyobj \<Rightarrow> string) \<Rightarrow> (string, pyobj) dict \<Rightarrow> string \<Rightarrow> field_value option" where
  "to_field pstr d k = (case dget d k of None \<Rightarrow> None | Some PNone \<Rightarrow> None | Some v \<Rightarrow> Some (FStr (pstr v)))"

definition update_from :: "(pyobj \<Rightarrow> string) \<Rightarrow> (string, pyobj) dict \<Rightarrow> string + room_update" where
  "update_from pstr d =
    (let mk = (\<lambda>st. \<lparr>ru_name = to_field pstr d ''name'', ru_description = to_field pstr d ''description'',
           ru_topic = to_field pstr d ''topic'', ru_state = st,
           ru_metadata = (case dget d ''metadata'' of Some (PDict m) \<Rightarrow> Some (FDict m) | _ \<Rightarrow> None)\<rparr>)
     in case to_field pstr d ''state'' of
          Some (FStr x) \<Rightarrow> (case room_state_of x of None \<Rightarrow> Inl x | Some st \<Rightarrow> Inr (mk (Some (FState st))))
        | _ \<Rightarrow> Inr (mk None))"

definition handle_update_room :: "(string \<Rightarrow> parsed) \<Rightarrow> (pyobj \<Rightarrow> string) \<Rightarrow> (string \<Rightarrow> string) \<Rightarrow> (room_error \<Rightarrow> string) \<Rightarrow>
    string \<Rightarrow> control_message \<Rightarrow> room_system \<Rightarrow> control_reply \<times> room_system" where
  "handle_update_room parse pstr state_error error_text now msg s = with_room ''room.update'' msg s (\<lambda>_.
    (let updates = (if cm_text msg = [] then []
           else case parse (cm_text msg) of JsonObject d \<Rightarrow> d | JsonOther \<Rightarrow> [] | NotJson \<Rightarrow> [(''name'', PStr (cm_text msg))])
     in if updates = [] then room_err ''room.update'' ''no fields to update'' s
        else case update_from pstr updates of
          Inl x \<Rightarrow> room_err ''room.update'' (state_error x) s
        | Inr u \<Rightarrow>
            (case update_room now (cm_room_id msg) u (snd s) of
               (rm1, Some e) \<Rightarrow> room_err ''room.update'' (error_text e) (fst s, rm1)
             | (rm1, None) \<Rightarrow> (reply ''room'' ''room.updated'' (cm_account_id msg) (cm_room_id msg) '''' None
                 (Text (''Updated room: '' @ cm_room_id msg)), (fst s, rm1)))))"

definition handle_delete :: "control_message \<Rightarrow> room_system \<Rightarrow> control_reply \<times> room_system" where
  "handle_delete msg s = with_room ''room.delete'' msg s (\<lambda>_.
    (reply ''room'' ''room.deleted'' (cm_account_id msg) (cm_room_id msg) '''' None
      (Text (''Deleted room: '' @ cm_room_id msg)), (fst s, delete_room (cm_room_id msg) (snd s))))"

definition handle_members :: "control_message \<Rightarrow> room_system \<Rightarrow> control_reply \<times> room_system" where
  "handle_members msg s = with_room ''room.members'' msg s (\<lambda>_.
    (reply ''room'' ''room.members'' (cm_account_id msg) (cm_room_id msg) '''' None
      (Json (PList (map member_dump (get_members (cm_room_id msg) (snd s))))), s))"

definition room_handle :: "(string \<Rightarrow> parsed) \<Rightarrow> (pyobj \<Rightarrow> string) \<Rightarrow> (string \<Rightarrow> string) \<Rightarrow> (room_error \<Rightarrow> string) \<Rightarrow>
    string \<Rightarrow> string \<Rightarrow> control_message \<Rightarrow> string \<Rightarrow> room_system \<Rightarrow> control_reply option \<times> room_system" where
  "room_handle parse pstr state_error error_text fresh now msg sid s =
    (let act = cm_action msg; some = (\<lambda>(r, s1). (Some r, s1))
     in if act = ''room.create'' then some (handle_create fresh now msg s)
        else if act = ''room.list'' then some (handle_list msg s)
        else if act = ''room.info'' then some (handle_info msg s)
        else if act = ''room.join'' then some (handle_join fresh now msg sid s)
        else if act = ''room.leave'' then some (handle_leave fresh now msg sid s)
        else if act = ''room.update'' then some (handle_update_room parse pstr state_error error_text now msg s)
        else if act = ''room.delete'' then some (handle_delete msg s)
        else if act = ''room.members'' then some (handle_members msg s)
        else (None, s))"

section \<open>The invariant\<close>

definition member_ok :: "room_store \<Rightarrow> member \<Rightarrow> bool" where
  "member_ok s m \<longleftrightarrow> me_room m \<in> ro_id ` set (rs_rooms s) \<and> [] \<notin> set (me_sessions m) \<and> distinct (me_sessions m)"

definition rooms_inv :: "room_store \<Rightarrow> bool" where
  "rooms_inv s \<longleftrightarrow> distinct (map ro_id (rs_rooms s)) \<and> distinct (map me_key (rs_members s)) \<and>
     (\<forall>m \<in> set (rs_members s). member_ok s m)"

lemma rooms_inv_add_room [inv_intros]:
  "rooms_inv s \<Longrightarrow> find_room_by_id (ro_id r) s = None \<Longrightarrow> rooms_inv (add_room r s)"
  using rooms.distinct_add [of s r] by (auto simp: rooms_inv_def member_ok_def store_simps rooms.entries_add)

lemma room_ids_put [simp]: "ro_id ` set (rs_rooms (put_room r s)) = ro_id ` set (rs_rooms s)"
  by (metis list.set_map rooms.keys_put)

lemma rooms_inv_put_room [inv_intros]: "rooms_inv s \<Longrightarrow> rooms_inv (put_room r s)"
  using rooms.distinct_put [of s r] by (simp add: rooms_inv_def member_ok_def store_simps)

lemma rooms_inv_delete [inv_intros]: "rooms_inv s \<Longrightarrow> rooms_inv (store_delete_room rid s)"
  by (auto simp: rooms_inv_def member_ok_def store_delete_room_def intro: distinct_map_filter)

lemma rooms_inv_add_member [inv_intros]:
  "rooms_inv s \<Longrightarrow> find_member (me_key m) s = None \<Longrightarrow> member_ok s m \<Longrightarrow> rooms_inv (add_member m s)"
  using members.distinct_add [of s m] by (auto simp: rooms_inv_def member_ok_def store_simps members.entries_add)

lemma rooms_inv_put_member [inv_intros]: "rooms_inv s \<Longrightarrow> member_ok s m \<Longrightarrow> rooms_inv (put_member m s)"
  using members.distinct_put [of s m] set_upd_first_subset [of "\<lambda>x. me_key x = me_key m" "\<lambda>_. m" "rs_members s"]
  by (auto simp: rooms_inv_def member_ok_def store_simps members.entries_put)

lemma find_member_ok: "rooms_inv s \<Longrightarrow> find_member k s = Some m \<Longrightarrow> member_ok s m \<and> me_key m = k \<and> m \<in> set (rs_members s)"
  using members.lookup_SomeD [of k s m] by (simp add: rooms_inv_def)

lemma get_room_in: "get_room rid s = Some r \<Longrightarrow> ro_id r = rid \<and> rid \<in> ro_id ` set (rs_rooms (rm_store s))"
  using rooms.lookup_SomeD [of rid "rm_store s" r] by (auto simp: get_room_def)

lemma rm_store_announce [simp]: "rm_store (announce_join rid aid am s) = rm_store s"
  by (simp add: announce_join_def)

lemma rm_inv_create [inv_intros]:
  "rooms_inv (rm_store s) \<Longrightarrow> get_room fresh s = None \<Longrightarrow>
    rooms_inv (rm_store (snd (create_room fresh now nm cb d t st md s)))"
  by (auto simp: create_room_def Let_def get_room_def intro!: inv_intros)

lemma rm_inv_update_loop [inv_intros]: "rooms_inv (rm_store s) \<Longrightarrow> rooms_inv (rm_store (fst (update_loop rid us s)))"
  by (induction rid us s rule: update_loop.induct) (auto simp: rooms_inv_put_room split: option.splits sum.splits)

lemma rm_inv_update [inv_intros]: "rooms_inv (rm_store s) \<Longrightarrow> rooms_inv (rm_store (fst (update_room now rid u s)))"
  using rm_inv_update_loop [of s rid "updates_of u"]
  by (auto simp: update_room_def intro!: inv_intros split: option.splits prod.splits)

lemma rm_inv_delete [inv_intros]: "rooms_inv (rm_store s) \<Longrightarrow> rooms_inv (rm_store (delete_room rid s))"
  by (simp add: delete_room_def inv_intros)

lemma rm_inv_join [inv_intros]:
  assumes "rooms_inv (rm_store s)"
  shows "rooms_inv (rm_store (snd (join_room am now rid aid sid role s)))"
proof (cases "get_room rid s")
  case (Some r)
  have rid: "rid \<in> ro_id ` set (rs_rooms (rm_store s))" using get_room_in [OF Some] by simp
  show ?thesis
  proof (cases "find_member (rid, aid) (rm_store s)")
    case None
    then show ?thesis
      using Some assms rid by (auto simp: join_room_def member_ok_def sessions_from_def me_key_def intro!: inv_intros)
  next
    case m: (Some m)
    have "member_ok (rm_store s) m" using find_member_ok [OF assms m] by simp
    then show ?thesis
      using Some assms m by (auto simp: join_room_def member_ok_def sessions_from_def intro!: inv_intros)
  qed
qed (simp add: join_room_def assms)

lemma rm_inv_maybe_delete [inv_intros]: "rooms_inv (rm_store s) \<Longrightarrow> rooms_inv (rm_store (maybe_delete_empty_room rid s))"
  by (auto simp: maybe_delete_empty_room_def intro!: inv_intros split: option.split)

lemma rm_inv_leave [inv_intros]:
  assumes "rooms_inv (rm_store s)"
  shows "rooms_inv (rm_store (snd (leave_room am now rid aid sid s)))"
proof (cases "find_member (rid, aid) (rm_store s)")
  case (Some m)
  have "member_ok (rm_store s) m" using find_member_ok [OF assms Some] by simp
  then have "member_ok (rm_store s) (m\<lparr>me_disconnected := d\<rparr>)"
    "member_ok (rm_store s) (m\<lparr>me_sessions := remove1 sid (me_sessions m)\<rparr>)"
    "member_ok (rm_store s) (m\<lparr>me_sessions := remove1 sid (me_sessions m), me_disconnected := d\<rparr>)" for d
    by (auto simp: member_ok_def dest: notin_set_remove1)
  then show ?thesis
    using Some assms by (auto simp: leave_room_def leave_whole_def Let_def intro!: inv_intros)
qed (simp add: leave_room_def assms)

lemma rm_inv_disconnect [inv_intros]:
  assumes "rooms_inv (rm_store s)" shows "rooms_inv (rm_store (on_session_disconnect am now sid s))"
proof -
  have "rooms_inv (rm_store t) \<Longrightarrow>
      rooms_inv (rm_store (fold (\<lambda>m s. snd (leave_room am now (me_room m) (me_account m) sid s)) ms t))" for ms t
    by (induction ms arbitrary: t) (simp_all add: inv_intros)
  with assms show ?thesis by (simp add: on_session_disconnect_def)
qed

definition sweep :: "room \<Rightarrow> room_manager \<Rightarrow> room_manager" where
  "sweep r s = (if find_members_by_room (ro_id r) (rm_store s) \<noteq> [] \<or> protected_room r then s else delete_room (ro_id r) s)"

lemma on_timer_tick_sweep:
  "snd (on_timer_tick c s) = (if Suc c mod 12 \<noteq> 0 then s else fold sweep (find_active_rooms (rm_store s)) s)"
  by (simp add: on_timer_tick_def sweep_def [abs_def])

lemma rm_inv_tick [inv_intros]: "rooms_inv (rm_store s) \<Longrightarrow> rooms_inv (rm_store (snd (on_timer_tick c s)))"
proof -
  have "rooms_inv (rm_store t) \<Longrightarrow> rooms_inv (rm_store (fold sweep rs t))" for rs t
    by (induction rs arbitrary: t) (auto simp: sweep_def intro: inv_intros)
  then show "rooms_inv (rm_store s) \<Longrightarrow> ?thesis" by (simp add: on_timer_tick_sweep)
qed

text \<open>Every way a room manager changes; a fresh id is one no room has.\<close>

inductive room_step :: "room_manager \<Rightarrow> room_manager \<Rightarrow> bool" where
  "get_room fresh s = None \<Longrightarrow> room_step s (snd (create_room fresh now nm cb d t st md s))"
| "get_room fresh s = None \<Longrightarrow> room_step s (snd (get_default_room fresh now s))"
| "room_step s (fst (update_room now rid u s))"
| "room_step s (delete_room rid s)"
| "room_step s (snd (join_room am now rid aid sid role s))"
| "room_step s (snd (leave_room am now rid aid sid s))"
| "room_step s (on_session_disconnect am now sid s)"
| "room_step s (snd (on_timer_tick c s))"
| "room_step s (flush_joins s)"

inductive_cases room_stepE: "room_step s s'"

lemma room_step_inv: "room_step s s' \<Longrightarrow> rooms_inv (rm_store s) \<Longrightarrow> rooms_inv (rm_store s')"
  by (erule room_stepE)
    (auto simp: flush_joins_def get_default_room_def intro: inv_intros split: prod.split option.split)

lemma room_reachable_inv: "room_step\<^sup>*\<^sup>* s s' \<Longrightarrow> rooms_inv (rm_store s) \<Longrightarrow> rooms_inv (rm_store s')"
  by (induction rule: rtranclp_induct) (auto intro: room_step_inv)

lemma new_rooms_inv: "rooms_inv (rm_store new_room_manager)"
  by (simp add: rooms_inv_def new_room_manager_def new_room_store_def)

section \<open>Sessions leaving\<close>

text \<open>The memberships through which a session is present.\<close>

definition holders :: "string \<Rightarrow> room_store \<Rightarrow> (string \<times> string) set" where
  "holders sid s = me_key ` set (find_active_members_containing_session sid s)"

lemma holders_maybe_delete: "holders sid (rm_store (maybe_delete_empty_room rid s)) \<subseteq> holders sid (rm_store s)"
  by (auto simp: maybe_delete_empty_room_def holders_def find_active_members_containing_session_def
      delete_room_def store_delete_room_def split: option.split)

lemma holders_put:
  assumes "rooms_inv s" and "find_member (me_key m) s = Some y" and "\<not> (me_active m \<and> sid \<in> set (me_sessions m))"
  shows "holders sid (put_member m s) \<subseteq> holders sid s - {me_key m}"
proof -
  have d: "distinct (map me_key (rs_members s))" using assms(1) by (simp add: rooms_inv_def)
  have y: "y \<in> set (rs_members s)" "me_key y = me_key m" using members.lookup_SomeD [OF assms(2)] by auto
  have ne: "me_key z \<noteq> me_key m" if z: "z \<in> set (rs_members s) - {y}" for z
  proof
    assume "me_key z = me_key m"
    then have "z = y" using distinct_key_eq [OF d _ y(1), of z] z y(2) by simp
    with z show False by simp
  qed
  have "holders sid (put_member m s) = me_key ` {z \<in> insert m (set (rs_members s) - {y}). sid \<in> set (me_sessions z) \<and> me_active z}"
    unfolding holders_def find_active_members_containing_session_def set_filter members.set_put [OF d assms(2)] ..
  also have "\<dots> \<subseteq> me_key ` {z \<in> set (rs_members s) - {y}. sid \<in> set (me_sessions z) \<and> me_active z}"
    using assms(3) by auto
  also have "\<dots> \<subseteq> holders sid s - {me_key m}"
  proof
    fix k assume "k \<in> me_key ` {z \<in> set (rs_members s) - {y}. sid \<in> set (me_sessions z) \<and> me_active z}"
    then obtain z where z: "k = me_key z" "z \<in> set (rs_members s) - {y}" "sid \<in> set (me_sessions z)" "me_active z"
      by auto
    with ne [OF z(2)] show "k \<in> holders sid s - {me_key m}"
      by (simp add: holders_def find_active_members_containing_session_def)
  qed
  finally show ?thesis .
qed

lemma holders_leave:
  assumes inv: "rooms_inv (rm_store s)" and sid: "sid \<noteq> []"
  shows "holders sid (rm_store (snd (leave_room am now rid aid sid s))) \<subseteq> holders sid (rm_store s) - {(rid, aid)}"
proof (cases "find_member (rid, aid) (rm_store s)")
  case None
  then have "(rid, aid) \<notin> holders sid (rm_store s)"
    using members.lookup_None [of "(rid, aid)" "rm_store s"]
    by (auto simp: holders_def find_active_members_containing_session_def)
  with None show ?thesis by (simp add: leave_room_def)
next
  case (Some m)
  have m: "me_key m = (rid, aid)" "m \<in> set (rs_members (rm_store s))" "distinct (me_sessions m)"
    using find_member_ok [OF inv Some] by (auto simp: member_ok_def)
  show ?thesis
  proof (cases "me_active m \<and> sid \<in> set (me_sessions m)")
    case False
    have "(rid, aid) \<notin> holders sid (rm_store s)"
    proof
      assume "(rid, aid) \<in> holders sid (rm_store s)"
      then obtain z where z: "z \<in> set (rs_members (rm_store s))" "me_key z = (rid, aid)" "me_active z" "sid \<in> set (me_sessions z)"
        by (auto simp: holders_def find_active_members_containing_session_def)
      then have "z = m" using inv m distinct_key_eq [of me_key "rs_members (rm_store s)" z m] by (simp add: rooms_inv_def)
      with z False show False by simp
    qed
    moreover have "leave_room am now rid aid sid s = (False, s)"
      using Some False sid by (auto simp: leave_room_def)
    ultimately show ?thesis by simp
  next
    case True
    have f: "find_member (me_key (m\<lparr>me_sessions := x\<rparr>)) (rm_store s) = Some m"
      "find_member (me_key (m\<lparr>me_sessions := x, me_disconnected := d\<rparr>)) (rm_store s) = Some m" for x d
      using Some m(1) by (simp_all add: me_key_def)
    have k: "me_key (m\<lparr>me_sessions := x\<rparr>) = (rid, aid)" "me_key (m\<lparr>me_sessions := x, me_disconnected := d\<rparr>) = (rid, aid)" for x d
      using m(1) by (simp_all add: me_key_def)
    have gone: "sid \<notin> set (remove1 sid (me_sessions m))" using m(3) by simp
    let ?m = "m\<lparr>me_sessions := remove1 sid (me_sessions m)\<rparr>"
    show ?thesis
    proof (cases "me_sessions ?m = []")
      case False
      then have "rm_store (snd (leave_room am now rid aid sid s)) = put_member ?m (rm_store s)"
        using True Some sid by (simp add: leave_room_def Let_def)
      then show ?thesis
        using holders_put [OF inv f(1) [of "remove1 sid (me_sessions m)"], where sid = sid] gone by (simp add: k)
    next
      case empty: True
      let ?s = "rm_publish (RoomLeft rid aid (resolve_display_name aid am)) (on_store (put_member (?m\<lparr>me_disconnected := Some now\<rparr>)) s)"
      have "snd (leave_room am now rid aid sid s) = maybe_delete_empty_room rid ?s"
        using True Some sid empty by (simp add: leave_room_def leave_whole_def Let_def)
      moreover have "holders sid (rm_store ?s) \<subseteq> holders sid (rm_store s) - {(rid, aid)}"
        using holders_put [OF inv f(2) [of "Some now" "remove1 sid (me_sessions m)"], where sid = sid] gone by (simp add: k)
      ultimately show ?thesis
        using holders_maybe_delete [of sid rid ?s] by simp
    qed
  qed
qed

lemma holders_disconnect:
  assumes "sid \<noteq> []"
  shows "rooms_inv (rm_store s) \<Longrightarrow>
    holders sid (rm_store (fold (\<lambda>m s. snd (leave_room am now (me_room m) (me_account m) sid s)) ms s)) \<subseteq>
      holders sid (rm_store s) - me_key ` set ms"
proof (induction ms arbitrary: s)
  case (Cons m ms)
  have "rooms_inv (rm_store (snd (leave_room am now (me_room m) (me_account m) sid s)))"
    using Cons.prems by (rule rm_inv_leave)
  from Cons.IH [OF this] holders_leave [OF Cons.prems assms, of am now "me_room m" "me_account m"]
  show ?case by (auto simp: me_key_def)
qed simp

section \<open>Claims\<close>

text \<open>
  C1: however rooms are used, a room id names at most one room, an account has at most one
  membership per room, every membership belongs to an existing room, and no session is listed twice
  in a membership.
\<close>

theorem rooms_and_members_consistent:
  assumes "room_step\<^sup>*\<^sup>* new_room_manager s"
  shows "distinct (map ro_id (rs_rooms (rm_store s))) \<and> distinct (map me_key (rs_members (rm_store s))) \<and>
    (\<forall>m \<in> set (rs_members (rm_store s)).
       me_room m \<in> ro_id ` set (rs_rooms (rm_store s)) \<and> [] \<notin> set (me_sessions m) \<and> distinct (me_sessions m))"
  using room_reachable_inv [OF assms new_rooms_inv] by (simp add: rooms_inv_def member_ok_def)

definition demo_rooms :: room_manager where
  "demo_rooms =
    snd (join_room new_account_manager ''t2'' ''r1'' ''ann'' ''s1'' ''member''
      (snd (create_room ''r1'' ''t1'' ''lobby'' ''ann'' '''' '''' ACTIVE None new_room_manager)))"

lemma demo_rooms_reachable: "room_step\<^sup>*\<^sup>* new_room_manager demo_rooms"
  unfolding demo_rooms_def
  by (rule rtranclp_trans [OF r_into_rtranclp r_into_rtranclp], rule room_step.intros(1),
      simp add: get_room_def find_room_by_id_def new_room_manager_def new_room_store_def, rule room_step.intros(5))

theorem rooms_and_members_consistent_witness:
  "distinct (map me_key (rs_members (rm_store demo_rooms)))"
  using rooms_and_members_consistent [OF demo_rooms_reachable] by blast

text \<open>
  C11: a disconnected session is nowhere present any more: after the handler has processed the
  disconnection no active membership of any room contains the session.
\<close>

theorem disconnect_removes_session:
  assumes "room_step\<^sup>*\<^sup>* new_room_manager s" and "sid \<noteq> ''''"
  shows "find_active_members_containing_session sid (rm_store (on_session_disconnect am now sid s)) = []"
proof -
  have "holders sid (rm_store (on_session_disconnect am now sid s)) \<subseteq> {}"
    using holders_disconnect [OF assms(2) room_reachable_inv [OF assms(1) new_rooms_inv], of am now
        "find_active_members_containing_session sid (rm_store s)"]
    by (simp add: on_session_disconnect_def holders_def)
  then show ?thesis by (simp add: holders_def)
qed

theorem disconnect_removes_session_witness:
  "find_active_members_containing_session ''s1'' (rm_store (on_session_disconnect new_account_manager ''t3'' ''s1'' demo_rooms)) = []"
  by (rule disconnect_removes_session [OF demo_rooms_reachable]) simp

lemma put_existing_member:
  "find_member (me_key m) s = Some y \<Longrightarrow> find_member (me_key m) (put_member m s) = Some m"
  using members.lookup_put [of "me_key m" m s] by simp

text \<open>
  joining succeeds exactly for an existing active room; then the account is an active
  member, with the joining session among its sessions, whether it was new, already there or had
  left before. A refused join changes nothing.
\<close>

theorem join_room_spec:
  "case join_room am now rid aid sid role s of (ok, s1) \<Rightarrow>
    (ok \<longleftrightarrow> (\<exists>r. get_room rid s = Some r \<and> ro_state r = ACTIVE)) \<and>
    (if ok then is_member rid aid s1 \<and>
          (sid = [] \<or> (\<exists>m. find_member (rid, aid) (rm_store s1) = Some m \<and> sid \<in> set (me_sessions m)))
     else s1 = s)"
proof (cases "\<exists>r. get_room rid s = Some r \<and> ro_state r = ACTIVE")
  case False
  then show ?thesis by (auto simp: join_room_def split: option.split)
next
  case True
  then obtain r where r: "get_room rid s = Some r" "ro_state r = ACTIVE" by blast
  show ?thesis
  proof (cases "find_member (rid, aid) (rm_store s)")
    case None
    then show ?thesis
      using r by (simp add: join_room_def is_member_def find_member_def add_member_def find_append me_key_def
          me_active_def sessions_from_def)
  next
    case (Some m)
    have key: "me_key m = (rid, aid)" using members.lookup_SomeD [OF Some] by simp
    have put: "find_member (rid, aid) (put_member m' (rm_store s)) = Some m'" if "me_key m' = (rid, aid)" for m'
      using put_existing_member [of m' "rm_store s" m] Some that by simp
    have k: "me_key (m\<lparr>me_sessions := x\<rparr>) = (rid, aid)"
      "me_key (m\<lparr>me_disconnected := w, me_sessions := x, me_joined_at := z, me_role := y\<rparr>) = (rid, aid)" for x y z w
      using key by (simp_all add: me_key_def)
    show ?thesis
      using r Some by (auto simp: join_room_def is_member_def put k me_active_def sessions_from_def)
  qed
qed

lemma sweep_rooms:
  "set (rs_rooms (rm_store (sweep r s))) \<subseteq> set (rs_rooms (rm_store s))"
  "x \<in> set (rs_rooms (rm_store s)) \<Longrightarrow> ro_id x \<noteq> ro_id r \<or> protected_room r \<Longrightarrow> x \<in> set (rs_rooms (rm_store (sweep r s)))"
  "find_members_by_room rid (rm_store s) = [] \<Longrightarrow> find_members_by_room rid (rm_store (sweep r s)) = []"
  by (auto simp: sweep_def delete_room_def store_delete_room_def find_members_by_room_def filter_empty_conv)

lemma sweep_removes:
  "find_members_by_room (ro_id r) (rm_store s) = [] \<Longrightarrow> \<not> protected_room r \<Longrightarrow>
    ro_id r \<notin> ro_id ` set (rs_rooms (rm_store (sweep r s)))"
  by (auto simp: sweep_def delete_room_def store_delete_room_def)

lemma sweep_members:
  "find_members_by_room rid (rm_store (sweep r s)) = find_members_by_room rid (rm_store s)"
  by (auto simp: sweep_def delete_room_def store_delete_room_def find_members_by_room_def filter_empty_conv
      intro!: filter_cong)

lemma fold_sweep_subset: "set (rs_rooms (rm_store (fold sweep rs s))) \<subseteq> set (rs_rooms (rm_store s))"
  by (induction rs arbitrary: s) (use sweep_rooms(1) in fastforce)+

lemma fold_sweep_members:
  "find_members_by_room rid (rm_store (fold sweep rs s)) = find_members_by_room rid (rm_store s)"
  by (induction rs arbitrary: s) (simp_all add: sweep_members)

lemma fold_sweep_removes:
  "r \<in> set rs \<Longrightarrow> find_members_by_room (ro_id r) (rm_store s) = [] \<Longrightarrow> \<not> protected_room r \<Longrightarrow>
    r \<notin> set (rs_rooms (rm_store (fold sweep rs s)))"
proof (induction rs arbitrary: s)
  case (Cons x rs)
  show ?case
  proof (cases "x = r")
    case True
    then show ?thesis
      using Cons.prems sweep_removes [of r s] fold_sweep_subset [of rs "sweep r s"] by auto
  next
    case False
    with Cons show ?thesis by (simp add: sweep_members)
  qed
qed simp

lemma fold_sweep_keeps:
  "r \<in> set (rs_rooms (rm_store s)) \<Longrightarrow>
    \<forall>x \<in> set rs. ro_id x = ro_id r \<longrightarrow> protected_room x \<or> find_members_by_room (ro_id x) (rm_store s) \<noteq> [] \<Longrightarrow>
    r \<in> set (rs_rooms (rm_store (fold sweep rs s)))"
proof (induction rs arbitrary: s)
  case (Cons x rs)
  have "r \<in> set (rs_rooms (rm_store (sweep x s)))"
  proof (cases "find_members_by_room (ro_id x) (rm_store s) = []")
    case True
    show ?thesis by (rule sweep_rooms(2)) (use Cons.prems True in auto)
  qed (use Cons.prems in \<open>simp add: sweep_def\<close>)
  with Cons show ?case by (simp add: sweep_members)
qed simp

text \<open>
  every twelfth tick of the heartbeat removes exactly the garbage: a room survives it
  if and only if it is archived, protected or has an active member.
\<close>

theorem twelfth_tick_cleans:
  assumes "room_step\<^sup>*\<^sup>* new_room_manager s" and "Suc c mod 12 = 0"
  shows "set (rs_rooms (rm_store (snd (on_timer_tick c s)))) =
    {r \<in> set (rs_rooms (rm_store s)). ro_state r \<noteq> ACTIVE \<or> protected_room r \<or> find_members_by_room (ro_id r) (rm_store s) \<noteq> []}"
proof -
  have inv: "distinct (map ro_id (rs_rooms (rm_store s)))"
    using room_reachable_inv [OF assms(1) new_rooms_inv] by (simp add: rooms_inv_def)
  let ?rs = "find_active_rooms (rm_store s)"
  have t: "snd (on_timer_tick c s) = fold sweep ?rs s" using assms(2) by (simp add: on_timer_tick_sweep)
  have "r \<in> set (rs_rooms (rm_store s)) \<and>
      (ro_state r \<noteq> ACTIVE \<or> protected_room r \<or> find_members_by_room (ro_id r) (rm_store s) \<noteq> [])"
    if r: "r \<in> set (rs_rooms (rm_store (fold sweep ?rs s)))" for r
    using fold_sweep_subset [of ?rs s] fold_sweep_removes [of r ?rs s] r by (auto simp: find_active_rooms_def)
  moreover have "r \<in> set (rs_rooms (rm_store (fold sweep ?rs s)))"
    if r: "r \<in> set (rs_rooms (rm_store s))"
      "ro_state r \<noteq> ACTIVE \<or> protected_room r \<or> find_members_by_room (ro_id r) (rm_store s) \<noteq> []" for r
  proof (rule fold_sweep_keeps [OF r(1)], intro ballI impI)
    fix x assume x: "x \<in> set ?rs" "ro_id x = ro_id r"
    then have "x = r" using distinct_key_eq [OF inv, of x r] r(1) by (simp add: find_active_rooms_def)
    with r(2) x(1) show "protected_room x \<or> find_members_by_room (ro_id x) (rm_store s) \<noteq> []"
      by (auto simp: find_active_rooms_def)
  qed
  ultimately show ?thesis unfolding t by blast
qed

end
