(* ===== verification/Session.thy ===== *)
theory Session
  imports Room
begin

text \<open>
  Client sessions (\<open>iris/io/session\<close>: manager, router, permissions), authentication
  (\<open>iris/io/auth/authenticator.py\<close>) and the messages they carry (\<open>iris/io/models.py\<close>).

  A connection is a value of type \<open>'c\<close>; whether writing to it works is the parameter
  \<open>alive\<close>. What is written goes to \<open>sm_sent\<close> with the session it was written to, a closed
  connection to \<open>sm_closed\<close>, and a published \<open>SessionDisconnectEvent\<close> to \<open>sm_events\<close>.
\<close>

section \<open>Models\<close>

datatype permission =
    SEND_CHAT | RECEIVE_CHAT | SEND_COMMAND | RECEIVE_COMMAND | RECEIVE_LOG | INTERRUPT
  | EXECUTE_ACTION | SEND_INHIBITION

datatype direction = REQUEST | RESPONSE | STREAM | EVENT

datatype session_state = SESSION_ACTIVE | SESSION_CLOSED

record auth_message =
  au_token :: "string option"
  au_role :: string
  au_permissions :: "permission list"
  au_tag :: string
  au_description :: string

datatype auth_result = AuthSuccess string | AuthFailure string

record message =
  mg_id :: string
  mg_correlation_id :: "string option"
  mg_session_id :: string
  mg_source_role :: string
  mg_target_role :: string
  mg_account_id :: string
  mg_direction :: direction
  mg_msg_type :: string
  mg_content :: string
  mg_state :: "string option"
  mg_metadata :: "(string, pyobj) dict"
  mg_speaker :: "identity_msg option"
  mg_room_id :: string

record command_output =
  co_correlation_id :: "string option"
  co_session_id :: string
  co_content :: string

record presence =
  pr_action :: string
  pr_account_id :: string
  pr_room_id :: string
  pr_display_name :: string

datatype wire = WMessage message | WReply control_reply | WPresence presence | WCommand command_output

record 'c session =
  sn_id :: string
  sn_state :: session_state
  sn_role :: string
  sn_permissions :: "permission list"
  sn_tag :: string
  sn_description :: string
  sn_conn :: "'c option"
  sn_created_at :: real
  sn_last_activity :: real

definition msg_permission :: "(string, permission) dict" where
  "msg_permission =
    [(''chat'', RECEIVE_CHAT), (''execute'', EXECUTE_ACTION), (''execute_result'', EXECUTE_ACTION),
     (''ack'', RECEIVE_CHAT), (''system'', RECEIVE_CHAT), (''error'', RECEIVE_CHAT),
     (''interrupt'', INTERRUPT), (''command'', RECEIVE_COMMAND)]"

definition input_permission :: "(string, permission) dict" where
  "input_permission =
    [(''chat'', SEND_CHAT), (''system'', SEND_CHAT), (''interrupt'', INTERRUPT),
     (''execute_result'', EXECUTE_ACTION), (''command'', SEND_COMMAND), (''inhibition'', SEND_INHIBITION)]"

section \<open>The session manager\<close>

record 'c session_manager =
  sm_token :: string
  sm_sessions :: "(string, 'c session) dict"
  sm_last_disconnect :: "(string, real) dict"
  sm_closed :: "'c list"
  sm_events :: "(string \<times> string) list"
  sm_sent :: "(string \<times> wire) list"

definition new_session_manager :: "string \<Rightarrow> string \<Rightarrow> 'c session_manager" where
  "new_session_manager cfg_token env_token =
    \<lparr>sm_token = or_else cfg_token env_token, sm_sessions = [], sm_last_disconnect = [], sm_closed = [],
     sm_events = [], sm_sent = []\<rparr>"

definition check_token :: "string \<Rightarrow> auth_message \<Rightarrow> string option" where
  "check_token token m = (if token \<noteq> [] \<and> au_token m \<noteq> Some token then Some ''invalid access_token'' else None)"

definition close_conn :: "'c session \<Rightarrow> 'c list" where
  "close_conn s = (case sn_conn s of None \<Rightarrow> [] | Some c \<Rightarrow> [c])"

definition is_duplicate :: "string \<Rightarrow> 'c session \<Rightarrow> bool" where
  "is_duplicate tag s \<longleftrightarrow> sn_tag s = tag \<and> sn_state s = SESSION_ACTIVE"

definition replace_duplicate_session :: "string \<Rightarrow> 'c session_manager \<Rightarrow> 'c session_manager" where
  "replace_duplicate_session tag s =
    (if tag = [] then s
     else s\<lparr>sm_sessions := filter (\<lambda>p. \<not> is_duplicate tag (snd p)) (sm_sessions s),
            sm_closed := sm_closed s @ concat (map (close_conn \<circ> snd) (filter (\<lambda>p. is_duplicate tag (snd p)) (sm_sessions s)))\<rparr>)"

definition new_session :: "string \<Rightarrow> real \<Rightarrow> 'c option \<Rightarrow> auth_message \<Rightarrow> 'c session" where
  "new_session fresh now conn m =
    \<lparr>sn_id = fresh, sn_state = SESSION_ACTIVE, sn_role = or_else (au_role m) ''external'',
     sn_permissions = au_permissions m, sn_tag = au_tag m, sn_description = au_description m,
     sn_conn = conn, sn_created_at = now, sn_last_activity = now\<rparr>"

definition create_session :: "string \<Rightarrow> real \<Rightarrow> 'c option \<Rightarrow> auth_message \<Rightarrow> 'c session_manager \<Rightarrow> 'c session_manager" where
  "create_session fresh now conn m s = s\<lparr>sm_sessions := dput fresh (new_session fresh now conn m) (sm_sessions s)\<rparr>"

definition sm_authenticate :: "string \<Rightarrow> real \<Rightarrow> 'c option \<Rightarrow> auth_message \<Rightarrow> 'c session_manager \<Rightarrow>
    auth_result \<times> 'c session_manager" where
  "sm_authenticate fresh now conn m s =
    (case check_token (sm_token s) m of
       Some err \<Rightarrow> (AuthFailure err, s)
     | None \<Rightarrow> (AuthSuccess fresh, create_session fresh now conn m (replace_duplicate_session (au_tag m) s)))"

definition get_session_info :: "string \<Rightarrow> 'c session_manager \<Rightarrow> 'c session option" where
  "get_session_info sid s = dget (sm_sessions s) sid"

definition put_session :: "'c session \<Rightarrow> 'c session_manager \<Rightarrow> 'c session_manager" where
  "put_session x s = s\<lparr>sm_sessions := dput (sn_id x) x (sm_sessions s)\<rparr>"

definition update_activity :: "real \<Rightarrow> string option \<Rightarrow> 'c session_manager \<Rightarrow> 'c session_manager" where
  "update_activity now sid s =
    (case sid of None \<Rightarrow> s
     | Some i \<Rightarrow> (case get_session_info i s of None \<Rightarrow> s
         | Some x \<Rightarrow> s\<lparr>sm_sessions := dput i (x\<lparr>sn_last_activity := now\<rparr>) (sm_sessions s)\<rparr>))"

definition is_session_active :: "string \<Rightarrow> 'c session_manager \<Rightarrow> bool" where
  "is_session_active sid s =
    (case get_session_info sid s of None \<Rightarrow> False | Some x \<Rightarrow> sn_state x = SESSION_ACTIVE)"

definition disconnect_key :: "'c session \<Rightarrow> string" where
  "disconnect_key x = (if sn_tag x \<noteq> [] then sn_role x @ '':'' @ sn_tag x else sn_role x)"

definition remove_session :: "real \<Rightarrow> string \<Rightarrow> 'c session_manager \<Rightarrow> 'c session_manager" where
  "remove_session now sid s =
    (case get_session_info sid s of
       None \<Rightarrow> s
     | Some x \<Rightarrow>
        s\<lparr>sm_sessions := ddel sid (sm_sessions s), sm_closed := sm_closed s @ close_conn x,
          sm_last_disconnect := dput (disconnect_key x) now (sm_last_disconnect s),
          sm_events := sm_events s @ [(sid, sn_tag x)]\<rparr>)"

definition get_active_sessions :: "'c session_manager \<Rightarrow> 'c session list" where
  "get_active_sessions s = filter (\<lambda>x. sn_state x = SESSION_ACTIVE) (dvalues (sm_sessions s))"

definition has_active_sessions :: "'c session_manager \<Rightarrow> bool" where
  "has_active_sessions s \<longleftrightarrow> (\<exists>x \<in> set (dvalues (sm_sessions s)). sn_state x = SESSION_ACTIVE)"

definition check_send_permission :: "string \<Rightarrow> string \<Rightarrow> 'c session_manager \<Rightarrow> bool" where
  "check_send_permission sid ty s =
    (case dget input_permission ty of
       None \<Rightarrow> True
     | Some p \<Rightarrow> (case get_session_info sid s of None \<Rightarrow> False | Some x \<Rightarrow> p \<in> set (sn_permissions x)))"

section \<open>The router\<close>

definition reachable :: "'c session \<Rightarrow> bool" where
  "reachable x \<longleftrightarrow> sn_state x = SESSION_ACTIVE \<and> sn_conn x \<noteq> None"

text \<open>A failed write makes the session lose its connection.\<close>

definition send_bytes :: "('c \<Rightarrow> bool) \<Rightarrow> real \<Rightarrow> string \<Rightarrow> wire \<Rightarrow> 'c session_manager \<Rightarrow> 'c session_manager" where
  "send_bytes alive now sid w s =
    (case get_session_info sid s of
       None \<Rightarrow> s
     | Some x \<Rightarrow>
        (case sn_conn x of
           None \<Rightarrow> s
         | Some c \<Rightarrow>
            if alive c then
              s\<lparr>sm_sessions := dput sid (x\<lparr>sn_last_activity := now\<rparr>) (sm_sessions s), sm_sent := sm_sent s @ [(sid, w)]\<rparr>
            else s\<lparr>sm_sessions := dput sid (x\<lparr>sn_conn := None\<rparr>) (sm_sessions s)\<rparr>))"

definition permitted :: "string \<Rightarrow> 'c session \<Rightarrow> bool" where
  "permitted ty x \<longleftrightarrow> (case dget msg_permission ty of None \<Rightarrow> True | Some p \<Rightarrow> p \<in> set (sn_permissions x))"

definition resolve_route_targets :: "message \<Rightarrow> 'c session_manager \<Rightarrow> string option \<times> string list" where
  "resolve_route_targets m s =
    (if mg_session_id m \<noteq> [] then
       (case get_session_info (mg_session_id m) s of
          Some x \<Rightarrow> if reachable x then (Some (mg_session_id m), []) else (None, [])
        | None \<Rightarrow> (None, []))
     else if mg_target_role m = ''*'' then
       (None, map fst (filter (\<lambda>p. reachable (snd p)) (sm_sessions s)))
     else (None, map fst (filter (\<lambda>p. reachable (snd p) \<and> sn_role (snd p) = mg_target_role m) (sm_sessions s))))"

definition send_to_targets :: "('c \<Rightarrow> bool) \<Rightarrow> real \<Rightarrow> message \<Rightarrow> string list \<Rightarrow> 'c session_manager \<Rightarrow> 'c session_manager" where
  "send_to_targets alive now m sids s =
    fold (\<lambda>sid s. case get_session_info sid s of
        None \<Rightarrow> s
      | Some x \<Rightarrow> if permitted (mg_msg_type m) x then send_bytes alive now sid (WMessage m) s else s) sids s"

definition route_message :: "('c \<Rightarrow> bool) \<Rightarrow> real \<Rightarrow> message \<Rightarrow> 'c session_manager \<Rightarrow> 'c session_manager" where
  "route_message alive now m s =
    (case resolve_route_targets m s of
       (Some sid, _) \<Rightarrow> send_bytes alive now sid (WMessage m) s
     | (None, sids) \<Rightarrow> send_to_targets alive now m sids s)"

definition room_targets :: "string \<Rightarrow> room_store \<Rightarrow> 'c session_manager \<Rightarrow> string list" where
  "room_targets rid rs s =
    filter (\<lambda>sid. case get_session_info sid s of None \<Rightarrow> False | Some x \<Rightarrow> reachable x)
      (find_all_session_ids_for_room rid rs)"

definition route_to_room :: "('c \<Rightarrow> bool) \<Rightarrow> real \<Rightarrow> message \<Rightarrow> string \<Rightarrow> room_store \<Rightarrow> 'c session_manager \<Rightarrow> 'c session_manager" where
  "route_to_room alive now m rid rs s = send_to_targets alive now m (room_targets rid rs s) s"

text \<open>A reply is written without catching a lost connection; the \<open>bool\<close> says that it raised.\<close>

definition route_control_message :: "('c \<Rightarrow> bool) \<Rightarrow> control_reply \<Rightarrow> string \<Rightarrow> 'c session_manager \<Rightarrow> 'c session_manager \<times> bool" where
  "route_control_message alive r sid s =
    (case get_session_info sid s of
       None \<Rightarrow> (s, False)
     | Some x \<Rightarrow>
        (case (sn_state x, sn_conn x) of
           (SESSION_ACTIVE, Some c) \<Rightarrow>
             if alive c then (s\<lparr>sm_sent := sm_sent s @ [(sid, WReply r)]\<rparr>, False) else (s, True)
         | _ \<Rightarrow> (s, False)))"

definition broadcast_control_message :: "('c \<Rightarrow> bool) \<Rightarrow> real \<Rightarrow> presence \<Rightarrow> 'c session_manager \<Rightarrow> 'c session_manager" where
  "broadcast_control_message alive now p s =
    fold (\<lambda>sid. send_bytes alive now sid (WPresence p))
      (map fst (filter (\<lambda>q. reachable (snd q) \<and> RECEIVE_CHAT \<in> set (sn_permissions (snd q))) (sm_sessions s))) s"

definition route_command_output :: "('c \<Rightarrow> bool) \<Rightarrow> real \<Rightarrow> string \<Rightarrow> command_output \<Rightarrow> 'c session_manager \<Rightarrow> 'c session_manager" where
  "route_command_output alive now sid out s =
    (case get_session_info sid s of
       None \<Rightarrow> s
     | Some x \<Rightarrow>
        if \<not> reachable x \<or> RECEIVE_COMMAND \<notin> set (sn_permissions x) then s
        else send_bytes alive now sid (WCommand out) s)"

section \<open>The invariant\<close>

text \<open>Every kept session is active, and no two share a tag.\<close>

definition tags_ok :: "(string \<Rightarrow> 'c session option) \<Rightarrow> bool" where
  "tags_ok f \<longleftrightarrow> (\<forall>i x. f i = Some x \<longrightarrow> sn_state x = SESSION_ACTIVE) \<and>
     (\<forall>i j x y. f i = Some x \<longrightarrow> f j = Some y \<longrightarrow> sn_tag x = sn_tag y \<longrightarrow> sn_tag x \<noteq> [] \<longrightarrow> i = j)"

definition sessions_inv :: "'c session_manager \<Rightarrow> bool" where
  "sessions_inv s \<longleftrightarrow> distinct (dkeys (sm_sessions s)) \<and> tags_ok (dget (sm_sessions s))"

lemma tags_ok_active: "tags_ok f \<Longrightarrow> f i = Some x \<Longrightarrow> sn_state x = SESSION_ACTIVE"
  by (simp add: tags_ok_def)

lemma tags_ok_put:
  "tags_ok f \<Longrightarrow> f k = Some x \<Longrightarrow> sn_state y = SESSION_ACTIVE \<Longrightarrow> sn_tag y = sn_tag x \<Longrightarrow> tags_ok (f(k \<mapsto> y))"
  unfolding tags_ok_def by (simp, metis)

lemma tags_ok_new:
  "tags_ok f \<Longrightarrow> sn_state y = SESSION_ACTIVE \<Longrightarrow> sn_tag y = [] \<or> (\<forall>i x. f i = Some x \<longrightarrow> sn_tag x \<noteq> sn_tag y) \<Longrightarrow>
    tags_ok (f(k \<mapsto> y))"
  unfolding tags_ok_def by (simp, metis)

lemma tags_ok_sub: "tags_ok f \<Longrightarrow> (\<And>i x. g i = Some x \<Longrightarrow> f i = Some x) \<Longrightarrow> tags_ok g"
  unfolding tags_ok_def by blast

lemma sessions_inv_put:
  "sessions_inv s \<Longrightarrow> get_session_info k s = Some x \<Longrightarrow> sn_tag y = sn_tag x \<Longrightarrow> sn_state y = sn_state x \<Longrightarrow>
    sm_sessions s' = dput k y (sm_sessions s) \<Longrightarrow> sessions_inv s'"
  unfolding sessions_inv_def get_session_info_def
  by (simp only: update_conv') (metis distinct_update tags_ok_active tags_ok_put)

lemma sessions_inv_send [inv_intros]:
  assumes "sessions_inv s" shows "sessions_inv (send_bytes alive now sid w s)"
proof (cases "get_session_info sid s")
  case (Some x)
  show ?thesis
  proof (cases "sn_conn x")
    case conn: (Some c)
    show ?thesis
      using conn Some
        sessions_inv_put [OF assms Some, of "x\<lparr>sn_last_activity := now\<rparr>"
          "s\<lparr>sm_sessions := dput sid (x\<lparr>sn_last_activity := now\<rparr>) (sm_sessions s), sm_sent := sm_sent s @ [(sid, w)]\<rparr>"]
        sessions_inv_put [OF assms Some, of "x\<lparr>sn_conn := None\<rparr>"
          "s\<lparr>sm_sessions := dput sid (x\<lparr>sn_conn := None\<rparr>) (sm_sessions s)\<rparr>"]
      by (simp add: send_bytes_def)
  qed (simp add: send_bytes_def Some assms)
qed (simp add: send_bytes_def assms)

lemma sessions_inv_remove [inv_intros]:
  assumes "sessions_inv s" shows "sessions_inv (remove_session now sid s)"
proof (cases "get_session_info sid s")
  case (Some x)
  have "tags_ok (dget (ddel sid (sm_sessions s)))"
    using assms by (auto simp: sessions_inv_def intro: tags_ok_sub [of "dget (sm_sessions s)"] split: if_splits simp del: map_of_eq_Some_iff)
  with Some assms show ?thesis by (simp add: remove_session_def sessions_inv_def)
qed (simp add: remove_session_def assms)

lemma sessions_inv_activity [inv_intros]:
  assumes "sessions_inv s" shows "sessions_inv (update_activity now sid s)"
proof (cases sid)
  case (Some i)
  show ?thesis
  proof (cases "get_session_info i s")
    case x: (Some x)
    show ?thesis
      unfolding update_activity_def Some option.case x
      by (rule sessions_inv_put [OF assms x, of "x\<lparr>sn_last_activity := now\<rparr>"]) simp_all
  qed (simp add: update_activity_def Some assms)
qed (simp add: update_activity_def assms)

lemma get_replaced:
  "distinct (dkeys (sm_sessions s)) \<Longrightarrow>
    dget (sm_sessions (replace_duplicate_session tag s)) i =
      (case dget (sm_sessions s) i of None \<Rightarrow> None | Some x \<Rightarrow> if tag \<noteq> [] \<and> is_duplicate tag x then None else Some x)"
  using dget_filter_snd [of "sm_sessions s" "\<lambda>x. \<not> is_duplicate tag x" i]
  by (cases "tag = []") (simp_all add: replace_duplicate_session_def split: option.split)

lemma sessions_inv_authenticate [inv_intros]:
  assumes inv: "sessions_inv s"
  shows "sessions_inv (snd (sm_authenticate fresh now conn m s))"
proof (cases "check_token (sm_token s) m")
  case None
  let ?t = "replace_duplicate_session (au_tag m) s"
  have d: "distinct (dkeys (sm_sessions s))" and t: "tags_ok (dget (sm_sessions s))"
    using inv by (simp_all add: sessions_inv_def)
  have d': "distinct (dkeys (sm_sessions ?t))"
    using d by (simp add: replace_duplicate_session_def distinct_map_filter)
  have sub: "dget (sm_sessions s) i = Some x \<and> (au_tag m \<noteq> [] \<longrightarrow> \<not> is_duplicate (au_tag m) x)"
    if "dget (sm_sessions ?t) i = Some x" for i x
    using that unfolding get_replaced [OF d] by (cases "dget (sm_sessions s) i") (auto split: if_splits simp del: map_of_eq_Some_iff)
  have "au_tag m = [] \<or> (\<forall>i x. dget (sm_sessions ?t) i = Some x \<longrightarrow> sn_tag x \<noteq> au_tag m)"
    using sub tags_ok_active [OF t] by (metis is_duplicate_def)
  moreover have "tags_ok (dget (sm_sessions ?t))"
    by (rule tags_ok_sub [OF t]) (use sub in blast)
  ultimately have "tags_ok ((dget (sm_sessions ?t))(fresh \<mapsto> new_session fresh now conn m))"
    by (intro tags_ok_new) (simp_all add: new_session_def)
  moreover have "dget (sm_sessions (create_session fresh now conn m ?t)) =
      (dget (sm_sessions ?t))(fresh \<mapsto> new_session fresh now conn m)"
    by (rule ext) (simp add: create_session_def)
  ultimately have "tags_ok (dget (sm_sessions (create_session fresh now conn m ?t)))" by metis
  then show ?thesis
    using None distinct_dput [OF d'] by (simp add: sm_authenticate_def sessions_inv_def create_session_def)
qed (simp add: sm_authenticate_def assms)

lemma sessions_inv_fold_send [inv_intros]:
  "sessions_inv s \<Longrightarrow> sessions_inv (fold (\<lambda>sid. send_bytes alive now sid w) sids s)"
  by (induction sids arbitrary: s) (simp_all add: inv_intros)

lemma sessions_inv_targets [inv_intros]: "sessions_inv s \<Longrightarrow> sessions_inv (send_to_targets alive now m sids s)"
  unfolding send_to_targets_def
  by (induction sids arbitrary: s) (auto intro: inv_intros split: option.split)

lemma sessions_inv_route [inv_intros]: "sessions_inv s \<Longrightarrow> sessions_inv (route_message alive now m s)"
  by (auto simp: route_message_def intro: inv_intros split: prod.split option.split)

text \<open>Everything that can happen to the sessions.\<close>

inductive session_step :: "'c session_manager \<Rightarrow> 'c session_manager \<Rightarrow> bool" where
  "session_step s (snd (sm_authenticate fresh now conn m s))"
| "session_step s (remove_session now sid s)"
| "session_step s (update_activity now sid' s)"
| "session_step s (route_message alive now m' s)"
| "session_step s (route_to_room alive now m' rid rs s)"
| "session_step s (fst (route_control_message alive r sid s))"
| "session_step s (broadcast_control_message alive now p s)"
| "session_step s (route_command_output alive now sid out s)"

inductive_cases session_stepE: "session_step s s'"

lemma session_step_inv: "session_step s s' \<Longrightarrow> sessions_inv s \<Longrightarrow> sessions_inv s'"
proof (erule session_stepE)
  show "s' = fst (route_control_message alive r sid s) \<Longrightarrow> sessions_inv s \<Longrightarrow> sessions_inv s'" for alive r sid
    by (auto simp: route_control_message_def sessions_inv_def split: option.split session_state.split)
qed (auto simp: route_to_room_def broadcast_control_message_def route_command_output_def
    intro: inv_intros split: option.split)

lemma session_reachable_inv: "session_step\<^sup>*\<^sup>* s s' \<Longrightarrow> sessions_inv s \<Longrightarrow> sessions_inv s'"
  by (induction rule: rtranclp_induct) (auto intro: session_step_inv)

lemma new_sessions_inv: "sessions_inv (new_session_manager cfg env)"
  by (simp add: sessions_inv_def tags_ok_def new_session_manager_def)

section \<open>Deliveries\<close>

lemma get_send_bytes:
  "get_session_info i (send_bytes alive now sid w s) =
    (case get_session_info i s of None \<Rightarrow> None
     | Some x \<Rightarrow> if i \<noteq> sid then Some x
         else Some (case sn_conn x of None \<Rightarrow> x
            | Some c \<Rightarrow> if alive c then x\<lparr>sn_last_activity := now\<rparr> else x\<lparr>sn_conn := None\<rparr>))"
  by (auto simp: send_bytes_def get_session_info_def split: option.split)

lemma permissions_send_bytes:
  "map_option sn_permissions (get_session_info i (send_bytes alive now sid w s)) = map_option sn_permissions (get_session_info i s)"
  by (auto simp: get_send_bytes split: option.split)

lemma sent_send_bytes:
  "sm_sent (send_bytes alive now sid w s) = sm_sent s @
    (case get_session_info sid s of None \<Rightarrow> []
     | Some x \<Rightarrow> (case sn_conn x of None \<Rightarrow> [] | Some c \<Rightarrow> if alive c then [(sid, w)] else []))"
  by (auto simp: send_bytes_def split: option.split)

text \<open>A session gets a message that goes to a list of sessions as often as the list names it.\<close>

definition gets :: "('c \<Rightarrow> bool) \<Rightarrow> message \<Rightarrow> string \<Rightarrow> 'c session_manager \<Rightarrow> bool" where
  "gets alive m sid s \<longleftrightarrow>
     (case get_session_info sid s of None \<Rightarrow> False
      | Some x \<Rightarrow> permitted (mg_msg_type m) x \<and> (case sn_conn x of None \<Rightarrow> False | Some c \<Rightarrow> alive c))"

lemma permitted_simps [simp]:
  "permitted ty (x\<lparr>sn_last_activity := n\<rparr>) = permitted ty x" "permitted ty (x\<lparr>sn_conn := c\<rparr>) = permitted ty x"
  by (simp_all add: permitted_def split: option.split)

lemma gets_send_bytes: "gets alive m sid (send_bytes alive now i w s) = gets alive m sid s"
  by (auto simp: gets_def get_send_bytes split: option.split)

lemma sent_to_targets:
  "sm_sent (send_to_targets alive now m sids s) =
    sm_sent s @ map (\<lambda>sid. (sid, WMessage m)) (filter (\<lambda>sid. gets alive m sid s) sids)"
proof (induction sids arbitrary: s)
  case (Cons sid sids)
  let ?t = "case get_session_info sid s of None \<Rightarrow> s
    | Some x \<Rightarrow> if permitted (mg_msg_type m) x then send_bytes alive now sid (WMessage m) s else s"
  have t: "gets alive m i ?t = gets alive m i s" for i
    by (simp add: gets_send_bytes split: option.split)
  have "sm_sent ?t = sm_sent s @ (if gets alive m sid s then [(sid, WMessage m)] else [])"
    by (auto simp: gets_def sent_send_bytes split: option.split)
  moreover have "send_to_targets alive now m (sid # sids) s = send_to_targets alive now m sids ?t"
    by (simp add: send_to_targets_def)
  ultimately show ?case by (simp add: Cons.IH t)
qed (simp add: send_to_targets_def)

lemma count_list_filter: "count_list (filter P xs) x = (if P x then count_list xs x else 0)"
  by (induction xs) auto

lemma count_concat_distinct:
  "(\<And>xs. xs \<in> set xss \<Longrightarrow> distinct xs) \<Longrightarrow> count_list (concat xss) x = length (filter (\<lambda>xs. x \<in> set xs) xss)"
proof (induction xss)
  case (Cons xs xss)
  have "count_list xs x = (if x \<in> set xs then 1 else 0)"
    using Cons.prems [of xs] by (induction xs) (auto simp: count_list_0_iff)
  with Cons show ?case by simp
qed simp

lemma count_list_map_inj: "inj f \<Longrightarrow> count_list (map f xs) (f x) = count_list xs x"
  by (induction xs) (auto dest: injD)

section \<open>Claims\<close>

text \<open>
  C10: at any time every registered session is active and a non-empty session tag belongs to at
  most one of them: a client that reconnects under its tag replaces its old session.
\<close>

theorem one_session_per_tag:
  assumes "session_step\<^sup>*\<^sup>* (new_session_manager cfg env) s"
    and "get_session_info i s = Some x" and "get_session_info j s = Some y"
  shows "is_session_active i s \<and> (sn_tag x = sn_tag y \<and> sn_tag x \<noteq> '''' \<longrightarrow> i = j)"
  using session_reachable_inv [OF assms(1) new_sessions_inv] assms(2,3)
  unfolding sessions_inv_def tags_ok_def is_session_active_def get_session_info_def by auto

definition demo_auth :: auth_message where
  "demo_auth = \<lparr>au_token = None, au_role = ''discord'', au_permissions = [RECEIVE_CHAT], au_tag = ''bot'', au_description = ''''\<rparr>"

definition demo_sessions :: "nat session_manager" where
  "demo_sessions = snd (sm_authenticate ''s1'' 0 (Some 7) demo_auth (new_session_manager '''' ''''))"

lemma demo_sessions_reachable: "session_step\<^sup>*\<^sup>* (new_session_manager '''' '''') demo_sessions"
  unfolding demo_sessions_def by (rule r_into_rtranclp) (rule session_step.intros(1))

lemma demo_session: "get_session_info ''s1'' demo_sessions = Some (new_session ''s1'' 0 (Some 7) demo_auth)"
  by (simp add: get_session_info_def demo_sessions_def sm_authenticate_def check_token_def new_session_manager_def
      replace_duplicate_session_def create_session_def)

theorem one_session_per_tag_witness: "is_session_active ''s1'' demo_sessions"
  by (rule conjunct1 [OF one_session_per_tag [OF demo_sessions_reachable demo_session demo_session]])

text \<open>
  C24: a message routed to a room reaches only sessions of active members of the room that are
  connected and hold the permission to receive that type of message, each once per membership that
  lists the session: a session through which two accounts are in the room gets it twice.
\<close>

theorem route_to_room_deliveries:
  assumes "\<forall>me \<in> set (rs_members rs). distinct (me_sessions me)"
  shows "\<exists>d. sm_sent (route_to_room alive now m rid rs s) = sm_sent s @ d \<and>
    (\<forall>p \<in> set d. snd p = WMessage m \<and>
       (\<exists>x. get_session_info (fst p) s = Some x \<and> reachable x \<and> permitted (mg_msg_type m) x)) \<and>
    (\<forall>sid. count_list d (sid, WMessage m) =
       (if (case get_session_info sid s of None \<Rightarrow> False | Some x \<Rightarrow> reachable x) \<and> gets alive m sid s
        then length (filter (\<lambda>me. me_room me = rid \<and> me_active me \<and> sid \<in> set (me_sessions me)) (rs_members rs)) else 0))"
proof -
  let ?d = "map (\<lambda>sid. (sid, WMessage m)) (filter (\<lambda>sid. gets alive m sid s) (room_targets rid rs s))"
  have "sm_sent (route_to_room alive now m rid rs s) = sm_sent s @ ?d"
    by (simp add: route_to_room_def sent_to_targets)
  moreover have "\<exists>x. get_session_info sid s = Some x \<and> reachable x \<and> permitted (mg_msg_type m) x"
    if "sid \<in> set (room_targets rid rs s)" "gets alive m sid s" for sid
    using that by (auto simp: room_targets_def gets_def split: option.splits)
  moreover have "count_list ?d (sid, WMessage m) = (if (case get_session_info sid s of None \<Rightarrow> False | Some x \<Rightarrow> reachable x) \<and>
      gets alive m sid s
      then length (filter (\<lambda>me. me_room me = rid \<and> me_active me \<and> sid \<in> set (me_sessions me)) (rs_members rs)) else 0)" for sid
  proof -
    have "count_list ?d (sid, WMessage m) = count_list (filter (\<lambda>sid. gets alive m sid s) (room_targets rid rs s)) sid"
      using count_list_map_inj [of "\<lambda>sid. (sid, WMessage m)"] by (simp add: inj_def)
    moreover have "count_list (find_all_session_ids_for_room rid rs) sid =
        length (filter (\<lambda>xs. sid \<in> set xs) (map me_sessions (filter (\<lambda>me. me_room me = rid \<and> me_active me) (rs_members rs))))"
      unfolding find_all_session_ids_for_room_def by (rule count_concat_distinct) (use assms in auto)
    moreover have "length (filter (\<lambda>xs. sid \<in> set xs) (map me_sessions (filter (\<lambda>me. me_room me = rid \<and> me_active me) ms))) =
        length (filter (\<lambda>me. me_room me = rid \<and> me_active me \<and> sid \<in> set (me_sessions me)) ms)" for ms
      by (induction ms) auto
    ultimately show ?thesis
      by (simp add: count_list_filter room_targets_def)
  qed
  ultimately show ?thesis by (intro exI [of _ ?d]) auto
qed

definition demo_relay :: room_store where
  "demo_relay = \<lparr>rs_rooms = [], rs_members = map (\<lambda>a. \<lparr>me_room = ''r1'', me_account = a, me_sessions = [''s1''],
     me_role = ''member'', me_joined_at = '''', me_disconnected = None\<rparr>) [''ann'', ''bob'']\<rparr>"

definition demo_message :: message where
  "demo_message = \<lparr>mg_id = ''1'', mg_correlation_id = None, mg_session_id = '''', mg_source_role = ''mind'',
     mg_target_role = ''*'', mg_account_id = '''', mg_direction = RESPONSE, mg_msg_type = ''chat'',
     mg_content = ''hi'', mg_state = None, mg_metadata = [], mg_speaker = None, mg_room_id = ''r1''\<rparr>"

theorem route_to_room_deliveries_witness:
  "sm_sent (route_to_room (\<lambda>_. True) 1 demo_message ''r1'' demo_relay demo_sessions) \<noteq> []"
proof -
  have "reachable (new_session ''s1'' 0 (Some (7::nat)) demo_auth)" "gets (\<lambda>_. True) demo_message ''s1'' demo_sessions"
    by (simp_all add: gets_def demo_session reachable_def new_session_def permitted_def demo_message_def msg_permission_def demo_auth_def)
  moreover have "length (filter (\<lambda>me. me_room me = ''r1'' \<and> me_active me \<and> ''s1'' \<in> set (me_sessions me)) (rs_members demo_relay)) = 2"
    by (simp add: demo_relay_def me_active_def)
  moreover have rel: "\<forall>me \<in> set (rs_members demo_relay). distinct (me_sessions me)"
    by (simp add: demo_relay_def)
  moreover obtain d where d: "sm_sent (route_to_room (\<lambda>_. True) 1 demo_message ''r1'' demo_relay demo_sessions) =
      sm_sent demo_sessions @ d" and
    c: "\<forall>sid. count_list d (sid, WMessage demo_message) =
       (if (case get_session_info sid demo_sessions of None \<Rightarrow> False | Some x \<Rightarrow> reachable x) \<and> gets (\<lambda>_. True) demo_message sid demo_sessions
        then length (filter (\<lambda>me. me_room me = ''r1'' \<and> me_active me \<and> sid \<in> set (me_sessions me)) (rs_members demo_relay)) else 0)"
    using route_to_room_deliveries [OF rel, of "\<lambda>_. True" 1 demo_message "''r1''" demo_sessions] by (elim exE conjE)
  ultimately have "count_list d (''s1'', WMessage demo_message) = 2"
    unfolding c [rule_format] by (simp only: demo_session option.case if_True simp_thms)
  then have "d \<noteq> []" by auto
  with d show ?thesis by simp
qed

text \<open>
  a session replaced by a reconnection under the same tag disappears without a
  \<open>SessionDisconnectEvent\<close>: neither the replacement nor the later removal of the old session
  publishes one, so nothing tells the rooms that the session is gone.
\<close>

theorem replaced_session_unannounced:
  assumes "sm_authenticate fresh now conn m s = (AuthSuccess fresh, s1)"
    and "get_session_info old s = Some x" and "sn_state x = SESSION_ACTIVE" and "distinct (dkeys (sm_sessions s))"
    and "sn_tag x = au_tag m" and "au_tag m \<noteq> ''''" and "old \<noteq> fresh"
  shows "get_session_info old s1 = None \<and> sm_events s1 = sm_events s \<and> remove_session later old s1 = s1"
proof -
  have s1: "s1 = create_session fresh now conn m (replace_duplicate_session (au_tag m) s)"
    using assms(1) by (simp add: sm_authenticate_def split: option.splits)
  have "dget (sm_sessions (replace_duplicate_session (au_tag m) s)) old = None"
    unfolding get_replaced [OF assms(4)] using assms(2,3,5,6) by (simp add: get_session_info_def is_duplicate_def)
  then have "get_session_info old s1 = None"
    using assms(7) by (simp add: s1 get_session_info_def create_session_def)
  moreover have "sm_events s1 = sm_events s"
    by (simp add: s1 create_session_def replace_duplicate_session_def)
  ultimately show ?thesis by (simp add: remove_session_def)
qed

end
