(* ===== verification/Agency_Plan.thy ===== *)
theory Agency_Plan
  imports Iris_Interfaces
begin

text \<open>
  Affective modulation (\<open>iris/agency/modulation\<close>: state, behaviour policy, sampling), task levels
  (\<open>iris/agency/task_level.py\<close>) and plans (\<open>iris/agency/planning/models.py\<close>,
  \<open>strategies\<close>).

  Floating-point numbers are reals. A random draw is an argument. The Japanese sentences a strategy
  composes are kept symbolic in \<open>plan_text\<close>, with the topic and summary they embed. A context
  dictionary maps names to Python values; \<open>context.get(k, default)\<close> on the text-valued and
  number-valued keys is \<open>ctx_str\<close> and \<open>ctx_real\<close>.
\<close>

section \<open>Modulation\<close>

record modulation =
  mo_chaos :: real
  mo_valence :: real
  mo_arousal :: real
  mo_dominance :: real
  mo_mood :: string
  mo_emotion :: string

definition new_modulation :: "real \<Rightarrow> real \<Rightarrow> real \<Rightarrow> real \<Rightarrow> string \<Rightarrow> string \<Rightarrow> modulation" where
  "new_modulation c v a d mood em =
    \<lparr>mo_chaos = max 0 (min 1 c), mo_valence = max (- 1) (min 1 v), mo_arousal = max (- 1) (min 1 a),
     mo_dominance = max (- 1) (min 1 d), mo_mood = mood, mo_emotion = em\<rparr>"

definition from_chaos_level :: "real \<Rightarrow> modulation" where
  "from_chaos_level c = new_modulation c 0 0 0 ''neutral'' ''''"

definition mod_suppresses_proactive :: "modulation \<Rightarrow> bool" where
  "mod_suppresses_proactive m \<longleftrightarrow> mo_valence m < - 0.45 \<and> mo_arousal m > 0.35"

definition relax_response_rules :: "modulation \<Rightarrow> real \<Rightarrow> bool" where
  "relax_response_rules m draw = (if mo_chaos m < 0.5 then False else draw < mo_chaos m)"

definition random_memory_inject_prob :: "modulation \<Rightarrow> real" where
  "random_memory_inject_prob m = mo_chaos m * 0.3"

definition topic_jump_prob :: "modulation \<Rightarrow> real" where
  "topic_jump_prob m = mo_chaos m * 0.25"

text \<open>Python's \<open>int\<close> truncates towards zero.\<close>

definition py_trunc :: "real \<Rightarrow> int" where
  "py_trunc x = (if 0 \<le> x then \<lfloor>x\<rfloor> else \<lceil>x\<rceil>)"

definition curiosity_candidate_count :: "modulation \<Rightarrow> int" where
  "curiosity_candidate_count m = max 1 (1 + py_trunc (mo_chaos m * 3))"

definition sampling_temperature :: "modulation \<Rightarrow> real" where
  "sampling_temperature m =
    (let base = 0.45 + mo_chaos m * 0.35;
         arousal_shift = max 0 (mo_arousal m) * 0.08 - max 0 (- mo_arousal m) * 0.04;
         valence_shift = (if mo_valence m < - 0.35 then - 0.03 else if mo_valence m > 0.35 then 0.02 else 0)
     in max 0.2 (min 0.9 (base + arousal_shift + valence_shift)))"

definition min_p_threshold :: "modulation \<Rightarrow> real" where
  "min_p_threshold m = max 0.02 (0.1 - mo_chaos m * 0.08)"

definition modulation_ok :: "modulation \<Rightarrow> bool" where
  "modulation_ok m \<longleftrightarrow> 0 \<le> mo_chaos m \<and> mo_chaos m \<le> 1 \<and> \<bar>mo_valence m\<bar> \<le> 1 \<and>
     \<bar>mo_arousal m\<bar> \<le> 1 \<and> \<bar>mo_dominance m\<bar> \<le> 1"

lemma new_modulation_ok [inv_intros]: "modulation_ok (new_modulation c v a d mood em)"
  by (auto simp: modulation_ok_def new_modulation_def)

section \<open>Task levels\<close>

record task_level =
  tl_name :: string
  tl_order :: int
  tl_model_role :: string
  tl_max_tokens :: int
  tl_max_tool_iterations :: int
  tl_priority :: int
  tl_show_thinking :: bool
  tl_run_reflexion :: bool
  tl_run_compression :: bool
  tl_temperature :: "real option"

definition level_of :: "string \<Rightarrow> int \<Rightarrow> string \<Rightarrow> int \<Rightarrow> int \<Rightarrow> int \<Rightarrow> bool \<Rightarrow> bool \<Rightarrow> bool \<Rightarrow> task_level" where
  "level_of n o1 r t i p th rf rc =
    \<lparr>tl_name = n, tl_order = o1, tl_model_role = r, tl_max_tokens = t, tl_max_tool_iterations = i,
     tl_priority = p, tl_show_thinking = th, tl_run_reflexion = rf, tl_run_compression = rc, tl_temperature = None\<rparr>"

definition TASK_LEVELS :: "(string, task_level) dict" where
  "TASK_LEVELS =
    [(''chat'', level_of ''chat'' 1 ''low'' 80 0 0 False False False),
     (''light'', level_of ''light'' 2 ''low'' 256 1 1 False False True),
     (''normal'', level_of ''normal'' 3 ''medium'' 0 5 2 True True True),
     (''deep'', level_of ''deep'' 4 ''medium'' 4096 10 3 True True True),
     (''research'', level_of ''research'' 5 ''high'' 8192 20 4 True True True)]"

section \<open>Plans\<close>

datatype plan_reason = USER_INPUT | PROACTIVE_CURIOSITY | PROACTIVE_ESCALATION | TIMER_EVENT

fun reason_value :: "plan_reason \<Rightarrow> string" where
  "reason_value USER_INPUT = ''user_input''"
| "reason_value PROACTIVE_CURIOSITY = ''proactive_curiosity''"
| "reason_value PROACTIVE_ESCALATION = ''proactive_escalation''"
| "reason_value TIMER_EVENT = ''timer''"

definition all_reasons :: "plan_reason list" where
  "all_reasons = [USER_INPUT, PROACTIVE_CURIOSITY, PROACTIVE_ESCALATION, TIMER_EVENT]"

datatype plan_text = Plain string | InvestigatedFound string string | Investigated string | Found string

record plan =
  pl_content :: plan_text
  pl_task_level :: string
  pl_silent :: bool
  pl_reason :: plan_reason
  pl_context_hint :: string
  pl_session_id :: string
  pl_account_id :: string
  pl_room_id :: string
  pl_overrides :: "(string, pyobj) dict"
  pl_modulation :: modulation

lemma reason_value_inject [simp]: "reason_value a = reason_value b \<longleftrightarrow> a = b"
  by (cases a; cases b) simp_all

lemma all_reasons_all [simp]: "r \<in> set all_reasons"
  by (cases r) (simp_all add: all_reasons_def)

type_synonym py_context = "(string, pyobj) dict"

fun truthy :: "pyobj \<Rightarrow> bool" where
  "truthy PNone = False"
| "truthy (PBool b) = b"
| "truthy (PInt i) = (i \<noteq> 0)"
| "truthy (PFloat x) = (x \<noteq> 0)"
| "truthy (PStr s) = (s \<noteq> [])"
| "truthy (PList xs) = (xs \<noteq> [])"
| "truthy (PDict d) = (d \<noteq> [])"

definition ctx_truthy :: "py_context \<Rightarrow> string \<Rightarrow> bool" where
  "ctx_truthy d k = (case dget d k of None \<Rightarrow> False | Some v \<Rightarrow> truthy v)"

definition ctx_str :: "py_context \<Rightarrow> string \<Rightarrow> string \<Rightarrow> string" where
  "ctx_str d k dflt = (case dget d k of Some (PStr s) \<Rightarrow> s | _ \<Rightarrow> dflt)"

definition ctx_real :: "py_context \<Rightarrow> string \<Rightarrow> real \<Rightarrow> real" where
  "ctx_real d k dflt = (case dget d k of Some (PFloat x) \<Rightarrow> x | _ \<Rightarrow> dflt)"

section \<open>Strategies\<close>

definition build_proactive :: "py_context \<Rightarrow> plan" where
  "build_proactive ctx =
    (let mk = (\<lambda>content level silent reason overrides.
           \<lparr>pl_content = content, pl_task_level = level, pl_silent = silent, pl_reason = reason,
            pl_context_hint = ctx_str ctx ''context_hint'' '''', pl_session_id = '''',
            pl_account_id = ctx_str ctx ''account_id'' '''', pl_room_id = ctx_str ctx ''room_id'' '''',
            pl_overrides = overrides, pl_modulation = from_chaos_level (ctx_real ctx ''chaos_level'' 0)\<rparr>)
     in if ctx_truthy ctx ''is_silent_proactive'' then
          mk (Plain '''') ''normal'' True PROACTIVE_CURIOSITY
            [(''proactive_reason'', PStr (ctx_str ctx ''topic'' ''general''))]
        else if ctx_truthy ctx ''escalation'' then
          (let topic = ctx_str ctx ''topic'' ''''; summary = ctx_str ctx ''summary'' ''''
           in if topic = [] \<and> summary = [] then mk (Plain '''') ''normal'' True PROACTIVE_CURIOSITY []
              else mk (if topic \<noteq> [] \<and> summary \<noteq> [] then InvestigatedFound topic summary
                       else if topic \<noteq> [] then Investigated topic else Found summary)
                ''deep'' False PROACTIVE_ESCALATION [])
        else mk (Plain '''') ''light'' True TIMER_EVENT [])"

text \<open>\<open>hint\<close> is the result of the context builder and \<open>is_task\<close> that of
  \<open>is_task_content\<close>.\<close>

definition build_response :: "string \<Rightarrow> bool \<Rightarrow> string \<Rightarrow> real \<Rightarrow> string \<Rightarrow> string \<Rightarrow> plan" where
  "build_response hint is_task content chaos room account =
    \<lparr>pl_content = Plain content, pl_task_level = (if \<not> is_task then ''light'' else ''normal''),
     pl_silent = False, pl_reason = USER_INPUT, pl_context_hint = hint, pl_session_id = '''',
     pl_account_id = account, pl_room_id = room, pl_overrides = [], pl_modulation = from_chaos_level chaos\<rparr>"

lemma build_proactive_reason: "pl_reason (build_proactive ctx) \<noteq> USER_INPUT"
  by (simp add: build_proactive_def Let_def)

lemma strategy_modulation_ok [inv_intros]:
  "modulation_ok (pl_modulation (build_proactive ctx))"
  "modulation_ok (pl_modulation (build_response hint t content chaos room account))"
  by (simp_all add: build_proactive_def build_response_def from_chaos_level_def new_modulation_ok Let_def)

section \<open>Claims\<close>

text \<open>
  whatever affect the limbic system reports, the controls derived from it stay in their
  documented ranges: sampling temperature between 0.2 and 0.9, the min-p threshold between 0.02 and
  0.1, one to four curiosity candidates, and injection probabilities that are probabilities.
\<close>

theorem modulation_controls_bounded:
  "let m = new_modulation c v a d mood em in
     0.2 \<le> sampling_temperature m \<and> sampling_temperature m \<le> 0.9 \<and>
     0.02 \<le> min_p_threshold m \<and> min_p_threshold m \<le> 0.1 \<and>
     1 \<le> curiosity_candidate_count m \<and> curiosity_candidate_count m \<le> 4 \<and>
     0 \<le> random_memory_inject_prob m \<and> random_memory_inject_prob m \<le> 0.3 \<and>
     0 \<le> topic_jump_prob m \<and> topic_jump_prob m \<le> 0.25"
proof -
  let ?m = "new_modulation c v a d mood em"
  have c: "0 \<le> mo_chaos ?m" "mo_chaos ?m \<le> 1"
    using new_modulation_ok [of c v a d mood em] by (auto simp: modulation_ok_def)
  have "\<lfloor>mo_chaos ?m * 3\<rfloor> \<le> 3" using c by linarith
  moreover have "0 \<le> \<lfloor>mo_chaos ?m * 3\<rfloor>" using c by simp
  ultimately have "1 \<le> curiosity_candidate_count ?m" "curiosity_candidate_count ?m \<le> 4"
    using c by (simp_all add: curiosity_candidate_count_def py_trunc_def)
  moreover have bounds: "0.2 \<le> max 0.2 (min 0.9 x) \<and> max 0.2 (min 0.9 x) \<le> 0.9" for x :: real
    by (auto simp: max_def min_def)
  have "0.2 \<le> sampling_temperature ?m" "sampling_temperature ?m \<le> 0.9"
    using bounds unfolding sampling_temperature_def Let_def by blast+
  moreover have "0.02 \<le> min_p_threshold ?m" "min_p_threshold ?m \<le> 0.1"
    using c by (simp_all add: min_p_threshold_def)
  moreover have "0 \<le> random_memory_inject_prob ?m" "random_memory_inject_prob ?m \<le> 0.3"
    "0 \<le> topic_jump_prob ?m" "topic_jump_prob ?m \<le> 0.25"
    using c by (simp_all add: random_memory_inject_prob_def topic_jump_prob_def)
  ultimately show ?thesis by (simp add: Let_def)
qed

end
