(* ===== verification/Inhibition.thy ===== *)
theory Inhibition
  imports Agency_Plan
begin

text \<open>
  Inhibition (\<open>iris/agency/inhibition\<close>): the per-room execution gates of \<open>gate.py\<close>, the
  suppression table and plan evaluation of \<open>striatum.py\<close>, the facade \<open>manager.py\<close> and the
  event handler \<open>handler.py\<close>.

  Readings of \<open>time.monotonic()\<close> are arguments \<open>now\<close>; a call that reads the clock more than
  once sees one reading. The locks make each gate operation atomic, so interleavings are sequences of
  operations. Looking a room's gate up creates it (\<open>setdefault\<close>), which \<open>touch_gate\<close> models.
\<close>

section \<open>Data\<close>

datatype pathway = DIRECT | INDIRECT | HYPERDIRECT

datatype gate_reason =
    AlreadyExecuting | CooldownRemaining real | GateOpen | HyperdirectActive
  | QueuedDespiteExecution | ExecutionInProgress | QueuedDespiteCooldown | OnCooldown | SuppressedBy string

record gate_decision =
  gd_allow :: bool
  gd_pathway :: pathway
  gd_reason :: gate_reason

abbreviation decision :: "bool \<Rightarrow> pathway \<Rightarrow> gate_reason \<Rightarrow> gate_decision" where
  "decision a p r \<equiv> \<lparr>gd_allow = a, gd_pathway = p, gd_reason = r\<rparr>"

record suppression_profile =
  sp_blocked :: "string list"
  sp_priority :: int

record suppression_entry =
  se_reason :: string
  se_profile :: suppression_profile
  se_room :: "string option"
  se_expiry :: real

definition proactive_only :: "string list" where
  "proactive_only = map reason_value [PROACTIVE_CURIOSITY, PROACTIVE_ESCALATION, TIMER_EVENT]"

definition builtin_profiles :: "(string, suppression_profile) dict" where
  "builtin_profiles =
    [(''speaking'', \<lparr>sp_blocked = proactive_only, sp_priority = 1\<rparr>),
     (''voice_recording'', \<lparr>sp_blocked = proactive_only, sp_priority = 2\<rparr>),
     (''emotional_fatigue'', \<lparr>sp_blocked = proactive_only, sp_priority = 1\<rparr>),
     (''user_away'', \<lparr>sp_blocked = proactive_only, sp_priority = 1\<rparr>),
     (''hyperdirect'', \<lparr>sp_blocked = map reason_value all_reasons, sp_priority = 100\<rparr>)]"

record inhibition_config =
  ic_cooldown :: real
  ic_during_execution :: bool
  ic_during_cooldown :: bool

section \<open>Gates\<close>

record room_gate =
  rg_executing :: bool
  rg_cooldown_until :: real

definition new_room_gate :: room_gate where
  "new_room_gate = \<lparr>rg_executing = False, rg_cooldown_until = 0\<rparr>"

definition rg_on_cooldown :: "real \<Rightarrow> room_gate \<Rightarrow> bool" where
  "rg_on_cooldown now g \<longleftrightarrow> now < rg_cooldown_until g"

definition rg_remaining :: "real \<Rightarrow> room_gate \<Rightarrow> real" where
  "rg_remaining now g = max 0 (rg_cooldown_until g - now)"

definition rg_acquire :: "real \<Rightarrow> room_gate \<Rightarrow> gate_decision \<times> room_gate" where
  "rg_acquire now g =
    (if rg_executing g then (decision False INDIRECT AlreadyExecuting, g)
     else if rg_on_cooldown now g then (decision False INDIRECT (CooldownRemaining (rg_remaining now g)), g)
     else (decision True DIRECT GateOpen, g\<lparr>rg_executing := True\<rparr>))"

definition rg_release :: "inhibition_config \<Rightarrow> real \<Rightarrow> room_gate \<Rightarrow> room_gate" where
  "rg_release cfg now g = g\<lparr>rg_executing := False, rg_cooldown_until := now + ic_cooldown cfg\<rparr>"

definition rg_force_release :: "room_gate \<Rightarrow> room_gate" where
  "rg_force_release g = g\<lparr>rg_executing := False, rg_cooldown_until := 0\<rparr>"

record gate =
  ga_rooms :: "(string, room_gate) dict"
  ga_global :: room_gate

definition new_gate :: gate where
  "new_gate = \<lparr>ga_rooms = [], ga_global = new_room_gate\<rparr>"

definition get_gate :: "string \<Rightarrow> gate \<Rightarrow> room_gate" where
  "get_gate room g = (if room = [] then ga_global g else dget_or (ga_rooms g) room new_room_gate)"

definition put_gate :: "string \<Rightarrow> room_gate \<Rightarrow> gate \<Rightarrow> gate" where
  "put_gate room rg g =
    (if room = [] then g\<lparr>ga_global := rg\<rparr> else g\<lparr>ga_rooms := dput room rg (ga_rooms g)\<rparr>)"

definition touch_gate :: "string \<Rightarrow> gate \<Rightarrow> gate" where
  "touch_gate room g = put_gate room (get_gate room g) g"

definition gate_acquire :: "real \<Rightarrow> string \<Rightarrow> gate \<Rightarrow> gate_decision \<times> gate" where
  "gate_acquire now room g = (case rg_acquire now (get_gate room g) of (d, rg) \<Rightarrow> (d, put_gate room rg g))"

definition gate_release :: "inhibition_config \<Rightarrow> real \<Rightarrow> string \<Rightarrow> gate \<Rightarrow> gate" where
  "gate_release cfg now room g = put_gate room (rg_release cfg now (get_gate room g)) g"

definition gate_force_release :: "string \<Rightarrow> gate \<Rightarrow> gate" where
  "gate_force_release room g = put_gate room (rg_force_release (get_gate room g)) g"

definition gate_room_executing :: "string \<Rightarrow> gate \<Rightarrow> bool \<times> gate" where
  "gate_room_executing room g = (rg_executing (get_gate room g), touch_gate room g)"

definition gate_room_on_cooldown :: "real \<Rightarrow> string \<Rightarrow> gate \<Rightarrow> bool \<times> gate" where
  "gate_room_on_cooldown now room g = (rg_on_cooldown now (get_gate room g), touch_gate room g)"

definition gate_is_executing :: "gate \<Rightarrow> bool" where
  "gate_is_executing g \<longleftrightarrow> rg_executing (ga_global g) \<or> (\<exists>rg \<in> set (dvalues (ga_rooms g)). rg_executing rg)"

definition gate_is_on_cooldown :: "real \<Rightarrow> gate \<Rightarrow> bool" where
  "gate_is_on_cooldown now g \<longleftrightarrow>
     rg_on_cooldown now (ga_global g) \<or> (\<exists>rg \<in> set (dvalues (ga_rooms g)). rg_on_cooldown now rg)"

lemma get_put_gate [store_simps]: "get_gate room' (put_gate room rg g) = (if room' = room then rg else get_gate room' g)"
  by (auto simp: get_gate_def put_gate_def dget_or_def)

lemma get_touch_gate [store_simps]: "get_gate room' (touch_gate room g) = get_gate room' g"
  by (simp add: touch_gate_def store_simps)

section \<open>The suppression table\<close>

record inhibition =
  in_gate :: gate
  in_suppressions :: "(string, suppression_entry) dict"

definition new_inhibition :: inhibition where
  "new_inhibition = \<lparr>in_gate = new_gate, in_suppressions = []\<rparr>"

text \<open>A room id that is \<open>None\<close> or empty stands for the global scope.\<close>

definition room_or_empty :: "string option \<Rightarrow> string" where
  "room_or_empty r = (case r of None \<Rightarrow> [] | Some x \<Rightarrow> x)"

definition make_key :: "string option \<Rightarrow> string \<Rightarrow> string" where
  "make_key room reason = or_else (room_or_empty room) ''_global_'' @ '':'' @ reason"

definition entry_active :: "real \<Rightarrow> suppression_entry \<Rightarrow> bool" where
  "entry_active now e \<longleftrightarrow> se_expiry e = 0 \<or> now < se_expiry e"

definition has_active_suppression :: "real \<Rightarrow> inhibition \<Rightarrow> bool" where
  "has_active_suppression now s \<longleftrightarrow> (\<exists>e \<in> set (dvalues (in_suppressions s)). entry_active now e)"

definition is_suppressed :: "real \<Rightarrow> string \<Rightarrow> string option \<Rightarrow> inhibition \<Rightarrow> bool" where
  "is_suppressed now reason room s =
    (case dget (in_suppressions s) (make_key room reason) of None \<Rightarrow> False | Some e \<Rightarrow> entry_active now e)"

definition profile_for :: "string \<Rightarrow> suppression_profile" where
  "profile_for reason = dget_or builtin_profiles reason \<lparr>sp_blocked = [], sp_priority = 1\<rparr>"

definition suppress :: "real \<Rightarrow> string \<Rightarrow> real \<Rightarrow> string option \<Rightarrow> suppression_profile option \<Rightarrow> inhibition \<Rightarrow> inhibition" where
  "suppress now reason duration room profile s =
    (let p = (case profile of None \<Rightarrow> profile_for reason | Some p \<Rightarrow> p);
         expiry = (if duration > 0 then now + duration else 0)
     in s\<lparr>in_suppressions := dput (make_key room reason)
            \<lparr>se_reason = reason, se_profile = p, se_room = room, se_expiry = expiry\<rparr> (in_suppressions s)\<rparr>)"

definition unsuppress :: "string \<Rightarrow> string option \<Rightarrow> inhibition \<Rightarrow> inhibition" where
  "unsuppress reason room s = s\<lparr>in_suppressions := ddel (make_key room reason) (in_suppressions s)\<rparr>"

definition applies_to :: "real \<Rightarrow> string \<Rightarrow> string option \<Rightarrow> suppression_entry \<Rightarrow> bool" where
  "applies_to now plan_reason room e \<longleftrightarrow>
     entry_active now e \<and> (se_room e = None \<or> se_room e = room) \<and> plan_reason \<in> set (sp_blocked (se_profile e))"

definition should_suppress :: "real \<Rightarrow> string \<Rightarrow> string option \<Rightarrow> inhibition \<Rightarrow> bool" where
  "should_suppress now plan_reason room s \<longleftrightarrow> (\<exists>e \<in> set (dvalues (in_suppressions s)). applies_to now plan_reason room e)"

datatype remaining = Permanent | Seconds real

record active_suppression =
  as_reason :: string
  as_room :: "string option"
  as_priority :: int
  as_blocked :: "string list"
  as_remaining :: remaining

definition active_suppressions :: "real \<Rightarrow> inhibition \<Rightarrow> active_suppression list" where
  "active_suppressions now s =
    map (\<lambda>e. \<lparr>as_reason = se_reason e, as_room = se_room e, as_priority = sp_priority (se_profile e),
        as_blocked = sp_blocked (se_profile e),
        as_remaining = (if se_expiry e = 0 then Permanent else Seconds (se_expiry e - now))\<rparr>)
      (filter (entry_active now) (dvalues (in_suppressions s)))"

section \<open>Evaluating a plan\<close>

definition evaluate_profiles :: "real \<Rightarrow> plan \<Rightarrow> inhibition \<Rightarrow> gate_decision" where
  "evaluate_profiles now pl s =
    (case find (\<lambda>e. se_reason e \<noteq> ''hyperdirect'' \<and>
                    applies_to now (reason_value (pl_reason pl)) (Some (pl_room_id pl)) e)
            (dvalues (in_suppressions s)) of
       Some e \<Rightarrow> decision False INDIRECT (SuppressedBy (se_reason e))
     | None \<Rightarrow> decision True DIRECT GateOpen)"

definition hyperdirect_blocks :: "real \<Rightarrow> plan \<Rightarrow> inhibition \<Rightarrow> bool" where
  "hyperdirect_blocks now pl s =
    (case dget (in_suppressions s) (make_key None ''hyperdirect'') of
       None \<Rightarrow> False
     | Some e \<Rightarrow> entry_active now e \<and> reason_value (pl_reason pl) \<in> set (sp_blocked (se_profile e)))"

definition evaluate :: "real \<Rightarrow> plan \<Rightarrow> inhibition \<Rightarrow> gate_decision \<times> inhibition" where
  "evaluate now pl s =
    (if hyperdirect_blocks now pl s then (decision False HYPERDIRECT HyperdirectActive, s)
     else let s1 = s\<lparr>in_gate := touch_gate (pl_room_id pl) (in_gate s)\<rparr>
       in if fst (gate_room_executing (pl_room_id pl) (in_gate s1)) then
            (if pl_reason pl = USER_INPUT then decision True DIRECT QueuedDespiteExecution
             else decision False INDIRECT ExecutionInProgress, s1)
          else if fst (gate_room_on_cooldown now (pl_room_id pl) (in_gate s1)) then
            (if pl_reason pl = USER_INPUT then decision True DIRECT QueuedDespiteCooldown
             else decision False INDIRECT OnCooldown, s1)
          else (evaluate_profiles now pl s1, s1))"

text \<open>\<open>session\<close> is the result of the session getter, when there is one.\<close>

definition should_suppress_proactive :: "inhibition_config \<Rightarrow> real \<Rightarrow> bool option \<Rightarrow> string \<Rightarrow> inhibition \<Rightarrow> bool \<times> inhibition" where
  "should_suppress_proactive cfg now session room s =
    (let (ex, cool, g) =
       (if room \<noteq> [] then
          (rg_executing (get_gate room (in_gate s)), rg_on_cooldown now (get_gate room (in_gate s)),
           touch_gate room (in_gate s))
        else (gate_is_executing (in_gate s), gate_is_on_cooldown now (in_gate s), in_gate s))
     in ((ic_during_execution cfg \<and> ex) \<or> (ic_during_cooldown cfg \<and> cool) \<or> has_active_suppression now s \<or>
         session = Some False, s\<lparr>in_gate := g\<rparr>))"

section \<open>The event handler\<close>

record request_event =
  rq_action :: string
  rq_reason :: string
  rq_duration :: real
  rq_room :: string

definition room_option :: "string \<Rightarrow> string option" where
  "room_option r = (if r = [] then None else Some r)"

definition on_request_event :: "real \<Rightarrow> request_event \<Rightarrow> inhibition \<Rightarrow> inhibition" where
  "on_request_event now e s =
    (let room = room_option (rq_room e)
     in if rq_action e \<in> {''suppress'', ''true'', ''1''} then suppress now (rq_reason e) (rq_duration e) room None s
        else if rq_action e \<in> {''unsuppress'', ''false'', ''0''} then unsuppress (rq_reason e) room s
        else if rq_action e = ''hyperdirect'' then suppress now ''hyperdirect'' (rq_duration e) room None s
        else s)"

datatype inhibition_action = SUPPRESS | UNSUPPRESS | HYPERDIRECT_STOP

record inhibition_event =
  ie_action :: inhibition_action
  ie_reason :: string
  ie_duration :: real
  ie_room :: string

definition on_inhibition_event :: "real \<Rightarrow> inhibition_event \<Rightarrow> inhibition \<Rightarrow> inhibition" where
  "on_inhibition_event now e s =
    (let room = room_option (ie_room e)
     in case ie_action e of
          SUPPRESS \<Rightarrow> suppress now (ie_reason e) (ie_duration e) room None s
        | UNSUPPRESS \<Rightarrow> unsuppress (ie_reason e) room s
        | HYPERDIRECT_STOP \<Rightarrow> suppress now ''hyperdirect'' (ie_duration e) None None s)"

section \<open>Sequences of operations\<close>

datatype gate_op = Acquire real string | Release real string | ForceRelease string | Query string

fun gate_step :: "inhibition_config \<Rightarrow> gate_op \<Rightarrow> gate \<Rightarrow> gate" where
  "gate_step cfg (Acquire now r) g = snd (gate_acquire now r g)"
| "gate_step cfg (Release now r) g = gate_release cfg now r g"
| "gate_step cfg (ForceRelease r) g = gate_force_release r g"
| "gate_step cfg (Query r) g = snd (gate_room_executing r g)"

definition gate_run :: "inhibition_config \<Rightarrow> gate_op list \<Rightarrow> gate \<Rightarrow> gate" where
  "gate_run cfg ops g = fold (gate_step cfg) ops g"

fun frees :: "string \<Rightarrow> gate_op \<Rightarrow> bool" where
  "frees r (Release now r') = (r' = r)"
| "frees r (ForceRelease r') = (r' = r)"
| "frees r _ = False"

fun op_room :: "gate_op \<Rightarrow> string" where
  "op_room (Acquire now r) = r" | "op_room (Release now r) = r" | "op_room (ForceRelease r) = r" | "op_room (Query r) = r"

lemma gate_step_other: "op_room op \<noteq> r \<Longrightarrow> get_gate r (gate_step cfg op g) = get_gate r g"
  by (cases op) (auto simp: gate_acquire_def gate_release_def gate_force_release_def gate_room_executing_def
      store_simps split: prod.splits)

lemma gate_step_keeps_executing:
  "rg_executing (get_gate r g) \<Longrightarrow> \<not> frees r op \<Longrightarrow> rg_executing (get_gate r (gate_step cfg op g))"
  by (cases op) (auto simp: gate_acquire_def rg_acquire_def gate_release_def gate_force_release_def
      gate_room_executing_def store_simps split: prod.splits if_splits)

lemma gate_run_keeps_executing:
  "rg_executing (get_gate r g) \<Longrightarrow> \<forall>op \<in> set ops. \<not> frees r op \<Longrightarrow> rg_executing (get_gate r (gate_run cfg ops g))"
  unfolding gate_run_def by (induction ops arbitrary: g) (auto intro: gate_step_keeps_executing)

lemma gate_run_other:
  "\<forall>op \<in> set ops. op_room op \<noteq> r \<Longrightarrow> get_gate r (gate_run cfg ops g) = get_gate r g"
  unfolding gate_run_def by (induction ops arbitrary: g) (auto simp: gate_step_other)

lemma acquire_allowed_iff:
  "gd_allow (fst (gate_acquire now r g)) \<longleftrightarrow>
    \<not> rg_executing (get_gate r g) \<and> rg_cooldown_until (get_gate r g) \<le> now"
  by (auto simp: gate_acquire_def rg_acquire_def rg_on_cooldown_def split: prod.splits if_splits)

lemma acquire_executing: "gd_allow (fst (gate_acquire now r g)) \<Longrightarrow> rg_executing (get_gate r (snd (gate_acquire now r g)))"
  by (auto simp: gate_acquire_def rg_acquire_def store_simps split: prod.splits if_splits)

section \<open>Histories of the whole component\<close>

datatype inhibition_op =
    Request real request_event
  | Internal real inhibition_event
  | Gate gate_op
  | Evaluate real plan

fun inhibition_step :: "inhibition_config \<Rightarrow> inhibition_op \<Rightarrow> inhibition \<Rightarrow> inhibition" where
  "inhibition_step cfg (Request now e) s = on_request_event now e s"
| "inhibition_step cfg (Internal now e) s = on_inhibition_event now e s"
| "inhibition_step cfg (Gate op) s = s\<lparr>in_gate := gate_step cfg op (in_gate s)\<rparr>"
| "inhibition_step cfg (Evaluate now pl) s = snd (evaluate now pl s)"

definition inhibition_run :: "inhibition_config \<Rightarrow> inhibition_op list \<Rightarrow> inhibition" where
  "inhibition_run cfg ops = fold (inhibition_step cfg) ops new_inhibition"

text \<open>Only the emergency stop blocks user input.\<close>

definition user_safe :: "inhibition \<Rightarrow> bool" where
  "user_safe s \<longleftrightarrow> distinct (dkeys (in_suppressions s)) \<and>
     (\<forall>p \<in> set (in_suppressions s). ''user_input'' \<in> set (sp_blocked (se_profile (snd p))) \<longrightarrow>
        se_reason (snd p) = ''hyperdirect'')"

lemma profile_for_user: "''user_input'' \<in> set (sp_blocked (profile_for reason)) \<Longrightarrow> reason = ''hyperdirect''"
  by (auto simp: profile_for_def builtin_profiles_def dget_or_def proactive_only_def split: if_splits)

lemma user_safe_suppress [inv_intros]: "user_safe s \<Longrightarrow> user_safe (suppress now reason d room None s)"
  by (auto simp: user_safe_def suppress_def set_dput Let_def dest: profile_for_user simp del: set_map)

lemma user_safe_unsuppress [inv_intros]: "user_safe s \<Longrightarrow> user_safe (unsuppress reason room s)"
  by (auto simp: user_safe_def unsuppress_def set_ddel simp del: set_map)

lemma user_safe_step [inv_intros]: "user_safe s \<Longrightarrow> user_safe (inhibition_step cfg op s)"
proof (cases op)
  case (Request now e)
  then show "user_safe s \<Longrightarrow> ?thesis"
    by (auto simp: on_request_event_def Let_def intro!: inv_intros)
next
  case (Internal now e)
  then show "user_safe s \<Longrightarrow> ?thesis"
    by (auto simp: on_inhibition_event_def Let_def intro!: inv_intros split: inhibition_action.splits)
qed (auto simp: user_safe_def evaluate_def Let_def)

lemma user_safe_run: "user_safe (inhibition_run cfg ops)"
proof -
  have "user_safe s \<Longrightarrow> user_safe (fold (inhibition_step cfg) ops s)" for s
    by (induction ops arbitrary: s) (auto intro: inv_intros)
  moreover have "user_safe new_inhibition" by (simp add: user_safe_def new_inhibition_def)
  ultimately show ?thesis unfolding inhibition_run_def by blast
qed

lemma find_dvalues_dput:
  "\<not> P v \<Longrightarrow> (case dget d k of None \<Rightarrow> True | Some v' \<Rightarrow> \<not> P v') \<Longrightarrow> find P (dvalues (dput k v d)) = find P (dvalues d)"
  by (induction d) auto

section \<open>Claims\<close>

text \<open>
  C17: the execution gate of a room excludes: after a granted acquisition every further one is
  refused until somebody releases that room, whatever happens to other rooms and however much time
  passes; after a release the gate opens again exactly when the cool-down is over.
\<close>

theorem gate_exclusive:
  assumes "gd_allow (fst (gate_acquire t1 r g))" and "\<forall>op \<in> set ops. \<not> frees r op"
  shows "\<not> gd_allow (fst (gate_acquire t2 r (gate_run cfg ops (snd (gate_acquire t1 r g))))) \<and>
    (gd_allow (fst (gate_acquire t2 r (gate_release cfg now r g))) \<longleftrightarrow> now + ic_cooldown cfg \<le> t2)"
  using gate_run_keeps_executing [OF acquire_executing [OF assms(1)] assms(2)]
  by (simp add: acquire_allowed_iff gate_release_def rg_release_def store_simps)

definition demo_config :: inhibition_config where
  "demo_config = \<lparr>ic_cooldown = 5, ic_during_execution = True, ic_during_cooldown = True\<rparr>"

theorem gate_exclusive_witness:
  "\<not> gd_allow (fst (gate_acquire 9 ''lobby'' (gate_run demo_config [Release 3 ''attic'', Acquire 4 ''lobby'']
      (snd (gate_acquire 1 ''lobby'' new_gate)))))"
  by (rule conjunct1 [OF gate_exclusive])
    (simp_all add: acquire_allowed_iff new_gate_def new_room_gate_def get_gate_def dget_or_def)

text \<open>
  Rooms are independent: operations on other rooms (and on the global gate) never change the
  answer a room's gate gives.
\<close>

theorem gate_rooms_independent:
  assumes "\<forall>op \<in> set ops. op_room op \<noteq> r"
  shows "fst (gate_acquire t r (gate_run cfg ops g)) = fst (gate_acquire t r g)"
  by (simp add: gate_acquire_def gate_run_other [OF assms] split: prod.split)

theorem gate_rooms_independent_witness:
  "fst (gate_acquire 2 ''lobby'' (gate_run demo_config [Acquire 1 ''attic'', Acquire 1 ''''] new_gate)) =
   fst (gate_acquire 2 ''lobby'' new_gate)"
  by (rule gate_rooms_independent) simp

definition demo_plan :: "string \<Rightarrow> plan" where
  "demo_plan room = build_response '''' False ''hello'' 0 room ''alice''"

definition demo_stop :: inhibition_event where
  "demo_stop = \<lparr>ie_action = HYPERDIRECT_STOP, ie_reason = '''', ie_duration = 0, ie_room = ''lobby''\<rparr>"

lemma demo_stopped: "inhibition_run demo_config [Internal 1 demo_stop] = suppress 1 ''hyperdirect'' 0 None None new_inhibition"
  by (simp add: inhibition_run_def on_inhibition_event_def demo_stop_def Let_def)

text \<open>
  an emergency stop issued inside the system refuses every plan, in every room and for every
  reason, until it expires; without a duration it never expires.
\<close>

theorem hyperdirect_denies_everything:
  assumes "ie_action e = HYPERDIRECT_STOP" and "ie_duration e \<le> 0 \<or> t < now + ie_duration e"
  shows "fst (evaluate t pl (on_inhibition_event now e s)) = decision False HYPERDIRECT HyperdirectActive"
proof -
  have "reason_value (pl_reason pl) \<in> reason_value ` set all_reasons" by simp
  then show ?thesis
    using assms by (auto simp: evaluate_def hyperdirect_blocks_def on_inhibition_event_def suppress_def entry_active_def
        profile_for_def builtin_profiles_def dget_or_def Let_def simp del: all_reasons_all)
qed

text \<open>
  an emergency stop that a client requests for a room blocks nothing: every later
  evaluation in every room decides as if the request had not been made, because the evaluation looks
  for the stop under the global key only and the loop over the other entries skips it.
\<close>

theorem room_hyperdirect_ignored:
  assumes "rq_action e = ''hyperdirect''" and "rq_room e \<noteq> ''''" and "rq_room e \<noteq> ''_global_''"
    and "case dget (in_suppressions s) (make_key (Some (rq_room e)) ''hyperdirect'') of
           None \<Rightarrow> True | Some x \<Rightarrow> se_reason x = ''hyperdirect''"
  shows "fst (evaluate t pl (on_request_event now e s)) = fst (evaluate t pl s)"
proof -
  let ?k = "make_key (Some (rq_room e)) ''hyperdirect''"
  obtain v where v: "on_request_event now e s = s\<lparr>in_suppressions := dput ?k v (in_suppressions s)\<rparr>"
    and r: "se_reason v = ''hyperdirect''"
    using assms(1,2) by (simp add: on_request_event_def room_option_def suppress_def Let_def)
  have k: "make_key None ''hyperdirect'' \<noteq> ?k"
    using assms(2,3) by (simp add: make_key_def room_or_empty_def)
  have "evaluate_profiles t pl (s\<lparr>in_suppressions := dput ?k v (in_suppressions s), in_gate := g\<rparr>) =
      evaluate_profiles t pl (s\<lparr>in_gate := g\<rparr>)" for g
    using find_dvalues_dput [of "\<lambda>e. se_reason e \<noteq> ''hyperdirect'' \<and>
        applies_to t (reason_value (pl_reason pl)) (Some (pl_room_id pl)) e" v "in_suppressions s" ?k] r assms(4)
    by (simp add: evaluate_profiles_def split: option.splits)
  then show ?thesis
    unfolding v by (simp add: evaluate_def hyperdirect_blocks_def k Let_def)
qed

definition demo_room_stop :: request_event where
  "demo_room_stop = \<lparr>rq_action = ''hyperdirect'', rq_reason = '''', rq_duration = 0, rq_room = ''lobby''\<rparr>"

text \<open>
  suppressing and lifting read back: a reason is suppressed in a scope after
  \<open>suppress\<close> until its duration is over (for good without one), not suppressed after
  \<open>unsuppress\<close>, and neither changes another key of the table.
\<close>

theorem suppress_reads_back:
  assumes "0 \<le> now"
  shows "is_suppressed t reason' room' (suppress now reason d room p s) =
      (if make_key room' reason' = make_key room reason then d \<le> 0 \<or> t < now + d else is_suppressed t reason' room' s) \<and>
    is_suppressed t reason' room' (unsuppress reason room s) =
      (make_key room' reason' \<noteq> make_key room reason \<and> is_suppressed t reason' room' s)"
  using assms by (auto simp: is_suppressed_def suppress_def unsuppress_def entry_active_def Let_def)

end
