(* ===== verification/Py_Text.thy ===== *)
theory Py_Text
  imports Iris_Prelude
begin

text \<open>
  Methods of Python's \<open>str\<close> that commands and messages are taken apart with, on texts of the first 256
  code points. \<open>split_on c\<close> is \<open>split(c)\<close>, \<open>py_words\<close> is \<open>split()\<close>, \<open>split_command\<close> is
  \<open>strip().split(maxsplit=1)\<close> with the first word in lower case, and \<open>remove_first t\<close> is
  \<open>replace(t, '', 1)\<close> of a non-empty \<open>t\<close>.
\<close>

fun split_on :: "char \<Rightarrow> string \<Rightarrow> string list" where
  "split_on c [] = [[]]"
| "split_on c (x # xs) =
    (if x = c then [] # split_on c xs
     else case split_on c xs of [] \<Rightarrow> [[x]] | w # ws \<Rightarrow> (x # w) # ws)"

definition lower_char :: "char \<Rightarrow> char" where
  "lower_char c = (let n = (of_char c :: nat)
     in if (65 \<le> n \<and> n \<le> 90) \<or> (192 \<le> n \<and> n \<le> 222 \<and> n \<noteq> 215) then char_of (n + 32) else c)"

definition py_lower :: "string \<Rightarrow> string" where
  "py_lower s = map lower_char s"

definition split_command :: "string \<Rightarrow> string \<times> string" where
  "split_command s =
    (let t = py_strip s
     in (py_lower (takeWhile (\<lambda>c. \<not> py_space c) t), dropWhile py_space (dropWhile (\<lambda>c. \<not> py_space c) t)))"

function py_words :: "string \<Rightarrow> string list" where
  "py_words s = (case dropWhile py_space s of [] \<Rightarrow> [] | c # cs \<Rightarrow>
     takeWhile (\<lambda>c. \<not> py_space c) (c # cs) # py_words (dropWhile (\<lambda>c. \<not> py_space c) (c # cs)))"
  by pat_completeness auto
termination
proof (relation "measure length")
  fix s c cs assume l: "dropWhile py_space s = c # cs"
  then have "\<not> py_space c" by (metis hd_dropWhile list.distinct(1) list.sel(1))
  moreover have "length (c # cs) \<le> length s" unfolding l [symmetric] by (rule length_dropWhile_le)
  ultimately show "(dropWhile (\<lambda>c. \<not> py_space c) (c # cs), s) \<in> measure length"
    using length_dropWhile_le [of "\<lambda>c. \<not> py_space c" cs] by simp
qed simp

declare py_words.simps [simp del]

fun remove_first :: "string \<Rightarrow> string \<Rightarrow> string" where
  "remove_first t [] = []"
| "remove_first t (c # s) = (if starts_with t (c # s) then drop (length t) (c # s) else c # remove_first t s)"

lemma py_words_Nil [simp]: "py_words [] = []"
  by (simp add: py_words.simps)

lemma py_words_space: "py_space c \<Longrightarrow> py_words (c # s) = py_words s"
  by (simp add: py_words.simps [of "c # s"] py_words.simps [of s])

lemma py_words_word:
  assumes "w \<noteq> []" and "\<And>c. c \<in> set w \<Longrightarrow> \<not> py_space c" and "s = [] \<or> py_space (hd s)"
  shows "py_words (w @ s) = w # py_words s"
proof -
  have split: "takeWhile (\<lambda>c. \<not> py_space c) (w @ s) = w" "dropWhile (\<lambda>c. \<not> py_space c) (w @ s) = s"
    using assms(2,3) by (cases s; simp)+
  obtain c cs where w: "w = c # cs" using assms(1) by (cases w) auto
  then have "dropWhile py_space (w @ s) = w @ s" using assms(2) by simp
  then show ?thesis
    using split by (subst py_words.simps) (simp add: w)
qed

section \<open>Splitting at a separator\<close>

lemma split_on_nonempty [simp]: "split_on c s \<noteq> []"
  by (induction c s rule: split_on.induct) (auto split: list.splits)

lemma split_on_no: "c \<notin> set w \<Longrightarrow> split_on c w = [w]"
  by (induction w) auto

lemma split_on_sep: "c \<notin> set w \<Longrightarrow> split_on c (w @ c # xs) = w # split_on c xs"
  by (induction w) auto

lemma join_with_cons: "ws \<noteq> [] \<Longrightarrow> join_with sep (w # ws) = w @ sep @ join_with sep ws"
  by (cases ws) (simp_all add: join_with_def)

lemma join_split_on: "join_with [c] (split_on c s) = s"
proof (induction s)
  case (Cons x s)
  obtain w ws where s: "split_on c s = w # ws" by (metis neq_Nil_conv split_on_nonempty)
  have "join_with [c] ((x # w) # ws) = x # join_with [c] (w # ws)" by (simp add: join_with_def)
  then show ?case using Cons by (simp add: s join_with_cons)
qed (simp add: join_with_def)

lemma split_on_join:
  "ws \<noteq> [] \<Longrightarrow> (\<And>w. w \<in> set ws \<Longrightarrow> c \<notin> set w) \<Longrightarrow> split_on c (join_with [c] ws) = ws"
proof (induction ws)
  case (Cons w ws)
  then show ?case
    by (cases "ws = []") (simp_all add: join_with_cons split_on_sep, simp add: join_with_def split_on_no)
qed simp

end
