(* ===== verification/Gateway.thy ===== *)
theory Gateway
  imports Session Inhibition Py_Text
begin

text \<open>
  The gateway between the transport and the rest (\<open>iris/io\<close>: dispatcher, gateway, handler).

  \<open>io_state\<close> holds what the gateway's operations reach: the sessions, the accounts and rooms,
  and \<open>io_out\<close>, the events the gateway has published on the event bus. A handler of control
  messages or commands is a function of the registry that may change the shared state \<open>'s\<close>;
  its \<open>TypeError\<close> stands for an exception it does not catch. \<open>float\<close> of Python is the
  parameter \<open>pfloat\<close> (\<open>None\<close> for a \<open>ValueError\<close>; infinities are not modelled).
\<close>

section \<open>The dispatcher registry\<close>

record ('m, 's, 'r) control_handler =
  ch_priority :: int
  ch_matcher :: "'m \<Rightarrow> bool"
  ch_handler :: "'m \<Rightarrow> string \<Rightarrow> 's \<Rightarrow> 'r option raised \<times> 's"

record 's command_handler =
  mh_priority :: int
  mh_handler :: "string \<Rightarrow> string \<Rightarrow> string \<Rightarrow> 's \<Rightarrow> string option raised \<times> 's"

record ('m, 's, 'r) dispatcher_registry =
  dr_controls :: "('m, 's, 'r) control_handler list"
  dr_commands :: "'s command_handler list"

definition new_registry :: "('m, 's, 'r) dispatcher_registry" where
  "new_registry = \<lparr>dr_controls = [], dr_commands = []\<rparr>"

definition insert_control :: "('m, 's, 'r) control_handler \<Rightarrow> ('m, 's, 'r) control_handler list \<Rightarrow> ('m, 's, 'r) control_handler list" where
  "insert_control h hs = sort_key (\<lambda>x. - ch_priority x) (hs @ [h])"

definition insert_command :: "'s command_handler \<Rightarrow> 's command_handler list \<Rightarrow> 's command_handler list" where
  "insert_command h hs = sort_key (\<lambda>x. - mh_priority x) (hs @ [h])"

interpretation controls: priority_registry "\<lambda>x. - ch_priority x" insert_control
  by unfold_locales (simp add: insert_control_def)

interpretation commands: priority_registry "\<lambda>x. - mh_priority x" insert_command
  by unfold_locales (simp add: insert_command_def)

definition register_control :: "('m, 's, 'r) control_handler \<Rightarrow> ('m, 's, 'r) dispatcher_registry \<Rightarrow> ('m, 's, 'r) dispatcher_registry" where
  "register_control h r = r\<lparr>dr_controls := insert_control h (dr_controls r)\<rparr>"

definition register_command :: "'s command_handler \<Rightarrow> ('m, 's, 'r) dispatcher_registry \<Rightarrow> ('m, 's, 'r) dispatcher_registry" where
  "register_command h r = r\<lparr>dr_commands := insert_command h (dr_commands r)\<rparr>"

fun try_controls :: "('m, 's, 'r) control_handler list \<Rightarrow> 'm \<Rightarrow> string \<Rightarrow> 's \<Rightarrow> 'r option raised \<times> 's" where
  "try_controls [] m sid s = (Ok None, s)"
| "try_controls (h # hs) m sid s =
    (if \<not> ch_matcher h m then try_controls hs m sid s
     else case ch_handler h m sid s of
       (TypeError, s1) \<Rightarrow> (TypeError, s1)
     | (Ok (Some r), s1) \<Rightarrow> (Ok (Some r), s1)
     | (Ok None, s1) \<Rightarrow> try_controls hs m sid s1)"

definition dispatch_control :: "('m, 's, 'r) dispatcher_registry \<Rightarrow> 'm \<Rightarrow> string \<Rightarrow> 's \<Rightarrow> 'r option raised \<times> 's" where
  "dispatch_control r m sid s = try_controls (dr_controls r) m sid s"

fun try_commands :: "'s command_handler list \<Rightarrow> string \<Rightarrow> string \<Rightarrow> string \<Rightarrow> 's \<Rightarrow> string option raised \<times> 's" where
  "try_commands [] name args sid s = (Ok None, s)"
| "try_commands (h # hs) name args sid s =
    (case mh_handler h name args sid s of
       (TypeError, s1) \<Rightarrow> (TypeError, s1)
     | (Ok (Some r), s1) \<Rightarrow> (Ok (Some r), s1)
     | (Ok None, s1) \<Rightarrow> try_commands hs name args sid s1)"

definition dispatch_command :: "('m, 's, 'r) dispatcher_registry \<Rightarrow> string \<Rightarrow> string \<Rightarrow> string \<Rightarrow> 's \<Rightarrow> string option raised \<times> 's" where
  "dispatch_command r name args sid s = try_commands (dr_commands r) name args sid s"

definition account_match :: "control_message \<Rightarrow> bool" where
  "account_match m \<longleftrightarrow> starts_with ''account.'' (cm_action m)"

definition room_match :: "control_message \<Rightarrow> bool" where
  "room_match m \<longleftrightarrow> starts_with ''room.'' (cm_action m)"

definition build_default_registry ::
    "(control_message \<Rightarrow> 's \<Rightarrow> 'r option raised \<times> 's) option \<Rightarrow>
     (control_message \<Rightarrow> string \<Rightarrow> 's \<Rightarrow> 'r option raised \<times> 's) option \<Rightarrow>
     (string \<Rightarrow> string \<Rightarrow> string \<Rightarrow> 's \<Rightarrow> string option raised \<times> 's) option \<Rightarrow>
     (control_message, 's, 'r) dispatcher_registry" where
  "build_default_registry account room command =
    (let r0 = new_registry;
         r1 = (case account of None \<Rightarrow> r0
           | Some h \<Rightarrow> register_control \<lparr>ch_priority = 100, ch_matcher = account_match, ch_handler = (\<lambda>m _. h m)\<rparr> r0);
         r2 = (case room of None \<Rightarrow> r1
           | Some h \<Rightarrow> register_control \<lparr>ch_priority = 200, ch_matcher = room_match, ch_handler = h\<rparr> r1)
     in case command of None \<Rightarrow> r2 | Some h \<Rightarrow> register_command \<lparr>mh_priority = 50, mh_handler = h\<rparr> r2)"

section \<open>The gateway\<close>

record command_input =
  ci_id :: string
  ci_session_id :: string
  ci_source_role :: string
  ci_content :: string

record input_ready =
  ir_session_id :: string
  ir_content :: string
  ir_account_id :: string
  ir_room_id :: string
  ir_context :: "py_context option"

datatype io_event =
    InputReady input_ready
  | InhibitionRequest request_event string
  | ControlPublished control_message string

record 'c io_state =
  io_sessions :: "'c session_manager"
  io_rooms :: room_system
  io_out :: "io_event list"

text \<open>What the gateway was built with; a missing room store or account manager is \<open>False\<close>.\<close>

record 's gateway =
  gw_registry :: "(control_message, 's, control_reply) dispatcher_registry"
  gw_room_store :: bool
  gw_account_manager :: bool

definition io_publish :: "io_event \<Rightarrow> 'c io_state \<Rightarrow> 'c io_state" where
  "io_publish e s = s\<lparr>io_out := io_out s @ [e]\<rparr>"

definition error_message :: "string \<Rightarrow> message \<Rightarrow> string \<Rightarrow> 'c session_manager \<Rightarrow> message" where
  "error_message fresh orig text s =
    \<lparr>mg_id = fresh, mg_correlation_id = None, mg_session_id = mg_session_id orig, mg_source_role = ''mind'',
     mg_target_role = (case get_session_info (mg_session_id orig) s of None \<Rightarrow> ''*'' | Some x \<Rightarrow> sn_role x),
     mg_account_id = mg_account_id orig, mg_direction = RESPONSE, mg_msg_type = ''response'', mg_content = text,
     mg_state = None, mg_metadata = [(''error'', PStr ''true'')], mg_speaker = None, mg_room_id = ''''\<rparr>"

definition send_error :: "('c \<Rightarrow> bool) \<Rightarrow> real \<Rightarrow> string \<Rightarrow> message \<Rightarrow> string \<Rightarrow> 'c io_state \<Rightarrow> 'c io_state" where
  "send_error alive now fresh orig text s =
    s\<lparr>io_sessions := route_message alive now (error_message fresh orig text (io_sessions s)) (io_sessions s)\<rparr>"

definition publish_inhibition_request :: "(string \<Rightarrow> real option) \<Rightarrow> message \<Rightarrow> 'c io_state \<Rightarrow> 'c io_state" where
  "publish_inhibition_request pfloat m s =
    (let emit = (\<lambda>reason act dur. io_publish (InhibitionRequest
           \<lparr>rq_action = act, rq_reason = reason, rq_duration = dur, rq_room = mg_room_id m\<rparr> (mg_session_id m)) s)
     in case split_on CHR '':'' (mg_content m) of
          reason # act # rest \<Rightarrow>
            (case rest of [] \<Rightarrow> emit reason act 0
             | d # _ \<Rightarrow> (case pfloat d of None \<Rightarrow> s | Some dur \<Rightarrow> emit reason act dur))
        | _ \<Rightarrow> s)"

fun direction_text :: "direction \<Rightarrow> string" where
  "direction_text REQUEST = ''Direction.REQUEST''"
| "direction_text RESPONSE = ''Direction.RESPONSE''"
| "direction_text STREAM = ''Direction.STREAM''"
| "direction_text EVENT = ''Direction.EVENT''"

text \<open>An unknown provider raises inside the \<open>try\<close>; the account id stays empty.\<close>

definition message_account :: "'s gateway \<Rightarrow> string \<Rightarrow> string \<Rightarrow> message \<Rightarrow> identity_msg \<Rightarrow> account_manager \<Rightarrow>
    string \<times> account_manager" where
  "message_account gw fresh clock m sp am =
    (if mg_account_id m \<noteq> [] \<or> \<not> gw_account_manager gw then (mg_account_id m, am)
     else case provider_of (im_provider sp) of
       None \<Rightarrow> ([], am)
     | Some p \<Rightarrow>
         (case resolve_or_create_identity fresh clock p (im_subject sp) (im_provider_name sp) (Some (im_metadata sp)) am of
            (a, am1) \<Rightarrow> (ac_id a, am1)))"

definition speaker_dump :: "identity_msg \<Rightarrow> pyobj" where
  "speaker_dump sp = PDict
    [(''provider'', PStr (im_provider sp)), (''subject'', PStr (im_subject sp)),
     (''provider_name'', PStr (im_provider_name sp)), (''metadata'', PDict (im_metadata sp))]"

definition input_event :: "message \<Rightarrow> identity_msg \<Rightarrow> string \<Rightarrow> input_ready" where
  "input_event m sp aid =
    \<lparr>ir_session_id = mg_session_id m, ir_content = mg_content m, ir_account_id = aid, ir_room_id = mg_room_id m,
     ir_context = Some [(''source_role'', PStr (mg_source_role m)), (''target_role'', PStr (mg_target_role m)),
       (''msg_type'', PStr (mg_msg_type m)), (''speaker'', speaker_dump sp), (''room_id'', PStr (mg_room_id m))]\<rparr>"

definition on_grpc_message :: "'s gateway \<Rightarrow> (string \<Rightarrow> real option) \<Rightarrow> ('c \<Rightarrow> bool) \<Rightarrow> real \<Rightarrow> string \<Rightarrow> string \<Rightarrow>
    string \<Rightarrow> message \<Rightarrow> 'c io_state \<Rightarrow> 'c io_state" where
  "on_grpc_message gw pfloat alive now clock fresh eid m s =
    (let err = send_error alive now eid m
     in if mg_direction m \<noteq> REQUEST then
          err (''unexpected direction from client: '' @ direction_text (mg_direction m) @ ''. use '' @ CHR 0x27 # ''request'' @ [CHR 0x27]) s
        else if mg_target_role m \<noteq> ''mind'' then s\<lparr>io_sessions := route_message alive now m (io_sessions s)\<rparr>
        else case mg_speaker m of
          None \<Rightarrow> err ''speaker is required for inbound messages'' s
        | Some sp \<Rightarrow>
            if mg_msg_type m = ''inhibition'' then publish_inhibition_request pfloat m s
            else if mg_msg_type m = ''chat'' \<and> mg_content m = [] then err ''content is required for chat messages'' s
            else if mg_room_id m = [] then err ''room_id is required'' s
            else case message_account gw fresh clock m sp (fst (io_rooms s)) of
              (aid, am1) \<Rightarrow>
                (let s1 = s\<lparr>io_rooms := (am1, snd (io_rooms s))\<rparr>
                 in if gw_room_store gw \<and> find_room_by_id (mg_room_id m) (rm_store (snd (io_rooms s1))) = None
                    then err (''room not found: '' @ mg_room_id m) s1
                    else io_publish (InputReady (input_event m sp aid)) s1))"

text \<open>The second component of the following two says that an exception leaves the gateway.\<close>

definition on_grpc_control :: "room_system gateway \<Rightarrow> ('c \<Rightarrow> bool) \<Rightarrow> control_message \<Rightarrow> string \<Rightarrow> 'c io_state \<Rightarrow> 'c io_state \<times> bool" where
  "on_grpc_control gw alive m sid s =
    (case dispatch_control (gw_registry gw) m sid (io_rooms s) of
       (TypeError, rs) \<Rightarrow> (s\<lparr>io_rooms := rs\<rparr>, True)
     | (Ok r, rs) \<Rightarrow>
         (let s1 = io_publish (ControlPublished m sid) (s\<lparr>io_rooms := rs\<rparr>)
          in case r of None \<Rightarrow> (s1, False)
             | Some rep \<Rightarrow> (case route_control_message alive rep sid (io_sessions s1) of
                 (sm, b) \<Rightarrow> (s1\<lparr>io_sessions := sm\<rparr>, b))))"

definition send_output :: "('c \<Rightarrow> bool) \<Rightarrow> real \<Rightarrow> command_input \<Rightarrow> string \<Rightarrow> 'c io_state \<Rightarrow> 'c io_state" where
  "send_output alive now m text s = s\<lparr>io_sessions := route_command_output alive now (ci_session_id m)
     \<lparr>co_correlation_id = Some (ci_id m), co_session_id = ci_session_id m, co_content = text\<rparr> (io_sessions s)\<rparr>"

definition on_grpc_command :: "room_system gateway \<Rightarrow> ('c \<Rightarrow> bool) \<Rightarrow> real \<Rightarrow> command_input \<Rightarrow> 'c io_state \<Rightarrow> 'c io_state \<times> bool" where
  "on_grpc_command gw alive now m s =
    (if \<not> starts_with ''/'' (ci_content m) then (send_output alive now m ''Commands start with /'' s, False)
     else case split_command (drop 1 (ci_content m)) of
       (name, args) \<Rightarrow>
         (case dispatch_command (gw_registry gw) name args (ci_session_id m) (io_rooms s) of
            (TypeError, rs) \<Rightarrow> (s\<lparr>io_rooms := rs\<rparr>, True)
          | (Ok r, rs) \<Rightarrow>
              (send_output alive now m
                 (or_else (case r of None \<Rightarrow> [] | Some t \<Rightarrow> t) (''No command handler: /'' @ name)) (s\<lparr>io_rooms := rs\<rparr>), False)))"

section \<open>The handler of outgoing events\<close>

record out_event =
  oe_session_id :: string
  oe_source_role :: string
  oe_account_id :: string
  oe_direction :: string
  oe_msg_type :: string
  oe_content :: string
  oe_state :: "string option"
  oe_correlation_id :: "string option"
  oe_room_id :: string

definition outgoing_direction :: "string \<Rightarrow> direction option" where
  "outgoing_direction d =
    (let x = or_else d ''response''
     in if x = ''response'' then Some RESPONSE else if x = ''stream'' then Some STREAM else None)"

definition build_message :: "string \<Rightarrow> out_event \<Rightarrow> string \<Rightarrow> direction \<Rightarrow> message" where
  "build_message fresh e role d =
    \<lparr>mg_id = fresh, mg_correlation_id = oe_correlation_id e, mg_session_id = oe_session_id e, mg_source_role = ''mind'',
     mg_target_role = role, mg_account_id = oe_account_id e, mg_direction = d, mg_msg_type = oe_msg_type e,
     mg_content = oe_content e, mg_state = oe_state e,
     mg_metadata = (if oe_room_id e \<noteq> [] then [(''room_id'', PStr (oe_room_id e))] else []),
     mg_speaker = None, mg_room_id = oe_room_id e\<rparr>"

definition on_out_event :: "('c \<Rightarrow> bool) \<Rightarrow> real \<Rightarrow> string \<Rightarrow> room_store option \<Rightarrow> out_event \<Rightarrow> 'c session_manager \<Rightarrow> 'c session_manager" where
  "on_out_event alive now fresh rooms e s =
    (case outgoing_direction (oe_direction e) of
       None \<Rightarrow> s
     | Some d \<Rightarrow>
        (let role = (case get_session_info (oe_session_id e) s of
               Some x \<Rightarrow> sn_role x | None \<Rightarrow> or_else (oe_source_role e) ''*'');
             m = build_message fresh e role d
         in if oe_room_id e = [] then route_message alive now m s
            else case rooms of Some rs \<Rightarrow> route_to_room alive now m (oe_room_id e) rs s
                 | None \<Rightarrow> route_message alive now m s))"

definition on_room_joined :: "('c \<Rightarrow> bool) \<Rightarrow> real \<Rightarrow> joined \<Rightarrow> 'c session_manager \<Rightarrow> 'c session_manager" where
  "on_room_joined alive now j s = broadcast_control_message alive now
    \<lparr>pr_action = ''presence.joined'', pr_account_id = jo_account j, pr_room_id = jo_room j, pr_display_name = jo_display_name j\<rparr> s"

definition on_room_joined_batch :: "('c \<Rightarrow> bool) \<Rightarrow> real \<Rightarrow> joined list \<Rightarrow> 'c session_manager \<Rightarrow> 'c session_manager" where
  "on_room_joined_batch alive now js s = fold (on_room_joined alive now) js s"

text \<open>The three handlers the class subscribes to room events.\<close>

fun on_room_event :: "('c \<Rightarrow> bool) \<Rightarrow> real \<Rightarrow> room_event \<Rightarrow> 'c session_manager \<Rightarrow> 'c session_manager" where
  "on_room_event alive now (RoomJoined j) s = on_room_joined alive now j s"
| "on_room_event alive now (RoomJoinedBatch rid js n) s = on_room_joined_batch alive now js s"
| "on_room_event alive now (RoomLeft rid aid nm) s = broadcast_control_message alive now
    \<lparr>pr_action = ''presence.left'', pr_account_id = aid, pr_room_id = rid, pr_display_name = nm\<rparr> s"
| "on_room_event alive now _ s = s"

section \<open>Lemmas\<close>

lemma room_match_not_account: "room_match m \<Longrightarrow> \<not> account_match m"
  by (cases "cm_action m") (auto simp: room_match_def account_match_def starts_with_def)

lemma default_controls:
  "dr_controls (build_default_registry (Some a) (Some r) c) =
    [\<lparr>ch_priority = 200, ch_matcher = room_match, ch_handler = r\<rparr>,
     \<lparr>ch_priority = 100, ch_matcher = account_match, ch_handler = (\<lambda>m _. a m)\<rparr>]"
  by (cases c) (simp_all add: build_default_registry_def new_registry_def register_control_def register_command_def insert_control_def)

lemma io_publish_simps [simp]:
  "io_sessions (io_publish e s) = io_sessions s" "io_rooms (io_publish e s) = io_rooms s"
  "io_out (io_publish e s) = io_out s @ [e]"
  by (simp_all add: io_publish_def)

lemma send_error_simps [simp]:
  "io_rooms (send_error alive now fresh m text s) = io_rooms s" "io_out (send_error alive now fresh m text s) = io_out s"
  by (simp_all add: send_error_def)

lemma inhibition_frame [simp]:
  "io_sessions (publish_inhibition_request pfloat m s) = io_sessions s"
  "io_rooms (publish_inhibition_request pfloat m s) = io_rooms s"
  by (auto simp: publish_inhibition_request_def Let_def split: list.split option.split)

text \<open>An error goes to the session it answers, whatever its permissions.\<close>

definition delivers :: "('c \<Rightarrow> bool) \<Rightarrow> string \<Rightarrow> 'c session_manager \<Rightarrow> bool" where
  "delivers alive sid s \<longleftrightarrow>
    (case get_session_info sid s of None \<Rightarrow> False
     | Some x \<Rightarrow> sn_state x = SESSION_ACTIVE \<and> (case sn_conn x of None \<Rightarrow> False | Some c \<Rightarrow> alive c))"

lemma sent_route_direct:
  "mg_session_id m \<noteq> [] \<Longrightarrow> sm_sent (route_message alive now m s) =
    sm_sent s @ (if delivers alive (mg_session_id m) s then [(mg_session_id m, WMessage m)] else [])"
  by (auto simp: route_message_def resolve_route_targets_def delivers_def reachable_def sent_send_bytes send_to_targets_def
      split: option.split)

lemma sent_send_error:
  assumes "mg_session_id m \<noteq> []"
  shows "sm_sent (io_sessions (send_error alive now fresh m text s)) = sm_sent (io_sessions s) @
    (if delivers alive (mg_session_id m) (io_sessions s)
     then [(mg_session_id m, WMessage (error_message fresh m text (io_sessions s)))] else [])"
proof -
  let ?e = "error_message fresh m text (io_sessions s)"
  have "mg_session_id ?e = mg_session_id m" by (simp add: error_message_def)
  then show ?thesis
    using sent_route_direct [of ?e alive now "io_sessions s"] assms by (simp add: send_error_def)
qed

lemma message_room_frame:
  "io_sessions (s\<lparr>io_rooms := r\<rparr>) = io_sessions s" "io_out (s\<lparr>io_rooms := r\<rparr>) = io_out s"
  by simp_all

definition accepted :: "'s gateway \<Rightarrow> message \<Rightarrow> 'c io_state \<Rightarrow> bool" where
  "accepted gw m s \<longleftrightarrow> mg_direction m = REQUEST \<and> mg_target_role m = ''mind'' \<and> mg_speaker m \<noteq> None \<and>
     (mg_msg_type m = ''chat'' \<longrightarrow> mg_content m \<noteq> '''') \<and> mg_room_id m \<noteq> '''' \<and>
     (gw_room_store gw \<longrightarrow> find_room_by_id (mg_room_id m) (rm_store (snd (io_rooms s))) \<noteq> None)"

definition is_error :: "string \<Rightarrow> message \<Rightarrow> bool" where
  "is_error sid m \<longleftrightarrow> mg_session_id m = sid \<and> mg_msg_type m = ''response'' \<and> dget (mg_metadata m) ''error'' = Some (PStr ''true'')"

lemma is_error_message: "is_error (mg_session_id m) (error_message fresh m tx s)"
  by (simp add: is_error_def error_message_def)

section \<open>Claims\<close>

text \<open>
  with the default registry an action \<open>room.*\<close> is answered by the room dispatcher alone, an
  action \<open>account.*\<close> by the account dispatcher alone, and any other action by nobody.
\<close>

theorem control_by_prefix:
  "dispatch_control (build_default_registry (Some a) (Some r) c) m sid s =
    (if starts_with ''room.'' (cm_action m) then r m sid s
     else if starts_with ''account.'' (cm_action m) then a m s else (Ok None, s))"
  using room_match_not_account [of m] unfolding dispatch_control_def default_controls room_match_def account_match_def
  by (auto split: prod.split raised.split option.split)


definition demo_request :: message where
  "demo_request = demo_message\<lparr>mg_session_id := ''s1'', mg_direction := REQUEST, mg_target_role := ''mind'',
     mg_speaker := Some \<lparr>im_provider = ''local'', im_subject = ''ann'', im_provider_name = '''', im_metadata = []\<rparr>\<rparr>"

definition demo_gateway :: "room_system gateway" where
  "demo_gateway = \<lparr>gw_registry = new_registry, gw_room_store = True, gw_account_manager = True\<rparr>"

definition demo_io :: "nat io_state" where
  "demo_io = \<lparr>io_sessions = demo_sessions, io_rooms = (new_account_manager,
     snd (create_room ''r1'' ''t1'' ''lobby'' ''ann'' '''' '''' ACTIVE None new_room_manager)), io_out = []\<rparr>"


text \<open>
  an inhibition message of the documented form \<open>reason:action[:duration]\<close> is published as the
  request with that reason, action and duration (0 without one), for the message's room; with a
  duration that is no number nothing is published.
\<close>

theorem inhibition_message_parsed:
  assumes "CHR '':'' \<notin> set reason" and "CHR '':'' \<notin> set act"
    and "mg_content m = reason @ '':'' @ act @ tail" and "tail = '''' \<or> (\<exists>rest. tail = '':'' @ rest)"
  shows "io_out (publish_inhibition_request pfloat m s) = io_out s @
    (case (if tail = '''' then Some 0 else pfloat (takeWhile (\<lambda>c. c \<noteq> CHR '':'') (tl tail))) of
       None \<Rightarrow> []
     | Some d \<Rightarrow> [InhibitionRequest \<lparr>rq_action = act, rq_reason = reason, rq_duration = d, rq_room = mg_room_id m\<rparr> (mg_session_id m)])"
proof -
  have hd: "\<exists>ws. split_on CHR '':'' xs = takeWhile (\<lambda>c. c \<noteq> CHR '':'') xs # ws" for xs
    by (induction xs) (auto split: list.split)
  show ?thesis
  proof (cases "tail = ''''")
    case True
    then show ?thesis
      using assms split_on_sep [OF assms(1), of act] split_on_no [OF assms(2)] by (simp add: publish_inhibition_request_def)
  next
    case False
    then obtain rest where t: "tail = '':'' @ rest" using assms(4) by blast
    obtain ws where ws: "split_on CHR '':'' rest = takeWhile (\<lambda>c. c \<noteq> CHR '':'') rest # ws" using hd by blast
    have "split_on CHR '':'' (mg_content m) = reason # act # takeWhile (\<lambda>c. c \<noteq> CHR '':'') rest # ws"
      using assms(3) split_on_sep [OF assms(1), of "act @ CHR '':'' # rest"] split_on_sep [OF assms(2), of rest] by (simp add: t ws)
    then show ?thesis by (simp add: publish_inhibition_request_def t split: option.split)
  qed
qed

end
