(* ===== verification/Assembly.thy ===== *)
theory Assembly
  imports Plugin_Lifecycle Gateway "HOL-Library.State_Monad" "HOL-Library.Sublist"
begin

text \<open>
  How the shipped plugins are wired: the \<open>init\<close>, \<open>start\<close> and \<open>stop\<close> of the nine packages
  (\<open>iris/llm/__init__.py\<close>, \<open>tools\<close>, \<open>heartbeat\<close>, \<open>io\<close>, \<open>account\<close>, \<open>room\<close>, \<open>limbic\<close>,
  \<open>memory\<close>, \<open>agency\<close>) with their builders, as programs over the services of the plugin manager, the
  objects they create and the subscriptions they make.

  A service is a reference into the list of created objects; an object is its class and the
  references its constructor got (\<open>None\<close> for a missing optional service). Only references between
  components are kept: configuration values and the objects a constructor makes for itself are left
  out, except the second vector store and the relationship manager of the limbic system. A reference
  assigned to an object later is an attribute. What the configuration decides is \<open>assembly_env\<close>.
  \<open>register_manifest\<close> does nothing for a loaded plugin and is left out.
\<close>

section \<open>Objects, services and subscriptions\<close>

record component =
  ob_class :: string
  ob_refs :: "(string \<times> nat option) list"

record subscription =
  sb_bus :: nat
  sb_event :: string
  sb_object :: nat
  sb_method :: string

record assembly =
  hp_objects :: "component list"
  hp_attributes :: "(nat \<times> string, nat) dict"
  hp_subscriptions :: "subscription list"
  hp_own :: "(string, nat) dict"
  hp_active :: "nat list"

type_synonym wiring = "(unit, nat, assembly) kernel"
type_synonym 'a wire_step = "(wiring, 'a) state"

record assembly_env =
  av_environment_ok :: bool
  av_models :: "string list"
  av_neural :: bool
  av_langmem :: bool
  av_chat_model :: bool
  av_snapshot_store_ok :: bool
  av_appraisal_store_ok :: bool

definition on_assembly :: "(assembly \<Rightarrow> assembly) \<Rightarrow> unit wire_step" where
  "on_assembly f = State (\<lambda>k. ((), k\<lparr>k_ext := f (k_ext k)\<rparr>))"

definition construct :: "string \<Rightarrow> (string \<times> nat option) list \<Rightarrow> nat wire_step" where
  "construct cl refs = State (\<lambda>k.
    (length (hp_objects (k_ext k)),
     k\<lparr>k_ext := (k_ext k)\<lparr>hp_objects := hp_objects (k_ext k) @ [\<lparr>ob_class = cl, ob_refs = refs\<rparr>]\<rparr>\<rparr>))"

definition assign :: "nat \<Rightarrow> string \<Rightarrow> nat \<Rightarrow> unit wire_step" where
  "assign i a j = on_assembly (\<lambda>h. h\<lparr>hp_attributes := dput (i, a) j (hp_attributes h)\<rparr>)"

definition subscribe_all :: "nat \<Rightarrow> nat \<Rightarrow> (string \<times> string) list \<Rightarrow> unit wire_step" where
  "subscribe_all bus i es = on_assembly (\<lambda>h. h\<lparr>hp_subscriptions := hp_subscriptions h @
     map (\<lambda>(e, m). \<lparr>sb_bus = bus, sb_event = e, sb_object = i, sb_method = m\<rparr>) es\<rparr>)"

text \<open>An attribute of the plugin object itself.\<close>

definition keep_own :: "string \<Rightarrow> nat \<Rightarrow> unit wire_step" where
  "keep_own a i = on_assembly (\<lambda>h. h\<lparr>hp_own := dput a i (hp_own h)\<rparr>)"

definition lookup_service :: "string \<Rightarrow> nat option wire_step" where
  "lookup_service ty = State (\<lambda>k. (sc_resolve_optional ty ''default'' (k_di k), k))"

definition provide_services :: "(string \<times> nat) list \<Rightarrow> bool wire_step" where
  "provide_services ss = State (\<lambda>k. case provide_all ss k of (k', e) \<Rightarrow> (e = None, k'))"

section \<open>The plugins of the core phase\<close>

text \<open>A false result is an exception that leaves \<open>init\<close>. A tokenizer is made for every configured
  model and kept under the model's name; the debug capture gets the first kept one.\<close>

fun make_tokenizers :: "string list \<Rightarrow> (string, nat) dict \<Rightarrow> (string, nat) dict wire_step" where
  "make_tokenizers [] d = State_Monad.return d"
| "make_tokenizers (n # ns) d = do {
     t \<leftarrow> construct ''TokenizerManager'' [];
     make_tokenizers ns (dput n t d) }"

definition init_llm :: "assembly_env \<Rightarrow> bool wire_step" where
  "init_llm env =
    (if \<not> av_environment_ok env then State_Monad.return False
     else do {
       llm \<leftarrow> construct ''LLMBridge'' [];
       tokenizers \<leftarrow> make_tokenizers (av_models env) [];
       capture \<leftarrow> construct ''DebugCapture'' [(''tokenizer_mgr'', case dvalues tokenizers of [] \<Rightarrow> None | t # _ \<Rightarrow> Some t)];
       checker \<leftarrow> construct ''CapabilityChecker'' [];
       provide_services [(''LLMBridge'', llm), (''CapabilityChecker'', checker), (''DebugCapture'', capture)] })"

definition init_tools :: "bool wire_step" where
  "init_tools = do {
     registry \<leftarrow> construct ''ToolRegistry'' [];
     engine \<leftarrow> construct ''ToolEngine'' [(''registry'', Some registry)];
     provide_services [(''ToolRegistry'', registry), (''ToolEngine'', engine)] }"

definition init_heartbeat :: "bool wire_step" where
  "init_heartbeat = do {
     bus \<leftarrow> lookup_service ''EventBus'';
     if bus = None then State_Monad.return False
     else do {
       timer \<leftarrow> construct ''TimerService'' [(''event_bus'', bus)];
       keep_own ''heartbeat._service'' timer;
       provide_services [(''TimerService'', timer)] } }"

text \<open>\<open>build_default_registry\<close> registers a handler for every dispatcher it gets; the command handler
  is always there and looks the service up when a command comes.\<close>

definition init_io :: "bool wire_step" where
  "init_io = do {
     bus \<leftarrow> lookup_service ''EventBus'';
     case bus of
       None \<Rightarrow> State_Monad.return False
     | Some b \<Rightarrow> do {
         sessions \<leftarrow> construct ''SessionManager'' [(''event_bus'', Some b)];
         listener \<leftarrow> construct ''GrpcListener'' [(''session_manager'', Some sessions)];
         rooms \<leftarrow> lookup_service ''RoomStore'';
         accounts \<leftarrow> lookup_service ''AccountManager'';
         account_control \<leftarrow> lookup_service ''AccountDispatcher'';
         room_control \<leftarrow> lookup_service ''_RoomDispatcher'';
         dispatcher \<leftarrow> construct ''DispatcherRegistry''
           [(''account_dispatcher'', account_control), (''room_dispatcher'', room_control)];
         gateway \<leftarrow> construct ''_IOGateway''
           [(''session_manager'', Some sessions), (''event_bus'', Some b), (''dispatcher'', Some dispatcher),
            (''room_store'', rooms), (''account_manager'', accounts)];
         io \<leftarrow> construct ''IOManager''
           [(''gateway'', Some gateway), (''session_manager'', Some sessions), (''grpc_listener'', Some listener)];
         assign listener ''_on_message'' gateway;
         assign listener ''_on_command'' gateway;
         assign listener ''_on_control_message'' gateway;
         ok \<leftarrow> provide_services [(''IOManager'', io), (''SessionManager'', sessions), (''GrpcListener'', listener)];
         if \<not> ok then State_Monad.return False
         else do {
           handler \<leftarrow> construct ''_IOEventHandler'' [(''session_manager'', Some sessions), (''room_store'', rooms)];
           subscribe_all b handler
             [(''MessageEvent'', ''_on_message_event''), (''RoomJoinedEvent'', ''_on_room_joined''),
              (''RoomJoinedBatchEvent'', ''_on_room_joined_batch''), (''RoomLeftEvent'', ''_on_room_left'')];
           State_Monad.return True } } }"

section \<open>Accounts, rooms and the limbic system\<close>

definition init_account :: "bool wire_step" where
  "init_account = do {
     store \<leftarrow> construct ''AccountStore'' [];
     bus \<leftarrow> lookup_service ''EventBus'';
     if bus = None then State_Monad.return False
     else do {
       accounts \<leftarrow> construct ''AccountManager'' [(''store'', Some store), (''event_bus'', bus)];
       dispatcher \<leftarrow> construct ''AccountDispatcher'' [(''account_manager'', Some accounts)];
       provide_services [(''AccountStore'', store), (''AccountManager'', accounts), (''AccountDispatcher'', dispatcher)] } }"

definition init_room :: "bool wire_step" where
  "init_room = do {
     store \<leftarrow> construct ''RoomStore'' [];
     bus \<leftarrow> lookup_service ''EventBus'';
     case bus of
       None \<Rightarrow> State_Monad.return False
     | Some b \<Rightarrow> do {
         batcher \<leftarrow> construct ''RoomJoinBatcher'' [(''event_bus'', Some b)];
         accounts \<leftarrow> lookup_service ''AccountManager'';
         rooms \<leftarrow> construct ''RoomManager''
           [(''store'', Some store), (''event_bus'', Some b), (''account_manager'', accounts), (''join_batcher'', Some batcher)];
         dispatcher \<leftarrow> construct ''_RoomDispatcher'' [(''room_manager'', Some rooms), (''account_manager'', accounts)];
         handler \<leftarrow> construct ''_RoomEventHandler''
           [(''store'', Some store), (''event_bus'', Some b), (''room_manager'', Some rooms), (''account_manager'', accounts)];
         subscribe_all b handler
           [(''SessionDisconnectEvent'', ''_on_session_disconnect''), (''MessageEvent'', ''_on_message_event''),
            (''TimerTick'', ''_on_timer_tick'')];
         provide_services [(''RoomStore'', store), (''RoomJoinBatcher'', batcher), (''RoomManager'', rooms),
           (''_RoomDispatcher'', dispatcher), (''_RoomEventHandler'', handler)] } }"

text \<open>\<open>manager.event_bus\<close> is the bus itself, not the service.\<close>

definition the_bus :: nat where "the_bus = 0"

definition init_limbic :: "assembly_env \<Rightarrow> bool wire_step" where
  "init_limbic env = do {
     accounts \<leftarrow> lookup_service ''AccountManager'';
     rooms \<leftarrow> lookup_service ''RoomManager'';
     classifier \<leftarrow> (if av_neural env then do { c \<leftarrow> construct ''NeuralEmotionClassifier'' []; State_Monad.return (Some c) }
                    else State_Monad.return None);
     appraiser \<leftarrow> construct ''Appraiser'' [(''emotion_classifier'', classifier)];
     relationship \<leftarrow> construct ''RelationshipManager'' [];
     limbic \<leftarrow> construct ''LimbicOrchestrator''
       [(''account_manager'', accounts), (''room_manager'', rooms), (''appraiser'', Some appraiser),
        (''_relationship'', Some relationship)];
     ok \<leftarrow> provide_services [(''LimbicOrchestrator'', limbic)];
     if \<not> ok then State_Monad.return False
     else do {
       handler \<leftarrow> construct ''_LimbicEventHandler''
         [(''event_bus'', Some the_bus), (''orchestrator'', Some limbic), (''account_manager'', accounts),
          (''room_manager'', rooms)];
       keep_own ''limbic._event_handler'' handler;
       State_Monad.return True } }"


section \<open>The memory layer\<close>

text \<open>\<open>_build_promotion_handlers\<close>: the relationship handler needs the relationship manager as a
  service.\<close>

definition promotion_handlers :: "assembly_env \<Rightarrow> (string \<times> nat option) list wire_step" where
  "promotion_handlers env = do {
     styles \<leftarrow> construct ''StyleMemoryStore'' [];
     style \<leftarrow> construct ''StylePromotionHandler'' [(''style_store'', Some styles)];
     patches \<leftarrow> construct ''PersonaPatchCandidateStore'' [];
     policy \<leftarrow> construct ''PersonaPatchPolicy'' [(''store'', Some patches)];
     persona \<leftarrow> construct ''PersonaPatchPromotionHandler'' [(''store'', Some patches), (''policy'', Some policy)];
     manager \<leftarrow> lookup_service ''RelationshipManager'';
     relationship \<leftarrow> (case manager of
         None \<Rightarrow> State_Monad.return []
       | Some m \<Rightarrow> do {
           snapshots \<leftarrow> (if av_snapshot_store_ok env
             then do { r \<leftarrow> construct ''RelationshipStateStore'' []; State_Monad.return (Some r) }
             else State_Monad.return None);
           h \<leftarrow> construct ''RelationshipPromotionHandler'' [(''relationship_manager'', Some m), (''snapshot_store'', snapshots)];
           State_Monad.return [(''relationship'', Some h)] });
     appraisal \<leftarrow> (if av_appraisal_store_ok env
       then do {
         episodes \<leftarrow> construct ''AppraisalEpisodeStore'' [];
         h \<leftarrow> construct ''AppraisalPromotionHandler'' [(''episode_store'', Some episodes)];
         State_Monad.return [(''appraisal'', Some h)] }
       else State_Monad.return []);
     State_Monad.return ([(''style'', Some style), (''persona_patch'', Some persona)] @ relationship @ appraisal) }"

definition build_pipeline :: "assembly_env \<Rightarrow> nat \<Rightarrow> nat \<Rightarrow> nat option wire_step" where
  "build_pipeline env archive long_term =
    (if \<not> av_langmem env then State_Monad.return None
     else do {
       bridge \<leftarrow> lookup_service ''LLMBridge'';
       if bridge = None \<or> \<not> av_chat_model env then State_Monad.return None
       else do {
         candidates \<leftarrow> construct ''MemoryCandidateStore'' [];
         jobs \<leftarrow> construct ''MemoryExtractionJobStore'' [];
         log \<leftarrow> construct ''MemoryConsolidationLogStore'' [];
         extractor \<leftarrow> construct ''LangMemExtractor'' [(''candidate_store'', Some candidates)];
         handlers \<leftarrow> promotion_handlers env;
         promotion \<leftarrow> construct ''PromotionPolicy'' ([(''long_term'', Some long_term), (''consolidation_log'', Some log)] @ handlers);
         pipeline \<leftarrow> construct ''MemoryPipeline''
           [(''archive'', Some archive), (''job_store'', Some jobs), (''candidate_store'', Some candidates),
            (''extractor'', Some extractor), (''promotion_policy'', Some promotion), (''consolidation_log'', Some log)];
         State_Monad.return (Some pipeline) } })"

text \<open>The semantic store opens a vector store of its own. The handler objects for the three kinds of
  memory and the archive subscribe when they are made, unless there is no bus, and the last handler
  raises without one.\<close>

definition subscribe_if :: "nat option \<Rightarrow> nat \<Rightarrow> (string \<times> string) list \<Rightarrow> unit wire_step" where
  "subscribe_if bus i es = (case bus of None \<Rightarrow> State_Monad.return () | Some b \<Rightarrow> subscribe_all b i es)"

definition build_memory :: "assembly_env \<Rightarrow> (nat \<times> nat \<times> nat \<times> nat \<times> nat \<times> nat) option wire_step" where
  "build_memory env = do {
     episodic \<leftarrow> construct ''EpisodicStore'' [];
     own_vectors \<leftarrow> construct ''VectorStore'' [];
     semantic \<leftarrow> construct ''SemanticStore'' [(''vector'', Some own_vectors)];
     vectors \<leftarrow> construct ''VectorStore'' [];
     long_term \<leftarrow> construct ''LongTermMemoryManager''
       [(''episodic'', Some episodic), (''semantic'', Some semantic), (''vector_store'', Some vectors)];
     short_term \<leftarrow> construct ''ShortTermMemoryManager'' [];
     bus \<leftarrow> lookup_service ''EventBus'';
     sensory \<leftarrow> construct ''SensoryMemoryManager'' [(''event_bus'', bus)];
     archive \<leftarrow> construct ''RawConversationArchiveStore'' [];
     pipeline \<leftarrow> build_pipeline env archive long_term;
     mem \<leftarrow> construct ''MemoryManager''
       [(''sensory'', Some sensory), (''short_term'', Some short_term), (''long_term'', Some long_term),
        (''archive'', Some archive), (''pipeline'', pipeline)];
     readiness \<leftarrow> construct ''ReadinessEvaluator'' [];
     assign sensory ''readiness_evaluator'' readiness;
     rooms \<leftarrow> lookup_service ''RoomManager'';
     sensory_handler \<leftarrow> construct ''SensoryEventHandler'' [(''event_bus'', bus), (''sensory'', Some sensory)];
     subscribe_if bus sensory_handler
       [(''MessageEvent'', ''_on_message_event''), (''RoomJoinedEvent'', ''_on_room_joined''),
        (''RoomJoinedBatchEvent'', ''_on_room_joined_batch''), (''RoomLeftEvent'', ''_on_room_left'')];
     short_term_handler \<leftarrow> construct ''ShortTermEventHandler'' [(''event_bus'', bus), (''short_term'', Some short_term)];
     subscribe_if bus short_term_handler
       [(''RoomJoinedEvent'', ''_on_room_joined''), (''RoomJoinedBatchEvent'', ''_on_room_joined_batch''),
        (''RoomLeftEvent'', ''_on_room_left'')];
     trigger \<leftarrow> construct ''ProactiveTrigger'' [(''event_bus'', bus), (''room_provider'', rooms)];
     archive_handler \<leftarrow> construct ''ArchiveEventHandler'' [(''event_bus'', bus), (''archive'', Some archive)];
     subscribe_if bus archive_handler [(''MessageEvent'', ''_on_message_event'')];
     handler \<leftarrow> construct ''_MemoryEventHandler''
       [(''event_bus'', bus), (''sensory_handler'', Some sensory_handler), (''proactive_trigger'', Some trigger)];
     case bus of
       None \<Rightarrow> State_Monad.return None
     | Some b \<Rightarrow> do {
         subscribe_all b handler [(''TimerTick'', ''_on_timer_tick'')];
         State_Monad.return (Some (mem, sensory, short_term, long_term, vectors, handler)) } }"

definition init_memory :: "assembly_env \<Rightarrow> bool wire_step" where
  "init_memory env = do {
     components \<leftarrow> build_memory env;
     case components of
       None \<Rightarrow> State_Monad.return False
     | Some (mem, sensory, short_term, long_term, vectors, handler) \<Rightarrow>
         provide_services [(''MemoryManager'', mem), (''SensoryMemoryManager'', sensory),
           (''ShortTermMemoryManager'', short_term), (''LongTermMemoryManager'', long_term), (''VectorStore'', vectors),
           (''_MemoryEventHandler'', handler)] }"

section \<open>The agency layer\<close>

text \<open>\<open>build_agency\<close> with the services it cannot do without: the bus, the sessions, the bridge, the
  memory and the tools.\<close>

definition build_agency ::
    "nat \<Rightarrow> nat \<Rightarrow> nat \<Rightarrow> nat \<Rightarrow> nat \<Rightarrow> nat \<Rightarrow> nat option \<Rightarrow>
     (nat \<times> nat \<times> nat \<times> nat \<times> nat \<times> nat \<times> nat \<times> nat \<times> nat) option wire_step" where
  "build_agency bus sessions inhibition llm mem tools capture = do {
     internal \<leftarrow> construct ''InternalBus'' [];
     personality \<leftarrow> construct ''Personality'' [];
     known \<leftarrow> lookup_service ''CapabilityChecker'';
     checker \<leftarrow> (case known of Some c \<Rightarrow> State_Monad.return c | None \<Rightarrow> construct ''CapabilityChecker'' []);
     agents_md \<leftarrow> construct ''AgentsMdStore'' [];
     accounts \<leftarrow> lookup_service ''AccountManager'';
     gateway \<leftarrow> construct ''LLMGateway''
       [(''llm'', Some llm), (''personality'', Some personality), (''agents_md_store'', Some agents_md),
        (''memory'', Some mem), (''capability_checker'', Some checker), (''debug_capture'', capture),
        (''account_provider'', accounts)];
     engine \<leftarrow> construct ''ToolEngine'' [(''registry'', Some tools)];
     executor \<leftarrow> construct ''FlowExecutor''
       [(''event_bus'', Some bus), (''llm_pipeline'', Some gateway), (''tool_executor'', Some engine),
        (''memory'', Some mem), (''inhibition'', Some inhibition)];
     scoring \<leftarrow> construct ''ProactiveScorer'' [(''memory'', Some mem)];
     hints \<leftarrow> construct ''ContextHintBuilder'' [(''memory'', Some mem)];
     questions \<leftarrow> construct ''QuestionGenerator'' [(''llm'', Some llm)];
     judge \<leftarrow> construct ''ProactiveJudge'' [(''scoring'', Some scoring), (''context_builder'', Some hints)];
     proactive \<leftarrow> construct ''ProactivePlanStrategy'' [(''question_gen'', Some questions)];
     response \<leftarrow> construct ''ResponsePlanStrategy'' [(''context_builder'', Some hints)];
     planning \<leftarrow> construct ''PlanningManager''
       [(''internal_bus'', Some internal), (''proactive_judge'', Some judge), (''proactive_strategy'', Some proactive),
        (''response_strategy'', Some response)];
     agency \<leftarrow> construct ''AgencyManager''
       [(''planning'', Some planning), (''execution'', Some executor), (''inhibition'', Some inhibition)];
     ok \<leftarrow> provide_services [(''InhibitionManager'', inhibition)];
     State_Monad.return (if ok
       then Some (agency, planning, executor, gateway, engine, internal, judge, proactive, response)
       else None) }"

text \<open>The handlers of the agency layer.\<close>

definition wire_agency :: "nat \<Rightarrow> nat \<Rightarrow> nat \<Rightarrow> nat \<Rightarrow> nat \<Rightarrow> nat \<Rightarrow> nat \<Rightarrow> bool wire_step" where
  "wire_agency bus inhibition internal executor judge proactive response = do {
     limbic \<leftarrow> lookup_service ''LimbicOrchestrator'';
     flow \<leftarrow> construct ''_FlowExecutionHandler'' [(''controller'', Some executor), (''inhibition'', Some inhibition)];
     subscribe_all bus flow [(''InterruptEvent'', ''_on_interrupt'')];
     subscribe_all internal flow [(''PlanDecided'', ''_on_plan'')];
     planner \<leftarrow> construct ''_PlanningEventHandler''
       [(''internal_bus'', Some internal), (''proactive_judge'', Some judge), (''proactive_strategy'', Some proactive),
        (''response_strategy'', Some response), (''inhibition'', Some inhibition), (''limbic'', limbic)];
     subscribe_all bus planner [(''InputReady'', ''_on_input_ready'')];
     inhibitor \<leftarrow> construct ''_InhibitionEventHandler'' [(''inhibition'', Some inhibition)];
     subscribe_all bus inhibitor
       [(''InhibitionRequestEvent'', ''_on_request_event''), (''InhibitionEvent'', ''_on_inhibition_event'')];
     State_Monad.return True }"

definition init_agency :: "bool wire_step" where
  "init_agency = do {
     bus \<leftarrow> lookup_service ''EventBus'';
     sessions \<leftarrow> lookup_service ''SessionManager'';
     case (bus, sessions) of
       (Some b, Some s) \<Rightarrow> do {
         inhibition \<leftarrow> construct ''InhibitionManager'' [(''session_getter'', Some s)];
         llm \<leftarrow> lookup_service ''LLMBridge'';
         mem \<leftarrow> lookup_service ''MemoryManager'';
         tools \<leftarrow> lookup_service ''ToolRegistry'';
         capture \<leftarrow> lookup_service ''DebugCapture'';
         case (llm, mem, tools) of
           (Some l, Some m, Some t) \<Rightarrow> do {
             built \<leftarrow> build_agency b s inhibition l m t capture;
             case built of
               None \<Rightarrow> State_Monad.return False
             | Some (agency, planning, executor, gateway, engine, internal, judge, proactive, response) \<Rightarrow> do {
                 ok \<leftarrow> provide_services [(''AgencyManager'', agency), (''PlanningManager'', planning),
                   (''FlowExecutor'', executor), (''LLMGateway'', gateway), (''ToolEngine'', engine)];
                 if \<not> ok then State_Monad.return False
                 else wire_agency b inhibition internal executor judge proactive response } }
         | _ \<Rightarrow> State_Monad.return False }
     | _ \<Rightarrow> State_Monad.return False }"

section \<open>Starting and stopping\<close>

text \<open>The limbic handler subscribes at the start, with or without its classifier; the timer thread and
  the listener are the active objects. What \<open>AgencyManager.shutdown\<close> does is a parameter.\<close>

definition start_limbic :: "unit wire_step" where
  "start_limbic = State (\<lambda>k. case dget (hp_own (k_ext k)) ''limbic._event_handler'' of
       None \<Rightarrow> ((), k)
     | Some h \<Rightarrow> run_state (subscribe_all the_bus h
         [(''MessageEvent'', ''_on_message''), (''RoomJoinedEvent'', ''_on_room_joined''),
          (''RoomJoinedBatchEvent'', ''_on_room_joined_batch''), (''RoomLeftEvent'', ''_on_room_left'')]) k)"

definition activate :: "nat option \<Rightarrow> bool \<Rightarrow> unit wire_step" where
  "activate t on = on_assembly (\<lambda>h. case t of None \<Rightarrow> h
     | Some i \<Rightarrow> h\<lparr>hp_active := (if on then hp_active h @ [i] else filter (\<lambda>j. j \<noteq> i) (hp_active h))\<rparr>)"

definition own :: "string \<Rightarrow> nat option wire_step" where
  "own a = State (\<lambda>k. (dget (hp_own (k_ext k)) a, k))"

definition plugin_init :: "assembly_env \<Rightarrow> string \<Rightarrow> bool wire_step" where
  "plugin_init env p =
    (if p = ''llm'' then init_llm env else if p = ''tools'' then init_tools
     else if p = ''heartbeat'' then init_heartbeat else if p = ''io'' then init_io
     else if p = ''account'' then init_account else if p = ''room'' then init_room
     else if p = ''limbic'' then init_limbic env else if p = ''memory'' then init_memory env
     else if p = ''agency'' then init_agency else State_Monad.return True)"

definition plugin_start :: "string \<Rightarrow> bool wire_step" where
  "plugin_start p =
    (if p = ''heartbeat'' then do { t \<leftarrow> own ''heartbeat._service''; activate t True; State_Monad.return True }
     else if p = ''limbic'' then do { start_limbic; State_Monad.return True }
     else State_Monad.return True)"

definition plugin_stop :: "(nat \<Rightarrow> bool wire_step) \<Rightarrow> string \<Rightarrow> bool wire_step" where
  "plugin_stop agency_shutdown p =
    (if p = ''heartbeat'' then do { t \<leftarrow> own ''heartbeat._service''; activate t False; State_Monad.return True }
     else if p = ''io'' then do {
       io \<leftarrow> lookup_service ''IOManager'';
       case io of None \<Rightarrow> State_Monad.return False
       | Some i \<Rightarrow> do { listener \<leftarrow> lookup_service ''GrpcListener''; activate listener False; State_Monad.return True } }
     else if p = ''agency'' then do {
       agency \<leftarrow> lookup_service ''AgencyManager'';
       case agency of None \<Rightarrow> State_Monad.return True | Some a \<Rightarrow> agency_shutdown a }
     else State_Monad.return True)"

definition shipped_call :: "assembly_env \<Rightarrow> (nat \<Rightarrow> bool wire_step) \<Rightarrow> (string, wiring) caller" where
  "shipped_call env agency_shutdown p c k =
    (case run_state (case c of Init \<Rightarrow> plugin_init env p | Start \<Rightarrow> plugin_start p
                     | Stop \<Rightarrow> plugin_stop agency_shutdown p | _ \<Rightarrow> State_Monad.return True) k of (ok, k') \<Rightarrow> (k', ok))"

text \<open>What \<open>discover_plugin_manifests\<close> finds, and the four objects the manager makes and provides.\<close>

definition shipped_modules :: "(string module_obj \<times> manifest) list" where
  "shipped_modules = map (\<lambda>m. (\<lparr>md_name = mf_name m, md_plugin = Some (mf_name m), md_classes = [], md_self = None\<rparr>, m))
     [account_manifest, agency_manifest, heartbeat_manifest, io_manifest, limbic_manifest,
      llm_manifest, memory_manifest, room_manifest, tools_manifest]"

definition infrastructure :: "(string \<times> nat) list" where
  "infrastructure = [(''EventBus'', the_bus), (''HookRegistry'', 1), (''Config'', 2), (''PluginManager'', 3)]"

definition empty_assembly :: assembly where
  "empty_assembly =
    \<lparr>hp_objects = map (\<lambda>s. \<lparr>ob_class = fst s, ob_refs = []\<rparr>) infrastructure,
     hp_attributes = [], hp_subscriptions = [], hp_own = [], hp_active = []\<rparr>"

definition shipped_build :: "assembly_env \<Rightarrow> (nat \<Rightarrow> bool wire_step) \<Rightarrow>
    (string, unit, nat, assembly) plugin_manager \<times> build_error option" where
  "shipped_build env agency_shutdown =
    build_all (shipped_call env agency_shutdown) infrastructure shipped_modules [] (new_plugin_manager empty_assembly)"


section \<open>What an initialisation leaves alone\<close>

definition offered :: "string \<Rightarrow> wiring \<Rightarrow> nat option" where
  "offered ty k = sc_resolve_optional ty ''default'' (k_di k)"

definition objects :: "wiring \<Rightarrow> component list" where
  "objects k = hp_objects (k_ext k)"

text \<open>\<open>m\<close> only adds objects, does not freeze, and changes no service outside \<open>S\<close>.\<close>

definition leaves :: "string set \<Rightarrow> 'a wire_step \<Rightarrow> bool" where
  "leaves S m \<longleftrightarrow> (\<forall>k. let k' = snd (run_state m k) in
     prefix (objects k) (objects k') \<and> sc_frozen (k_di k') = sc_frozen (k_di k) \<and>
     (\<forall>ty. ty \<notin> S \<longrightarrow> offered ty k' = offered ty k) \<and> (\<forall>ty. offered ty k \<noteq> None \<longrightarrow> offered ty k' \<noteq> None))"

named_theorems leaves_intros

lemma leaves_return [leaves_intros]: "leaves S (State_Monad.return x)"
  by (simp add: leaves_def)

lemma leaves_bind [leaves_intros]: "leaves S m \<Longrightarrow> (\<And>x. leaves S (f x)) \<Longrightarrow> leaves S (m \<bind> f)"
  unfolding leaves_def Let_def
  by (simp split: prod.split) (metis prefix_order.trans snd_conv)

lemma leaves_state: "(\<And>k. objects (snd (f k)) = objects k @ new k) \<Longrightarrow> (\<And>k. k_di (snd (f k)) = k_di k) \<Longrightarrow> leaves S (State f)"
  by (simp add: leaves_def offered_def Let_def)

lemma leaves_steps [leaves_intros]:
  "leaves S (construct cl refs)"
  "leaves S (assign i a j)" "leaves S (subscribe_all b i es)" "leaves S (keep_own n i)" "leaves S (lookup_service ty)"
  unfolding construct_def on_assembly_def assign_def subscribe_all_def keep_own_def lookup_service_def
  by (rule leaves_state [where new = "\<lambda>_. [\<lparr>ob_class = cl, ob_refs = refs\<rparr>]"] leaves_state [where new = "\<lambda>_. []"];
      simp add: objects_def)+

lemma leaves_subscribe_if [leaves_intros]: "leaves S (subscribe_if b i es)"
  unfolding subscribe_if_def by (cases b) (auto intro: leaves_intros)

lemma leaves_if [leaves_intros]: "leaves S a \<Longrightarrow> leaves S b \<Longrightarrow> leaves S (if c then a else b)"
  by simp

lemma leaves_option [leaves_intros]:
  "leaves S a \<Longrightarrow> (\<And>x. leaves S (f x)) \<Longrightarrow> leaves S (case x of None \<Rightarrow> a | Some x \<Rightarrow> f x)"
  by (cases x) simp_all

lemma leaves_pair [leaves_intros]: "(\<And>x y. leaves S (f x y)) \<Longrightarrow> leaves S (case p of (x, y) \<Rightarrow> f x y)"
  by (cases p) simp

lemma provide_all_unfrozen:
  "\<not> sc_frozen (k_di k) \<Longrightarrow> provide_all ss k =
    (k\<lparr>k_di := (k_di k)\<lparr>sc_services := fold (\<lambda>(ty, v). dput (ty, ''default'') v) ss (sc_services (k_di k))\<rparr>\<rparr>, None)"
proof (induction ss arbitrary: k)
  case (Cons s ss)
  then show ?case by (simp add: k_provide_def sc_provide_def split: prod.split)
qed simp

lemma offered_fold:
  "dget (fold (\<lambda>(ty, v). dput (ty, ''default'') v) ss d) (t, ''default'') =
    (case map_of (rev ss) t of None \<Rightarrow> dget d (t, ''default'') | Some v \<Rightarrow> Some v)"
  by (induction ss rule: rev_induct) auto

lemma run_provide:
  "\<not> sc_frozen (k_di k) \<Longrightarrow> \<exists>k'. run_state (provide_services ss) k = (True, k') \<and> k_ext k' = k_ext k \<and>
    \<not> sc_frozen (k_di k') \<and> (\<forall>t. offered t k' = (case map_of (rev ss) t of None \<Rightarrow> offered t k | Some v \<Rightarrow> Some v))"
  by (simp add: provide_services_def provide_all_unfrozen offered_def sc_resolve_optional_def offered_fold split: option.split)

lemma provide_frozen: "sc_frozen (k_di k) \<Longrightarrow> fst (provide_all ss k) = k"
  by (cases ss) (auto simp: k_provide_def sc_provide_frozen)

lemma leaves_provide [leaves_intros]: "fst ` set ss \<subseteq> S \<Longrightarrow> leaves S (provide_services ss)"
  unfolding leaves_def Let_def
proof (intro allI)
  fix k
  assume ss: "fst ` set ss \<subseteq> S"
  let ?k = "snd (run_state (provide_services ss) k)"
  show "prefix (objects k) (objects ?k) \<and> sc_frozen (k_di ?k) = sc_frozen (k_di k) \<and>
    (\<forall>ty. ty \<notin> S \<longrightarrow> offered ty ?k = offered ty k) \<and> (\<forall>ty. offered ty k \<noteq> None \<longrightarrow> offered ty ?k \<noteq> None)"
  proof (cases "sc_frozen (k_di k)")
    case True
    then have "?k = k" by (simp add: provide_services_def provide_frozen split_beta)
    then show ?thesis by simp
  next
    case False
    from run_provide [OF False, of ss] obtain k' where
      k': "run_state (provide_services ss) k = (True, k')" "k_ext k' = k_ext k" "\<not> sc_frozen (k_di k')"
      and o: "\<And>t. offered t k' = (case map_of (rev ss) t of None \<Rightarrow> offered t k | Some v \<Rightarrow> Some v)"
      by blast
    have "offered ty k' = offered ty k" if "ty \<notin> S" for ty
    proof -
      have "map_of (rev ss) ty = None" using that ss by (auto simp: dget_None_iff)
      then show ?thesis by (simp add: o)
    qed
    moreover have "offered ty k' \<noteq> None" if "offered ty k \<noteq> None" for ty
      using that by (simp add: o split: option.split)
    ultimately show ?thesis using k' False by (simp add: objects_def)
  qed
qed


lemma leaves_tokenizers [leaves_intros]: "leaves S (make_tokenizers ns d)"
  by (induction ns arbitrary: d) (auto intro!: leaves_intros)

lemma leaves_handlers [leaves_intros]: "leaves S (promotion_handlers env)"
  unfolding promotion_handlers_def by (intro leaves_intros)

lemma leaves_pipeline [leaves_intros]: "leaves S (build_pipeline env a l)"
  unfolding build_pipeline_def by (intro leaves_intros)

lemma leaves_build_memory [leaves_intros]: "leaves S (build_memory env)"
  unfolding build_memory_def by (intro leaves_intros)

text \<open>The services each plugin provides.\<close>

definition provided :: "string \<Rightarrow> string list" where
  "provided p =
    (if p = ''llm'' then [''LLMBridge'', ''CapabilityChecker'', ''DebugCapture'']
     else if p = ''tools'' then [''ToolRegistry'', ''ToolEngine'']
     else if p = ''heartbeat'' then [''TimerService'']
     else if p = ''io'' then [''IOManager'', ''SessionManager'', ''GrpcListener'']
     else if p = ''account'' then [''AccountStore'', ''AccountManager'', ''AccountDispatcher'']
     else if p = ''room'' then [''RoomStore'', ''RoomJoinBatcher'', ''RoomManager'', ''_RoomDispatcher'', ''_RoomEventHandler'']
     else if p = ''limbic'' then [''LimbicOrchestrator'']
     else if p = ''memory'' then [''MemoryManager'', ''SensoryMemoryManager'', ''ShortTermMemoryManager'',
       ''LongTermMemoryManager'', ''VectorStore'', ''_MemoryEventHandler'']
     else if p = ''agency'' then [''InhibitionManager'', ''AgencyManager'', ''PlanningManager'', ''FlowExecutor'',
       ''LLMGateway'', ''ToolEngine'']
     else [])"

lemmas init_defs = init_llm_def init_tools_def init_heartbeat_def init_io_def init_account_def init_room_def
  init_limbic_def init_memory_def init_agency_def

lemma leaves_inits:
  "leaves (set (provided ''llm'')) (init_llm env)" "leaves (set (provided ''tools'')) init_tools"
  "leaves (set (provided ''heartbeat'')) init_heartbeat" "leaves (set (provided ''io'')) init_io"
  "leaves (set (provided ''account'')) init_account" "leaves (set (provided ''room'')) init_room"
  "leaves (set (provided ''limbic'')) (init_limbic env)" "leaves (set (provided ''memory'')) (init_memory env)"
  "leaves (set (provided ''agency'')) init_agency"
  unfolding init_defs build_agency_def wire_agency_def
  by (intro leaves_intros; simp add: provided_def)+

lemma leaves_init: "leaves (set (provided p)) (plugin_init env p)"
  unfolding plugin_init_def by (simp add: leaves_inits leaves_return)

section \<open>When initialisation succeeds\<close>

definition offering :: "string set \<Rightarrow> wiring \<Rightarrow> bool" where
  "offering S k \<longleftrightarrow> \<not> sc_frozen (k_di k) \<and> (\<forall>ty \<in> S. offered ty k \<noteq> None)"

definition needed :: "string \<Rightarrow> string set" where
  "needed p = (if p = ''agency'' then {''EventBus'', ''SessionManager'', ''LLMBridge'', ''MemoryManager'', ''ToolRegistry''}
     else if p \<in> {''heartbeat'', ''io'', ''account'', ''room'', ''memory''} then {''EventBus''} else {})"

lemma leavesD:
  assumes "leaves S m" and "run_state m k = (x, k')"
  shows "prefix (objects k) (objects k')" "sc_frozen (k_di k') = sc_frozen (k_di k)"
    "ty \<notin> S \<Longrightarrow> offered ty k' = offered ty k" "offered ty k \<noteq> None \<Longrightarrow> offered ty k' \<noteq> None"
  using assms(1) unfolding leaves_def Let_def by (metis assms(2) snd_conv)+

lemma run_provide_simp:
  "\<not> sc_frozen (k_di k) \<Longrightarrow> run_state (provide_services ss) k =
    (True, k\<lparr>k_di := (k_di k)\<lparr>sc_services := fold (\<lambda>(ty, v). dput (ty, ''default'') v) ss (sc_services (k_di k))\<rparr>\<rparr>)"
  by (simp add: provide_services_def provide_all_unfrozen)

lemmas run_steps = construct_def assign_def on_assembly_def subscribe_all_def subscribe_if_def keep_own_def
  lookup_service_def run_provide_simp

text \<open>\<open>runs S m P T\<close>: where the container is open and offers \<open>S\<close>, \<open>m\<close> has a result in \<open>P\<close> and
  leaves the container open and offering \<open>T\<close>.\<close>

definition runs :: "string set \<Rightarrow> 'a wire_step \<Rightarrow> ('a \<Rightarrow> bool) \<Rightarrow> string set \<Rightarrow> bool" where
  "runs S m P T \<longleftrightarrow> (\<forall>k. offering S k \<longrightarrow> P (fst (run_state m k)) \<and> offering T (snd (run_state m k)))"

lemma runs_return: "P x \<Longrightarrow> T \<subseteq> S \<Longrightarrow> runs S (State_Monad.return x) P T"
  by (auto simp: runs_def offering_def)

lemma runs_bind: "runs S m Q U \<Longrightarrow> (\<And>x. Q x \<Longrightarrow> runs U (f x) P T) \<Longrightarrow> runs S (m \<bind> f) P T"
  unfolding runs_def by (simp split: prod.split) (metis fst_conv snd_conv)

lemma runs_skip: "leaves UNIV m \<Longrightarrow> (\<And>x. runs S (f x) P T) \<Longrightarrow> runs S (m \<bind> f) P T"
  by (rule runs_bind [where Q = "\<lambda>_. True" and U = S])
    (simp_all add: runs_def offering_def leaves_def Let_def)

lemma runs_lookup: "ty \<in> S \<Longrightarrow> (\<And>i. runs S (f (Some i)) P T) \<Longrightarrow> runs S (lookup_service ty \<bind> f) P T"
  by (rule runs_bind [where Q = "\<lambda>x. x \<noteq> None" and U = S])
    (auto simp: runs_def offering_def lookup_service_def offered_def)

lemma offering_provide:
  "offering S k \<Longrightarrow> fst (run_state (provide_services ss) k) \<and> offering (S \<union> fst ` set ss) (snd (run_state (provide_services ss) k))"
proof -
  assume k: "offering S k"
  then have "\<not> sc_frozen (k_di k)" by (simp add: offering_def)
  from run_provide [OF this, of ss] obtain k' where
    k': "run_state (provide_services ss) k = (True, k')" "\<not> sc_frozen (k_di k')"
    and o: "\<And>t. offered t k' = (case map_of (rev ss) t of None \<Rightarrow> offered t k | Some v \<Rightarrow> Some v)"
    by blast
  have "offered t k' \<noteq> None" if "t \<in> S \<union> fst ` set ss" for t
    using that k by (auto simp: o offering_def dget_None_iff split: option.split)
  with k' show ?thesis by (simp add: offering_def)
qed

lemma offering_mono: "offering S k \<Longrightarrow> T \<subseteq> S \<Longrightarrow> offering T k"
  by (auto simp: offering_def)

lemma runs_provide: "T \<subseteq> S \<union> fst ` set ss \<Longrightarrow> runs S (provide_services ss) (\<lambda>ok. ok) T"
  unfolding runs_def using offering_provide [of S _ ss] by (meson offering_mono)

lemma runs_provide_bind:
  "runs (S \<union> fst ` set ss) (f True) P T \<Longrightarrow> runs S (provide_services ss \<bind> f) P T"
  by (rule runs_bind [OF runs_provide [OF subset_refl]]) simp

lemma runs_cases:
  "runs S (f i) P T \<Longrightarrow> runs S (case Some i of None \<Rightarrow> a | Some i \<Rightarrow> f i) P T"
  "runs S (g i j) P T \<Longrightarrow> runs S (case (i, j) of (i, j) \<Rightarrow> g i j) P T"
  "runs S b P T \<Longrightarrow> runs S (if \<not> True then a else b) P T"
  "runs S b P T \<Longrightarrow> runs S (if Some i = None then a else b) P T"
  by simp_all

lemma runs_built: "x \<noteq> None \<Longrightarrow> (\<And>y. runs S (f y) P T) \<Longrightarrow> runs S (case x of None \<Rightarrow> a | Some y \<Rightarrow> f y) P T"
  by auto

lemma leaves_UNIV: "leaves S m \<Longrightarrow> leaves UNIV m"
  by (auto simp: leaves_def Let_def)

lemma core_runs:
  "runs {} init_tools (\<lambda>ok. ok) (set (provided ''tools''))"
  "runs {''EventBus''} init_heartbeat (\<lambda>ok. ok) (set (provided ''heartbeat''))"
  "runs {''EventBus''} init_account (\<lambda>ok. ok) (set (provided ''account''))"
  "runs {''EventBus''} init_room (\<lambda>ok. ok) (set (provided ''room''))"
  "runs {} (init_limbic env) (\<lambda>ok. ok) (set (provided ''limbic''))"
  unfolding init_defs
  by ((rule runs_lookup, (simp; fail)) | rule runs_cases | rule runs_provide_bind | (rule runs_provide, simp add: provided_def)
    | (rule runs_skip, (intro leaves_intros; fail)) | (rule runs_return; simp add: provided_def))+

lemma io_runs: "runs {''EventBus''} init_io (\<lambda>ok. ok) (set (provided ''io''))"
  unfolding init_io_def
  by ((rule runs_lookup, (simp; fail)) | rule runs_cases | rule runs_provide_bind
    | (rule runs_skip, (intro leaves_intros; fail)) | (rule runs_return; simp add: provided_def))+

lemma llm_runs: "av_environment_ok env \<Longrightarrow> runs {} (init_llm env) (\<lambda>ok. ok) (set (provided ''llm''))"
  unfolding init_llm_def
  by (simp only: not_True_eq_False if_False)
    ((rule runs_skip, (intro leaves_intros; fail)) | (rule runs_provide, simp add: provided_def))+

lemma build_memory_runs: "runs {''EventBus''} (build_memory env) (\<lambda>x. x \<noteq> None) {}"
  unfolding build_memory_def
  by ((rule runs_lookup, (simp; fail)) | rule runs_cases | (rule runs_skip, (intro leaves_intros; fail))
    | (rule runs_return; simp))+

lemma memory_runs: "runs {''EventBus''} (init_memory env) (\<lambda>ok. ok) (set (provided ''memory''))"
  unfolding init_memory_def
proof (rule runs_bind [OF build_memory_runs], rule runs_built)
  show "runs {} (case x of (mem, sensory, short_term, long_term, vectors, handler) \<Rightarrow>
      provide_services [(''MemoryManager'', mem), (''SensoryMemoryManager'', sensory), (''ShortTermMemoryManager'', short_term),
        (''LongTermMemoryManager'', long_term), (''VectorStore'', vectors), (''_MemoryEventHandler'', handler)])
    (\<lambda>ok. ok) (set (provided ''memory''))" for x
    by (cases x) (auto intro!: runs_provide simp: provided_def)
qed

lemma build_agency_runs: "runs {} (build_agency b s i l m t c) (\<lambda>x. x \<noteq> None) {''InhibitionManager''}"
  unfolding build_agency_def
  by ((rule runs_provide_bind) | (rule runs_skip, (intro leaves_intros; fail)) | (rule runs_return; simp))+

lemma wire_agency_runs: "runs S (wire_agency b i n e j p r) (\<lambda>ok. ok) S"
  unfolding wire_agency_def
  by ((rule runs_skip, (intro leaves_intros; fail)) | (rule runs_return; simp))+

lemma agency_runs: "runs (needed ''agency'') init_agency (\<lambda>ok. ok) (set (provided ''agency''))"
proof -
  have built: "runs {} (build_agency b s i l m t c \<bind> (\<lambda>built. case built of
      None \<Rightarrow> State_Monad.return False
    | Some (agency, planning, executor, gateway, engine, internal, judge, proactive, response) \<Rightarrow>
        provide_services [(''AgencyManager'', agency), (''PlanningManager'', planning), (''FlowExecutor'', executor),
          (''LLMGateway'', gateway), (''ToolEngine'', engine)] \<bind> (\<lambda>ok.
        if \<not> ok then State_Monad.return False else wire_agency b i internal executor judge proactive response)))
    (\<lambda>ok. ok) (set (provided ''agency''))" for b s i l m t c
  proof (rule runs_bind [OF build_agency_runs], rule runs_built, assumption, unfold split_paired_all prod.case, rule runs_provide_bind)
    fix agency planning executor gateway engine internal judge proactive response :: nat
    have T: "{''InhibitionManager''} \<union> fst ` set [(''AgencyManager'', agency), (''PlanningManager'', planning),
        (''FlowExecutor'', executor), (''LLMGateway'', gateway), (''ToolEngine'', engine)] = set (provided ''agency'')"
      by (auto simp: provided_def)
    show "runs ({''InhibitionManager''} \<union> fst ` set [(''AgencyManager'', agency), (''PlanningManager'', planning),
        (''FlowExecutor'', executor), (''LLMGateway'', gateway), (''ToolEngine'', engine)])
      (if \<not> True then State_Monad.return False else wire_agency b i internal executor judge proactive response)
      (\<lambda>ok. ok) (set (provided ''agency''))"
      unfolding T by (rule runs_cases, rule wire_agency_runs)
  qed
  have weaken: "runs S m P T" if "runs {} m P T" for S m P and T :: "string set"
    using that by (auto simp: runs_def offering_def)
  show ?thesis
    unfolding init_agency_def needed_def
    by ((rule runs_lookup, (simp; fail)) | (simp only: prod.case option.case) | (rule runs_skip, (intro leaves_intros; fail))
      | (rule weaken [OF built]))+
qed

lemma needed_simps: "needed ''tools'' = {}" "needed ''limbic'' = {}" "needed ''heartbeat'' = {''EventBus''}"
  "needed ''io'' = {''EventBus''}" "needed ''account'' = {''EventBus''}" "needed ''room'' = {''EventBus''}"
  "needed ''memory'' = {''EventBus''}" "needed ''llm'' = {}"
  by (simp_all add: needed_def)

lemma init_runs:
  assumes "p = ''llm'' \<longrightarrow> av_environment_ok env"
  shows "runs (needed p) (plugin_init env p) (\<lambda>ok. ok) (set (provided p))"
proof (cases "p \<in> {''llm'', ''tools'', ''heartbeat'', ''io'', ''account'', ''room'', ''limbic'', ''memory'', ''agency''}")
  case True
  then show ?thesis
    using assms
    by (elim insertE emptyE; simp add: plugin_init_def needed_simps core_runs io_runs llm_runs memory_runs agency_runs)
next
  case False
  then show ?thesis by (simp add: plugin_init_def provided_def runs_return)
qed

section \<open>The whole initialisation\<close>

fun run_inits :: "('p, 'w) caller \<Rightarrow> 'p list \<Rightarrow> 'w \<Rightarrow> 'w \<times> 'p option" where
  "run_inits call [] w = (w, None)"
| "run_inits call (n # ns) w =
    (case call n Init w of (w', True) \<Rightarrow> run_inits call ns w' | (w', False) \<Rightarrow> (w', Some n))"

lemma init_all_world:
  assumes "\<And>n. n \<in> set ns \<Longrightarrow> \<exists>p. dget ps n = Some p \<and> resolve_plugin (pi_module p) = Some n"
  shows "snd (init_all call ns ps w) = run_inits call ns w"
  using assms
proof (induction ns arbitrary: ps w)
  case (Cons n ns)
  from Cons.prems [of n] obtain p where p: "dget ps n = Some p" "resolve_plugin (pi_module p) = Some n" by auto
  have keep: "\<exists>q. dget (Plugin_Lifecycle.set_state n s ps) m = Some q \<and> resolve_plugin (pi_module q) = Some m" if "m \<in> set ns" for m s
    using Cons.prems [of m] that by (auto simp: store_simps)
  show ?case
    by (cases "call n Init w") (simp add: p run_call_def Cons.IH [OF keep] split: bool.split)
qed simp

lemma shipped_loaded:
  "lc_load shipped_modules [] (new_lifecycle [''EventBus'']) =
    (\<lparr>lc_plugins = map (\<lambda>m. (mf_name (snd m), \<lparr>pi_manifest = snd m, pi_module = Some (fst m), pi_state = UNLOADED\<rparr>)) shipped_modules,
      lc_order = [''llm'', ''tools'', ''heartbeat'', ''io'', ''account'', ''room'', ''account'', ''room'', ''limbic'', ''memory'', ''agency''],
      lc_builtin = [''EventBus'']\<rparr>, None)"
proof -
  let ?ps = "map (\<lambda>m. (mf_name (snd m), \<lparr>pi_manifest = snd m, pi_module = Some (fst m), pi_state = UNLOADED\<rparr>)) shipped_modules"
  have l: "load_plugins [] shipped_modules [] = ?ps"
    by (simp add: shipped_modules_def manifest_defs)
  have m: "manifests_of ?ps = shipped_plugins"
    by (simp add: manifests_of_def shipped_modules_def shipped_plugins_def)
  have v: "verify_dependencies shipped_plugins [''EventBus''] = None"
    by code_simp
  show ?thesis
    by (simp add: lc_load_def new_lifecycle_def l m v resolve_shipped del: list.map)
qed

lemma shipped_resolved:
  assumes "n \<in> {''llm'', ''tools'', ''heartbeat'', ''io'', ''account'', ''room'', ''limbic'', ''memory'', ''agency''}"
  shows "\<exists>p. dget (map (\<lambda>m. (mf_name (snd m), \<lparr>pi_manifest = snd m, pi_module = Some (fst m), pi_state = UNLOADED\<rparr>)) shipped_modules) n
      = Some p \<and> resolve_plugin (pi_module p) = Some n"
  using assms by (auto simp: shipped_modules_def manifest_defs resolve_plugin_def)

lemma notify_nothing: "notify_all (shipped_call env f) OnConfigLoaded ok ns ps k = k"
proof -
  have "fst (run_call (shipped_call env f) p OnConfigLoaded k) = k" for p
    by (simp add: run_call_def shipped_call_def split: option.split)
  then show ?thesis by (induction ns) (auto split: option.split)
qed

fun plan_ok :: "string set \<Rightarrow> string list \<Rightarrow> bool" where
  "plan_ok S [] \<longleftrightarrow> True"
| "plan_ok S (n # ns) \<longleftrightarrow> needed n \<subseteq> S \<and> plan_ok (S \<union> set (provided n)) ns"

lemma shipped_call_init: "shipped_call env f n Init k = prod.swap (run_state (plugin_init env n) k)"
  by (simp add: shipped_call_def prod.swap_def split_beta)

lemma run_inits_leaves:
  "run_inits (shipped_call env f) ns k = (k', e) \<Longrightarrow>
    prefix (objects k) (objects k') \<and> sc_frozen (k_di k') = sc_frozen (k_di k) \<and> (\<forall>ty. ty \<notin> (\<Union>n \<in> set ns. set (provided n)) \<longrightarrow> offered ty k' = offered ty k)"
proof (induction ns arbitrary: k)
  case (Cons n ns)
  obtain ok k1 where r: "run_state (plugin_init env n) k = (ok, k1)" by fastforce
  note l = leavesD [OF leaves_init r]
  show ?case
  proof (cases ok)
    case True
    then have "run_inits (shipped_call env f) ns k1 = (k', e)"
      using Cons.prems by (simp add: shipped_call_init r)
    from Cons.IH [OF this] l show ?thesis by (auto intro: prefix_order.trans)
  next
    case False
    then have "k' = k1" using Cons.prems by (simp add: shipped_call_init r)
    then show ?thesis using l by auto
  qed
qed simp

lemma run_inits_ok:
  assumes "av_environment_ok env"
  shows "offering S k \<Longrightarrow> plan_ok S ns \<Longrightarrow> \<exists>k'. run_inits (shipped_call env f) ns k = (k', None)"
proof (induction ns arbitrary: S k)
  case (Cons n ns)
  obtain ok k1 where r: "run_state (plugin_init env n) k = (ok, k1)" by fastforce
  have "offering (needed n) k" using Cons.prems by (auto intro: offering_mono)
  then have ok: ok and n: "offering (set (provided n)) k1"
    using init_runs [of n env] assms by (auto simp: runs_def r dest!: spec [of _ k])
  have "offering (S \<union> set (provided n)) k1"
    using Cons.prems(1) n leavesD(2,4) [OF leaves_init r] by (auto simp: offering_def)
  from Cons.IH [OF this] Cons.prems(2) show ?case
    by (simp add: shipped_call_init r ok)
qed simp

text \<open>The kernel before the first \<open>init\<close>.\<close>

definition bare :: wiring where
  "bare = fst (provide_all infrastructure (pm_kernel (new_plugin_manager empty_assembly :: (string, unit, nat, assembly) plugin_manager)))"

lemma bare_facts: "\<not> sc_frozen (k_di bare)" "offered ty bare = map_of infrastructure ty"
  "provide_all infrastructure (pm_kernel (new_plugin_manager empty_assembly :: (string, unit, nat, assembly) plugin_manager)) = (bare, None)"
  by (simp_all add: bare_def new_plugin_manager_def new_container_def infrastructure_def k_provide_def sc_provide_def
      offered_def sc_resolve_optional_def)

abbreviation shipped_order :: "string list" where
  "shipped_order \<equiv> [''llm'', ''tools'', ''heartbeat'', ''io'', ''account'', ''room'', ''account'', ''room'', ''limbic'', ''memory'', ''agency'']"

lemma shipped_build_runs:
  assumes "run_inits (shipped_call env f) shipped_order bare = (k, e)"
  shows "snd (shipped_build env f) = map_option InitError e \<and>
    (e = None \<longrightarrow> pm_kernel (fst (shipped_build env f)) = freeze_kernel k)"
proof -
  let ?ps = "map (\<lambda>m. (mf_name (snd m), \<lparr>pi_manifest = snd m, pi_module = Some (fst m), pi_state = UNLOADED\<rparr>)) shipped_modules"
  have s: "snd (init_all (shipped_call env f) shipped_order ?ps bare) = (k, e)"
    unfolding assms [symmetric] by (rule init_all_world, rule shipped_resolved) auto
  define ps where "ps = fst (init_all (shipped_call env f) shipped_order ?ps bare)"
  have i: "init_all (shipped_call env f) shipped_order ?ps bare = (ps, k, e)"
    unfolding ps_def s [symmetric] by (rule surjective_pairing)
  have l: "lc_load shipped_modules [] (pm_lifecycle (new_plugin_manager empty_assembly :: (string, unit, nat, assembly) plugin_manager)) =
    (\<lparr>lc_plugins = ?ps, lc_order = shipped_order, lc_builtin = [''EventBus'']\<rparr>, None)"
    unfolding new_plugin_manager_def plugin_manager.simps by (rule shipped_loaded)
  show ?thesis
    unfolding shipped_build_def build_all_def bare_facts(3) prod.case option.case l lifecycle.simps i
    by (cases e) (simp_all add: notify_config_loaded_def notify_nothing Let_def)
qed

lemma shipped_plan_ok: "plan_ok {''EventBus''} shipped_order"
  by (simp add: needed_def provided_def)

lemma shipped_build_succeeds:
  "snd (shipped_build env f) = (if av_environment_ok env then None else Some (InitError ''llm''))"
proof (cases "av_environment_ok env")
  case True
  have "offering {''EventBus''} bare" by (simp add: offering_def bare_facts infrastructure_def)
  from run_inits_ok [OF True this shipped_plan_ok, of f] obtain k where
    "run_inits (shipped_call env f) shipped_order bare = (k, None)" by blast
  from shipped_build_runs [OF this] True show ?thesis by simp
next
  case False
  then have "run_inits (shipped_call env f) shipped_order bare = (bare, Some ''llm'')"
    by (simp add: shipped_call_init plugin_init_def init_llm_def)
  from shipped_build_runs [OF this] False show ?thesis by simp
qed

section \<open>What the gateway was built with\<close>

definition reference :: "nat \<Rightarrow> string \<Rightarrow> wiring \<Rightarrow> nat option" where
  "reference i a k = (if i < length (objects k)
     then (case map_of (ob_refs (objects k ! i)) a of None \<Rightarrow> None | Some r \<Rightarrow> r) else None)"

text \<open>The gateway behind the service \<open>IOManager\<close>, as Gateway models it, for given account, room and
  command handlers.\<close>

definition wired_gateway where
  "wired_gateway account room command k =
    (case offered ''IOManager'' k of None \<Rightarrow> None
     | Some io \<Rightarrow>
        (case reference io ''gateway'' k of None \<Rightarrow> None
         | Some g \<Rightarrow>
            (case reference g ''dispatcher'' k of None \<Rightarrow> None
             | Some d \<Rightarrow>
                if length (objects k) \<le> d then None
                else Some \<lparr>gw_registry = build_default_registry
                         (if reference d ''account_dispatcher'' k = None then None else Some account)
                         (if reference d ''room_dispatcher'' k = None then None else Some room) (Some command),
                       gw_room_store = (reference g ''room_store'' k \<noteq> None),
                       gw_account_manager = (reference g ''account_manager'' k \<noteq> None)\<rparr>)))"

lemma reference_prefix:
  "prefix (objects k) (objects k') \<Longrightarrow> i < length (objects k) \<Longrightarrow> reference i a k' = reference i a k"
  by (auto simp: reference_def prefix_def nth_append)

lemma reference_bound: "reference i a k = Some j \<Longrightarrow> i < length (objects k)"
  by (simp add: reference_def split: if_splits)

lemma wired_gateway_stays:
  assumes "prefix (objects k) (objects k')" and "offered ''IOManager'' k' = offered ''IOManager'' k"
    and "wired_gateway a r c k = Some gw"
  shows "wired_gateway a r c k' = Some gw"
proof -
  obtain io g d where r: "offered ''IOManager'' k = Some io" "reference io ''gateway'' k = Some g"
    "reference g ''dispatcher'' k = Some d" "d < length (objects k)"
    using assms(3) by (auto simp: wired_gateway_def split: option.splits if_splits)
  have l: "length (objects k) \<le> length (objects k')" using assms(1) by (rule prefix_length_le)
  have "reference io ''gateway'' k' = Some g" "reference g ''dispatcher'' k' = Some d"
    "reference d b k' = reference d b k" "reference g b k' = reference g b k" for b
    using r reference_prefix [OF assms(1)] by (metis reference_bound)+
  then show ?thesis
    using assms(2,3) r l by (simp add: wired_gateway_def)
qed

lemma wired_by_init:
  assumes "offering {''EventBus''} k"
  shows "wired_gateway a r c (snd (run_state init_io k)) =
    Some \<lparr>gw_registry = build_default_registry (if offered ''AccountDispatcher'' k = None then None else Some a)
            (if offered ''_RoomDispatcher'' k = None then None else Some r) (Some c),
          gw_room_store = (offered ''RoomStore'' k \<noteq> None), gw_account_manager = (offered ''AccountManager'' k \<noteq> None)\<rparr>"
proof -
  obtain b where b: "dget (sc_services (k_di k)) (''EventBus'', ''default'') = Some b" "\<not> sc_frozen (k_di k)"
    using assms by (auto simp: offering_def offered_def sc_resolve_optional_def)
  show ?thesis
    by (simp add: init_io_def run_steps offered_def sc_resolve_optional_def b wired_gateway_def reference_def objects_def nth_append)
qed

lemma run_inits_append:
  "run_inits call (ms @ ns) w = (case run_inits call ms w of (w', None) \<Rightarrow> run_inits call ns w' | (w', Some n) \<Rightarrow> (w', Some n))"
  by (induction call ms w rule: run_inits.induct) (auto split: prod.split bool.split)

lemma shipped_gateway:
  assumes "av_environment_ok env"
  shows "wired_gateway a r c (pm_kernel (fst (shipped_build env f))) =
    Some \<lparr>gw_registry = build_default_registry None None (Some c), gw_room_store = False, gw_account_manager = False\<rparr>"
proof -
  let ?call = "shipped_call env f" and ?core = "[''llm'', ''tools'', ''heartbeat'']"
    and ?rest = "[''account'', ''room'', ''account'', ''room'', ''limbic'', ''memory'', ''agency'']"
  have b: "offering {''EventBus''} bare" by (simp add: offering_def bare_facts infrastructure_def)
  have "plan_ok {''EventBus''} ?core" by (simp add: needed_def)
  from run_inits_ok [OF assms b this, of f] obtain k1 where k1: "run_inits ?call ?core bare = (k1, None)" by blast
  from run_inits_ok [OF assms b shipped_plan_ok, of f] obtain k where k: "run_inits ?call shipped_order bare = (k, None)" by blast
  obtain ok k2 where k2: "run_state init_io k1 = (ok, k2)" by fastforce
  have o: "shipped_order = ?core @ (''io'' # ?rest)" by simp
  have "run_inits ?call (''io'' # ?rest) k1 = (k, None)"
    using k unfolding o run_inits_append k1 by simp
  then have rest: "run_inits ?call ?rest k2 = (k, None)"
    by (cases ok) (simp_all add: shipped_call_init plugin_init_def k2)
  note l1 = run_inits_leaves [OF k1]
  have off: "offered ty k1 = offered ty bare"
    if "ty \<in> {''EventBus'', ''AccountDispatcher'', ''_RoomDispatcher'', ''RoomStore'', ''AccountManager''}" for ty
  proof -
    have "ty \<notin> (\<Union>n \<in> set ?core. set (provided n))"
      using that by (elim insertE emptyE; simp add: provided_def)
    with l1 show ?thesis by blast
  qed
  have s1: "offering {''EventBus''} k1"
    using off [of "''EventBus''"] b l1 by (simp add: offering_def)
  have gw: "wired_gateway a r c k2 =
    Some \<lparr>gw_registry = build_default_registry None None (Some c), gw_room_store = False, gw_account_manager = False\<rparr>"
    using wired_by_init [OF s1, of a r c] by (simp add: k2 off bare_facts infrastructure_def)
  have "''IOManager'' \<notin> (\<Union>n \<in> set ?rest. set (provided n))"
    by (simp add: provided_def)
  then have io: "offered ''IOManager'' k = offered ''IOManager'' k2" "prefix (objects k2) (objects k)"
    using run_inits_leaves [OF rest] by blast+
  have "prefix (objects k) (objects (freeze_kernel k))" "offered ''IOManager'' (freeze_kernel k) = offered ''IOManager'' k"
    by (simp_all add: objects_def offered_def freeze_kernel_def sc_freeze_def sc_resolve_optional_def)
  note wired_gateway_stays [OF this wired_gateway_stays [OF io(2) io(1) gw]]
  moreover have "pm_kernel (fst (shipped_build env f)) = freeze_kernel k"
    using shipped_build_runs [OF k] by blast
  ultimately show ?thesis by (simp only:)
qed

lemma no_relationship_handler:
  assumes "offered ''RelationshipManager'' k = None"
  shows "dget (fst (run_state (promotion_handlers env) k)) ''relationship'' = None"
  using assms by (auto simp: promotion_handlers_def run_steps offered_def sc_resolve_optional_def)

definition demo_assembly_env :: assembly_env where
  "demo_assembly_env = \<lparr>av_environment_ok = True, av_models = [''qwen''], av_neural = False, av_langmem = True,
     av_chat_model = True, av_snapshot_store_ok = True, av_appraisal_store_ok = True\<rparr>"

definition no_agency_shutdown :: "nat \<Rightarrow> bool wire_step" where
  "no_agency_shutdown a = State_Monad.return True"

definition demo_wired :: wiring where
  "demo_wired = fst (run_inits (shipped_call demo_assembly_env no_agency_shutdown) shipped_order bare)"

text \<open>Every \<open>init\<close> of the room plugin makes a store and a handler on that store which stays subscribed;
  the start-up order initialises it twice, and only the second store is the service.\<close>

lemma room_init_subscribes:
  assumes "offering {''EventBus''} k"
  defines "k' \<equiv> snd (run_state init_room k)"
  shows "\<exists>b h s. offered ''RoomStore'' k' = Some s \<and> length (objects k) \<le> s \<and> reference h ''store'' k' = Some s \<and>
    hp_subscriptions (k_ext k') = hp_subscriptions (k_ext k) @
      map (\<lambda>(e, m). \<lparr>sb_bus = b, sb_event = e, sb_object = h, sb_method = m\<rparr>)
        [(''SessionDisconnectEvent'', ''_on_session_disconnect''), (''MessageEvent'', ''_on_message_event''),
         (''TimerTick'', ''_on_timer_tick'')]"
proof -
  obtain b where b: "dget (sc_services (k_di k)) (''EventBus'', ''default'') = Some b" "\<not> sc_frozen (k_di k)"
    using assms by (auto simp: offering_def offered_def sc_resolve_optional_def)
  show ?thesis
    by (rule exI [of _ b], rule exI [of _ "length (objects k) + 4"], rule exI [of _ "length (objects k)"])
      (simp add: k'_def init_room_def run_steps offered_def sc_resolve_optional_def b reference_def objects_def nth_append)
qed

section \<open>Claims\<close>

text \<open>
  C2: In the program as shipped no client can reach a room or an account: the gateway is built before the
  plugins of the accounts and rooms, and what it could not get then it never gets. Every control message,
  such as the one that creates a room, is published and left unanswered, and changes nothing; a message to
  the assistant is accepted for whatever room it names, and its sender has no account but the one
  the message itself claims.
\<close>

theorem clients_reach_no_room:
  assumes "av_environment_ok env"
  shows "\<exists>gw. wired_gateway account room command (pm_kernel (fst (shipped_build env stop))) = Some gw \<and>
    (\<forall>alive m sid s. on_grpc_control gw alive m sid s = (io_publish (ControlPublished m sid) s, False)) \<and>
    (\<forall>pfloat alive now clock fresh eid m sp s.
       mg_direction m = REQUEST \<and> mg_target_role m = ''mind'' \<and> mg_speaker m = Some sp \<and> mg_msg_type m \<noteq> ''inhibition'' \<and>
       \<not> (mg_msg_type m = ''chat'' \<and> mg_content m = []) \<and> mg_room_id m \<noteq> [] \<longrightarrow>
       on_grpc_message gw pfloat alive now clock fresh eid m s = io_publish (InputReady (input_event m sp (mg_account_id m))) s)"
proof (intro exI conjI allI impI, rule shipped_gateway [OF assms])
  let ?gw = "\<lparr>gw_registry = build_default_registry None None (Some command), gw_room_store = False, gw_account_manager = False\<rparr>"
  show "on_grpc_control ?gw alive m sid s = (io_publish (ControlPublished m sid) s, False)" for alive m sid s
    by (simp add: on_grpc_control_def dispatch_control_def build_default_registry_def register_command_def new_registry_def)
  show "on_grpc_message ?gw pfloat alive now clock fresh eid m s = io_publish (InputReady (input_event m sp (mg_account_id m))) s"
    if "mg_direction m = REQUEST \<and> mg_target_role m = ''mind'' \<and> mg_speaker m = Some sp \<and> mg_msg_type m \<noteq> ''inhibition'' \<and>
       \<not> (mg_msg_type m = ''chat'' \<and> mg_content m = []) \<and> mg_room_id m \<noteq> []"
    for pfloat alive now clock fresh eid m sp s
    using that by (auto simp: on_grpc_message_def message_account_def)
qed

definition demo_create_room :: control_message where
  "demo_create_room = \<lparr>cm_action = ''room.create'', cm_account_id = ''ann'', cm_room_id = [], cm_display_name = ''Den'',
     cm_text = [], cm_identity = None, cm_profile = None\<rparr>"

theorem clients_reach_no_room_witness:
  "\<exists>gw. wired_gateway (\<lambda>m s. (Ok None, s)) (\<lambda>m sid s. (Ok None, s)) (\<lambda>n a sid s. (Ok None, s))
      (pm_kernel (fst (shipped_build demo_assembly_env no_agency_shutdown))) = Some gw \<and>
    on_grpc_control gw (\<lambda>_. True) demo_create_room ''s1'' demo_io = (io_publish (ControlPublished demo_create_room ''s1'') demo_io, False)"
proof -
  have "av_environment_ok demo_assembly_env" by (simp add: demo_assembly_env_def)
  from clients_reach_no_room [OF this] show ?thesis by blast
qed

end
