(* ===== verification/Transport.thy ===== *)
theory Transport
  imports Gateway
begin

text \<open>
  The gRPC service (\<open>iris/io/transport\<close>: grpc\_server, formatter): what one client stream does to
  the state, frame by frame. The protobuf runtime and asyncio are outside: a frame is the record of
  its fields, and the values every frame draws (clock, fresh ids, whether connections accept a
  write) come with it as an \<open>env\<close>. A \<open>bool\<close> in a result says that an exception left the
  handler, which ends the stream's receive loop.
\<close>

section \<open>Frames\<close>

record 'c env =
  en_float :: "string \<Rightarrow> real option"
  en_alive :: "'c \<Rightarrow> bool"
  en_now :: real
  en_clock :: string
  en_account_id :: string
  en_message_id :: string

record proto_message =
  pm_id :: string
  pm_correlation_id :: string
  pm_target_role :: string
  pm_account_id :: string
  pm_direction :: int
  pm_msg_type :: string
  pm_content :: string
  pm_state :: int
  pm_metadata :: "(string, string) dict"
  pm_speaker :: "(string \<times> string \<times> string \<times> (string, string) dict)"
  pm_room_id :: string

record proto_control =
  pc_action :: string
  pc_account_id :: string
  pc_room_id :: string
  pc_display_name :: string
  pc_text :: string
  pc_identity :: "(string \<times> string \<times> string \<times> (string, string) dict)"
  pc_profile :: "(string, string) dict"

datatype frame =
    MessageFrame proto_message
  | CommandFrame string string
  | ControlFrame proto_control
  | UnknownFrame

section \<open>Parsing\<close>

fun permission_value :: "permission \<Rightarrow> string" where
  "permission_value SEND_CHAT = ''send_chat''"
| "permission_value RECEIVE_CHAT = ''receive_chat''"
| "permission_value SEND_COMMAND = ''send_command''"
| "permission_value RECEIVE_COMMAND = ''receive_command''"
| "permission_value RECEIVE_LOG = ''receive_log''"
| "permission_value INTERRUPT = ''interrupt''"
| "permission_value EXECUTE_ACTION = ''execute_action''"
| "permission_value SEND_INHIBITION = ''send_inhibition''"

definition all_permissions :: "permission list" where
  "all_permissions = [SEND_CHAT, RECEIVE_CHAT, SEND_COMMAND, RECEIVE_COMMAND, RECEIVE_LOG, INTERRUPT, EXECUTE_ACTION, SEND_INHIBITION]"

definition permission_of :: "string \<Rightarrow> permission option" where
  "permission_of s = find (\<lambda>p. permission_value p = s) all_permissions"

definition parse_permissions :: "string \<Rightarrow> permission list" where
  "parse_permissions s = (if s = [] then [] else
    List.map_filter (\<lambda>w. let t = py_strip w in if t = [] then None else permission_of t) (split_on CHR '','' s))"

definition parse_direction :: "int \<Rightarrow> direction option" where
  "parse_direction n = map_of [(1, REQUEST), (2, RESPONSE), (3, STREAM), (4, EVENT)] n"

definition parse_stream_state :: "int \<Rightarrow> string option" where
  "parse_stream_state n = map_of [(1, ''thinking''), (2, ''speaking''), (3, ''done''), (4, ''interrupted'')] n"

definition parse_message_metadata :: "(string, string) dict \<Rightarrow> (string, pyobj) dict" where
  "parse_message_metadata d = map (\<lambda>(k, v). (k,
     if py_lower v = ''true'' then PBool True else if py_lower v = ''false'' then PBool False else PStr v)) d"

text \<open>\<open>Inl\<close> is the \<open>ValueError\<close> of an unknown provider.\<close>

definition parse_identity_proto :: "string \<times> string \<times> string \<times> (string, string) dict \<Rightarrow> unit + identity_msg option" where
  "parse_identity_proto x =
    (case x of (prov, subj, nm, meta) \<Rightarrow>
      if prov = [] \<and> subj = [] then Inr None
      else if prov \<noteq> [] \<and> provider_of prov = None then Inl ()
      else Inr (Some \<lparr>im_provider = prov, im_subject = subj, im_provider_name = nm,
                      im_metadata = map (\<lambda>(k, v). (k, PStr v)) meta\<rparr>))"

definition proto_to_message :: "string \<Rightarrow> string \<Rightarrow> proto_message \<Rightarrow> message option" where
  "proto_to_message sid role p =
    (case (parse_direction (pm_direction p), parse_identity_proto (pm_speaker p)) of
       (Some d, Inr sp) \<Rightarrow> Some
         \<lparr>mg_id = pm_id p, mg_correlation_id = (if pm_correlation_id p = [] then None else Some (pm_correlation_id p)),
          mg_session_id = sid, mg_source_role = role, mg_target_role = or_else (pm_target_role p) ''*'',
          mg_account_id = pm_account_id p, mg_direction = d, mg_msg_type = pm_msg_type p, mg_content = pm_content p,
          mg_state = parse_stream_state (pm_state p), mg_metadata = parse_message_metadata (pm_metadata p),
          mg_speaker = sp, mg_room_id = pm_room_id p\<rparr>
     | _ \<Rightarrow> None)"

definition proto_to_control :: "proto_control \<Rightarrow> control_message option" where
  "proto_to_control p =
    (case parse_identity_proto (pc_identity p) of
       Inl _ \<Rightarrow> None
     | Inr i \<Rightarrow> Some \<lparr>cm_action = pc_action p, cm_account_id = pc_account_id p, cm_room_id = pc_room_id p,
         cm_display_name = pc_display_name p, cm_text = pc_text p, cm_identity = i,
         cm_profile = Some (map (\<lambda>(k, v). (k, PStr v)) (pc_profile p))\<rparr>)"

section \<open>Dispatching a frame\<close>

definition validate_session :: "string \<Rightarrow> string \<Rightarrow> 'c io_state \<Rightarrow> bool" where
  "validate_session sid ty s \<longleftrightarrow> is_session_active sid (io_sessions s) \<and> check_send_permission sid ty (io_sessions s)"

definition send_ack :: "'c env \<Rightarrow> string \<Rightarrow> string \<Rightarrow> string \<Rightarrow> 'c io_state \<Rightarrow> 'c io_state" where
  "send_ack e corr role sid s = s\<lparr>io_sessions := route_message (en_alive e) (en_now e)
     \<lparr>mg_id = en_message_id e, mg_correlation_id = Some corr, mg_session_id = sid, mg_source_role = ''mind'',
      mg_target_role = role, mg_account_id = '''', mg_direction = RESPONSE, mg_msg_type = ''ack'',
      mg_content = ''ack:'' @ corr, mg_state = None, mg_metadata = [], mg_speaker = None, mg_room_id = ''''\<rparr> (io_sessions s)\<rparr>"

definition dispatch_message :: "room_system gateway \<Rightarrow> 'c env \<Rightarrow> string \<Rightarrow> string \<Rightarrow> proto_message \<Rightarrow> 'c io_state \<Rightarrow> 'c io_state" where
  "dispatch_message gw e sid role p s =
    (case proto_to_message sid role p of
       None \<Rightarrow> s
     | Some m \<Rightarrow>
        if \<not> validate_session sid (mg_msg_type m) s then s
        else let s1 = on_grpc_message gw (en_float e) (en_alive e) (en_now e) (en_clock e) (en_account_id e) (en_message_id e) m s
             in if ctx_truthy (mg_metadata m) ''ack_required'' then send_ack e (mg_id m) role sid s1 else s1)"

definition handle_command :: "room_system gateway \<Rightarrow> 'c env \<Rightarrow> string \<Rightarrow> string \<Rightarrow> string \<Rightarrow> string \<Rightarrow> 'c io_state \<Rightarrow> 'c io_state \<times> bool" where
  "handle_command gw e sid role cid content s =
    (if \<not> validate_session sid ''command'' s then (s, False)
     else on_grpc_command gw (en_alive e) (en_now e)
       \<lparr>ci_id = cid, ci_session_id = sid, ci_source_role = role, ci_content = content\<rparr> s)"

definition dispatch_control_frame :: "room_system gateway \<Rightarrow> 'c env \<Rightarrow> string \<Rightarrow> proto_control \<Rightarrow> 'c io_state \<Rightarrow> 'c io_state \<times> bool" where
  "dispatch_control_frame gw e sid p s =
    (case proto_to_control p of None \<Rightarrow> (s, False) | Some m \<Rightarrow> on_grpc_control gw (en_alive e) m sid s)"

fun handle_frame :: "room_system gateway \<Rightarrow> 'c env \<Rightarrow> string \<Rightarrow> string \<Rightarrow> frame \<Rightarrow> 'c io_state \<Rightarrow> 'c io_state \<times> bool" where
  "handle_frame gw e sid role (MessageFrame p) s = (dispatch_message gw e sid role p s, False)"
| "handle_frame gw e sid role (CommandFrame cid content) s = handle_command gw e sid role cid content s"
| "handle_frame gw e sid role (ControlFrame p) s = dispatch_control_frame gw e sid p s"
| "handle_frame gw e sid role UnknownFrame s = (s, False)"

definition touch :: "'c env \<Rightarrow> string \<Rightarrow> 'c io_state \<Rightarrow> 'c io_state" where
  "touch e sid s = s\<lparr>io_sessions := update_activity (en_now e) (Some sid) (io_sessions s)\<rparr>"

fun receive_loop :: "room_system gateway \<Rightarrow> string \<Rightarrow> string \<Rightarrow> ('c env \<times> frame) list \<Rightarrow> 'c io_state \<Rightarrow> 'c io_state" where
  "receive_loop gw sid role [] s = s"
| "receive_loop gw sid role ((e, f) # fs) s =
    (case handle_frame gw e sid role f (touch e sid s) of
       (s1, True) \<Rightarrow> s1
     | (s1, False) \<Rightarrow> receive_loop gw sid role fs s1)"

section \<open>A whole stream\<close>

definition auth_of :: "(string, string) dict \<Rightarrow> auth_message" where
  "auth_of d =
    \<lparr>au_token = dget d ''access_token'', au_role = dget_or d ''role'' ''external'',
     au_permissions = parse_permissions (dget_or d ''permissions'' ''''),
     au_tag = dget_or d ''session_tag'' '''', au_description = dget_or d ''description'' ''''\<rparr>"

text \<open>The stream of a client, run alone: authentication, its frames, and the removal at its end.\<close>

definition bidirectional_stream :: "room_system gateway \<Rightarrow> string \<Rightarrow> real \<Rightarrow> 'c \<Rightarrow> (string, string) dict \<Rightarrow> ('c env \<times> frame) list \<Rightarrow>
    real \<Rightarrow> 'c io_state \<Rightarrow> 'c io_state" where
  "bidirectional_stream gw fresh now conn metadata fs later s =
    (case sm_authenticate fresh now (Some conn) (auth_of metadata) (io_sessions s) of
       (AuthFailure _, sm) \<Rightarrow> s\<lparr>io_sessions := sm\<rparr>
     | (AuthSuccess sid, sm) \<Rightarrow>
        (let s1 = receive_loop gw sid (or_else (au_role (auth_of metadata)) ''external'') fs (s\<lparr>io_sessions := sm\<rparr>)
         in s1\<lparr>io_sessions := remove_session later sid (io_sessions s1)\<rparr>))"

section \<open>Lemmas\<close>

text \<open>The dispatchers of accounts and rooms as the registry gets them.\<close>

definition account_control :: "string \<Rightarrow> string \<Rightarrow> control_message \<Rightarrow> room_system \<Rightarrow> control_reply option raised \<times> room_system" where
  "account_control fresh now m s = (case account_handle fresh now m (fst s) of (r, am) \<Rightarrow> (r, (am, snd s)))"

lemma touch_simps [simp]:
  "io_rooms (touch e sid s) = io_rooms s" "io_out (touch e sid s) = io_out s"
  "sm_sent (io_sessions (touch e sid s)) = sm_sent (io_sessions s)"
  by (simp_all add: touch_def update_activity_def split: option.split)

lemma get_touch:
  "get_session_info i (io_sessions (touch e sid s)) =
    map_option (\<lambda>x. if i = sid then x\<lparr>sn_last_activity := en_now e\<rparr> else x) (get_session_info i (io_sessions s))"
  by (cases "get_session_info i (io_sessions s)")
    (auto simp: touch_def update_activity_def get_session_info_def split: option.split)

lemma accepted_out:
  assumes "accepted gw m s" and "mg_msg_type m \<noteq> ''inhibition''"
  shows "\<exists>ev. io_out (on_grpc_message gw pfloat alive now clock fresh eid m s) = io_out s @ [InputReady ev] \<and> ir_content ev = mg_content m"
  using assms by (auto simp: on_grpc_message_def accepted_def Let_def input_event_def split: prod.split)

lemma send_ack_simps [simp]:
  "io_rooms (send_ack e corr role sid s) = io_rooms s" "io_out (send_ack e corr role sid s) = io_out s"
  by (simp_all add: send_ack_def)

lemma proto_to_message_type: "proto_to_message sid role p = Some m \<Longrightarrow> mg_msg_type m = pm_msg_type p"
  by (auto simp: proto_to_message_def split: option.splits sum.splits)

text \<open>What a frame needs a permission for.\<close>

fun frame_permission :: "frame \<Rightarrow> permission option" where
  "frame_permission (MessageFrame p) = dget input_permission (pm_msg_type p)"
| "frame_permission (CommandFrame cid content) = Some SEND_COMMAND"
| "frame_permission _ = None"

definition lacks :: "permission \<Rightarrow> string \<Rightarrow> 'c io_state \<Rightarrow> bool" where
  "lacks p sid s \<longleftrightarrow> (case get_session_info sid (io_sessions s) of None \<Rightarrow> True | Some x \<Rightarrow> p \<notin> set (sn_permissions x))"

lemma lacks_touch [simp]: "lacks p i (touch e sid s) = lacks p i s"
  by (auto simp: lacks_def get_touch split: option.split)

lemma validate_needs: "dget input_permission ty = Some p \<Longrightarrow> lacks p sid s \<Longrightarrow> \<not> validate_session sid ty s"
  by (auto simp: validate_session_def lacks_def check_send_permission_def split: option.splits)

lemma frame_refused:
  assumes "frame_permission f = Some p" and "lacks p sid s"
  shows "handle_frame gw e sid role f s = (s, False)"
proof (cases f)
  case (MessageFrame pm)
  then show ?thesis
    using assms validate_needs [of _ p sid s] proto_to_message_type [of sid role pm]
    by (simp add: dispatch_message_def split: option.split)
next
  case (CommandFrame cid content)
  moreover have "dget input_permission ''command'' = Some SEND_COMMAND" by (simp add: input_permission_def)
  ultimately show ?thesis using assms validate_needs [of "''command''" p sid s] by (simp add: handle_command_def)
qed (use assms(1) in auto)

section \<open>Claims\<close>

text \<open>
  C18: a client whose frames all need a permission its session does not hold (a listed message
  type, a command) achieves nothing: no event is published, nothing is sent, no room or account changes.
\<close>

theorem powerless_client:
  assumes "\<forall>(e, f) \<in> set fs. \<exists>p. frame_permission f = Some p \<and> lacks p sid s"
  shows "let s' = receive_loop gw sid role fs s
    in io_rooms s' = io_rooms s \<and> io_out s' = io_out s \<and> sm_sent (io_sessions s') = sm_sent (io_sessions s)"
  using assms
proof (induction fs arbitrary: s)
  case (Cons ef fs)
  obtain e f where ef: "ef = (e, f)" by (cases ef)
  then obtain p where p: "frame_permission f = Some p" "lacks p sid s" using Cons.prems by auto
  have "handle_frame gw e sid role f (touch e sid s) = (touch e sid s, False)"
    by (rule frame_refused [OF p(1)]) (simp add: p(2))
  moreover have "\<forall>(e', f) \<in> set fs. \<exists>p. frame_permission f = Some p \<and> lacks p sid (touch e sid s)"
    using Cons.prems by auto
  ultimately show ?case using Cons.IH [of "touch e sid s"] by (simp add: ef Let_def)
qed simp

definition demo_env :: "nat env" where
  "demo_env = \<lparr>en_float = (\<lambda>_. None), en_alive = (\<lambda>_. True), en_now = 1, en_clock = ''t2'', en_account_id = ''x'', en_message_id = ''e''\<rparr>"

definition demo_proto :: "string \<Rightarrow> proto_message" where
  "demo_proto ty = \<lparr>pm_id = ''1'', pm_correlation_id = '''', pm_target_role = ''mind'', pm_account_id = '''', pm_direction = 1,
     pm_msg_type = ty, pm_content = ''hi'', pm_state = 0, pm_metadata = [], pm_speaker = (''local'', ''ann'', '''', []), pm_room_id = ''r1''\<rparr>"

text \<open>A session that may do nothing.\<close>

definition mute_auth :: auth_message where
  "mute_auth = demo_auth\<lparr>au_permissions := []\<rparr>"

definition demo_mute :: "nat io_state" where
  "demo_mute = demo_io\<lparr>io_sessions := snd (sm_authenticate ''s1'' 0 (Some 7) mute_auth (new_session_manager '''' ''''))\<rparr>"

lemma demo_mute_session: "get_session_info ''s1'' (io_sessions demo_mute) = Some (new_session ''s1'' 0 (Some 7) mute_auth)"
  by (simp add: get_session_info_def demo_mute_def sm_authenticate_def check_token_def new_session_manager_def
      replace_duplicate_session_def create_session_def)

theorem powerless_client_witness:
  "io_out (receive_loop demo_gateway ''s1'' '''' [(demo_env, MessageFrame (demo_proto ''chat'')), (demo_env, CommandFrame ''1'' ''/help'')] demo_mute) = []"
proof -
  have "lacks p ''s1'' demo_mute" for p
    by (simp add: lacks_def demo_mute_session new_session_def mute_auth_def)
  moreover have "frame_permission (MessageFrame (demo_proto ''chat'')) = Some SEND_CHAT"
    by (simp add: demo_proto_def input_permission_def)
  moreover have "io_out demo_mute = []" by (simp add: demo_mute_def demo_io_def)
  ultimately show ?thesis
    using powerless_client [of "[(demo_env, MessageFrame (demo_proto ''chat'')), (demo_env, CommandFrame ''1'' ''/help'')]" "''s1''" demo_mute demo_gateway "''''"]
    by (simp add: Let_def)
qed

text \<open>
  the permission is looked up by message type and an unlisted type needs none: an active session
  without any permission has its text accepted as input if only the type is not listed.
\<close>

theorem unlisted_type_unchecked:
  assumes "get_session_info sid (io_sessions s) = Some x" and "sn_state x = SESSION_ACTIVE" and "sn_permissions x = []"
    and "dget input_permission (pm_msg_type p) = None" and "proto_to_message sid role p = Some m" and "accepted gw m s"
  shows "\<exists>ev. io_out (fst (handle_frame gw e sid role (MessageFrame p) s)) = io_out s @ [InputReady ev] \<and>
    ir_content ev = pm_content p"
proof -
  have ty: "mg_msg_type m = pm_msg_type p" by (rule proto_to_message_type [OF assms(5)])
  have "mg_msg_type m \<noteq> ''inhibition''" using assms(4) by (auto simp: ty input_permission_def)
  moreover have "validate_session sid (mg_msg_type m) s"
    using assms(1,2,4) by (simp add: ty validate_session_def is_session_active_def check_send_permission_def)
  moreover have "mg_content m = pm_content p"
    using assms(5) by (auto simp: proto_to_message_def split: option.splits sum.splits)
  ultimately show ?thesis
    using accepted_out [OF assms(6), of "en_float e" "en_alive e" "en_now e" "en_clock e" "en_account_id e" "en_message_id e"]
      assms(5) by (simp add: dispatch_message_def Let_def)
qed

text \<open>
  one account update with a profile field \<open>account_id\<close> or \<open>self\<close> ends the processing of a
  client's stream: no frame that follows is read, while the session stays registered as it was.
\<close>

theorem profile_field_ends_stream:
  assumes "gw_registry gw = build_default_registry (Some (account_control fresh now)) (Some r) c"
    and "proto_to_control p = Some m" and "pc_action p = ''account.update''"
    and "resolve_target_account m (fst (io_rooms s)) \<noteq> None"
    and "k \<in> {''account_id'', ''self''}" and "k \<in> set (dkeys (pc_profile p))"
  shows "receive_loop gw sid role ((e, ControlFrame p) # fs) s = receive_loop gw sid role [(e, ControlFrame p)] s \<and>
    is_session_active sid (io_sessions (receive_loop gw sid role ((e, ControlFrame p) # fs) s)) =
      is_session_active sid (io_sessions s) \<and>
    io_out (receive_loop gw sid role ((e, ControlFrame p) # fs) s) = io_out s"
proof -
  have m: "cm_action m = ''account.update''" "cm_profile m = Some (map (\<lambda>(k, v). (k, PStr v)) (pc_profile p))"
    using assms(2,3) by (auto simp: proto_to_control_def split: sum.splits)
  have mm: "m\<lparr>cm_action := ''account.update''\<rparr> = m" using m(1) by simp
  have k: "k \<in> set (dkeys (map (\<lambda>(k, v). (k, PStr v)) (pc_profile p)))" using assms(6) by (force simp: image_iff)
  obtain a where a: "resolve_target_account m (fst (io_rooms s)) = Some a" using assms(4) by blast
  obtain am where am: "account_handle fresh now m (fst (io_rooms s)) = (TypeError, am)"
    using profile_field_raises [OF a m(2) assms(5) k, of fresh now] unfolding mm by blast
  have "handle_frame gw e sid role (ControlFrame p) (touch e sid s) =
      ((touch e sid s)\<lparr>io_rooms := (am, snd (io_rooms s))\<rparr>, True)"
    using assms(2) am m(1)
    by (simp add: dispatch_control_frame_def on_grpc_control_def assms(1) dispatch_control_def default_controls
        room_match_def account_match_def starts_with_def account_control_def)
  then show ?thesis
    using get_touch [of sid e sid s] by (simp add: is_session_active_def split: option.split)
qed

definition demo_profile :: proto_control where
  "demo_profile = \<lparr>pc_action = ''account.update'', pc_account_id = ''a1'', pc_room_id = '''', pc_display_name = '''', pc_text = '''',
     pc_identity = ('''', '''', '''', []), pc_profile = [(''self'', ''me'')]\<rparr>"

end
