(* ===== verification/Grpc_Out.thy ===== *)
theory Grpc_Out
  imports Transport
begin

text \<open>
  What the gRPC service sends: the dumps of the messages (\<open>io/models.py\<close>), the frames built from them
  (\<open>io/transport/formatter.py\<close>), the queue of a connection (\<open>grpc_connection.py\<close>) and the send loop
  (\<open>grpc_server.py\<close>).

  The JSON text between \<open>model_dump_json\<close> and \<open>orjson.loads\<close> is left out, the decoded object is the
  dumped one. A text field of a frame is set from a text or from \<open>null\<close>, which leaves it empty; the
  dumps have no other values there. \<open>rep\<close> is the text \<open>str\<close> makes of a number with a fraction or a
  container, which no dump of a message has as a metadata value on its way from another client.
\<close>

section \<open>Dumps\<close>

fun direction_value :: "direction \<Rightarrow> string" where
  "direction_value REQUEST = ''request''"
| "direction_value RESPONSE = ''response''"
| "direction_value STREAM = ''stream''"
| "direction_value EVENT = ''event''"

definition opt_text :: "string option \<Rightarrow> pyobj" where
  "opt_text x = (case x of None \<Rightarrow> PNone | Some s \<Rightarrow> PStr s)"

definition dump_identity :: "identity_msg \<Rightarrow> pyobj" where
  "dump_identity i = PDict [(''provider'', PStr (im_provider i)), (''subject'', PStr (im_subject i)),
     (''provider_name'', PStr (im_provider_name i)), (''metadata'', PDict (im_metadata i))]"

definition dump_message :: "message \<Rightarrow> (string, pyobj) dict" where
  "dump_message m =
    [(''id'', PStr (mg_id m)), (''correlation_id'', opt_text (mg_correlation_id m)),
     (''session_id'', PStr (mg_session_id m)), (''source_role'', PStr (mg_source_role m)),
     (''target_role'', PStr (mg_target_role m)), (''account_id'', PStr (mg_account_id m)),
     (''direction'', PStr (direction_value (mg_direction m))), (''msg_type'', PStr (mg_msg_type m)),
     (''content'', PStr (mg_content m)), (''content_type'', PStr ''text/plain''),
     (''state'', opt_text (mg_state m)), (''metadata'', PDict (mg_metadata m)),
     (''speaker'', case mg_speaker m of None \<Rightarrow> PNone | Some i \<Rightarrow> dump_identity i), (''room_id'', PStr (mg_room_id m))]"

definition dump_command :: "string \<Rightarrow> command_output \<Rightarrow> (string, pyobj) dict" where
  "dump_command fresh c =
    [(''id'', PStr fresh), (''correlation_id'', opt_text (co_correlation_id c)), (''session_id'', PStr (co_session_id c)),
     (''msg_type'', PStr ''command''), (''content'', PStr (co_content c)), (''state'', PNone)]"

text \<open>A control message as \<open>_build_control_message\<close> of the gateway makes it from a reply, and one of
  the presence notices; \<open>json\<close> is the text of a reply that is JSON.\<close>

definition dump_control :: "string \<Rightarrow> string \<Rightarrow> string \<Rightarrow> string \<Rightarrow> string \<Rightarrow> identity_msg option \<Rightarrow> (string, pyobj) dict" where
  "dump_control action account room name tx ident =
    [(''action'', PStr action), (''account_id'', PStr account), (''room_id'', PStr room), (''display_name'', PStr name),
     (''text'', PStr tx), (''identity'', case ident of None \<Rightarrow> PNone | Some i \<Rightarrow> dump_identity i),
     (''profile'', PDict []), (''metadata'', PDict [])]"

definition dump_reply :: "(pyobj \<Rightarrow> string) \<Rightarrow> control_reply \<Rightarrow> (string, pyobj) dict" where
  "dump_reply json r = dump_control (cr_action r) (cr_account_id r) (cr_room_id r) (cr_display_name r)
     (case cr_text r of Text t \<Rightarrow> t | Json x \<Rightarrow> json x) (cr_identity r)"

definition dump_presence :: "presence \<Rightarrow> (string, pyobj) dict" where
  "dump_presence p = dump_control (pr_action p) (pr_account_id p) (pr_room_id p) (pr_display_name p) [] None"

definition dump_wire :: "(pyobj \<Rightarrow> string) \<Rightarrow> string \<Rightarrow> wire \<Rightarrow> (string, pyobj) dict" where
  "dump_wire json fresh w =
    (case w of WMessage m \<Rightarrow> dump_message m | WReply r \<Rightarrow> dump_reply json r | WPresence p \<Rightarrow> dump_presence p
     | WCommand c \<Rightarrow> dump_command fresh c)"

section \<open>Frames\<close>

record proto_out = proto_message +
  po_session_id :: string
  po_source_role :: string
  po_content_type :: string

record proto_command =
  fc_id :: string
  fc_correlation_id :: string
  fc_session_id :: string
  fc_msg_type :: string
  fc_content :: string
  fc_state :: string

record proto_control_out = proto_control +
  fo_metadata :: "(string, string) dict"

datatype out_frame = OutCommand proto_command | OutControl proto_control_out | OutMessage proto_out

definition frame_text :: "(string, pyobj) dict \<Rightarrow> string \<Rightarrow> string" where
  "frame_text d k = (case dget d k of Some (PStr s) \<Rightarrow> s | _ \<Rightarrow> [])"

definition str_of_value :: "(pyobj \<Rightarrow> string) \<Rightarrow> pyobj \<Rightarrow> string" where
  "str_of_value rep v = (case v of PStr s \<Rightarrow> s | PNone \<Rightarrow> ''None'' | PBool b \<Rightarrow> if b then ''True'' else ''False''
     | PInt i \<Rightarrow> show_int i | _ \<Rightarrow> rep v)"

text \<open>Writing a map field entry by entry.\<close>

definition write_map :: "(pyobj \<Rightarrow> string) \<Rightarrow> (string, pyobj) dict \<Rightarrow> (string, string) dict" where
  "write_map rep d = fold (\<lambda>(k, v). dput k (str_of_value rep v)) d []"

definition sub_dict :: "pyobj option \<Rightarrow> (string, pyobj) dict" where
  "sub_dict x = (case x of Some (PDict d) \<Rightarrow> d | _ \<Rightarrow> [])"

definition build_identity_frame :: "(pyobj \<Rightarrow> string) \<Rightarrow> (string, pyobj) dict \<Rightarrow> string \<times> string \<times> string \<times> (string, string) dict" where
  "build_identity_frame rep d =
    (str_of_value rep (dget_or d ''provider'' (PStr [])), str_of_value rep (dget_or d ''subject'' (PStr [])),
     str_of_value rep (dget_or d ''provider_name'' (PStr [])), write_map rep (sub_dict (dget d ''metadata'')))"

definition direction_number :: "string \<Rightarrow> int" where
  "direction_number s = (case map_of [(''request'', 1), (''response'', 2), (''stream'', 3), (''event'', 4)] s of
     None \<Rightarrow> 0 | Some n \<Rightarrow> n)"

definition state_number :: "string \<Rightarrow> int" where
  "state_number s = (case map_of [(''thinking'', 1), (''speaking'', 2), (''done'', 3), (''interrupted'', 4)] s of
     None \<Rightarrow> 0 | Some n \<Rightarrow> n)"

definition no_identity :: "string \<times> string \<times> string \<times> (string, string) dict" where
  "no_identity = ([], [], [], [])"

definition build_command_frame :: "(string, pyobj) dict \<Rightarrow> proto_command" where
  "build_command_frame d =
    \<lparr>fc_id = frame_text d ''id'', fc_correlation_id = frame_text d ''correlation_id'', fc_session_id = frame_text d ''session_id'',
     fc_msg_type = frame_text d ''msg_type'', fc_content = frame_text d ''content'', fc_state = frame_text d ''state''\<rparr>"

definition build_message_frame :: "(pyobj \<Rightarrow> string) \<Rightarrow> (string, pyobj) dict \<Rightarrow> proto_out" where
  "build_message_frame rep d =
    \<lparr>pm_id = frame_text d ''id'', pm_correlation_id = frame_text d ''correlation_id'', pm_target_role = frame_text d ''target_role'',
     pm_account_id = frame_text d ''account_id'', pm_direction = direction_number (frame_text d ''direction''),
     pm_msg_type = frame_text d ''msg_type'', pm_content = frame_text d ''content'',
     pm_state = state_number (frame_text d ''state''), pm_metadata = write_map rep (sub_dict (dget d ''metadata'')),
     pm_speaker = (case dget d ''speaker'' of Some (PDict s) \<Rightarrow> build_identity_frame rep s | _ \<Rightarrow> no_identity),
     pm_room_id = frame_text d ''room_id'',
     po_session_id = frame_text d ''session_id'', po_source_role = frame_text d ''source_role'',
     po_content_type = frame_text d ''content_type''\<rparr>"

text \<open>\<open>set_proto_from_dict\<close> leaves the field alone unless the value is a dictionary.\<close>

definition set_identity :: "(pyobj \<Rightarrow> string) \<Rightarrow> pyobj option \<Rightarrow> string \<times> string \<times> string \<times> (string, string) dict" where
  "set_identity rep x = (case x of Some (PDict d) \<Rightarrow> build_identity_frame rep d | _ \<Rightarrow> no_identity)"

definition build_control_frame :: "(pyobj \<Rightarrow> string) \<Rightarrow> (string, pyobj) dict \<Rightarrow> proto_control_out" where
  "build_control_frame rep d =
    \<lparr>pc_action = frame_text d ''action'', pc_account_id = frame_text d ''account_id'', pc_room_id = frame_text d ''room_id'',
     pc_display_name = frame_text d ''display_name'', pc_text = frame_text d ''text'',
     pc_identity = set_identity rep (dget d ''identity''), pc_profile = write_map rep (sub_dict (dget d ''profile'')),
     fo_metadata = write_map rep (sub_dict (dget d ''metadata''))\<rparr>"

text \<open>One round of the send loop; the type decides before the action is looked at.\<close>

definition send_frame :: "(pyobj \<Rightarrow> string) \<Rightarrow> (string, pyobj) dict \<Rightarrow> out_frame" where
  "send_frame rep d =
    (if frame_text d ''msg_type'' = ''command'' then OutCommand (build_command_frame d)
     else if (case dget d ''action'' of None \<Rightarrow> False | Some a \<Rightarrow> py_truthy a) then OutControl (build_control_frame rep d)
     else OutMessage (build_message_frame rep d))"

text \<open>What the queue of a session's connection has been given is sent in its order, after the
  acknowledgement of the authentication.\<close>

definition auth_ack :: "string \<Rightarrow> proto_out" where
  "auth_ack sid =
    \<lparr>pm_id = [], pm_correlation_id = [], pm_target_role = [], pm_account_id = [], pm_direction = 2, pm_msg_type = ''auth_success'',
     pm_content = ''authenticated'', pm_state = 0, pm_metadata = [], pm_speaker = no_identity, pm_room_id = [],
     po_session_id = sid, po_source_role = [], po_content_type = []\<rparr>"

definition stream_frames :: "(pyobj \<Rightarrow> string) \<Rightarrow> (pyobj \<Rightarrow> string) \<Rightarrow> (wire \<Rightarrow> string) \<Rightarrow> string \<Rightarrow> 'c session_manager \<Rightarrow> out_frame list" where
  "stream_frames rep json fresh sid s =
    OutMessage (auth_ack sid) #
    map (\<lambda>e. send_frame rep (dump_wire json (fresh (snd e)) (snd e))) (filter (\<lambda>e. fst e = sid) (sm_sent s))"

section \<open>Facts about frames\<close>

lemma dump_get [simp]:
  "frame_text (dump_message m) ''msg_type'' = mg_msg_type m"
  "dget (dump_message m) ''action'' = None"
  by (simp_all add: frame_text_def dump_message_def)

lemma dput_new: "k \<notin> set (dkeys d) \<Longrightarrow> dput k v d = d @ [(k, v)]"
  by (induction d) auto

lemma write_map_onto:
  "distinct (dkeys (e @ d)) \<Longrightarrow> fold (\<lambda>(k, v). dput k (str_of_value rep v)) d e' = e' @ map (\<lambda>(k, v). (k, str_of_value rep v)) d"
  if "dkeys e' = dkeys e" for e e' d
  using that
proof (induction d arbitrary: e e')
  case (Cons x d)
  obtain k v where x: "x = (k, v)" by fastforce
  have "k \<notin> set (dkeys e')" using Cons.prems by (simp add: x)
  then have "fold (\<lambda>(k, v). dput k (str_of_value rep v)) (x # d) e' = fold (\<lambda>(k, v). dput k (str_of_value rep v)) d (e' @ [(k, str_of_value rep v)])"
    by (simp add: x dput_new)
  also have "\<dots> = (e' @ [(k, str_of_value rep v)]) @ map (\<lambda>(k, v). (k, str_of_value rep v)) d"
    by (rule Cons.IH [where e = "e @ [x]"]) (use Cons.prems in \<open>auto simp: x\<close>)
  finally show ?case by (simp add: x)
qed simp

lemma write_map_distinct: "distinct (dkeys d) \<Longrightarrow> write_map rep d = map (\<lambda>(k, v). (k, str_of_value rep v)) d"
  using write_map_onto [of "[]" "[]" d rep] by (simp add: write_map_def)

lemma dkeys_parse [simp]: "dkeys (parse_message_metadata d) = dkeys d"
  by (induction d) (auto simp: parse_message_metadata_def)

text \<open>Values that went through the parser come out of the writer as the parser reads them.\<close>

lemma metadata_roundtrip:
  "parse_message_metadata (map (\<lambda>(k, v). (k, str_of_value rep v)) (parse_message_metadata d)) = parse_message_metadata d"
proof (induction d)
  case (Cons x d)
  have "py_lower ''True'' = ''true''" "py_lower ''False'' = ''false''" by code_simp+
  then show ?case
    using Cons by (auto simp: parse_message_metadata_def str_of_value_def split: prod.split)
qed (simp add: parse_message_metadata_def)

lemma identity_roundtrip:
  assumes "parse_identity_proto x = Inr (Some i)" and "distinct (dkeys (snd (snd (snd x))))"
  shows "parse_identity_proto (build_identity_frame rep (sub_dict (Some (dump_identity i)))) = Inr (Some i)"
proof -
  obtain prov subj nm meta where x: "x = (prov, subj, nm, meta)" by (metis surj_pair)
  have k: "dkeys (map (\<lambda>(k, v). (k, PStr v)) meta) = dkeys meta" by (induction meta) auto
  have m: "map (\<lambda>(k, v). (k, PStr v)) (map (\<lambda>(k, v). (k, str_of_value rep v)) (map (\<lambda>(k, v). (k, PStr v)) meta)) =
      map (\<lambda>(k, v). (k, PStr v)) meta"
    by (induction meta) (auto simp: str_of_value_def)
  have w: "write_map rep (map (\<lambda>(k, v). (k, PStr v)) meta) = map (\<lambda>(k, v). (k, str_of_value rep v)) (map (\<lambda>(k, v). (k, PStr v)) meta)"
    using assms(2) by (intro write_map_distinct) (simp only: k x snd_conv)
  show ?thesis
    using assms(1) unfolding x
    by (auto simp: parse_identity_proto_def build_identity_frame_def dump_identity_def sub_dict_def dget_or_def w m str_of_value_def
        split: if_splits)
qed

lemma number_roundtrip:
  "parse_direction (direction_number (direction_value dir)) = Some dir"
  "parse_stream_state n = s \<Longrightarrow> parse_stream_state (state_number (case s of None \<Rightarrow> [] | Some t \<Rightarrow> t)) = s"
  by (cases dir) (auto simp: parse_direction_def direction_number_def parse_stream_state_def state_number_def split: if_splits)

section \<open>Claims\<close>


definition demo_relayed :: proto_message where
  "demo_relayed = \<lparr>pm_id = ''m1'', pm_correlation_id = [], pm_target_role = ''discord'', pm_account_id = ''ann'', pm_direction = 1,
     pm_msg_type = ''chat'', pm_content = ''hello'', pm_state = 0, pm_metadata = [(''loud'', ''TRUE''), (''tone'', ''soft'')],
     pm_speaker = (''discord'', ''42'', [], [(''nick'', ''Ann'')]), pm_room_id = ''den''\<rparr>"


text \<open>
  A message that calls itself a command reaches the other client as the output of a command of the
  assistant, without room, speaker and sender.
\<close>

lemma command_message_spoofs_output:
  assumes "mg_msg_type m = ''command''"
  shows "send_frame rep (dump_wire json fresh (WMessage m)) = OutCommand
    \<lparr>fc_id = mg_id m, fc_correlation_id = (case mg_correlation_id m of None \<Rightarrow> [] | Some c \<Rightarrow> c), fc_session_id = mg_session_id m,
     fc_msg_type = ''command'', fc_content = mg_content m, fc_state = (case mg_state m of None \<Rightarrow> [] | Some t \<Rightarrow> t)\<rparr>"
  using assms by (simp add: send_frame_def dump_wire_def build_command_frame_def)
    (simp add: frame_text_def dump_message_def opt_text_def split: option.split)

text \<open>The frames of the three kinds of notice.\<close>

lemma notice_frames:
  "cr_action r \<noteq> [] \<Longrightarrow> \<exists>f. send_frame rep (dump_wire json fresh (WReply r)) = OutControl f \<and> pc_action f = cr_action r"
  "pr_action p \<noteq> [] \<Longrightarrow> \<exists>f. send_frame rep (dump_wire json fresh (WPresence p)) = OutControl f \<and>
    pc_account_id f = pr_account_id p \<and> pc_room_id f = pr_room_id p"
  "\<exists>f. send_frame rep (dump_wire json fresh (WCommand c)) = OutCommand f \<and> fc_content f = co_content c"
  by (auto simp: send_frame_def dump_wire_def dump_reply_def dump_presence_def dump_control_def dump_command_def frame_text_def
      build_control_frame_def build_command_frame_def py_truthy_def)

end
