(* ===== verification/Json_Store.thy ===== *)
theory Json_Store
  imports Iris_Interfaces
begin

text \<open>
  The JSON lines files of the memory layer (\<open>iris/memory/base.py\<close>).

  A store keeps the text of its file (or no file) and the list read from it, if one is cached. The JSON encoder
  and parser are the library orjson: parameters \<open>dump\<close> and \<open>parse\<close>, where \<open>parse\<close>
  returns \<open>None\<close> for a line that does not parse. \<open>codec_ok\<close> states what the code relies on: an
  encoded entry is read back as itself, is not blank and has no character at which \<open>str.splitlines\<close>
  ends a line. The last part is not true of every entry: see \<open>unsafe_entry_lost\<close>.
\<close>

section \<open>Lines\<close>

text \<open>\<open>str.splitlines\<close> on Latin-1: a line ends at line feed, vertical tab, form feed, carriage return (with
  a following line feed), the separators 28 to 30 and NEL.\<close>

definition line_break :: "char \<Rightarrow> bool" where
  "line_break c \<longleftrightarrow> (of_char c :: nat) \<in> {10, 11, 12, 13, 28, 29, 30, 133}"

function split_lines :: "string \<Rightarrow> string list" where
  "split_lines [] = []"
| "split_lines (c # cs) =
    (if line_break c
     then [] # split_lines (if c = CHR 0x0D \<and> cs \<noteq> [] \<and> hd cs = CHR 0x0A then tl cs else cs)
     else case split_lines cs of [] \<Rightarrow> [[c]] | l # ls \<Rightarrow> (c # l) # ls)"
  by pat_completeness auto
termination by (relation "measure length") auto

fun join_lines :: "string list \<Rightarrow> string" where
  "join_lines [] = []"
| "join_lines [l] = l"
| "join_lines (l # ls) = l @ CHR 0x0A # join_lines ls"

lemma line_break_LF [simp]: "line_break (CHR 0x0A)"
  by (simp add: line_break_def)

lemma split_lines_LF [simp]: "split_lines (CHR 0x0A # cs) = [] # split_lines cs"
  by simp

lemma split_lines_append_LF:
  "\<forall>c \<in> set l. \<not> line_break c \<Longrightarrow> split_lines (l @ CHR 0x0A # cs) = l # split_lines cs"
proof (induction l)
  case Nil
  then show ?case by simp
next
  case (Cons c l)
  then have "split_lines (l @ CHR 0x0A # cs) = l # split_lines cs"
    by simp
  with Cons.prems show ?case by simp
qed

lemma split_lines_single:
  "\<forall>c \<in> set l. \<not> line_break c \<Longrightarrow> split_lines l = (if l = [] then [] else [l])"
  by (induction l) auto

lemma split_join_lines:
  "\<forall>l \<in> set ls. l \<noteq> [] \<and> (\<forall>c \<in> set l. \<not> line_break c) \<Longrightarrow> split_lines (join_lines ls) = ls"
proof (induction ls rule: join_lines.induct)
  case (3 l l' ls)
  have "split_lines (l @ CHR 0x0A # join_lines (l' # ls)) = l # split_lines (join_lines (l' # ls))"
    using "3.prems" by (intro split_lines_append_LF) simp
  then show ?case
    using 3 by simp
qed (simp_all add: split_lines_single)

section \<open>The store\<close>

record 'a jsonl =
  js_file :: "string option"
  js_cache :: "'a list option"

definition new_jsonl :: "string option \<Rightarrow> 'a jsonl" where
  "new_jsonl file = \<lparr>js_file = file, js_cache = None\<rparr>"

definition blank :: "string \<Rightarrow> bool" where
  "blank l \<longleftrightarrow> py_strip l = []"

definition read_lines :: "(string \<Rightarrow> 'a option) \<Rightarrow> string \<Rightarrow> 'a list" where
  "read_lines parse txt' = List.map_filter parse (filter (\<lambda>l. \<not> blank l) (split_lines txt'))"

definition load_all :: "(string \<Rightarrow> 'a option) \<Rightarrow> 'a jsonl \<Rightarrow> 'a list \<times> 'a jsonl" where
  "load_all parse s =
    (case js_cache s of
       Some es \<Rightarrow> (es, s)
     | None \<Rightarrow> (case js_file s of
         None \<Rightarrow> ([], s\<lparr>js_cache := Some []\<rparr>)
       | Some txt' \<Rightarrow> (read_lines parse txt', s\<lparr>js_cache := Some (read_lines parse txt')\<rparr>)))"

definition store_flush :: "('a \<Rightarrow> string) \<Rightarrow> 'a jsonl \<Rightarrow> 'a jsonl" where
  "store_flush dump s =
    (case js_cache s of
       None \<Rightarrow> s
     | Some es \<Rightarrow> s\<lparr>js_file := Some (join_lines (map dump es)), js_cache := None\<rparr>)"

definition keep_last :: "nat \<Rightarrow> 'a list \<Rightarrow> 'a list" where
  "keep_last n es = (if n < length es then slice_last (int n) es else es)"

definition add_entry :: "('a \<Rightarrow> string) \<Rightarrow> (string \<Rightarrow> 'a option) \<Rightarrow> nat \<Rightarrow> 'a \<Rightarrow> 'a jsonl \<Rightarrow> 'a jsonl" where
  "add_entry dump parse n e s =
    (case load_all parse s of (es, s1) \<Rightarrow> store_flush dump (s1\<lparr>js_cache := Some (keep_last n (es @ [e]))\<rparr>))"

section \<open>Stores indexed by an id\<close>

text \<open>The look-ups and changes on the loaded list, and the file operations around them. \<open>key\<close> is the
  \<open>id\<close> of an entry and \<open>f\<close> the change of its fields.\<close>

definition id_find :: "('a \<Rightarrow> string) \<Rightarrow> string \<Rightarrow> 'a list \<Rightarrow> 'a option" where
  "id_find key i es = find (\<lambda>e. key e = i) es"

definition id_update :: "('a \<Rightarrow> string) \<Rightarrow> string \<Rightarrow> ('a \<Rightarrow> 'a) \<Rightarrow> 'a list \<Rightarrow> 'a option \<times> 'a list" where
  "id_update key i f es =
    (case id_find key i es of None \<Rightarrow> (None, es) | Some e \<Rightarrow> (Some (f e), upd_first (\<lambda>e. key e = i) f es))"

definition js_add :: "('a \<Rightarrow> string) \<Rightarrow> (string \<Rightarrow> 'a option) \<Rightarrow> 'a \<Rightarrow> 'a jsonl \<Rightarrow> 'a jsonl" where
  "js_add dump parse e s = (case load_all parse s of (es, s1) \<Rightarrow> store_flush dump (s1\<lparr>js_cache := Some (es @ [e])\<rparr>))"

definition js_update :: "('a \<Rightarrow> string) \<Rightarrow> (string \<Rightarrow> 'a option) \<Rightarrow> ('a \<Rightarrow> string) \<Rightarrow> string \<Rightarrow> ('a \<Rightarrow> 'a) \<Rightarrow>
    'a jsonl \<Rightarrow> 'a option \<times> 'a jsonl" where
  "js_update dump parse key i f s =
    (case load_all parse s of (es, s1) \<Rightarrow>
       (case id_update key i f es of
          (None, _) \<Rightarrow> (None, s1)
        | (Some e, es') \<Rightarrow> (Some e, store_flush dump (s1\<lparr>js_cache := Some es'\<rparr>))))"

definition js_find :: "(string \<Rightarrow> 'a option) \<Rightarrow> ('a \<Rightarrow> string) \<Rightarrow> string \<Rightarrow> 'a jsonl \<Rightarrow> 'a option \<times> 'a jsonl" where
  "js_find parse key i s = (case load_all parse s of (es, s1) \<Rightarrow> (id_find key i es, s1))"

definition id_put :: "('a \<Rightarrow> string) \<Rightarrow> 'a \<Rightarrow> 'a list \<Rightarrow> 'a list" where
  "id_put key e es = snd (id_update key (key e) (\<lambda>_. e) es)"

section \<open>The contents of a store\<close>

definition contents :: "(string \<Rightarrow> 'a option) \<Rightarrow> 'a jsonl \<Rightarrow> 'a list" where
  "contents parse s = fst (load_all parse s)"

definition codec_ok :: "('a \<Rightarrow> string) \<Rightarrow> (string \<Rightarrow> 'a option) \<Rightarrow> bool" where
  "codec_ok dump parse \<longleftrightarrow>
    (\<forall>e. parse (dump e) = Some e \<and> \<not> blank (dump e) \<and> (\<forall>c \<in> set (dump e). \<not> line_break c))"

lemma blank_Nil [simp]: "blank []"
  by (simp add: blank_def py_strip_def)

lemma read_written:
  assumes "codec_ok dump parse"
  shows "read_lines parse (join_lines (map dump es)) = es"
proof -
  have "split_lines (join_lines (map dump es)) = map dump es"
    using assms by (intro split_join_lines) (metis blank_Nil codec_ok_def imageE list.set_map)
  moreover have "filter (\<lambda>l. \<not> blank l) (map dump es) = map dump es"
    using assms by (auto simp: codec_ok_def filter_id_conv)
  moreover have "List.map_filter parse (map dump es) = es"
    using assms by (induction es) (auto simp: codec_ok_def List.map_filter_simps)
  ultimately show ?thesis
    by (simp add: read_lines_def)
qed

lemma contents_load: "contents parse (snd (load_all parse s)) = contents parse s"
  by (auto simp: contents_def load_all_def split: option.splits)

lemma contents_flush:
  "codec_ok dump parse \<Longrightarrow> contents parse (store_flush dump (s\<lparr>js_cache := Some es\<rparr>)) = es"
  by (simp add: contents_def store_flush_def load_all_def read_written)

lemma contents_add_entry:
  "codec_ok dump parse \<Longrightarrow> contents parse (add_entry dump parse n e s) = keep_last n (contents parse s @ [e])"
  unfolding add_entry_def by (cases "load_all parse s") (simp add: contents_flush, simp add: contents_def)

lemma contents_js_add: "codec_ok dump parse \<Longrightarrow> contents parse (js_add dump parse e s) = contents parse s @ [e]"
  unfolding js_add_def by (cases "load_all parse s") (simp add: contents_flush, simp add: contents_def)

lemma contents_js_update:
  assumes "codec_ok dump parse"
  shows "fst (js_update dump parse key i f s) = fst (id_update key i f (contents parse s))"
    and "contents parse (snd (js_update dump parse key i f s)) = snd (id_update key i f (contents parse s))"
proof -
  obtain es s1 where l: "load_all parse s = (es, s1)"
    by (cases "load_all parse s")
  then have es: "contents parse s = es"
    by (simp add: contents_def)
  have s1: "contents parse s1 = es"
    using contents_load [of parse s] by (simp add: l es)
  show "fst (js_update dump parse key i f s) = fst (id_update key i f (contents parse s))"
    by (simp add: js_update_def l es split: prod.split option.split)
  show "contents parse (snd (js_update dump parse key i f s)) = snd (id_update key i f (contents parse s))"
    using s1 by (auto simp: js_update_def l es contents_flush [OF assms] id_update_def split: option.split)
qed

lemma id_put_upd: "id_put key e es = upd_first (\<lambda>x. key x = key e) (\<lambda>_. e) es"
proof (cases "find (\<lambda>x. key x = key e) es")
  case None
  then have "upd_first (\<lambda>x. key x = key e) (\<lambda>_. e) es = es"
    by (intro upd_first_no_match) (auto simp: find_None_iff')
  with None show ?thesis
    by (simp add: id_put_def id_update_def id_find_def)
qed (simp add: id_put_def id_update_def id_find_def)

interpretation id_store: record_store "\<lambda>es. es" key "\<lambda>r es. es @ [r]" "id_find key" "id_put key"
  for key :: "'a \<Rightarrow> string"
  by unfold_locales (auto simp: id_find_def id_put_upd)

lemma keep_last_lastn: "0 < n \<Longrightarrow> keep_last n es = lastn n es"
  by (simp add: keep_last_def slice_last_def)

lemma keep_last_0: "keep_last 0 es = es"
  by (simp add: keep_last_def slice_last_def)

section \<open>Entries that do not survive the file\<close>

lemma map_filter_append: "List.map_filter f (xs @ ys) = List.map_filter f xs @ List.map_filter f ys"
  by (induction xs) (auto simp: List.map_filter_simps split: option.split)

lemma split_lines_append_break:
  "\<forall>c \<in> set l. \<not> line_break c \<Longrightarrow> line_break b \<Longrightarrow> b \<noteq> CHR 0x0D \<Longrightarrow> split_lines (l @ b # cs) = l # split_lines cs"
proof (induction l)
  case (Cons c l)
  then have "split_lines (l @ b # cs) = l # split_lines cs"
    by simp
  with Cons.prems show ?case by simp
qed simp


lemma reopened:
  "js_cache (add_entry dump parse n e s) = None"
  by (simp add: add_entry_def store_flush_def split: prod.split)

lemma fold_add_entry:
  "codec_ok dump parse \<Longrightarrow> 0 < n \<Longrightarrow> length (contents parse s) \<le> n \<Longrightarrow>
    contents parse (fold (add_entry dump parse n) es s) = lastn n (contents parse s @ es)"
proof (induction es arbitrary: s)
  case (Cons e es)
  have "contents parse (add_entry dump parse n e s) = lastn n (contents parse s @ [e])"
    using Cons.prems by (simp add: contents_add_entry keep_last_lastn)
  with Cons show ?case
    by (simp add: lastn_append_lastn)
qed simp

lemma fold_add_entry_unbounded:
  "codec_ok dump parse \<Longrightarrow> contents parse (fold (add_entry dump parse 0) es s) = contents parse s @ es"
  by (induction es arbitrary: s) (simp_all add: contents_add_entry keep_last_0)

lemma cache_after_adds:
  "js_cache s = None \<Longrightarrow> js_cache (fold (add_entry dump parse n) es s) = None"
  by (induction es arbitrary: s) (simp_all add: reopened)

lemma reopen: "js_cache s = None \<Longrightarrow> contents parse (new_jsonl (js_file s)) = contents parse s"
  by (cases s) (simp add: new_jsonl_def contents_def load_all_def)

text \<open>C31: A JSON lines store of at most \<open>n\<close> entries refines the abstract log of the last \<open>n\<close>
  entries, and it survives a restart: when the encoder and the parser are inverse to each other and no encoded entry
  contains a line break, a store opened on the file that any sequence of additions to a fresh store has left holds
  exactly the last \<open>n\<close> of the added entries, in order - and all of them for the limit 0, because
  the slice of the last 0 entries is the whole list.\<close>
theorem store_survives_restart:
  assumes "codec_ok dump parse"
  shows "contents parse (new_jsonl (js_file (fold (add_entry dump parse n) es (new_jsonl None)))) =
    (if n = 0 then es else lastn n es)"
proof -
  have i: "js_cache (new_jsonl None) = None" "contents parse (new_jsonl None) = []"
    by (simp_all add: new_jsonl_def contents_def load_all_def)
  have "contents parse (fold (add_entry dump parse n) es (new_jsonl None)) = (if n = 0 then es else lastn n es)"
    using fold_add_entry [OF assms, of n "new_jsonl None" es] fold_add_entry_unbounded [OF assms, of es "new_jsonl None"] i
    by simp
  then show ?thesis
    by (subst reopen [OF cache_after_adds [OF i(1)]])
qed

definition demo_dump :: "bool \<Rightarrow> string" where
  "demo_dump b = (if b then ''true'' else ''false'')"

definition demo_parse :: "string \<Rightarrow> bool option" where
  "demo_parse l = (if l = ''true'' then Some True else if l = ''false'' then Some False else None)"

lemma demo_codec: "codec_ok demo_dump demo_parse"
proof -
  have "demo_parse (demo_dump b) = Some b \<and> \<not> blank (demo_dump b) \<and> (\<forall>c \<in> set (demo_dump b). \<not> line_break c)" for b
    by (cases b) (simp_all add: demo_parse_def demo_dump_def blank_def py_strip_def py_space_def line_break_def)
  then show ?thesis
    by (simp add: codec_ok_def)
qed

lemma store_survives_restart_witness:
  "contents demo_parse (new_jsonl (js_file (fold (add_entry demo_dump demo_parse 2) [True, False, True] (new_jsonl None)))) =
    [False, True]"
  using store_survives_restart [OF demo_codec, of 2 "[True, False, True]"] by (simp add: lastn_def)

text \<open>An entry whose encoding contains a line break that JSON does not escape (NEL, and likewise the Unicode line
  and paragraph separators) is lost by the write: the file is read back with \<open>str.splitlines\<close>, the two
  halves do not parse and are skipped as corrupt, and the store is empty again after the addition.\<close>
theorem unsafe_entry_lost:
  assumes "dump e = l @ CHR 0x85 # r" and "\<forall>c \<in> set (l @ r). \<not> line_break c"
    and "parse l = None" and "parse r = None"
  shows "contents parse (js_add dump parse e (new_jsonl None)) = []"
proof -
  have "line_break (CHR 0x85)"
    by (simp add: line_break_def)
  then have "split_lines (dump e) = l # (if r = [] then [] else [r])"
    using assms(2) split_lines_append_break [of l "CHR 0x85" r] split_lines_single [of r]
    unfolding assms(1) by simp
  with assms(3,4) show ?thesis
    by (simp add: js_add_def new_jsonl_def load_all_def store_flush_def contents_def read_lines_def List.map_filter_simps)
qed

end
