(* ===== verification/Working_Memory.thy ===== *)
theory Working_Memory
  imports Gateway
begin

text \<open>
  The fast memories (\<open>iris/memory/short_term\<close> and \<open>iris/memory/sensory\<close>): the turns, topics
  and references of the current conversation, who is present where, and the buffers that collect an
  input before it is published.

  The importance scorer, the entity extractor and the words of a regular expression are
  parameters. Timers are not modelled; what a timer does when it fires is the operation
  \<open>sm_flush\<close>, and which rooms have a timer running is kept. The flush callback's calls are
  appended to \<open>se_flushed\<close>, published events to \<open>se_out\<close>.
\<close>

section \<open>Content blocks\<close>

record content_block =
  cb_type :: "string option"
  cb_text :: "string option"
  cb_extra :: "(string, pyobj) dict"

definition block_text :: "content_block \<Rightarrow> string" where
  "block_text b = (case cb_text b of None \<Rightarrow> [] | Some t \<Rightarrow> t)"

definition text_block :: "string \<Rightarrow> content_block" where
  "text_block t = \<lparr>cb_type = Some ''text'', cb_text = Some t, cb_extra = []\<rparr>"

definition blocks_text :: "content_block list \<Rightarrow> string" where
  "blocks_text bs = concat (map block_text bs)"

text \<open>\<open>avail\<close> is what the blocks before have left of the limit.\<close>

fun truncate_blocks :: "nat \<Rightarrow> content_block list \<Rightarrow> content_block list" where
  "truncate_blocks avail [] = []"
| "truncate_blocks avail (b # bs) =
    (if avail = 0 then []
     else if length (block_text b) \<le> avail then b # truncate_blocks (avail - length (block_text b)) bs
     else [\<lparr>cb_type = Some (case cb_type b of None \<Rightarrow> ''text'' | Some t \<Rightarrow> t), cb_text = Some (take avail (block_text b)), cb_extra = []\<rparr>])"

definition MAX_TURN_LENGTH :: nat where
  "MAX_TURN_LENGTH = 500"

section \<open>Short-term memory\<close>

record turn =
  tu_role :: string
  tu_blocks :: "content_block list"
  tu_timestamp :: string
  tu_consolidated :: bool
  tu_importance :: int
  tu_account :: string
  tu_room :: string

record short_term =
  st_turns :: "turn list"
  st_topics :: "string list"
  st_references :: "string list"
  st_max_turns :: nat
  st_max_topics :: nat
  st_users :: "(string, string) dict"
  st_room_users :: "(string, string list) dict"

definition new_short_term :: "nat \<Rightarrow> nat \<Rightarrow> short_term" where
  "new_short_term n k = \<lparr>st_turns = [], st_topics = [], st_references = [], st_max_turns = n, st_max_topics = k,
     st_users = [], st_room_users = []\<rparr>"

definition push_turn :: "turn \<Rightarrow> short_term \<Rightarrow> short_term" where
  "push_turn t s = (let ts = st_turns s @ [t] in s\<lparr>st_turns := (if st_max_turns s < length ts then tl ts else ts)\<rparr>)"

definition append_turn :: "string \<Rightarrow> string \<Rightarrow> content_block list \<Rightarrow> int \<Rightarrow> string \<Rightarrow> string \<Rightarrow> short_term \<Rightarrow> short_term" where
  "append_turn now role bs importance account room s = push_turn
     \<lparr>tu_role = role, tu_blocks = truncate_blocks MAX_TURN_LENGTH bs, tu_timestamp = now, tu_consolidated = False,
      tu_importance = importance, tu_account = account, tu_room = room\<rparr> s"

definition in_scope :: "string \<Rightarrow> string \<Rightarrow> turn \<Rightarrow> bool" where
  "in_scope room account t \<longleftrightarrow> (account \<noteq> [] \<longrightarrow> tu_account t = account) \<and> (room \<noteq> [] \<longrightarrow> tu_room t = room)"

definition scope_turns :: "string \<Rightarrow> string \<Rightarrow> short_term \<Rightarrow> turn list" where
  "scope_turns room account s = filter (in_scope room account) (st_turns s)"

definition get_recent_turns :: "int \<Rightarrow> string \<Rightarrow> string \<Rightarrow> short_term \<Rightarrow> turn list" where
  "get_recent_turns n room account s = slice_last n (scope_turns room account s)"

definition get_unconsolidated_turns :: "string \<Rightarrow> string \<Rightarrow> short_term \<Rightarrow> turn list" where
  "get_unconsolidated_turns room account s = filter (\<lambda>t. \<not> tu_consolidated t) (scope_turns room account s)"

definition mark_consolidated :: "string \<Rightarrow> string \<Rightarrow> short_term \<Rightarrow> short_term" where
  "mark_consolidated room account s =
    s\<lparr>st_turns := map (\<lambda>t. if in_scope room account t then t\<lparr>tu_consolidated := True\<rparr> else t) (st_turns s)\<rparr>"

definition should_consolidate :: "string \<Rightarrow> string \<Rightarrow> short_term \<Rightarrow> bool" where
  "should_consolidate room account s \<longleftrightarrow>
     min (st_max_turns s) (max 3 (st_max_turns s div 2)) \<le> length (scope_turns room account s)"

definition add_topic :: "string \<Rightarrow> short_term \<Rightarrow> short_term" where
  "add_topic topic s =
    (let ts = (if topic \<in> set (st_topics s) then st_topics s else st_topics s @ [topic])
     in s\<lparr>st_topics := (if st_max_topics s < length ts then slice_last (int (st_max_topics s)) ts else ts)\<rparr>)"

definition add_reference :: "string \<Rightarrow> short_term \<Rightarrow> short_term" where
  "add_reference r s = s\<lparr>st_references := List.insert r (st_references s)\<rparr>"

text \<open>Sentences end at a full stop, exclamation or question mark; the ideographic ones are outside
  the characters modelled.\<close>

fun split_sentences :: "string \<Rightarrow> string list" where
  "split_sentences [] = [[]]"
| "split_sentences (x # xs) =
    (if x \<in> {CHR ''.'', CHR ''!'', CHR ''?''} then [] # split_sentences xs
     else case split_sentences xs of [] \<Rightarrow> [[x]] | w # ws \<Rightarrow> (x # w) # ws)"

definition extract_topics :: "string \<Rightarrow> short_term \<Rightarrow> short_term" where
  "extract_topics content s =
    fold (\<lambda>x s. let t = py_strip x
                in if 5 < length t \<and> length t < 80 \<and> t \<notin> set (st_topics s) then add_topic t s else s)
      (take 2 (split_sentences content)) s"

definition extract_references :: "(string \<Rightarrow> string list) \<Rightarrow> string \<Rightarrow> short_term \<Rightarrow> short_term" where
  "extract_references entities content s = fold add_reference (entities content) s"

definition add_turn :: "(string \<Rightarrow> int) \<Rightarrow> (string \<Rightarrow> string list) \<Rightarrow> string \<Rightarrow> string \<Rightarrow> content_block list \<Rightarrow> string \<Rightarrow> string \<Rightarrow>
    short_term \<Rightarrow> short_term" where
  "add_turn score entities now role bs account room s =
    (if bs = [] then s
     else let t = blocks_text bs
          in extract_topics t (extract_references entities t (append_turn now role bs (score t) account room s)))"

definition clear_short_term :: "short_term \<Rightarrow> short_term" where
  "clear_short_term s = s\<lparr>st_turns := [], st_topics := [], st_references := [], st_users := [], st_room_users := []\<rparr>"

interpretation turns: bounded_log st_turns push_turn st_max_turns
proof unfold_locales
  fix s :: short_term and x :: turn
  assume "length (st_turns s) \<le> st_max_turns s"
  then show "st_turns (push_turn x s) = lastn (st_max_turns s) (st_turns s @ [x])"
    using lastn_tl [of "st_turns s @ [x]" "st_max_turns s"] by (auto simp: push_turn_def Let_def not_less)
qed (simp add: push_turn_def Let_def)

section \<open>Searching the turns\<close>

definition is_infix :: "string \<Rightarrow> string \<Rightarrow> bool" where
  "is_infix p s \<longleftrightarrow> (\<exists>i \<in> set [0..<Suc (length s)]. take (length p) (drop i s) = p)"

definition compute_relevance :: "(string \<Rightarrow> string list) \<Rightarrow> string \<Rightarrow> turn \<Rightarrow> real" where
  "compute_relevance words query t =
    (let txt' = blocks_text (tu_blocks t); q = set (words (py_lower query)); w = set (words (py_lower txt'))
     in if query = [] \<or> txt' = [] \<or> q = {} \<or> w = {} then 0 else real (card (q \<inter> w)) / real (card q))"

record search_hit =
  sh_turn :: turn
  sh_relevance :: real
  sh_index :: nat

definition hits_of :: "(string \<Rightarrow> string list) \<Rightarrow> string \<Rightarrow> turn list \<Rightarrow> search_hit list" where
  "hits_of words query ts =
    List.map_filter (\<lambda>(i, t).
      let r = compute_relevance words query t
      in if r = 0 \<and> \<not> is_infix (py_lower query) (py_lower (blocks_text (tu_blocks t))) then None
         else Some \<lparr>sh_turn = t, sh_relevance = (if 0 < r then r else 0.01), sh_index = i\<rparr>)
      (zip [0..<length ts] ts)"

text \<open>The sort by descending relevance, importance and index, as three stable sorts.\<close>

definition search_turns :: "(string \<Rightarrow> string list) \<Rightarrow> string \<Rightarrow> nat \<Rightarrow> string \<Rightarrow> string \<Rightarrow> short_term \<Rightarrow> search_hit list" where
  "search_turns words query n room account s =
    (if query = [] then []
     else take n (sort_key (\<lambda>h. - sh_relevance h) (sort_key (\<lambda>h. - tu_importance (sh_turn h))
            (sort_key (\<lambda>h. - int (sh_index h)) (hits_of words query (scope_turns room account s))))))"

definition search_entities :: "string \<Rightarrow> short_term \<Rightarrow> turn list" where
  "search_entities name s =
    slice_last 5 (filter (\<lambda>t. is_infix (py_strip (py_lower name)) (py_lower (blocks_text (tu_blocks t)))) (st_turns s))"

section \<open>Presence\<close>

definition add_user :: "string \<Rightarrow> string \<Rightarrow> string \<Rightarrow> short_term \<Rightarrow> short_term" where
  "add_user account name room s =
    (let s1 = s\<lparr>st_users := dput account name (st_users s)\<rparr>; us = dget_or (st_room_users s) room []
     in if room = [] then s1
        else s1\<lparr>st_room_users := dput room (if account \<in> set us then us else us @ [account]) (st_room_users s)\<rparr>)"

definition remove_user :: "string \<Rightarrow> string \<Rightarrow> short_term \<Rightarrow> short_term" where
  "remove_user account room s =
    (let ru = (if room \<noteq> [] then map (\<lambda>(r, us). (r, if r = room then remove1 account us else us)) (st_room_users s)
               else map (\<lambda>(r, us). (r, removeAll account us)) (st_room_users s))
     in s\<lparr>st_room_users := ru,
          st_users := (if \<exists>us \<in> set (dvalues ru). account \<in> set us then st_users s else ddel account (st_users s))\<rparr>)"

definition get_users_by_room :: "string \<Rightarrow> short_term \<Rightarrow> (string \<times> string) list" where
  "get_users_by_room room s =
    List.map_filter (\<lambda>u. map_option (\<lambda>n. (u, n)) (dget (st_users s) u)) (dget_or (st_room_users s) room [])"

fun presence_event :: "room_event \<Rightarrow> short_term \<Rightarrow> short_term" where
  "presence_event (RoomJoined j) s = add_user (jo_account j) (jo_display_name j) (jo_room j) s"
| "presence_event (RoomJoinedBatch rid js n) s = fold (\<lambda>j. add_user (jo_account j) (jo_display_name j) (jo_room j)) js s"
| "presence_event (RoomLeft rid aid nm) s = remove_user aid rid s"
| "presence_event _ s = s"

section \<open>Sensory memory\<close>

record raw_input =
  ri_block :: content_block
  ri_room_id :: string
  ri_account :: string
  ri_session :: string
  ri_timestamp :: string

record pending_entry =
  pe_content :: string
  pe_account :: string
  pe_room :: string

datatype sensory_event = InterruptEvent string | SensedInput input_ready

record sensory =
  se_raw :: "(string, raw_input) dict"
  se_fragments :: "(string, content_block list) dict"
  se_pending :: "(string \<times> string, pending_entry list) dict"
  se_timers :: "string list"
  se_timeout_ms :: int
  se_max_fragments :: nat
  se_closed :: bool
  se_callback :: bool
  se_flushed :: "(string \<times> content_block list) list"
  se_out :: "sensory_event list"

definition new_sensory :: "int \<Rightarrow> nat \<Rightarrow> sensory" where
  "new_sensory timeout n = \<lparr>se_raw = [], se_fragments = [], se_pending = [], se_timers = [], se_timeout_ms = timeout,
     se_max_fragments = n, se_closed = False, se_callback = False, se_flushed = [], se_out = []\<rparr>"

definition store_raw_block :: "string \<Rightarrow> content_block \<Rightarrow> string \<Rightarrow> string \<Rightarrow> string \<Rightarrow> sensory \<Rightarrow> sensory" where
  "store_raw_block now b room account session s = s\<lparr>se_raw := dput room
     \<lparr>ri_block = b, ri_room_id = room, ri_account = account, ri_session = session, ri_timestamp = now\<rparr> (se_raw s)\<rparr>"

definition take_raw :: "string \<Rightarrow> sensory \<Rightarrow> raw_input option \<times> sensory" where
  "take_raw room s = (dget (se_raw s) room, s\<lparr>se_raw := ddel room (se_raw s)\<rparr>)"

definition fragments_of :: "string \<Rightarrow> sensory \<Rightarrow> content_block list" where
  "fragments_of room s = dget_or (se_fragments s) room []"

definition take_fragments :: "string \<Rightarrow> sensory \<Rightarrow> content_block list \<times> sensory" where
  "take_fragments room s = (fragments_of room s, s\<lparr>se_fragments := ddel room (se_fragments s)\<rparr>)"

definition store_clear :: "string option \<Rightarrow> sensory \<Rightarrow> sensory" where
  "store_clear room s =
    (case room of
       None \<Rightarrow> s\<lparr>se_raw := [], se_fragments := [], se_pending := []\<rparr>
     | Some r \<Rightarrow> s\<lparr>se_raw := ddel r (se_raw s), se_fragments := ddel r (se_fragments s),
         se_pending := filter (\<lambda>p. snd (fst p) \<noteq> r) (se_pending s)\<rparr>)"

definition add_pending_input :: "string \<Rightarrow> string \<Rightarrow> string \<Rightarrow> sensory \<Rightarrow> sensory" where
  "add_pending_input account room content s = s\<lparr>se_pending := dput (account, room)
     [\<lparr>pe_content = content, pe_account = account, pe_room = room\<rparr>] (se_pending s)\<rparr>"

definition clear_pending_input :: "sensory \<Rightarrow> sensory" where
  "clear_pending_input s = s\<lparr>se_pending := []\<rparr>"

definition pending_event :: "pending_entry \<Rightarrow> sensory_event list" where
  "pending_event p = [InterruptEvent (pe_room p), SensedInput \<lparr>ir_session_id = '''', ir_content = pe_content p,
     ir_account_id = pe_account p, ir_room_id = pe_room p, ir_context = Some []\<rparr>]"

definition flush_pending :: "sensory \<Rightarrow> bool \<times> sensory" where
  "flush_pending s =
    (se_pending s \<noteq> [],
     s\<lparr>se_pending := [], se_out := se_out s @ concat (map pending_event (concat (dvalues (se_pending s))))\<rparr>)"

definition cancel_timer :: "string \<Rightarrow> sensory \<Rightarrow> sensory" where
  "cancel_timer room s = s\<lparr>se_timers := removeAll room (se_timers s)\<rparr>"

definition sm_flush :: "string \<Rightarrow> sensory \<Rightarrow> sensory" where
  "sm_flush room s =
    (case take_fragments room (cancel_timer room s) of
       (bs, s1) \<Rightarrow> if bs \<noteq> [] \<and> se_callback s1 then s1\<lparr>se_flushed := se_flushed s1 @ [(room, bs)]\<rparr> else s1)"

definition reset_timer :: "string \<Rightarrow> sensory \<Rightarrow> sensory" where
  "reset_timer room s =
    (let s1 = cancel_timer room s
     in if se_closed s1 \<or> se_timeout_ms s1 \<le> 0 then s1 else s1\<lparr>se_timers := se_timers s1 @ [room]\<rparr>)"

text \<open>\<open>ready\<close> is the readiness evaluator, when one is set, on the texts of the fragments.\<close>

definition add_fragment_block :: "(string list \<Rightarrow> bool) option \<Rightarrow> content_block \<Rightarrow> bool \<Rightarrow> string \<Rightarrow> sensory \<Rightarrow> sensory" where
  "add_fragment_block ready b final room s =
    (if se_closed s then s
     else let s1 = s\<lparr>se_fragments := dput room (fragments_of room s @ [b]) (se_fragments s)\<rparr>;
              fs = fragments_of room s1;
              texts = map block_text (filter (\<lambda>b. cb_type b = Some ''text'') fs)
          in if se_max_fragments s1 \<le> length fs \<or> final \<or> (case ready of None \<Rightarrow> False | Some f \<Rightarrow> f texts)
             then sm_flush room s1 else reset_timer room s1)"

definition sensory_cancel :: "string option \<Rightarrow> sensory \<Rightarrow> sensory" where
  "sensory_cancel room s =
    (let drop_room = (\<lambda>r s. snd (take_fragments r (cancel_timer r s)));
         s1 = (case room of Some r \<Rightarrow> drop_room r s | None \<Rightarrow> fold drop_room (se_timers s) s)
     in store_clear room s1)"

definition sensory_close :: "sensory \<Rightarrow> sensory" where
  "sensory_close s = store_clear None (fold (\<lambda>r s. snd (take_fragments r (cancel_timer r s))) (se_timers s)
     (s\<lparr>se_closed := True\<rparr>))\<lparr>se_callback := False\<rparr>"

definition store_and_flush_pending_block :: "string \<Rightarrow> content_block \<Rightarrow> string \<Rightarrow> string \<Rightarrow> sensory \<Rightarrow> sensory" where
  "store_and_flush_pending_block now b account room s =
    store_clear (Some room) (snd (flush_pending (add_pending_input account room (block_text b)
      (store_raw_block now b room account '''' s))))"

text \<open>The rule-based readiness. The regular expression accepts a question mark at the end or before a final
  line feed.\<close>

definition ends_in_question :: "string \<Rightarrow> bool" where
  "ends_in_question l \<longleftrightarrow>
    (let e = (if l \<noteq> [] \<and> last l = CHR 0x0A then butlast l else l) in e \<noteq> [] \<and> last e = CHR ''?'')"

definition readiness :: "nat \<Rightarrow> bool \<Rightarrow> real \<Rightarrow> string list \<Rightarrow> bool \<Rightarrow> bool" where
  "readiness min_fragments detect threshold fs final =
    (if final then True
     else if length fs < min_fragments then False
     else let l = (if fs = [] then [] else last fs)
          in threshold \<le> min (0.4 + (if detect \<and> ends_in_question l then 0.4 else 0) +
                              (if \<exists>f \<in> set fs. py_strip f \<noteq> [] then 0.2 else 0)) 1)"

section \<open>The handlers of the sensory memory\<close>

definition sensory_on_message :: "string \<Rightarrow> message_event \<Rightarrow> string \<Rightarrow> sensory \<Rightarrow> sensory" where
  "sensory_on_message now e content s =
    (if content = '''' \<or> mv_direction e \<notin> {''request'', ''event''} \<or> mv_msg_type e \<notin> {''chat'', ''system''} then s
     else add_pending_input (mv_account_id e) (mv_room_id e) content
       (store_raw_block now (text_block content) (mv_room_id e) (mv_account_id e) (mv_session_id e) s))"

definition raw_event :: "raw_input \<Rightarrow> sensory_event list" where
  "raw_event r = [InterruptEvent (ri_room_id r), SensedInput \<lparr>ir_session_id = ri_session r,
     ir_content = (if cb_type (ri_block r) = Some ''text'' then block_text (ri_block r) else ''''),
     ir_account_id = ri_account r, ir_room_id = ri_room_id r, ir_context = Some []\<rparr>]"

text \<open>\<open>rooms\<close> is the set of rooms with a raw input or fragments, in the order Python lists it.\<close>

definition sensory_on_tick :: "string list \<Rightarrow> sensory \<Rightarrow> bool \<times> sensory" where
  "sensory_on_tick rooms s =
    (let s1 = fold (\<lambda>r s. case take_raw r s of (None, s1) \<Rightarrow> s1 | (Some x, s1) \<Rightarrow> s1\<lparr>se_out := se_out s1 @ raw_event x\<rparr>) rooms s
     in if \<exists>r \<in> set rooms. dget (se_raw s) r \<noteq> None then (True, clear_pending_input s1) else flush_pending s1)"

definition system_event_block :: "string \<Rightarrow> string \<Rightarrow> string \<Rightarrow> string \<Rightarrow> string \<Rightarrow> content_block" where
  "system_event_block txt' ty account nm room = \<lparr>cb_type = Some ''system_event'', cb_text = Some txt',
     cb_extra = [(''metadata'', PDict [(''event_type'', PStr ty), (''account_id'', PStr account),
       (''display_name'', PStr nm), (''room_id'', PStr room)])]\<rparr>"

text \<open>\<open>announce joined name others\<close> is the wording of an announcement, where \<open>others\<close> is the
  number of further accounts of a batch.\<close>

fun sensory_room_event :: "(bool \<Rightarrow> string \<Rightarrow> nat \<Rightarrow> string) \<Rightarrow> string \<Rightarrow> room_event \<Rightarrow> sensory \<Rightarrow> sensory" where
  "sensory_room_event announce now (RoomJoined j) s = store_and_flush_pending_block now
     (system_event_block (announce True (jo_display_name j) 0) ''room.joined'' (jo_account j) (jo_display_name j) (jo_room j))
     (jo_account j) (jo_room j) s"
| "sensory_room_event announce now (RoomJoinedBatch rid js n) s =
     (case js of
        [] \<Rightarrow> s
      | j # _ \<Rightarrow> store_and_flush_pending_block now
          (system_event_block (announce True (jo_display_name j) (length js - 1)) ''room.joined'' (jo_account j)
            (jo_display_name j) (jo_room j)) (jo_account j) (jo_room j) s)"
| "sensory_room_event announce now (RoomLeft rid aid nm) s = store_and_flush_pending_block now
     (system_event_block (announce False nm 0) ''room.left'' aid nm rid) aid rid s"
| "sensory_room_event _ _ _ s = s"

section \<open>Truncation and the bounded log of turns\<close>

lemma blocks_text_Cons: "blocks_text (b # bs) = block_text b @ blocks_text bs"
  by (simp add: blocks_text_def)

lemma blocks_text_Nil: "blocks_text [] = []"
  by (simp add: blocks_text_def)

lemma blocks_text_truncate: "blocks_text (truncate_blocks n bs) = take n (blocks_text bs)"
  by (induction n bs rule: truncate_blocks.induct)
    (auto simp: blocks_text_Cons blocks_text_Nil block_text_def split: option.splits)

lemma append_turn_push:
  "append_turn now role bs imp account room s = push_turn
    \<lparr>tu_role = role, tu_blocks = truncate_blocks 500 bs, tu_timestamp = now, tu_consolidated = False,
     tu_importance = imp, tu_account = account, tu_room = room\<rparr> s"
  by (simp add: append_turn_def MAX_TURN_LENGTH_def)

lemma add_topic_turns [simp]: "st_turns (add_topic t s) = st_turns s" "st_max_turns (add_topic t s) = st_max_turns s"
  by (simp_all add: add_topic_def Let_def)

lemma extract_turns [simp]:
  "st_turns (extract_topics c s) = st_turns s" "st_max_turns (extract_topics c s) = st_max_turns s"
  "st_turns (extract_references ent c s) = st_turns s" "st_max_turns (extract_references ent c s) = st_max_turns s"
proof -
  have *: "st_turns (fold (\<lambda>x s. let t = py_strip x in if P t s then add_topic t s else s) xs s) = st_turns s \<and>
      st_max_turns (fold (\<lambda>x s. let t = py_strip x in if P t s then add_topic t s else s) xs s) = st_max_turns s" for xs P s
    by (induction xs arbitrary: s) (auto simp: Let_def)
  have **: "st_turns (fold add_reference xs s) = st_turns s \<and> st_max_turns (fold add_reference xs s) = st_max_turns s" for xs s
    by (induction xs arbitrary: s) (auto simp: add_reference_def)
  show "st_turns (extract_topics c s) = st_turns s" "st_max_turns (extract_topics c s) = st_max_turns s"
    using * [of "\<lambda>t s. 5 < length t \<and> length t < 80 \<and> t \<notin> set (st_topics s)"] by (simp_all add: extract_topics_def)
  show "st_turns (extract_references ent c s) = st_turns s" "st_max_turns (extract_references ent c s) = st_max_turns s"
    using ** by (simp_all add: extract_references_def)
qed

text \<open>What one call of \<open>add_turn\<close> brings, and the turns it stores.\<close>

record turn_call =
  tc_now :: string
  tc_role :: string
  tc_blocks :: "content_block list"
  tc_account :: string
  tc_room :: string

definition turn_of :: "(string \<Rightarrow> int) \<Rightarrow> turn_call \<Rightarrow> turn" where
  "turn_of score c = \<lparr>tu_role = tc_role c, tu_blocks = truncate_blocks 500 (tc_blocks c), tu_timestamp = tc_now c,
     tu_consolidated = False, tu_importance = score (blocks_text (tc_blocks c)), tu_account = tc_account c,
     tu_room = tc_room c\<rparr>"

definition call_add_turn :: "(string \<Rightarrow> int) \<Rightarrow> (string \<Rightarrow> string list) \<Rightarrow> turn_call \<Rightarrow> short_term \<Rightarrow> short_term" where
  "call_add_turn score entities c = add_turn score entities (tc_now c) (tc_role c) (tc_blocks c) (tc_account c) (tc_room c)"

lemma call_add_turn_turns:
  "st_turns (call_add_turn score entities c s) =
    (if tc_blocks c = [] then st_turns s else st_turns (push_turn (turn_of score c) s))"
  "st_max_turns (call_add_turn score entities c s) = st_max_turns s"
  by (simp_all only: call_add_turn_def add_turn_def append_turn_push turn_of_def Let_def turns.cap_push extract_turns split: if_splits) simp_all

lemma push_turn_cong: "st_turns a = st_turns b \<Longrightarrow> st_max_turns a = st_max_turns b \<Longrightarrow>
    st_turns (push_turn t a) = st_turns (push_turn t b) \<and> st_max_turns (push_turn t a) = st_max_turns (push_turn t b)"
  by (simp add: push_turn_def Let_def)

lemma fold_push_cong: "st_turns a = st_turns b \<Longrightarrow> st_max_turns a = st_max_turns b \<Longrightarrow>
    st_turns (fold push_turn ts a) = st_turns (fold push_turn ts b)"
proof (induction ts arbitrary: a b)
  case (Cons t ts)
  show ?case
    using Cons.IH [of "push_turn t a" "push_turn t b"] push_turn_cong [OF Cons.prems, of t] by simp
qed simp

lemma fold_add_turn:
  "st_turns (fold (call_add_turn score entities) cs s) =
    st_turns (fold push_turn (map (turn_of score) (filter (\<lambda>c. tc_blocks c \<noteq> []) cs)) s)"
proof (induction cs arbitrary: s)
  case (Cons c cs)
  show ?case
    using Cons [of "call_add_turn score entities c s"]
      fold_push_cong [of "call_add_turn score entities c s" "if tc_blocks c = [] then s else push_turn (turn_of score c) s"
        "map (turn_of score) (filter (\<lambda>c. tc_blocks c \<noteq> []) cs)"]
    by (auto simp: call_add_turn_turns turns.cap_push)
qed simp

text \<open>After any sequence of \<open>add_turn\<close> calls on an empty short-term memory, whatever the topics
  and references extracted on the way, the stored turns are exactly those of the last \<open>max_turns\<close> calls
  with a content, in order, and the text of every stored turn is the first 500 characters of the text that was
  passed.\<close>
theorem short_term_keeps_last:
  "let cs' = lastn n (filter (\<lambda>c. tc_blocks c \<noteq> []) cs);
       ts = st_turns (fold (call_add_turn score entities) cs (new_short_term n k))
   in ts = map (turn_of score) cs' \<and>
      map (\<lambda>t. blocks_text (tu_blocks t)) ts = map (\<lambda>c. take 500 (blocks_text (tc_blocks c))) cs'"
proof -
  have "st_turns (fold push_turn xs (new_short_term n k)) = lastn n xs" for xs
    using turns.items_fold [of "new_short_term n k" xs] by (simp add: new_short_term_def)
  then have "st_turns (fold (call_add_turn score entities) cs (new_short_term n k)) =
      map (turn_of score) (lastn n (filter (\<lambda>c. tc_blocks c \<noteq> []) cs))"
    by (simp add: fold_add_turn lastn_def drop_map)
  then show ?thesis
    by (simp add: Let_def turn_of_def blocks_text_truncate)
qed

section \<open>Presence refines a relation\<close>

definition present :: "short_term \<Rightarrow> (string \<times> string) set" where
  "present s = {(r, a). a \<in> set (dget_or (st_room_users s) r [])}"

fun present_after :: "room_event \<Rightarrow> (string \<times> string) set \<Rightarrow> (string \<times> string) set" where
  "present_after (RoomJoined j) R = (if jo_room j = [] then R else insert (jo_room j, jo_account j) R)"
| "present_after (RoomJoinedBatch rid js n) R = R \<union> {(jo_room j, jo_account j) | j. j \<in> set js \<and> jo_room j \<noteq> []}"
| "present_after (RoomLeft rid aid nm) R = (if rid = [] then {p \<in> R. snd p \<noteq> aid} else R - {(rid, aid)})"
| "present_after _ R = R"

definition presence_inv :: "short_term \<Rightarrow> bool" where
  "presence_inv s \<longleftrightarrow> distinct (dkeys (st_room_users s)) \<and> (\<forall>us \<in> set (dvalues (st_room_users s)). distinct us) \<and>
     snd ` present s \<subseteq> set (dkeys (st_users s))"

lemma dget_map_values: "dget (map (\<lambda>(r, us). (r, f r us)) d) k = map_option (f k) (dget d k)"
  by (induction d) auto

lemma dget_or_in_dvalues: "dget_or d k [] = [] \<or> dget_or d k [] \<in> set (dvalues d)"
proof (cases "dget d k")
  case (Some v)
  then show ?thesis by (force simp: dget_or_def dest: dget_Some_in)
qed (simp add: dget_or_def)

lemma distinct_room_list: "presence_inv s \<Longrightarrow> distinct (dget_or (st_room_users s) r [])"
  using dget_or_in_dvalues [of "st_room_users s" r] by (auto simp: presence_inv_def)

lemma present_add_user:
  "present (add_user a nm r s) = (if r = [] then present s else insert (r, a) (present s))"
  by (auto simp: present_def add_user_def Let_def dget_or_dput split: if_splits)

lemma presence_add_user:
  assumes "presence_inv s"
  shows "presence_inv (add_user a nm r s)"
proof -
  let ?d = "dget_or (st_room_users s) r []"
  have "distinct us" if "us \<in> set (dvalues (st_room_users (add_user a nm r s)))" for us
  proof -
    have "us \<in> set (dvalues (st_room_users s)) \<or> us = (if a \<in> set ?d then ?d else ?d @ [a])"
      using that dvalues_dput [of r "if a \<in> set ?d then ?d else ?d @ [a]" "st_room_users s"]
      by (auto simp: add_user_def Let_def simp del: set_map split: if_splits)
    then show ?thesis
      using assms distinct_room_list [OF assms, of r] unfolding presence_inv_def by auto
  qed
  moreover have "snd ` present (add_user a nm r s) \<subseteq> set (dkeys (st_users (add_user a nm r s)))"
    using assms unfolding present_add_user presence_inv_def by (auto simp: add_user_def Let_def simp del: set_map)
  moreover have "distinct (dkeys (st_room_users (add_user a nm r s)))"
    using assms by (simp add: add_user_def Let_def presence_inv_def)
  ultimately show ?thesis
    by (simp add: presence_inv_def)
qed

lemma remove_user_lists:
  "st_room_users (remove_user a r s) =
    map (\<lambda>(k, us). (k, if r = [] then removeAll a us else if k = r then remove1 a us else us)) (st_room_users s)"
  by (auto simp: remove_user_def Let_def)

lemma users_remove_user:
  "st_users (remove_user a r s) =
    (if \<exists>us \<in> set (dvalues (st_room_users (remove_user a r s))). a \<in> set us then st_users s else ddel a (st_users s))"
  by (simp add: remove_user_def Let_def)

lemma room_list_remove_user:
  "dget_or (st_room_users (remove_user a r s)) k [] =
    (let us = dget_or (st_room_users s) k [] in if r = [] then removeAll a us else if k = r then remove1 a us else us)"
  unfolding remove_user_lists dget_or_def
    dget_map_values [of "\<lambda>k us. if r = [] then removeAll a us else if k = r then remove1 a us else us"]
  by (simp split: option.split)

lemma present_remove_user:
  assumes "presence_inv s"
  shows "present (remove_user a r s) = present_after (RoomLeft r a nm) (present s)"
  using distinct_room_list [OF assms, of r] by (auto simp: present_def room_list_remove_user Let_def split: if_splits)

lemma presence_remove_user:
  assumes "presence_inv s"
  shows "presence_inv (remove_user a r s)"
proof -
  let ?s = "remove_user a r s"
  have keys: "dkeys (st_room_users ?s) = dkeys (st_room_users s)"
    by (auto simp: remove_user_lists)
  have "distinct us" if us: "us \<in> set (dvalues (st_room_users ?s))" for us
  proof -
    obtain k vs where "(k, vs) \<in> set (st_room_users s)"
        and "us = (if r = [] then removeAll a vs else if k = r then remove1 a vs else vs)"
      using us unfolding remove_user_lists by (auto split del: if_split)
    moreover from this assms have "distinct vs"
      by (force simp: presence_inv_def)
    ultimately show ?thesis
      by (simp add: distinct_removeAll)
  qed
  moreover have "x \<in> set (dkeys (st_users ?s))" if "(k, x) \<in> present ?s" for k x
  proof (cases "x = a")
    case True
    have "dget_or (st_room_users ?s) k [] \<in> set (dvalues (st_room_users ?s))"
      using that dget_or_in_dvalues [of "st_room_users ?s" k] by (auto simp: present_def)
    moreover have "a \<in> set (dget_or (st_room_users ?s) k [])"
      using that True by (simp add: present_def)
    ultimately have "\<exists>us \<in> set (dvalues (st_room_users ?s)). a \<in> set us"
      by blast
    then have "st_users ?s = st_users s"
      unfolding users_remove_user by (rule if_P)
    with that True assms show ?thesis
      unfolding present_remove_user [OF assms, where nm = "''''"] presence_inv_def by (force split: if_splits)
  next
    case False
    have "(k, x) \<in> present s"
      using that unfolding present_remove_user [OF assms, where nm = "''''"] by (auto split: if_splits)
    then have "x \<in> set (dkeys (st_users s))"
      using assms unfolding presence_inv_def by force
    with False show ?thesis
      unfolding users_remove_user by (auto simp del: set_map)
  qed
  ultimately show ?thesis
    using assms keys by (auto simp: presence_inv_def)
qed

lemma presence_batch:
  assumes "presence_inv s"
  shows "presence_inv (fold (\<lambda>j. add_user (jo_account j) (jo_display_name j) (jo_room j)) js s) \<and>
    present (fold (\<lambda>j. add_user (jo_account j) (jo_display_name j) (jo_room j)) js s) =
      present s \<union> {(jo_room j, jo_account j) | j. j \<in> set js \<and> jo_room j \<noteq> []}"
  using assms
proof (induction js arbitrary: s)
  case (Cons j js)
  then show ?case
    using presence_add_user [OF Cons.prems, of "jo_account j" "jo_display_name j" "jo_room j"]
      Cons.IH [of "add_user (jo_account j) (jo_display_name j) (jo_room j) s"]
    by (auto simp: present_add_user)
qed simp

lemma presence_event_step:
  "presence_inv s \<Longrightarrow> presence_inv (presence_event e s) \<and> present (presence_event e s) = present_after e (present s)"
  using presence_batch presence_remove_user present_remove_user
  by (cases e) (auto simp: presence_add_user present_add_user simp del: present_after.simps(3))

lemma presence_run:
  "presence_inv s \<Longrightarrow> presence_inv (fold presence_event es s) \<and>
    present (fold presence_event es s) = fold present_after es (present s)"
  by (induction es arbitrary: s) (auto simp: presence_event_step)

lemma map_filter_present:
  "(\<And>a. a \<in> set us \<Longrightarrow> dget d a \<noteq> None) \<Longrightarrow>
    map fst (List.map_filter (\<lambda>u. map_option (\<lambda>n. (u, n)) (dget d u)) us) = us"
proof (induction us)
  case (Cons a us)
  then show ?case
    using Cons.prems [of a] by (cases "dget d a") (auto simp: List.map_filter_simps)
qed (simp add: List.map_filter_simps)

lemma users_by_room:
  assumes "presence_inv s"
  shows "map fst (get_users_by_room r s) = dget_or (st_room_users s) r []"
  unfolding get_users_by_room_def
proof (rule map_filter_present)
  fix a assume "a \<in> set (dget_or (st_room_users s) r [])"
  then have "a \<in> snd ` present s"
    by (force simp: present_def)
  with assms show "dget (st_users s) a \<noteq> None"
    unfolding presence_inv_def dget_None_iff by blast
qed

text \<open>C28: The presence tracker implements the relation ``account is in room''. After any sequence of room events
  the users it lists for a room are distinct and exactly the accounts the relation has, where the relation gains a
  pair at a join and at every join of a batch, loses the pair at a departure, and loses every pair of the account
  at a departure without a room.\<close>
theorem presence_refines_relation:
  "let s = fold presence_event es (new_short_term n k)
   in present s = fold present_after es {} \<and> distinct (map fst (get_users_by_room room s)) \<and>
      set (map fst (get_users_by_room room s)) = {a. (room, a) \<in> fold present_after es {}}"
proof -
  have 0: "presence_inv (new_short_term n k)" "present (new_short_term n k) = {}"
    by (simp_all add: presence_inv_def present_def new_short_term_def dget_or_def)
  let ?s = "fold presence_event es (new_short_term n k)"
  have inv: "presence_inv ?s" and abs: "present ?s = fold present_after es {}"
    using presence_run [OF 0(1), of es] 0(2) by simp_all
  show ?thesis
    using distinct_room_list [OF inv, of room]
    by (simp add: Let_def users_by_room [OF inv] abs [symmetric] del: set_map) (simp add: present_def)
qed

section \<open>Fragments are delivered once and in order\<close>

datatype fragment_op =
    AddFragment content_block bool string
  | FlushFragments string

fun fragment_step :: "(string list \<Rightarrow> bool) option \<Rightarrow> fragment_op \<Rightarrow> sensory \<Rightarrow> sensory" where
  "fragment_step ready (AddFragment b final r) s = add_fragment_block ready b final r s"
| "fragment_step ready (FlushFragments r) s = sm_flush r s"

definition delivered :: "string \<Rightarrow> sensory \<Rightarrow> content_block list" where
  "delivered r s = concat (map snd (filter (\<lambda>p. fst p = r) (se_flushed s)))"

fun added :: "string \<Rightarrow> fragment_op \<Rightarrow> content_block list" where
  "added r (AddFragment b final r') = (if r' = r then [b] else [])"
| "added r (FlushFragments r') = []"

definition fragments_inv :: "sensory \<Rightarrow> bool" where
  "fragments_inv s \<longleftrightarrow> \<not> se_closed s \<and> se_callback s \<and>
     (\<forall>r. length (fragments_of r s) \<le> se_max_fragments s - 1) \<and>
     set (se_timers s) = (if 0 < se_timeout_ms s then {r. fragments_of r s \<noteq> []} else {})"

lemma flush_reads:
  "fragments_of r' (sm_flush r s) = (if r' = r then [] else fragments_of r' s)"
  "set (se_timers (sm_flush r s)) = set (se_timers s) - {r}"
  "se_closed (sm_flush r s) = se_closed s" "se_callback (sm_flush r s) = se_callback s"
  "se_max_fragments (sm_flush r s) = se_max_fragments s" "se_timeout_ms (sm_flush r s) = se_timeout_ms s"
  by (auto simp: sm_flush_def take_fragments_def cancel_timer_def fragments_of_def dget_or_def)

lemma flush_delivers:
  "se_callback s \<Longrightarrow> delivered r' (sm_flush r s) = delivered r' s @ (if r' = r then fragments_of r s else [])"
  by (auto simp: sm_flush_def take_fragments_def cancel_timer_def fragments_of_def delivered_def)

lemma reset_timer_reads:
  "fragments_of r' (reset_timer r s) = fragments_of r' s" "delivered r' (reset_timer r s) = delivered r' s"
  "set (se_timers (reset_timer r s)) =
    (if se_closed s \<or> se_timeout_ms s \<le> 0 then set (se_timers s) - {r} else insert r (set (se_timers s)))"
  "se_closed (reset_timer r s) = se_closed s" "se_callback (reset_timer r s) = se_callback s"
  "se_max_fragments (reset_timer r s) = se_max_fragments s" "se_timeout_ms (reset_timer r s) = se_timeout_ms s"
  by (auto simp: reset_timer_def cancel_timer_def fragments_of_def delivered_def Let_def)

lemma fragments_put: "fragments_of r' (s\<lparr>se_fragments := dput r bs (se_fragments s)\<rparr>) = (if r' = r then bs else fragments_of r' s)"
  by (simp add: fragments_of_def dget_or_def)

lemma fragment_step_reads:
  "se_max_fragments (fragment_step ready op s) = se_max_fragments s"
  "se_timeout_ms (fragment_step ready op s) = se_timeout_ms s"
  by (cases op; simp add: flush_reads add_fragment_block_def reset_timer_reads Let_def)+

lemma fragment_step_inv:
  assumes "fragments_inv s"
  shows "fragments_inv (fragment_step ready op s)"
proof (cases op)
  case (AddFragment b final r)
  then show ?thesis
    using assms
    by (auto simp: fragments_inv_def add_fragment_block_def Let_def flush_reads reset_timer_reads fragments_put)
next
  case (FlushFragments r)
  then show ?thesis
    using assms by (auto simp: fragments_inv_def flush_reads)
qed

lemma fragment_step_conserves:
  assumes "fragments_inv s"
  shows "delivered r (fragment_step ready op s) @ fragments_of r (fragment_step ready op s) =
    delivered r s @ fragments_of r s @ added r op"
proof (cases op)
  case (AddFragment b final r')
  have "delivered r (s\<lparr>se_fragments := x\<rparr>) = delivered r s" for x
    by (simp add: delivered_def)
  with AddFragment assms show ?thesis
    by (simp add: fragments_inv_def add_fragment_block_def Let_def flush_reads flush_delivers reset_timer_reads fragments_put)
next
  case (FlushFragments r')
  then show ?thesis
    using assms by (simp add: fragments_inv_def flush_reads flush_delivers)
qed

lemma fragment_run:
  assumes "fragments_inv s"
  shows "fragments_inv (fold (fragment_step ready) ops s) \<and>
    delivered r (fold (fragment_step ready) ops s) @ fragments_of r (fold (fragment_step ready) ops s) =
      delivered r s @ fragments_of r s @ concat (map (added r) ops)"
  using assms
proof (induction ops arbitrary: s)
  case (Cons op ops)
  then show ?case
    using fragment_step_inv [OF Cons.prems] fragment_step_conserves [OF Cons.prems] by simp
qed simp

lemma fragment_run_reads:
  "se_max_fragments (fold (fragment_step ready) ops s) = se_max_fragments s"
  "se_timeout_ms (fold (fragment_step ready) ops s) = se_timeout_ms s"
  by (induction ops arbitrary: s) (simp_all add: fragment_step_reads)

text \<open>Fragments are neither lost, duplicated nor reordered, and none is stranded. After any sequence of
  added fragments (of any rooms, final or not, with any readiness rule) and expired timers or explicit flushes,
  what was delivered for a room followed by what is still buffered for it is exactly what was added for it, in order; the
  buffer holds fewer than \<open>max_fragments\<close> fragments; and with a positive timeout a timer is running for
  exactly the rooms that have something buffered, so that every fragment is delivered by its timer at the latest.\<close>
theorem fragments_delivered_once:
  "let s = fold (fragment_step ready) ops ((new_sensory timeout n)\<lparr>se_callback := True\<rparr>)
   in delivered r s @ fragments_of r s = concat (map (added r) ops) \<and> length (fragments_of r s) \<le> n - 1 \<and>
      set (se_timers s) = (if 0 < timeout then {r. fragments_of r s \<noteq> []} else {}) \<and>
      fragments_of r (sm_flush r s) = [] \<and> delivered r (sm_flush r s) = concat (map (added r) ops)"
proof -
  let ?i = "(new_sensory timeout n)\<lparr>se_callback := True\<rparr>"
  have i: "fragments_inv ?i" "delivered r ?i = []" "fragments_of r ?i = []"
      "se_max_fragments ?i = n" "se_timeout_ms ?i = timeout"
    by (simp_all add: fragments_inv_def new_sensory_def delivered_def fragments_of_def dget_or_def)
  let ?s = "fold (fragment_step ready) ops ?i"
  have "fragments_inv ?s" and "delivered r ?s @ fragments_of r ?s = concat (map (added r) ops)"
    using fragment_run [OF i(1), of ready ops r] i(2,3) by simp_all
  then show ?thesis
    by (simp add: Let_def fragments_inv_def fragment_run_reads i flush_reads flush_delivers)
qed

section \<open>Inputs overwritten before a tick\<close>

definition sensed :: "message_event \<times> string \<Rightarrow> bool" where
  "sensed m \<longleftrightarrow> snd m \<noteq> '''' \<and> mv_direction (fst m) \<in> {''request'', ''event''} \<and> mv_msg_type (fst m) \<in> {''chat'', ''system''}"

definition raw_of :: "string \<Rightarrow> message_event \<times> string \<Rightarrow> raw_input" where
  "raw_of now m = \<lparr>ri_block = text_block (snd m), ri_room_id = mv_room_id (fst m), ri_account = mv_account_id (fst m),
     ri_session = mv_session_id (fst m), ri_timestamp = now\<rparr>"

lemma message_raw:
  "se_raw (sensory_on_message now e c s) = (if sensed (e, c) then dput (mv_room_id e) (raw_of now (e, c)) (se_raw s) else se_raw s)"
  "se_out (sensory_on_message now e c s) = se_out s"
  by (auto simp: sensory_on_message_def sensed_def store_raw_block_def add_pending_input_def raw_of_def)

lemma find_rev_snoc: "find P (rev (xs @ [x])) = (if P x then Some x else find P (rev xs))"
  by simp

lemma messages_raw:
  "distinct (dkeys (se_raw s)) \<Longrightarrow> s' = fold (\<lambda>m. sensory_on_message now (fst m) (snd m)) ms s \<Longrightarrow>
    distinct (dkeys (se_raw s')) \<and> se_out s' = se_out s \<and>
    dget (se_raw s') r = (case find (\<lambda>m. mv_room_id (fst m) = r) (rev (filter sensed ms)) of
      None \<Rightarrow> dget (se_raw s) r | Some m \<Rightarrow> Some (raw_of now m))"
proof (induction ms arbitrary: s' rule: rev_induct)
  case (snoc m ms)
  then show ?case
    by (cases m) (auto simp: message_raw split: option.splits)
qed simp

lemma pending_when_raw:
  "se_raw (fold (\<lambda>m. sensory_on_message now (fst m) (snd m)) ms (new_sensory timeout n)) = [] \<Longrightarrow>
    se_pending (fold (\<lambda>m. sensory_on_message now (fst m) (snd m)) ms (new_sensory timeout n)) = []"
proof (induction ms rule: rev_induct)
  case (snoc m ms)
  then show ?case
    by (auto simp: sensory_on_message_def store_raw_block_def add_pending_input_def dput_not_Nil split: if_splits)
qed (simp add: new_sensory_def)

lemma take_raws:
  "distinct (dkeys d) \<Longrightarrow> se_raw s = d \<Longrightarrow>
    fold (\<lambda>r s. case take_raw r s of (None, s1) \<Rightarrow> s1 | (Some x, s1) \<Rightarrow> s1\<lparr>se_out := se_out s1 @ raw_event x\<rparr>) (dkeys d) s =
    s\<lparr>se_raw := [], se_out := se_out s @ concat (map raw_event (dvalues d))\<rparr>"
proof (induction d arbitrary: s)
  case Nil
  then show ?case by simp
next
  case (Cons p d)
  have "ddel (fst p) (p # d) = d"
    using Cons.prems(1) by (auto simp: AList.delete_eq filter_id_conv image_iff)
  then have "take_raw (fst p) s = (Some (snd p), s\<lparr>se_raw := d\<rparr>)"
    using Cons.prems(2) by (cases p) (simp add: take_raw_def)
  with Cons.IH [of "s\<lparr>se_raw := d, se_out := se_out s @ raw_event (snd p)\<rparr>"] Cons.prems show ?case
    by simp
qed

text \<open>A tick hands every waiting input on exactly once, and only the last one of each room. After any sequence of
  messages, the raw input a room holds is the last of its non-empty chat or system requests and events; a tick
  over the waiting rooms publishes, for each of them in turn, an interrupt and then that one input, and leaves no raw
  input behind. Earlier messages of the same room are lost.\<close>
theorem tick_publishes_last_message:
  "let s = fold (\<lambda>m. sensory_on_message now (fst m) (snd m)) ms (new_sensory timeout n);
       s' = snd (sensory_on_tick (dkeys (se_raw s)) s)
   in dget (se_raw s) r = map_option (raw_of now) (find (\<lambda>m. mv_room_id (fst m) = r) (rev (filter sensed ms))) \<and>
      distinct (dkeys (se_raw s)) \<and>
      se_out s' = concat (map raw_event (dvalues (se_raw s))) \<and> se_raw s' = []"
proof -
  let ?i = "new_sensory timeout n"
  let ?s = "fold (\<lambda>m. sensory_on_message now (fst m) (snd m)) ms ?i"
  have s: "distinct (dkeys (se_raw ?s))" "se_out ?s = []"
      "dget (se_raw ?s) r = map_option (raw_of now) (find (\<lambda>m. mv_room_id (fst m) = r) (rev (filter sensed ms)))"
    using messages_raw [of ?i ?s now ms r] by (simp_all add: new_sensory_def split: option.split)
  have empty: "se_raw ?s = [] \<Longrightarrow> se_pending ?s = []"
    by (rule pending_when_raw)
  show ?thesis
  proof (cases "se_raw ?s")
    case Nil
    with s empty show ?thesis
      by (auto simp: sensory_on_tick_def Let_def flush_pending_def)
  next
    case (Cons p d)
    then have "\<exists>r \<in> set (dkeys (se_raw ?s)). dget (se_raw ?s) r \<noteq> None"
      by (cases p) auto
    then show ?thesis
      using s take_raws [OF s(1) refl] by (simp add: sensory_on_tick_def Let_def clear_pending_input_def del: set_map)
  qed
qed

end
