(* ===== verification/Long_Term.thy ===== *)
theory Long_Term
  imports Json_Store Working_Memory
begin

text \<open>
  The long-term memory (\<open>iris/memory/long_term\<close>) and the facade over all memories
  (\<open>iris/memory/manager.py\<close>, \<open>dispatcher.py\<close>).

  An episodic or semantic store is the list its JSON lines file holds; \<open>Json_Store\<close> shows that the
  file operations refine the operations on that list. Calls to the vector store are appended to
  \<open>ss_vector\<close>. What Chroma and BM25 answer to a query is a parameter of the search;
  the merge and the ranking are the code's. \<open>to_text\<close> is Python's \<open>str\<close> on values that are not strings.
\<close>

section \<open>Coercion of what is stored\<close>

datatype 'i memory_data =
    TextData string
  | DictData "(string, pyobj) dict"
  | InputData 'i
  | OtherData string

record episodic_input =
  ei_content :: string
  ei_kind :: string
  ei_metadata :: "pyobj option"
  ei_room :: string
  ei_account :: string

record semantic_input =
  si_content :: string
  si_type :: string
  si_tags :: "string list"
  si_room :: string
  si_account :: string

definition py_str :: "(pyobj \<Rightarrow> string) \<Rightarrow> pyobj \<Rightarrow> string" where
  "py_str to_text v = (case v of PStr s \<Rightarrow> s | _ \<Rightarrow> to_text v)"

text \<open>\<open>str(d.get(k, default))\<close>, and \<open>d.get(a) or d.get(b)\<close>.\<close>

definition str_field :: "(pyobj \<Rightarrow> string) \<Rightarrow> (string, pyobj) dict \<Rightarrow> string \<Rightarrow> string \<Rightarrow> string" where
  "str_field to_text d k v = py_str to_text (dget_or d k (PStr v))"

definition first_true :: "(string, pyobj) dict \<Rightarrow> string \<Rightarrow> string \<Rightarrow> pyobj option" where
  "first_true d a b =
    (case dget d a of
       Some v \<Rightarrow> if py_truthy v then Some v else dget d b
     | None \<Rightarrow> dget d b)"

fun coerce_episodic_input :: "(pyobj \<Rightarrow> string) \<Rightarrow> string \<Rightarrow> episodic_input memory_data \<Rightarrow> episodic_input" where
  "coerce_episodic_input to_text kind (InputData i) = i"
| "coerce_episodic_input to_text kind (TextData t) =
    \<lparr>ei_content = t, ei_kind = kind, ei_metadata = None, ei_room = [], ei_account = []\<rparr>"
| "coerce_episodic_input to_text kind (DictData d) =
    \<lparr>ei_content = (case first_true d ''content'' ''summary'' of
        Some v \<Rightarrow> if py_truthy v then py_str to_text v else [] | None \<Rightarrow> []),
     ei_kind = str_field to_text d ''kind'' kind,
     ei_metadata = (case dget d ''metadata'' of Some PNone \<Rightarrow> None | m \<Rightarrow> m),
     ei_room = str_field to_text d ''room_id'' [], ei_account = str_field to_text d ''account_id'' []\<rparr>"
| "coerce_episodic_input to_text kind (OtherData t) =
    \<lparr>ei_content = t, ei_kind = kind, ei_metadata = None, ei_room = [], ei_account = []\<rparr>"

fun coerce_semantic_input :: "(pyobj \<Rightarrow> string) \<Rightarrow> semantic_input memory_data \<Rightarrow> semantic_input" where
  "coerce_semantic_input to_text (InputData i) = i"
| "coerce_semantic_input to_text (DictData d) =
    \<lparr>si_content = str_field to_text d ''content'' [],
     si_type = str_field to_text d ''type'' ''lesson'',
     si_tags = (case dget d ''tags'' of Some (PList ts) \<Rightarrow> map (py_str to_text) ts | _ \<Rightarrow> []),
     si_room = str_field to_text d ''room_id'' [], si_account = str_field to_text d ''account_id'' []\<rparr>"
| "coerce_semantic_input to_text (TextData t) =
    \<lparr>si_content = t, si_type = ''lesson'', si_tags = [], si_room = [], si_account = []\<rparr>"
| "coerce_semantic_input to_text (OtherData t) =
    \<lparr>si_content = t, si_type = ''lesson'', si_tags = [], si_room = [], si_account = []\<rparr>"

section \<open>Episodic memory\<close>

record episodic_entry =
  ep_summary :: string
  ep_timestamp :: string
  ep_room :: string
  ep_account :: string
  ep_metadata :: "pyobj option"

record episodic_store =
  es_entries :: "episodic_entry list"
  es_max :: nat

definition episodic_add :: "string \<Rightarrow> string \<Rightarrow> pyobj option \<Rightarrow> string \<Rightarrow> string \<Rightarrow> episodic_store \<Rightarrow> episodic_store" where
  "episodic_add now summary metadata room account s =
    s\<lparr>es_entries := keep_last (es_max s) (es_entries s @
      [\<lparr>ep_summary = summary, ep_timestamp = now, ep_room = room, ep_account = account,
        ep_metadata = (case metadata of Some m \<Rightarrow> if py_truthy m then Some m else None | None \<Rightarrow> None)\<rparr>])\<rparr>"

definition scope_filter :: "string \<Rightarrow> string \<Rightarrow> episodic_entry list \<Rightarrow> episodic_entry list" where
  "scope_filter room account es =
    filter (\<lambda>e. (account \<noteq> [] \<longrightarrow> ep_account e = account) \<and> (room \<noteq> [] \<longrightarrow> ep_room e = room)) es"

definition episodic_recent :: "int \<Rightarrow> string \<Rightarrow> string \<Rightarrow> episodic_store \<Rightarrow> episodic_entry list" where
  "episodic_recent n room account s = slice_last n (scope_filter room account (es_entries s))"

definition episodic_clear :: "episodic_store \<Rightarrow> episodic_store" where
  "episodic_clear s = s\<lparr>es_entries := []\<rparr>"

section \<open>Semantic memory\<close>

record semantic_entry =
  sy_id :: string
  sy_content :: string
  sy_type :: string
  sy_tags :: "string list"
  sy_timestamp :: string
  sy_room :: string
  sy_account :: string

datatype vector_call = VectorAdd semantic_entry string | VectorClear

record semantic_store =
  ss_entries :: "semantic_entry list"
  ss_max :: nat
  ss_synced :: nat
  ss_vector :: "vector_call list"

definition lesson_id :: "nat \<Rightarrow> string" where
  "lesson_id n = ''lesson_'' @ pad_left 3 (show_nat n)"

definition is_duplicate_entry :: "string \<Rightarrow> semantic_entry list \<Rightarrow> bool" where
  "is_duplicate_entry content es \<longleftrightarrow> (\<exists>e \<in> set es. sy_content e = content)"

definition semantic_add :: "semantic_input \<Rightarrow> string \<Rightarrow> string \<Rightarrow> semantic_store \<Rightarrow> semantic_entry \<times> semantic_store" where
  "semantic_add i room account s =
    (let es = ss_entries s
     in if is_duplicate_entry (si_content i) es then (last es, s)
        else let e = \<lparr>sy_id = lesson_id (length es + 1), sy_content = si_content i, sy_type = si_type i,
                      sy_tags = si_tags i, sy_timestamp = [], sy_room = room, sy_account = account\<rparr>;
                 es' = keep_last (ss_max s) (es @ [e])
             in (e, s\<lparr>ss_entries := es', ss_vector := ss_vector s @ [VectorAdd e account], ss_synced := length es'\<rparr>))"

definition semantic_sync :: "semantic_store \<Rightarrow> semantic_store" where
  "semantic_sync s =
    (let es = ss_entries s
     in if length es \<le> ss_synced s then s
        else s\<lparr>ss_vector := ss_vector s @ map (\<lambda>e. VectorAdd e (sy_account e)) (drop (ss_synced s) es),
               ss_synced := length es\<rparr>)"

definition semantic_clear :: "semantic_store \<Rightarrow> semantic_store" where
  "semantic_clear s = s\<lparr>ss_entries := [], ss_vector := ss_vector s @ [VectorClear], ss_synced := 0\<rparr>"

section \<open>Hybrid search\<close>

record vector_doc =
  vd_id :: string
  vd_content :: string
  vd_type :: string

record merged_doc = vector_doc +
  vd_dense :: real
  vd_sparse :: real

text \<open>\<open>raw\<close> are the BM25 scores of the query's words, one per indexed id.\<close>

definition bm25_scores :: "string list \<Rightarrow> (string list \<Rightarrow> real list) \<Rightarrow> string list \<Rightarrow> (string, real) dict" where
  "bm25_scores ids raw query =
    (if ids = [] \<or> query = [] then []
     else let xs = raw query; m = Max (set xs)
          in if 0 < m then fold (\<lambda>(i, x) d. dput i (min (x / m) 1) d) (zip ids xs) [] else [])"

definition merge_dense :: "(string, real) dict \<Rightarrow> (vector_doc \<times> real) list \<Rightarrow> (string, merged_doc) dict" where
  "merge_dense bm25 dense = fold (\<lambda>(d, dist) m. dput (vd_id d)
     \<lparr>vd_id = vd_id d, vd_content = vd_content d, vd_type = vd_type d, vd_dense = max 0 (1 - dist),
      vd_sparse = dget_or bm25 (vd_id d) 0\<rparr> m) dense []"

definition merge_sparse :: "(string, real) dict \<Rightarrow> (string, merged_doc) dict \<Rightarrow> (string, merged_doc) dict" where
  "merge_sparse bm25 m = fold (\<lambda>(i, b) m. dput i
     (case dget m i of
        Some d \<Rightarrow> d\<lparr>vd_sparse := b\<rparr>
      | None \<Rightarrow> \<lparr>vd_id = i, vd_content = [], vd_type = ''lesson'', vd_dense = 0, vd_sparse = b\<rparr>) m) bm25 m"

text \<open>\<open>fetch\<close> is what the database returns for the id of a document found by BM25 only.\<close>

definition fill_contents :: "(string \<Rightarrow> (string \<times> string) option) \<Rightarrow> (string, merged_doc) dict \<Rightarrow> (string, merged_doc) dict" where
  "fill_contents fetch m = map (\<lambda>(i, d).
     (i, if vd_content d \<noteq> [] then d
         else case fetch i of Some (c, t) \<Rightarrow> d\<lparr>vd_content := c, vd_type := t\<rparr> | None \<Rightarrow> d)) m"

definition score_of :: "merged_doc \<Rightarrow> real" where
  "score_of d = vd_dense d * 0.6 + vd_sparse d * 0.4"

definition search_row :: "merged_doc \<Rightarrow> (string, pyobj) dict" where
  "search_row d = [(''id'', PStr (vd_id d)), (''content'', PStr (vd_content d)), (''type'', PStr (vd_type d))]"

definition vector_search :: "(string \<Rightarrow> (string \<times> string) option) \<Rightarrow> (vector_doc \<times> real) list \<Rightarrow>
    (string, real) dict \<Rightarrow> nat \<Rightarrow> real \<Rightarrow> (string, pyobj) dict list" where
  "vector_search fetch dense bm25 max_results min_score =
    map search_row (take max_results (rev (sort_key score_of (rev
      (filter (\<lambda>d. min_score \<le> score_of d)
        (dvalues (fill_contents fetch (merge_sparse bm25 (merge_dense bm25 dense)))))))))"

definition row_field :: "(string, pyobj) dict \<Rightarrow> string \<Rightarrow> pyobj \<Rightarrow> string \<times> pyobj" where
  "row_field r k v = (k, dget_or r k v)"

text \<open>A row of a search carries no score, so that \<open>round(score, 4)\<close> is applied to the default only.\<close>

definition format_search_result :: "(pyobj \<Rightarrow> pyobj) \<Rightarrow> (string, pyobj) dict list \<Rightarrow> (string, pyobj) dict list" where
  "format_search_result round4 rs =
    map (\<lambda>r. [row_field r ''content'' (PStr []), row_field r ''tags'' (PList []), row_field r ''type'' (PStr ''unknown''),
       (''score'', round4 (dget_or r ''score'' (PFloat 0))), row_field r ''timestamp'' (PStr [])]) rs"

section \<open>The long-term memory manager\<close>

record long_term =
  lt_episodic :: "episodic_store option"
  lt_semantic :: "semantic_store option"
  lt_vector :: bool

definition starts_with_kind :: "string \<Rightarrow> string \<Rightarrow> string" where
  "starts_with_kind kind txt' =
    (let tag = ''['' @ kind @ '']'' in if kind \<noteq> [] \<and> \<not> starts_with tag txt' then tag @ '' '' @ txt' else txt')"

definition store_episodic :: "(pyobj \<Rightarrow> string) \<Rightarrow> string \<Rightarrow> string \<Rightarrow> string \<Rightarrow> string \<Rightarrow> episodic_input memory_data \<Rightarrow>
    long_term \<Rightarrow> long_term" where
  "store_episodic to_text now kind room account data s =
    (let p = coerce_episodic_input to_text kind data
     in s\<lparr>lt_episodic := map_option (episodic_add now (starts_with_kind (ei_kind p) (ei_content p)) (ei_metadata p)
          (or_else (ei_room p) room) (or_else (ei_account p) account)) (lt_episodic s)\<rparr>)"

definition store_semantic :: "(pyobj \<Rightarrow> string) \<Rightarrow> string \<Rightarrow> string \<Rightarrow> semantic_input memory_data \<Rightarrow> long_term \<Rightarrow> long_term" where
  "store_semantic to_text room account data s =
    (let p = coerce_semantic_input to_text data; r = or_else (si_room p) room; a = or_else (si_account p) account
     in s\<lparr>lt_semantic := map_option (\<lambda>st. snd (semantic_add (p\<lparr>si_room := r, si_account := a\<rparr>) r a st)) (lt_semantic s)\<rparr>)"

definition get_episodic_recent :: "int \<Rightarrow> string \<Rightarrow> string \<Rightarrow> long_term \<Rightarrow> episodic_entry list" where
  "get_episodic_recent n room account s =
    (case lt_episodic s of None \<Rightarrow> [] | Some st \<Rightarrow> episodic_recent n room account st)"

text \<open>\<open>found account\<close> are the rows the vector store returns for the query and the account; without a semantic
  store the vector store itself is asked, if there is one.\<close>

definition search_semantic :: "(pyobj \<Rightarrow> pyobj) \<Rightarrow> (string \<Rightarrow> (string, pyobj) dict list) \<Rightarrow> string \<Rightarrow> string \<Rightarrow> long_term \<Rightarrow>
    (string, pyobj) dict list" where
  "search_semantic round4 found room account s =
    (if lt_semantic s = None \<and> \<not> lt_vector s then []
     else format_search_result round4
       (if room = [] then found account else filter (\<lambda>r. dget r ''room_id'' = Some (PStr room)) (found account)))"

definition clear_episodic :: "long_term \<Rightarrow> long_term" where
  "clear_episodic s = s\<lparr>lt_episodic := map_option episodic_clear (lt_episodic s)\<rparr>"

definition clear_semantic :: "long_term \<Rightarrow> long_term" where
  "clear_semantic s = s\<lparr>lt_semantic := map_option semantic_clear (lt_semantic s)\<rparr>"

section \<open>The profile file\<close>

text \<open>Bytes of the UTF-8 encoding of Latin-1 text.\<close>

definition utf8_len :: "string \<Rightarrow> nat" where
  "utf8_len s = sum_list (map (\<lambda>c. if (of_char c :: nat) < 128 then 1 else 2) s)"

fun split_nl :: "string \<Rightarrow> string list" where
  "split_nl [] = [[]]"
| "split_nl (c # cs) =
    (if c = CHR 0x0A then [] # split_nl cs else case split_nl cs of [] \<Rightarrow> [[c]] | l # ls \<Rightarrow> (c # l) # ls)"

definition lines_size :: "string list \<Rightarrow> nat" where
  "lines_size ls = sum_list (map (\<lambda>l. utf8_len l + 1) ls)"

function drop_lines :: "nat \<Rightarrow> string list \<Rightarrow> string list" where
  "drop_lines n ls = (if 1 < length ls \<and> n < lines_size ls then drop_lines n (butlast ls) else ls)"
  by pat_completeness auto
termination by (relation "measure (\<lambda>(n, ls). length ls)") auto

declare drop_lines.simps [simp del]

definition truncate_profile :: "nat \<Rightarrow> string \<Rightarrow> string" where
  "truncate_profile n content = join_with [CHR 0x0A] (drop_lines n (split_nl content))"

text \<open>The file is its content and modification time; \<open>readable\<close> is whether reading it succeeds.\<close>

record profile_store =
  pf_file :: "(string \<times> nat) option"
  pf_max_bytes :: nat
  pf_cache :: "string option"
  pf_cache_mtime :: "nat option"

definition profile_load :: "bool \<Rightarrow> profile_store \<Rightarrow> string \<times> profile_store" where
  "profile_load readable s =
    (case pf_file s of
       None \<Rightarrow> ([], s)
     | Some (txt', mtime) \<Rightarrow>
         if pf_cache s \<noteq> None \<and> pf_cache_mtime s = Some mtime then (the (pf_cache s), s)
         else if readable then (txt', s\<lparr>pf_cache := Some txt', pf_cache_mtime := Some mtime\<rparr>)
         else (case pf_cache s of Some c \<Rightarrow> c | None \<Rightarrow> [], s))"

definition profile_update :: "nat \<Rightarrow> string \<Rightarrow> profile_store \<Rightarrow> profile_store" where
  "profile_update now content s =
    (let c = (if pf_max_bytes s < utf8_len content then truncate_profile (pf_max_bytes s) content else content)
     in s\<lparr>pf_file := Some (c, now), pf_cache := Some c, pf_cache_mtime := Some now\<rparr>)"

section \<open>Goals\<close>

record goal =
  ga_id :: string
  ga_description :: string
  ga_weight :: real

type_synonym goal_store = "(string, goal) dict"

definition add_goal :: "string \<Rightarrow> string \<Rightarrow> real \<Rightarrow> goal_store \<Rightarrow> string \<times> goal_store" where
  "add_goal fresh description weight gs =
    (fresh, dput fresh \<lparr>ga_id = fresh, ga_description = description, ga_weight = max 0 (min 1 weight)\<rparr> gs)"

definition remove_goal :: "string \<Rightarrow> goal_store \<Rightarrow> bool \<times> goal_store" where
  "remove_goal i gs = (if dget gs i \<noteq> None then (True, ddel i gs) else (False, gs))"

definition get_goals :: "goal_store \<Rightarrow> goal list" where
  "get_goals gs = rev (sort_key ga_weight (rev (dvalues gs)))"

definition get_active_goals :: "real \<Rightarrow> goal_store \<Rightarrow> goal list" where
  "get_active_goals threshold gs = filter (\<lambda>g. threshold \<le> ga_weight g) (get_goals gs)"

definition decay_goal :: "real \<Rightarrow> goal \<Rightarrow> goal" where
  "decay_goal amount g = g\<lparr>ga_weight := max 0 (ga_weight g - amount)\<rparr>"

definition decay_goals :: "real \<Rightarrow> real \<Rightarrow> goal_store \<Rightarrow> goal_store" where
  "decay_goals rate threshold gs =
    (let gs1 = map (\<lambda>(i, g). (i, decay_goal rate g)) gs;
         gone = map ga_id (filter (\<lambda>g. ga_weight g < threshold) (dvalues gs1))
     in fold (\<lambda>i gs. snd (remove_goal i gs)) gone gs1)"

section \<open>The memory manager\<close>

record memory =
  mm_sensory :: sensory
  mm_short :: short_term
  mm_long :: long_term

text \<open>Parameters of the short-term memory: importance, entities; and of conversions: \<open>str\<close> of values,
  readiness of fragments.\<close>

record memory_env =
  me_score :: "string \<Rightarrow> int"
  me_entities :: "string \<Rightarrow> string list"
  me_to_text :: "pyobj \<Rightarrow> string"
  me_ready :: "(string list \<Rightarrow> bool) option"

datatype store_data = StoreText string | StoreDict "(string, pyobj) dict" | StoreOther string

definition scope_of :: "memory_env \<Rightarrow> store_data \<Rightarrow> string \<times> string" where
  "scope_of env data =
    (case data of StoreDict d \<Rightarrow> (str_field (me_to_text env) d ''room_id'' [], str_field (me_to_text env) d ''account_id'' [])
     | _ \<Rightarrow> ([], []))"

definition coerce_short_term_turn :: "memory_env \<Rightarrow> store_data \<Rightarrow> (string \<times> content_block list) option" where
  "coerce_short_term_turn env data =
    (case data of
       StoreText t \<Rightarrow> Some (''system'', [text_block t])
     | StoreDict d \<Rightarrow> Some (str_field (me_to_text env) d ''role'' ''system'',
         [text_block (case first_true d ''content'' ''summary'' of
            Some v \<Rightarrow> if py_truthy v then py_str (me_to_text env) v else me_to_text env (PDict d)
          | None \<Rightarrow> me_to_text env (PDict d))])
     | StoreOther t \<Rightarrow> None)"

definition as_memory_data :: "store_data \<Rightarrow> 'i memory_data" where
  "as_memory_data data = (case data of StoreText t \<Rightarrow> TextData t | StoreDict d \<Rightarrow> DictData d | StoreOther t \<Rightarrow> OtherData t)"

definition mm_add_turn :: "memory_env \<Rightarrow> string \<Rightarrow> string \<Rightarrow> content_block list \<Rightarrow> string \<Rightarrow> string \<Rightarrow> memory \<Rightarrow> memory" where
  "mm_add_turn env now role bs account room m =
    m\<lparr>mm_short := add_turn (me_score env) (me_entities env) now role bs account room (mm_short m)\<rparr>"

definition store_sensory :: "memory_env \<Rightarrow> string \<Rightarrow> store_data \<Rightarrow> memory \<Rightarrow> memory" where
  "store_sensory env now data m =
    (case data of
       StoreDict d \<Rightarrow> (case dget d ''raw'' of
         Some v \<Rightarrow> if py_truthy v
           then m\<lparr>mm_sensory := store_raw_block now (text_block (py_str (me_to_text env) v)) [] [] [] (mm_sensory m)\<rparr>
           else m\<lparr>mm_sensory := add_fragment_block (me_ready env) (text_block (me_to_text env (PDict d))) True [] (mm_sensory m)\<rparr>
       | None \<Rightarrow> m\<lparr>mm_sensory := add_fragment_block (me_ready env) (text_block (me_to_text env (PDict d))) True [] (mm_sensory m)\<rparr>)
     | StoreText t \<Rightarrow> m\<lparr>mm_sensory := add_fragment_block (me_ready env) (text_block t) True [] (mm_sensory m)\<rparr>
     | StoreOther t \<Rightarrow> m\<lparr>mm_sensory := add_fragment_block (me_ready env) (text_block t) True [] (mm_sensory m)\<rparr>)"

definition store_short_term :: "memory_env \<Rightarrow> string \<Rightarrow> store_data \<Rightarrow> memory \<Rightarrow> memory" where
  "store_short_term env now data m =
    (case coerce_short_term_turn env data of
       None \<Rightarrow> m
     | Some (role, bs) \<Rightarrow> (case scope_of env data of (room, account) \<Rightarrow> mm_add_turn env now role bs account room m))"

text \<open>A turn added with an episode or a lesson carries the account but not the room.\<close>

definition dispatch_episodic :: "memory_env \<Rightarrow> string \<Rightarrow> store_data \<Rightarrow> memory \<Rightarrow> memory" where
  "dispatch_episodic env now data m =
    (case scope_of env data of (room, account) \<Rightarrow>
       let m1 = m\<lparr>mm_long := store_episodic (me_to_text env) now [] room account (as_memory_data data) (mm_long m)\<rparr>
       in case coerce_short_term_turn env data of
            None \<Rightarrow> m1
          | Some (role, bs) \<Rightarrow> mm_add_turn env now role bs account [] m1)"

definition dispatch_semantic :: "memory_env \<Rightarrow> string \<Rightarrow> store_data \<Rightarrow> memory \<Rightarrow> memory" where
  "dispatch_semantic env now data m =
    (case scope_of env data of (room, account) \<Rightarrow>
       let m1 = m\<lparr>mm_long := store_semantic (me_to_text env) room account (as_memory_data data) (mm_long m)\<rparr>
       in case data of
            StoreDict d \<Rightarrow> (let c = str_field (me_to_text env) d ''content'' []
              in if c = [] then m1 else mm_add_turn env now ''system'' [text_block c] account [] m1)
          | _ \<Rightarrow> m1)"

definition with_scope :: "string \<Rightarrow> string \<Rightarrow> store_data \<Rightarrow> store_data" where
  "with_scope room account data =
    (case data of
       StoreDict d \<Rightarrow> (let setdefault = (\<lambda>k v d. if v = [] \<or> dget d k \<noteq> None then d else d @ [(k, PStr v)])
         in StoreDict (setdefault ''account_id'' account (setdefault ''room_id'' room d)))
     | _ \<Rightarrow> data)"

definition mm_store :: "memory_env \<Rightarrow> string \<Rightarrow> string \<Rightarrow> store_data \<Rightarrow> string \<Rightarrow> string \<Rightarrow> memory \<Rightarrow> memory" where
  "mm_store env now stream data room account m =
    (let data' = with_scope room account data
     in if stream = ''sensory'' then store_sensory env now data' m
        else if stream = ''short_term'' then store_short_term env now data' m
        else if stream = ''episodic'' then dispatch_episodic env now data' m
        else if stream = ''semantic'' then dispatch_semantic env now data' m
        else m)"

definition mm_clear :: "string option \<Rightarrow> memory \<Rightarrow> memory" where
  "mm_clear stream m =
    (let on = (\<lambda>n. stream = None \<or> stream = Some n);
         m1 = (if on ''sensory'' then m\<lparr>mm_sensory := sensory_cancel None (mm_sensory m)\<rparr> else m);
         m2 = (if on ''short_term'' then m1\<lparr>mm_short := clear_short_term (mm_short m1)\<rparr> else m1);
         m3 = (if on ''episodic'' then m2\<lparr>mm_long := clear_episodic (mm_long m2)\<rparr> else m2)
     in if on ''semantic'' then m3\<lparr>mm_long := clear_semantic (mm_long m3)\<rparr> else m3)"

text \<open>What a flush hands to the extraction pipeline is the number of turns, the room and the account.\<close>

definition combined_text :: "turn list \<Rightarrow> string" where
  "combined_text us = join_with '' | '' (map (\<lambda>t. take 100 (blocks_text (tu_blocks t))) (slice_last 3 us))"

definition mm_flush :: "memory_env \<Rightarrow> string \<Rightarrow> string \<Rightarrow> string \<Rightarrow> memory \<Rightarrow> (nat \<times> string \<times> string) option \<times> memory" where
  "mm_flush env now room account m =
    (let ts = get_unconsolidated_turns [] account (mm_short m); us = filter (\<lambda>t. tu_role t = ''user'') ts
     in if ts = [] then (None, m)
        else let m1 = (if us = [] then m
                       else m\<lparr>mm_long := store_episodic (me_to_text env) now [] room account
                         (DictData [(''content'', PStr (''[conversation] '' @ combined_text us)), (''kind'', PStr ''conversation'')])
                         (mm_long m)\<rparr>);
                 m2 = fold (\<lambda>topic m. m\<lparr>mm_long := store_semantic (me_to_text env) room account
                         (DictData [(''content'', PStr topic), (''type'', PStr ''topic''), (''tags'', PList [PStr ''short_term_topic''])])
                         (mm_long m)\<rparr>) (st_topics (mm_short m)) m1;
                 m3 = m2\<lparr>mm_short := mark_consolidated room account (mm_short m2)\<rparr>
             in (Some (length ts, room, account), m3))"

section \<open>Search\<close>

text \<open>A semantic search restricted to a room finds nothing, whatever the vector store holds: the rows of the
  hybrid search carry the keys id, content and type only, and the filter compares their missing room with the
  requested one.\<close>
theorem room_search_finds_nothing:
  assumes "room \<noteq> []"
  shows "search_semantic round4 (\<lambda>a. vector_search fetch (dense a) bm25 n q) room account s = []"
proof -
  have "dget r ''room_id'' = None" if "r \<in> set (vector_search fetch (dense account) bm25 n q)" for r
    using that by (auto simp: vector_search_def search_row_def)
  then have "filter (\<lambda>r. dget r ''room_id'' = Some (PStr room)) (vector_search fetch (dense account) bm25 n q) = []"
    by (auto simp: filter_empty_conv)
  then show ?thesis
    using assms unfolding search_semantic_def format_search_result_def by auto
qed

lemma dget_merge_sparse:
  assumes "distinct (dkeys bm25)"
  shows "dget (merge_sparse bm25 m) i =
    (case dget bm25 i of None \<Rightarrow> dget m i
     | Some b \<Rightarrow> Some (case dget m i of Some d \<Rightarrow> d\<lparr>vd_sparse := b\<rparr>
         | None \<Rightarrow> \<lparr>vd_id = i, vd_content = [], vd_type = ''lesson'', vd_dense = 0, vd_sparse = b\<rparr>))"
  using assms
proof (induction bm25 arbitrary: m)
  case (Cons p bm25)
  obtain j b where p: "p = (j, b)"
    by (cases p)
  define x where "x = (case dget m j of Some d \<Rightarrow> d\<lparr>vd_sparse := b\<rparr>
     | None \<Rightarrow> \<lparr>vd_id = j, vd_content = [], vd_type = ''lesson'', vd_dense = 0, vd_sparse = b\<rparr>)"
  have j: "j \<notin> set (dkeys bm25)" and d: "distinct (dkeys bm25)"
    using Cons.prems by (simp_all add: p)
  have "merge_sparse (p # bm25) m = merge_sparse bm25 (dput j x m)"
    by (simp add: merge_sparse_def p x_def)
  moreover have "dget bm25 j = None"
    using j by (rule dget_None_iff [THEN iffD2])
  ultimately show ?case
    using Cons.IH [OF d, of "dput j x m"] unfolding p x_def
    by (cases "i = j") (auto split: option.split)
qed (simp add: merge_sparse_def)

lemma dget_merge_dense_notin:
  "i \<notin> vd_id ` fst ` set dense \<Longrightarrow> dget (fold (\<lambda>(d, dist) m. dput (vd_id d)
     \<lparr>vd_id = vd_id d, vd_content = vd_content d, vd_type = vd_type d, vd_dense = max 0 (1 - dist),
      vd_sparse = dget_or bm25 (vd_id d) 0\<rparr> m) dense m) i = dget m i"
proof (induction dense arbitrary: m)
  case (Cons p dense)
  then show ?case
    by (cases p) auto
qed simp

text \<open>The restriction of a search to an account holds for the dense half only. A document that is not among the
  account's own (dense) results is returned, with its content, to the search of that account as soon as its
  normalised BM25 score is at least one half: the BM25 index covers all accounts.\<close>
theorem search_crosses_accounts:
  assumes "distinct (dkeys bm25)" and "dget bm25 i = Some b" and "1 / 2 \<le> b"
    and "i \<notin> vd_id ` fst ` set dense" and "fetch i = Some (c, t)"
    and "length (merge_sparse bm25 (merge_dense bm25 dense)) \<le> n"
  shows "[(''id'', PStr i), (''content'', PStr c), (''type'', PStr t)] \<in> set (vector_search fetch dense bm25 n 0.2)"
proof -
  let ?m = "merge_sparse bm25 (merge_dense bm25 dense)"
  let ?d = "\<lparr>vd_id = i, vd_content = [], vd_type = ''lesson'', vd_dense = 0, vd_sparse = b\<rparr>"
  let ?all = "dvalues (fill_contents fetch ?m)"
  have "dget (merge_dense bm25 dense) i = None"
    unfolding merge_dense_def by (subst dget_merge_dense_notin [OF assms(4)]) simp
  then have "dget ?m i = Some ?d"
    using dget_merge_sparse [OF assms(1), of "merge_dense bm25 dense" i] assms(2) by simp
  then have "(i, ?d) \<in> set ?m"
    by (rule dget_Some_in)
  then have "?d\<lparr>vd_content := c, vd_type := t\<rparr> \<in> set ?all"
    unfolding fill_contents_def using assms(5) by force
  moreover have "0.2 \<le> score_of (?d\<lparr>vd_content := c, vd_type := t\<rparr>)"
    using assms(3) by (simp add: score_of_def)
  moreover have "length (filter (\<lambda>d. 0.2 \<le> score_of d) ?all) \<le> n"
    using assms(6) by (intro le_trans [OF length_filter_le]) (simp add: fill_contents_def)
  ultimately show ?thesis
    unfolding vector_search_def by (force simp: search_row_def)
qed

section \<open>Ids of lessons\<close>

definition add_lessons :: "string \<Rightarrow> string \<Rightarrow> semantic_input list \<Rightarrow> semantic_store \<Rightarrow> semantic_store" where
  "add_lessons room account is s = fold (\<lambda>i s. snd (semantic_add i room account s)) is s"

definition new_semantic :: "nat \<Rightarrow> semantic_store" where
  "new_semantic n = \<lparr>ss_entries = [], ss_max = n, ss_synced = 0, ss_vector = []\<rparr>"

fun sent_id :: "vector_call \<Rightarrow> string" where
  "sent_id (VectorAdd e a) = sy_id e"
| "sent_id VectorClear = []"

lemma add_lessons_run:
  assumes "0 < n" and "distinct (map si_content is)"
  shows "map sy_content (ss_entries (add_lessons room account is (new_semantic n))) = lastn n (map si_content is) \<and>
    map sent_id (ss_vector (add_lessons room account is (new_semantic n))) =
      map (\<lambda>k. lesson_id (min k n + 1)) [0..<length is] \<and>
    ss_max (add_lessons room account is (new_semantic n)) = n"
  using assms(2)
proof (induction "is" rule: rev_induct)
  case Nil
  then show ?case by (simp add: add_lessons_def new_semantic_def)
next
  case (snoc i "is")
  let ?s = "add_lessons room account is (new_semantic n)"
  have IH: "map sy_content (ss_entries ?s) = lastn n (map si_content is)" "ss_max ?s = n"
      "map sent_id (ss_vector ?s) = map (\<lambda>k. lesson_id (min k n + 1)) [0..<length is]"
    using snoc by auto
  have len: "length (ss_entries ?s) = min n (length is)"
    using arg_cong [OF IH(1), of length] by simp
  have "si_content i \<notin> set (map sy_content (ss_entries ?s))"
    using snoc.prems set_lastn_subset [of n "map si_content is"] unfolding IH(1) by auto
  then have new: "\<not> is_duplicate_entry (si_content i) (ss_entries ?s)"
    unfolding is_duplicate_entry_def by (metis imageI set_map)
  have step: "add_lessons room account (is @ [i]) (new_semantic n) = snd (semantic_add i room account ?s)"
    by (simp add: add_lessons_def)
  have "map sy_content (ss_entries (snd (semantic_add i room account ?s))) = lastn n (map sy_content (ss_entries ?s) @ [si_content i])"
    using new IH(2) assms(1) by (simp add: semantic_add_def Let_def keep_last_lastn lastn_def drop_map)
  then have "map sy_content (ss_entries (snd (semantic_add i room account ?s))) = lastn n (map si_content (is @ [i]))"
    unfolding IH(1) by (simp add: lastn_append_lastn)
  moreover have "map sent_id (ss_vector (snd (semantic_add i room account ?s))) =
      map (\<lambda>k. lesson_id (min k n + 1)) [0..<length (is @ [i])]"
    using new IH(3) len by (simp add: semantic_add_def Let_def min.commute)
  moreover have "ss_max (snd (semantic_add i room account ?s)) = n"
    using new IH(2) by (simp add: semantic_add_def Let_def)
  ultimately show ?case
    unfolding step by blast
qed

text \<open>A semantic store of at most \<open>n\<close> lessons keeps the last \<open>n\<close> of the distinct lessons
  added to it, in order; but the ids under which they go to the vector store are \<open>lesson_001\<close> to
  \<open>lesson_n\<close> for the first \<open>n\<close> and one and the same id for every later lesson, so that each new
  lesson replaces its predecessor in the index that is searched.\<close>
theorem lesson_ids_repeat:
  assumes "0 < n" and "distinct (map si_content is)"
  shows "map sy_content (ss_entries (add_lessons room account is (new_semantic n))) = lastn n (map si_content is) \<and>
    map sent_id (ss_vector (add_lessons room account is (new_semantic n))) =
      map (\<lambda>k. lesson_id (min k n + 1)) [0..<length is]"
  using add_lessons_run [OF assms] by blast

definition demo_lesson :: "string \<Rightarrow> semantic_input" where
  "demo_lesson c = \<lparr>si_content = c, si_type = ''lesson'', si_tags = [], si_room = [], si_account = []\<rparr>"

section \<open>The profile fits its limit\<close>

lemma utf8_len_append: "utf8_len (a @ b) = utf8_len a + utf8_len b"
  by (simp add: utf8_len_def)

lemma append_singleton [simp]: "(@) [x] = (#) x"
  by (rule ext) simp

lemma utf8_len_concat: "utf8_len (concat (map (\<lambda>x. [CHR 0x0A] @ x) ls)) = lines_size ls"
  by (induction ls) (auto simp: lines_size_def utf8_len_append utf8_len_def)

lemma utf8_len_join: "ls \<noteq> [] \<Longrightarrow> utf8_len (join_with [CHR 0x0A] ls) + 1 = lines_size ls"
proof (cases ls)
  case (Cons l ls')
  then show ?thesis
    using utf8_len_concat [of ls'] by (simp add: join_with_def utf8_len_append lines_size_def)
qed simp

lemma split_nl_not_Nil: "split_nl s \<noteq> []"
  by (induction s) (auto split: list.split)

lemma join_split_nl: "join_with [CHR 0x0A] (split_nl s) = s"
proof (induction s)
  case (Cons c s)
  then show ?case
    using split_nl_not_Nil [of s] by (auto simp: join_with_def split: list.splits)
qed (simp add: join_with_def)

lemma split_nl_no_newline: "l \<in> set (split_nl s) \<Longrightarrow> CHR 0x0A \<notin> set l"
proof (induction s arbitrary: l)
  case (Cons c s)
  then show ?case
    by (auto split: if_splits list.splits)
qed simp

lemma drop_lines_prefix:
  "ls \<noteq> [] \<Longrightarrow> \<exists>k > 0. drop_lines n ls = take k ls \<and> (k = 1 \<or> lines_size (take k ls) \<le> n)"
proof (induction n ls rule: drop_lines.induct)
  case (1 n ls)
  show ?case
  proof (cases "1 < length ls \<and> n < lines_size ls")
    case True
    then have "butlast ls \<noteq> []"
      by (cases ls rule: rev_cases) auto
    then obtain k where k: "k > 0" "drop_lines n (butlast ls) = take k (butlast ls)"
        "k = 1 \<or> lines_size (take k (butlast ls)) \<le> n"
      using "1.IH" [OF True \<open>butlast ls \<noteq> []\<close>] by (elim exE conjE) (rule that)
    have t: "take k (butlast ls) = take (min k (length ls - 1)) ls"
      by (simp add: butlast_conv_take)
    have "drop_lines n ls = drop_lines n (butlast ls)"
      using True by (subst drop_lines.simps) simp
    moreover have "0 < min k (length ls - 1)"
      using k(1) True by simp
    moreover have "min k (length ls - 1) = 1 \<or> lines_size (take (min k (length ls - 1)) ls) \<le> n"
      using k(1,3) True unfolding t by (cases "k = 1") auto
    ultimately show ?thesis
      unfolding k(2) t by blast
  next
    case False
    then have "drop_lines n ls = ls"
      by (subst drop_lines.simps) (simp only: if_False)
    moreover have "length ls = 1 \<or> lines_size ls \<le> n" "0 < length ls"
      using False 1(2) by (cases ls; force)+
    ultimately show ?thesis
      by (intro exI [of _ "length ls"]) simp
  qed
qed

lemma join_take_prefix: "0 < k \<Longrightarrow> \<exists>r. join_with sep ls = join_with sep (take k ls) @ r"
proof (cases ls)
  case (Cons l ls')
  assume "0 < k"
  then have "take k ls = l # take (k - 1) ls'"
    by (cases k) (simp_all add: Cons)
  moreover have "concat (map f ls') = concat (map f (take m ls')) @ concat (map f (drop m ls'))" for m and f :: "string \<Rightarrow> string"
    by (metis append_take_drop_id concat_append map_append)
  ultimately show ?thesis
    by (auto simp: join_with_def Cons)
qed simp

text \<open>An update of the profile writes a prefix of the new content; if it cuts, it cuts at the end of a line,
  and what is written then has at most \<open>max_bytes\<close> bytes in UTF-8 - unless it is the first line alone, which
  is never cut. What a later load returns is what was written.\<close>
theorem profile_cut_to_limit:
  "let s' = profile_update now content s; written = fst (profile_load readable s')
   in pf_file s' = Some (written, now) \<and> (\<exists>rest. content = written @ rest) \<and>
      (utf8_len written \<le> pf_max_bytes s \<or> CHR 0x0A \<notin> set written)"
proof -
  let ?n = "pf_max_bytes s"
  obtain k where k: "k > 0" "drop_lines ?n (split_nl content) = take k (split_nl content)"
      "k = 1 \<or> lines_size (take k (split_nl content)) \<le> ?n"
    using drop_lines_prefix [OF split_nl_not_Nil, of ?n content] by (elim exE conjE) (rule that)
  let ?t = "truncate_profile ?n content"
  have t: "?t = join_with [CHR 0x0A] (take k (split_nl content))"
    by (simp add: truncate_profile_def k(2))
  have ne: "take k (split_nl content) \<noteq> []"
    using k(1) split_nl_not_Nil [of content] by simp
  have "\<exists>rest. content = ?t @ rest"
    using join_take_prefix [OF k(1), of "[CHR 0x0A]" "split_nl content"] unfolding t join_split_nl .
  moreover have "utf8_len ?t \<le> ?n \<or> CHR 0x0A \<notin> set ?t"
  proof (cases "k = 1")
    case True
    obtain l ls where "split_nl content = l # ls"
      using split_nl_not_Nil [of content] by (cases "split_nl content") auto
    with True show ?thesis
      using split_nl_no_newline [of l content] by (simp add: t join_with_def)
  next
    case False
    then show ?thesis
      using k(3) utf8_len_join [OF ne] unfolding t by linarith
  qed
  ultimately show ?thesis
    by (simp add: profile_update_def profile_load_def Let_def)
qed

definition demo_profile :: profile_store where
  "demo_profile = \<lparr>pf_file = None, pf_max_bytes = 4, pf_cache = None, pf_cache_mtime = None\<rparr>"

section \<open>Goals are forgotten\<close>

definition goals_ok :: "goal_store \<Rightarrow> bool" where
  "goals_ok gs \<longleftrightarrow> distinct (dkeys gs) \<and> (\<forall>(i, g) \<in> set gs. ga_id g = i \<and> 0 \<le> ga_weight g \<and> ga_weight g \<le> 1)"

lemma decay_goal_reads [simp]: "ga_id (decay_goal r g) = ga_id g" "ga_weight (decay_goal r g) = max 0 (ga_weight g - r)"
  by (simp_all add: decay_goal_def)

lemma fold_remove_goals:
  "fold (\<lambda>i gs. snd (remove_goal i gs)) is gs = filter (\<lambda>p. fst p \<notin> set is) gs"
proof (induction "is" arbitrary: gs)
  case (Cons i "is")
  have "snd (remove_goal i gs) = filter (\<lambda>p. fst p \<noteq> i) gs"
    by (cases "dget gs i")
      (auto simp: remove_goal_def AList.delete_eq map_of_eq_None_iff case_prod_unfold neq_commute intro!: sym [OF filter_True])
  with Cons show ?case
    by (simp add: conj_commute)
qed simp

lemma filter_light_goals:
  assumes "distinct (dkeys gs)" and id: "\<And>q. q \<in> set gs \<Longrightarrow> ga_id (snd q) = fst q"
  shows "filter (\<lambda>p. fst p \<notin> set (map ga_id (filter (\<lambda>g. ga_weight g < thr) (dvalues gs)))) gs =
    filter (\<lambda>p. thr \<le> ga_weight (snd p)) gs"
proof (rule filter_cong [OF refl])
  fix p assume p: "p \<in> set gs"
  have same: "q = p" if "q \<in> set gs" "fst q = fst p" for q
    using assms(1) p that by (metis distinct_key_eq)
  have "set (map ga_id (filter (\<lambda>g. ga_weight g < thr) (dvalues gs))) = fst ` {q \<in> set gs. ga_weight (snd q) < thr}"
    using id by (auto simp: image_iff) (metis snd_conv)
  moreover have "fst p \<in> fst ` {q \<in> set gs. ga_weight (snd q) < thr} \<longleftrightarrow> ga_weight (snd p) < thr"
  proof
    assume "fst p \<in> fst ` {q \<in> set gs. ga_weight (snd q) < thr}"
    then obtain q where "q \<in> set gs" "fst q = fst p" "ga_weight (snd q) < thr"
      by auto
    with same [of q] show "ga_weight (snd p) < thr"
      by simp
  qed (use p in simp)
  ultimately show "fst p \<notin> set (map ga_id (filter (\<lambda>g. ga_weight g < thr) (dvalues gs))) \<longleftrightarrow> thr \<le> ga_weight (snd p)"
    by (simp only: not_less)
qed

lemma decay_goals_filter:
  assumes "goals_ok gs"
  shows "decay_goals r thr gs = filter (\<lambda>p. thr \<le> ga_weight (snd p)) (map (\<lambda>(i, g). (i, decay_goal r g)) gs)"
  unfolding decay_goals_def Let_def fold_remove_goals
  using assms by (intro filter_light_goals) (auto simp: goals_ok_def case_prod_unfold comp_def)

lemma goals_ok_decay:
  assumes "goals_ok gs" and "0 \<le> r"
  shows "goals_ok (decay_goals r thr gs)"
  using assms unfolding decay_goals_filter [OF assms(1)]
  by (auto simp: goals_ok_def case_prod_unfold comp_def intro!: distinct_map_filter)

lemma decay_goals_power:
  assumes "goals_ok gs" and "0 \<le> r" and "0 < thr"
  shows "(decay_goals r thr ^^ Suc k) gs =
      map (\<lambda>(i, g). (i, g\<lparr>ga_weight := ga_weight g - (real k + 1) * r\<rparr>))
        (filter (\<lambda>p. thr \<le> ga_weight (snd p) - (real k + 1) * r) gs) \<and> goals_ok ((decay_goals r thr ^^ Suc k) gs)"
proof (induction k)
  case 0
  have "thr \<le> max 0 w \<longleftrightarrow> thr \<le> w" for w
    using assms(3) by auto
  moreover have "max 0 (w - r) = w - r" if "thr \<le> w - r" for w
    using that assms(3) by auto
  ultimately show ?case
    using assms(3) goals_ok_decay [OF assms(1,2), of thr]
    by (auto simp: decay_goals_filter [OF assms(1)] filter_map comp_def case_prod_unfold decay_goal_def)
next
  case (Suc k)
  let ?gs = "(decay_goals r thr ^^ Suc k) gs"
  have ok: "goals_ok ?gs"
    using Suc.IH by blast
  have "(decay_goals r thr ^^ Suc (Suc k)) gs = decay_goals r thr ?gs"
    by simp
  also have "\<dots> = filter (\<lambda>p. thr \<le> ga_weight (snd p)) (map (\<lambda>(i, g). (i, decay_goal r g))
      (map (\<lambda>(i, g). (i, g\<lparr>ga_weight := ga_weight g - (real k + 1) * r\<rparr>))
        (filter (\<lambda>p. thr \<le> ga_weight (snd p) - (real k + 1) * r) gs)))"
    unfolding decay_goals_filter [OF ok] using Suc.IH by simp
  also have "\<dots> = map (\<lambda>(i, g). (i, g\<lparr>ga_weight := ga_weight g - (real (Suc k) + 1) * r\<rparr>))
        (filter (\<lambda>p. thr \<le> ga_weight (snd p) - (real (Suc k) + 1) * r) gs)"
  proof -
    have "thr \<le> max 0 w \<longleftrightarrow> thr \<le> w" "thr \<le> w \<Longrightarrow> max 0 w = w" for w
      using assms(3) by auto
    then show ?thesis
      using assms(2) by (induction gs) (auto simp: decay_goal_def algebra_simps)
  qed
  finally show ?case
    using goals_ok_decay [OF ok assms(2), of thr] by simp
qed

text \<open>Decay forgets: after \<open>k + 1\<close> decays by \<open>r\<close> exactly the goals are left whose weight less
  \<open>(k + 1) * r\<close> is still at least the threshold, each with that weight; hence with a positive
  rate the store is empty after finitely many decays, at the latest when \<open>(k + 1) * r\<close> exceeds 1.\<close>
theorem goals_decay_and_vanish:
  assumes "goals_ok gs" and "0 \<le> r" and "0 < thr"
  shows "(decay_goals r thr ^^ Suc k) gs =
      map (\<lambda>(i, g). (i, g\<lparr>ga_weight := ga_weight g - (real k + 1) * r\<rparr>))
        (filter (\<lambda>p. thr \<le> ga_weight (snd p) - (real k + 1) * r) gs) \<and>
    (1 \<le> (real k + 1) * r \<longrightarrow> (decay_goals r thr ^^ Suc k) gs = [])"
proof -
  have "filter (\<lambda>p. thr \<le> ga_weight (snd p) - (real k + 1) * r) gs = []" if "1 \<le> (real k + 1) * r"
    using assms(1,3) that by (force simp: goals_ok_def filter_empty_conv)
  then show ?thesis
    using decay_goals_power [OF assms, of k] by simp
qed

section \<open>Flushing\<close>

lemma fold_topics_short [simp]:
  "mm_short (fold (\<lambda>topic m. m\<lparr>mm_long := f topic m\<rparr>) ts m) = mm_short m"
  by (induction ts arbitrary: m) simp_all

lemma flush_short:
  "mm_short (snd (mm_flush env now room account m)) =
    (if get_unconsolidated_turns [] account (mm_short m) = [] then mm_short m
     else mark_consolidated room account (mm_short m))"
  by (simp add: mm_flush_def Let_def)

lemma unconsolidated_after_mark:
  "get_unconsolidated_turns [] account (mark_consolidated room account s) =
    filter (\<lambda>t. room \<noteq> [] \<and> tu_room t \<noteq> room) (get_unconsolidated_turns [] account s)"
proof -
  have "filter (\<lambda>t. \<not> tu_consolidated t) (filter (in_scope [] account)
      (map (\<lambda>t. if in_scope room account t then t\<lparr>tu_consolidated := True\<rparr> else t) ts)) =
    filter (\<lambda>t. room \<noteq> [] \<and> tu_room t \<noteq> room) (filter (\<lambda>t. \<not> tu_consolidated t) (filter (in_scope [] account) ts))" for ts
    by (induction ts) (auto simp: in_scope_def)
  then show ?thesis
    by (simp add: get_unconsolidated_turns_def scope_turns_def mark_consolidated_def)
qed

text \<open>A flush of an account stores the turns of all its rooms but marks only those of the flushed room: what is
  still unconsolidated afterwards are exactly the account's turns of other rooms, and the next flush of the same room
  stores them again and reports them to the pipeline again, however often it is repeated. Only a flush without a room
  leaves nothing behind.\<close>
theorem flush_repeats_other_rooms:
  "let other = filter (\<lambda>t. room \<noteq> [] \<and> tu_room t \<noteq> room) (get_unconsolidated_turns [] account (mm_short m));
       m1 = snd (mm_flush env now room account m)
   in get_unconsolidated_turns [] account (mm_short m1) = other \<and>
      fst (mm_flush env now' room account m1) = (if other = [] then None else Some (length other, room, account)) \<and>
      get_unconsolidated_turns [] account (mm_short (snd (mm_flush env now' room account m1))) = other"
proof -
  let ?u = "get_unconsolidated_turns [] account (mm_short m)"
  let ?other = "filter (\<lambda>t. room \<noteq> [] \<and> tu_room t \<noteq> room) ?u"
  have after: "get_unconsolidated_turns [] account (mm_short (snd (mm_flush env t room account n))) =
      filter (\<lambda>t. room \<noteq> [] \<and> tu_room t \<noteq> room) (get_unconsolidated_turns [] account (mm_short n))" for n t
    by (simp add: flush_short unconsolidated_after_mark)
  have count: "fst (mm_flush env t room account n) = (let u = get_unconsolidated_turns [] account (mm_short n)
      in if u = [] then None else Some (length u, room, account))" for n t
    by (simp add: mm_flush_def Let_def)
  show ?thesis
    by (simp add: Let_def after count)
qed

end
