(* ===== verification/Context_Hints.thy ===== *)
theory Context_Hints
  imports Long_Term
begin

text \<open>
  What planning is told about the past: the rendered short-term memory
  (\<open>iris/memory/short_term/renderer.py\<close>), the importance of a turn (\<open>scorer.py\<close>), and the context
  hints (\<open>iris/agency/planning/context\<close>), built from the short-term memory, the episodes, the semantic
  memory and the participants.

  The headings and phrases in Japanese are the record \<open>phrases\<close>, the age of a time stamp and the
  formatting of a float with two digits are parameters, and so are the random draws. The references are
  listed in the order of the model's list where the program has a set. An exception in a hint can
  only come from the third-party stores and is left out.
\<close>

section \<open>The importance of a turn\<close>

definition upper :: "char \<Rightarrow> bool" where
  "upper c \<longleftrightarrow> (65::nat) \<le> of_char c \<and> (of_char c :: nat) \<le> 90"

text \<open>A match of three or more capital letters.\<close>

fun shouts :: "string \<Rightarrow> bool" where
  "shouts (a # b # c # s) \<longleftrightarrow> upper a \<and> upper b \<and> upper c \<or> shouts (b # c # s)"
| "shouts _ \<longleftrightarrow> False"

text \<open>\<open>grave\<close> and \<open>polite\<close> are the two lists of words.\<close>

definition importance :: "string list \<Rightarrow> string list \<Rightarrow> string \<Rightarrow> int" where
  "importance grave polite content =
    min 5 ((if list_ex (\<lambda>w. is_infix w (py_lower content)) grave then 3 else 0) +
      (if list_ex (\<lambda>w. is_infix w (py_lower content)) polite then 1 else 0) +
      (if shouts content then 1 else 0) + (if 2 \<le> count_list content CHR ''!'' then 1 else 0))"

section \<open>Rendering\<close>

record phrases =
  ph_related :: string
  ph_references :: string
  ph_participants :: string
  ph_thought :: string
  ph_open :: string
  ph_close :: string
  ph_relevance :: "real \<Rightarrow> string"

definition text_or :: "string \<Rightarrow> (string, pyobj) dict \<Rightarrow> string \<Rightarrow> string" where
  "text_or k d def = (case dget d k of Some (PStr s) \<Rightarrow> s | _ \<Rightarrow> def)"

definition block_tag :: "content_block \<Rightarrow> string" where
  "block_tag b =
    (let t = (case cb_type b of None \<Rightarrow> ''text'' | Some t \<Rightarrow> t); tx = block_text b
     in if t = ''text'' then tx
        else let tag = or_else (text_or ''mime_type'' (cb_extra b) []) t
             in if tx = [] then ''['' @ tag @ '']'' else ''['' @ tag @ ''] '' @ tx)"

fun block_parts :: "int \<Rightarrow> content_block list \<Rightarrow> string list" where
  "block_parts remaining [] = []"
| "block_parts remaining (b # bs) =
    (if remaining \<le> 0 then []
     else let t = block_tag b;
              tag = (if remaining < int (length t) then slice_to (remaining - 3) t @ ''...'' else t)
          in if tag = [] then block_parts remaining bs else tag # block_parts (remaining - int (length tag)) bs)"

definition render_blocks :: "int \<Rightarrow> content_block list \<Rightarrow> string" where
  "render_blocks max_chars bs = join_with '' '' (block_parts max_chars bs)"

definition turn_label :: "turn \<Rightarrow> string" where
  "turn_label t = or_else (tu_account t) (if tu_role t = ''user'' then ''User'' else ''Iris'')"

definition turn_line :: "phrases \<Rightarrow> turn \<Rightarrow> string" where
  "turn_line p t = ''- '' @ turn_label t @ '': '' @ (if tu_role t = ''thought'' then ph_thought p else []) @
     ph_open p @ render_blocks 100 (tu_blocks t) @ ph_close p"

definition cut_to :: "nat \<Rightarrow> string \<Rightarrow> string" where
  "cut_to max_chars t = (if max_chars < length t then slice_to (int max_chars - 3) t @ ''...'' else t)"

definition new_line :: string where "new_line = [CHR 0x0A]"

definition participant_lines :: "phrases \<Rightarrow> string list \<Rightarrow> string list" where
  "participant_lines p users = (if users = [] then [] else ph_participants p # map (\<lambda>u. ''- '' @ u) users)"

text \<open>The recent turns are all shown, also those already listed as related: the set of shown turns holds
  the identities of the search results, which are other objects.\<close>

definition related_lines :: "phrases \<Rightarrow> search_hit list \<Rightarrow> turn list \<Rightarrow> string list" where
  "related_lines p hits chat =
    (if hits = [] then []
     else ph_related p # map (\<lambda>h. turn_line p (sh_turn h) @ ph_relevance p (sh_relevance h)) hits @
       map (turn_line p) (rev (lastn 4 chat)))"

definition reference_lines :: "phrases \<Rightarrow> string list \<Rightarrow> string list" where
  "reference_lines p refs = (if refs = [] then []
     else [ph_references p, join_with '', '' (take 5 (rev (sort_key length (rev refs))))])"

definition render_short_term_context ::
    "phrases \<Rightarrow> turn list \<Rightarrow> string list \<Rightarrow> search_hit list \<Rightarrow> nat \<Rightarrow> string list \<Rightarrow> string \<Rightarrow> string" where
  "render_short_term_context p turns refs hits max_chars users room =
    (if turns = [] then []
     else let ts = (if room = [] then turns else filter (\<lambda>t. tu_room t = room) turns);
              chat = filter (\<lambda>t. tu_role t \<noteq> ''system'') ts
          in if chat = [] \<and> hits = [] then
               (if users = [] then [] else cut_to max_chars (join_with new_line (participant_lines p users)))
             else let parts = related_lines p hits chat @ reference_lines p refs @ participant_lines p users
                  in if parts = [] then [] else cut_to max_chars (join_with new_line parts))"

text \<open>\<open>render_context\<close> of the manager, with the names of all active users.\<close>

definition render_context :: "phrases \<Rightarrow> (string \<Rightarrow> string list) \<Rightarrow> nat \<Rightarrow> string option \<Rightarrow> string \<Rightarrow> string \<Rightarrow> short_term \<Rightarrow> string" where
  "render_context p words max_chars query room account s =
    render_short_term_context p (scope_turns room account s) (st_references s)
      (case query of None \<Rightarrow> [] | Some q \<Rightarrow> search_turns words q 3 room account s)
      max_chars (dvalues (st_users s)) room"

section \<open>The providers of hints\<close>

record hint_env =
  he_phrases :: phrases
  he_words :: "string \<Rightarrow> string list"
  he_age :: "string \<Rightarrow> string"
  he_just_now :: string
  he_previous_topic :: string
  he_past_topic :: string
  he_topic :: string
  he_aged :: "string \<Rightarrow> string"
  he_memory :: string
  he_interest :: string
  he_participants :: string
  he_topics :: string
  he_remembered :: string
  he_round4 :: "pyobj \<Rightarrow> pyobj"
  he_time_label :: string
  he_working :: string
  he_preferences_query :: string

definition recent_episodes :: "int \<Rightarrow> string \<Rightarrow> memory \<Rightarrow> episodic_entry list" where
  "recent_episodes n room m = get_episodic_recent n room [] (mm_long m)"

definition working_memory_hint :: "hint_env \<Rightarrow> string option \<Rightarrow> string \<Rightarrow> memory \<Rightarrow> string" where
  "working_memory_hint e query room m =
    (let wm = render_context (he_phrases e) (he_words e) 600 query room [] (mm_short m)
     in if wm \<noteq> [] then wm
        else let topics = map (\<lambda>x. take 60 (ep_summary x) @ he_aged e (he_age e (ep_timestamp x)))
                   (filter (\<lambda>x. ep_summary x \<noteq> []) (recent_episodes 3 room m))
             in if topics = [] then [] else he_topics e @ join_with '' | '' topics)"

definition episodic_hint :: "hint_env \<Rightarrow> string \<Rightarrow> memory \<Rightarrow> string option" where
  "episodic_hint e room m =
    (case find (\<lambda>x. ep_summary x \<noteq> []) (rev (recent_episodes 3 room m)) of
       None \<Rightarrow> None
     | Some x \<Rightarrow>
        (let ts = he_age e (ep_timestamp x)
         in Some (if ts \<noteq> [] then (if ts = he_just_now e then he_previous_topic e else he_past_topic e) @ '': '' @
                      take 60 (ep_summary x) @ he_aged e ts
                  else he_topic e @ take 60 (ep_summary x))))"

text \<open>\<open>found query account\<close> are the rows of the vector store; a missing or other value of a score counts as
  0. \<open>max\<close> returns the first of the best.\<close>

definition row_score :: "(string, pyobj) dict \<Rightarrow> real" where
  "row_score r = (case dget r ''score'' of Some (PFloat x) \<Rightarrow> x | Some (PInt i) \<Rightarrow> real_of_int i | _ \<Rightarrow> 0)"

fun best_row :: "(string, pyobj) dict \<Rightarrow> (string, pyobj) dict list \<Rightarrow> (string, pyobj) dict" where
  "best_row b [] = b"
| "best_row b (r # rs) = best_row (if row_score b < row_score r then r else b) rs"

definition semantic_hint :: "hint_env \<Rightarrow> (string \<Rightarrow> string \<Rightarrow> (string, pyobj) dict list) \<Rightarrow> string \<Rightarrow> string \<Rightarrow> memory \<Rightarrow> string option" where
  "semantic_hint e found content room m =
    (case search_semantic (he_round4 e) (found content) room [] (mm_long m) of
       [] \<Rightarrow> None
     | r # rs \<Rightarrow>
        (let best = best_row r rs
         in if row_score best \<le> 0.5 then None
            else let ts = he_age e (text_or ''timestamp'' best [])
                 in Some (he_memory e @ take 60 (text_or ''content'' best []) @ (if ts = [] then [] else he_aged e ts))))"

definition preferences_hint :: "hint_env \<Rightarrow> (string \<Rightarrow> string \<Rightarrow> (string, pyobj) dict list) \<Rightarrow> string \<Rightarrow> string \<Rightarrow> memory \<Rightarrow> string option" where
  "preferences_hint e found room account m =
    (case search_semantic (he_round4 e) (found (he_preferences_query e)) room account (mm_long m) of
       [] \<Rightarrow> None | r # _ \<Rightarrow> Some (he_interest e @ take 80 (text_or ''content'' r [])))"

definition participants_hint :: "hint_env \<Rightarrow> string \<Rightarrow> memory \<Rightarrow> string" where
  "participants_hint e room m =
    (if room = [] then []
     else let us = get_users_by_room room (mm_short m)
          in if length us \<le> 1 then [] else he_participants e @ join_with '', '' (map snd us))"

text \<open>\<open>pick\<close> is the index the random choice draws.\<close>

definition random_hint :: "hint_env \<Rightarrow> nat \<Rightarrow> memory \<Rightarrow> string option" where
  "random_hint e pick m =
    (let es = recent_episodes 10 [] m
     in if es = [] then None
        else let s = ep_summary (es ! (pick mod length es))
             in if s = [] then None else Some (he_remembered e @ take 60 s))"

section \<open>The builder\<close>

definition some_text :: "string option \<Rightarrow> string list" where
  "some_text x = (case x of None \<Rightarrow> [] | Some t \<Rightarrow> if t = [] then [] else [t])"

text \<open>\<open>draw\<close> and \<open>pick\<close> are the random number and choice.\<close>

definition build_user_context_hint :: "hint_env \<Rightarrow> (string \<Rightarrow> string \<Rightarrow> (string, pyobj) dict list) \<Rightarrow> real \<Rightarrow> nat \<Rightarrow>
    string \<Rightarrow> real \<Rightarrow> string \<Rightarrow> memory option \<Rightarrow> string" where
  "build_user_context_hint e found draw pick content chaos room memory =
    (case memory of None \<Rightarrow> []
     | Some m \<Rightarrow>
        if content = [] then []
        else let wc = working_memory_hint e (Some content) room m
             in join_with '' / ''
                 ((if wc \<noteq> [] then [wc] else some_text (episodic_hint e room m)) @
                  some_text (semantic_hint e found content room m) @
                  (if participants_hint e room m = [] then [] else [participants_hint e room m]) @
                  (if 0 < chaos \<and> draw < chaos * 0.2 then some_text (random_hint e pick m) else [])))"

text \<open>The trigger is the first score with the largest value.\<close>

fun first_max :: "string \<times> real \<Rightarrow> (string \<times> real) list \<Rightarrow> string" where
  "first_max b [] = fst b"
| "first_max b (s # ss) = first_max (if snd b < snd s then s else b) ss"

definition build_general_hint :: "hint_env \<Rightarrow> (string \<Rightarrow> string \<Rightarrow> (string, pyobj) dict list) \<Rightarrow> real \<Rightarrow> nat \<Rightarrow> (string \<Rightarrow> string) \<Rightarrow>
    (string \<times> real) list \<Rightarrow> real \<Rightarrow> string \<Rightarrow> memory option \<Rightarrow> string option" where
  "build_general_hint e found draw pick trigger scores chaos room memory =
    (case scores of [] \<Rightarrow> None
     | s # ss \<Rightarrow> Some (join_with '' / ''
        ([he_time_label e, trigger (first_max s ss)] @
         (case memory of None \<Rightarrow> []
          | Some m \<Rightarrow>
             (let wc = working_memory_hint e None room m in if wc = [] then [] else [he_working e @ wc]) @
             some_text (preferences_hint e found room [] m) @
             (if 0 < chaos \<and> draw < chaos * 0.3 then some_text (random_hint e pick m) else [])))))"

text \<open>A system event has a hint of its own, from the role and the time it was away.\<close>

definition build_proactive_context_hint where
  "build_proactive_context_hint e found draw pick trigger connected_hint context scores chaos room memory =
    (case dget context ''system_event'' of
       None \<Rightarrow> build_general_hint e found draw pick trigger scores chaos room memory
     | Some ev \<Rightarrow> Some (if ev = PStr ''connected''
         then connected_hint (text_or ''role'' context []) (text_or ''offline_duration'' context []) else []))"

definition build_user_preferences_context where
  "build_user_preferences_context e found room account memory =
    (case memory of None \<Rightarrow> None | Some m \<Rightarrow> preferences_hint e found room account m)"

definition is_task_content :: "string list \<Rightarrow> string \<Rightarrow> bool" where
  "is_task_content keywords content \<longleftrightarrow> 100 < length content \<or> starts_with ''/'' content \<or>
    list_ex (\<lambda>w. is_infix w (py_lower content)) keywords"

text \<open>The question about a topic: the model's answer, or a fixed phrase when there is no model, the call
  fails (\<open>None\<close>) or the answer is blank.\<close>

definition generate_question :: "(string \<Rightarrow> string) \<Rightarrow> (string \<Rightarrow> string option) option \<Rightarrow> string \<Rightarrow> string" where
  "generate_question fallback model topic =
    (case model of None \<Rightarrow> fallback topic
     | Some ask \<Rightarrow>
        (case ask topic of None \<Rightarrow> fallback topic
         | Some raw \<Rightarrow> if py_strip raw = [] then fallback topic else py_strip raw))"

section \<open>Facts about the hints\<close>

lemma importance_range: "0 \<le> importance grave polite content \<and> importance grave polite content \<le> 5"
  by (simp add: importance_def)

lemma length_cut_to: "3 \<le> max_chars \<Longrightarrow> length (cut_to max_chars t) \<le> max_chars"
  by (auto simp: cut_to_def slice_to_def)

text \<open>The limit of a turn's text is not kept: when one or two characters are left, the slice counts from
  the end and the next block is shown almost whole.\<close>

lemma block_limit_exceeded:
  assumes "3 \<le> n"
  shows "length (render_blocks 100 [text_block (replicate 98 c), text_block (replicate n d)]) = 101 + n"
proof -
  have t: "block_tag (text_block (replicate k x)) = replicate k x" for k x
    by (simp add: block_tag_def text_block_def block_text_def)
  have "block_parts 100 [text_block (replicate 98 c), text_block (replicate n d)] =
      [replicate 98 c, take (n - 1) (replicate n d) @ ''...'']"
    using assms by (simp add: t slice_to_def)
  then show ?thesis
    unfolding render_blocks_def using assms by (simp del: block_parts.simps add: join_with_def)
qed

lemma rows_have_no_score: "r \<in> set (vector_search fetch dense bm25 n q) \<Longrightarrow> dget r ''score'' = None"
  by (auto simp: vector_search_def search_row_def)

lemma row_score_found:
  assumes "rnd (PFloat 0) = PFloat 0" and "\<And>r. r \<in> set (found account) \<Longrightarrow> dget r ''score'' = None"
    and "r \<in> set (search_semantic rnd found room account s)"
  shows "row_score r = 0"
proof -
  have "dget_or x ''score'' (PFloat 0) = PFloat 0" if "x \<in> set (found account)" for x
    using assms(2) [OF that] by (simp add: dget_or_def)
  then show ?thesis
    using assms(1,3) by (auto simp: search_semantic_def format_search_result_def row_field_def row_score_def split: if_splits)
qed

lemma best_row_score: "row_score b = 0 \<Longrightarrow> (\<And>r. r \<in> set rs \<Longrightarrow> row_score r = 0) \<Longrightarrow> row_score (best_row b rs) = 0"
  by (induction rs arbitrary: b) auto

lemma semantic_hint_None:
  assumes "he_round4 e (PFloat 0) = PFloat 0" and "\<And>r. r \<in> set (found content []) \<Longrightarrow> dget r ''score'' = None"
  shows "semantic_hint e found content room m = None"
proof (cases "search_semantic (he_round4 e) (found content) room [] (mm_long m)")
  case (Cons r rs)
  have "row_score x = 0" if "x \<in> set (r # rs)" for x
    by (rule row_score_found [where rnd = "he_round4 e" and found = "found content" and account = "[]" and room = room and s = "mm_long m"])
      (use assms(1) in simp, use assms(2) that Cons in auto)
  then have "row_score (best_row r rs) = 0" by (intro best_row_score) auto
  with Cons show ?thesis by (simp add: semantic_hint_def)
qed (simp add: semantic_hint_def)

lemma semantic_hint_nothing: "semantic_hint e (\<lambda>_ _. []) content room m = None"
  by (simp add: semantic_hint_def search_semantic_def format_search_result_def)

section \<open>Claims\<close>

text \<open>
  C30: Nothing the assistant has learned reaches its plans. The hint about the past that planning makes for
  an answer is the same whatever the vector store finds, because the rows of a search have no score and the
  hint asks for a score above a half; and so is the hint for talking unasked in a room, because the
  search by room finds nothing.
\<close>

theorem semantic_memory_never_hinted:
  fixes fetch :: "string \<Rightarrow> string \<Rightarrow> (string \<times> string) option" and dense bm25
  assumes "he_round4 e (PFloat 0) = PFloat 0"
  defines "found \<equiv> \<lambda>q a. vector_search (fetch q) (dense q a) (bm25 q) 2 0.2"
  shows "build_user_context_hint e found draw pick content chaos room memory =
      build_user_context_hint e (\<lambda>_ _. []) draw pick content chaos room memory \<and>
    (room = [] \<or> build_general_hint e found draw pick trigger scores chaos room memory =
      build_general_hint e (\<lambda>_ _. []) draw pick trigger scores chaos room memory)"
proof
  have none: "semantic_hint e found content room m = None" for m
    unfolding found_def by (rule semantic_hint_None [OF assms(1)]) (rule rows_have_no_score)
  show "build_user_context_hint e found draw pick content chaos room memory =
      build_user_context_hint e (\<lambda>_ _. []) draw pick content chaos room memory"
    by (cases memory) (simp_all add: build_user_context_hint_def none semantic_hint_nothing)
  show "room = [] \<or> build_general_hint e found draw pick trigger scores chaos room memory =
      build_general_hint e (\<lambda>_ _. []) draw pick trigger scores chaos room memory"
  proof (cases "room = []")
    case False
    have "dget r ''room_id'' = None" if "r \<in> set (found q a)" for q a r
      using that by (auto simp: found_def vector_search_def search_row_def)
    then have "filter (\<lambda>r. dget r ''room_id'' = Some (PStr room)) (found q a) = []" for q a
      by (auto simp: filter_empty_conv)
    then have "preferences_hint e found room a m = None" "preferences_hint e (\<lambda>_ _. []) room a m = None" for a m
      using False by (simp_all add: preferences_hint_def search_semantic_def format_search_result_def)
    then show ?thesis by (simp add: build_general_hint_def cong: list.case_cong option.case_cong)
  qed simp
qed

text \<open>
  The rendered short-term memory is never longer than its limit, whatever was said.
\<close>

theorem rendered_within_limit:
  assumes "3 \<le> max_chars"
  shows "length (render_context p words max_chars query room account s) \<le> max_chars"
  using assms by (simp add: render_context_def render_short_term_context_def Let_def length_cut_to)

definition demo_hints :: hint_env where
  "demo_hints = \<lparr>he_phrases = \<lparr>ph_related = ''Related'', ph_references = ''References'', ph_participants = ''Participants'',
       ph_thought = ''(thought) '', ph_open = [], ph_close = [], ph_relevance = (\<lambda>_. [])\<rparr>,
     he_words = py_words, he_age = (\<lambda>_. []), he_just_now = ''just now'', he_previous_topic = ''Before'', he_past_topic = ''Once'',
     he_topic = ''Topic: '', he_aged = (\<lambda>t. t), he_memory = ''Related memory: '', he_interest = ''Interest: '',
     he_participants = ''Here: '', he_topics = ''Topics: '', he_remembered = ''By the way: '', he_round4 = (\<lambda>x. x),
     he_time_label = ''morning'', he_working = ''Memory: '', he_preferences_query = ''preferences''\<rparr>"

lemma semantic_memory_never_hinted_witness:
  "vector_search (\<lambda>_. None) [(\<lparr>vd_id = ''l1'', vd_content = ''tea'', vd_type = ''lesson''\<rparr>, 0)] [] 2 0.2 \<noteq> [] \<and>
    (\<forall>m. build_user_context_hint demo_hints
      (\<lambda>q a. vector_search (\<lambda>_. None) [(\<lparr>vd_id = ''l1'', vd_content = ''tea'', vd_type = ''lesson''\<rparr>, 0)] [] 2 0.2)
      1 0 ''tea'' 0 ''den'' m =
    build_user_context_hint demo_hints (\<lambda>_ _. []) 1 0 ''tea'' 0 ''den'' m)"
proof (intro conjI allI)
  have h: "he_round4 demo_hints (PFloat 0) = PFloat 0" by (simp add: demo_hints_def)
  note n = semantic_memory_never_hinted [OF h, of "\<lambda>_ _. None" "\<lambda>_ _. [(\<lparr>vd_id = ''l1'', vd_content = ''tea'', vd_type = ''lesson''\<rparr>, 0)]"
      "\<lambda>_. []"]
  show "build_user_context_hint demo_hints
      (\<lambda>q a. vector_search (\<lambda>_. None) [(\<lparr>vd_id = ''l1'', vd_content = ''tea'', vd_type = ''lesson''\<rparr>, 0)] [] 2 0.2)
      1 0 ''tea'' 0 ''den'' m = build_user_context_hint demo_hints (\<lambda>_ _. []) 1 0 ''tea'' 0 ''den'' m" for m
    using n by blast
  show "vector_search (\<lambda>_. None) [(\<lparr>vd_id = ''l1'', vd_content = ''tea'', vd_type = ''lesson''\<rparr>, 0)] [] 2 0.2 \<noteq> []"
    by (simp add: vector_search_def merge_dense_def merge_sparse_def fill_contents_def score_of_def dget_or_def)
qed

end
