(* ===== verification/Planning.thy ===== *)
theory Planning
  imports Transport
begin

text \<open>
  From an input event to a queued plan (\<open>iris/agency/planning\<close>: decisions, handler, and
  \<open>iris/agency/execution/handler.py\<close>).

  The scorer reads the memories through the fields of \<open>score_inputs\<close>, where \<open>None\<close> is a
  reading that raises; the keyword tests of the urgency score (Japanese and English words) are
  \<open>bool\<close> arguments. The internal bus has one subscriber for decided plans, the execution
  handler, so a plan published on it is the argument of \<open>on_plan\<close>. The context builder, the task
  classifier and the limbic system are parameters.
\<close>

section \<open>Scoring a proactive utterance\<close>

record score_inputs =
  si_recent3 :: "string list option"
  si_search :: "string \<Rightarrow> real list option"
  si_recent2 :: "string list option"
  si_sensory_raw :: "bool option"
  si_turns :: "nat option"

record proactive_config =
  pv_w_memory :: real
  pv_w_context :: real
  pv_threshold :: real

record scores =
  sc_memory :: real
  sc_context :: real
  sc_sensory :: real
  sc_short_term :: real
  sc_urgency :: real

fun max_list :: "real list \<Rightarrow> real" where
  "max_list [] = 0"
| "max_list [x] = x"
| "max_list (x # xs) = max x (max_list xs)"

definition join_words :: "string list \<Rightarrow> string" where
  "join_words ws = (case ws of [] \<Rightarrow> [] | w # vs \<Rightarrow> w @ concat (map (\<lambda>v. '' '' @ v) vs))"

text \<open>\<open>safe_score\<close>: a reading that raises counts as 0.\<close>

definition safe_score :: "real option \<Rightarrow> real" where
  "safe_score x = (case x of None \<Rightarrow> 0 | Some v \<Rightarrow> v)"

definition memory_score :: "score_inputs \<Rightarrow> real option" where
  "memory_score i =
    (case si_recent3 i of
       None \<Rightarrow> None
     | Some rs \<Rightarrow>
        if rs = [] \<or> py_strip (join_words rs) = [] then Some 0
        else case si_search i (join_words rs) of
          None \<Rightarrow> None
        | Some ss \<Rightarrow> Some (if ss = [] then 0 else max_list ss))"

definition bigrams :: "string \<Rightarrow> (char \<times> char) set" where
  "bigrams s = set (zip s (tl s))"

definition context_score :: "score_inputs \<Rightarrow> real option" where
  "context_score i =
    map_option (\<lambda>rs.
      case lastn 2 rs of
        [a, b] \<Rightarrow>
          if length (py_strip a) < 10 \<and> length (py_strip b) < 10 then 0.7
          else if bigrams a = {} \<and> bigrams b = {} then 0.5
          else if bigrams a = {} \<or> bigrams b = {} then 0.3
          else min (real (card (bigrams a \<inter> bigrams b)) / real (card (bigrams a \<union> bigrams b)) + 0.2) 1
      | _ \<Rightarrow> 0.3) (si_recent2 i)"

definition sensory_score :: "score_inputs \<Rightarrow> real option" where
  "sensory_score i = map_option (\<lambda>r. if r then 0.6 else 0) (si_sensory_raw i)"

definition short_term_score :: "score_inputs \<Rightarrow> real option" where
  "short_term_score i = map_option (\<lambda>n. if 2 \<le> n then 0.5 else if n = 1 then 0.3 else 0) (si_turns i)"

definition content_urgency :: "bool \<Rightarrow> bool \<Rightarrow> string \<Rightarrow> real" where
  "content_urgency question demanding content =
    (if content = [] then 0
     else min ((if question then 0.3 else 0) + (if demanding then 0.3 else 0) +
               (if 100 < length content then 0.2 else 0) +
               (if 2 \<le> count_list content CHR ''!'' then 0.1 else 0)) 0.8)"

definition aggregate_scores :: "proactive_config \<Rightarrow> real \<Rightarrow> real \<Rightarrow> real \<Rightarrow> real \<Rightarrow> py_context \<Rightarrow> real" where
  "aggregate_scores cfg mem con sens urg context =
    (let t0 = pv_w_memory cfg * mem + pv_w_context cfg * con;
         t1 = (if 0 < sens then max t0 (sens * 0.3) else t0);
         t2 = max t1 (urg * 0.15)
     in if dget context ''system_event'' = Some (PStr ''connected'') then max t2 (pv_threshold cfg + 0.1) else t2)"

definition compute_scores :: "proactive_config \<Rightarrow> score_inputs \<Rightarrow> bool \<Rightarrow> bool \<Rightarrow> string \<Rightarrow> py_context \<Rightarrow> real \<times> scores" where
  "compute_scores cfg i question demanding content context =
    (let mem = safe_score (memory_score i);
         con = safe_score (context_score i);
         sens = safe_score (sensory_score i);
         stm = safe_score (short_term_score i);
         urg = content_urgency question demanding content;
         con' = (if 0 < stm then max con stm else con)
     in (aggregate_scores cfg mem con' sens urg context,
         \<lparr>sc_memory = mem, sc_context = con', sc_sensory = sens, sc_short_term = stm, sc_urgency = urg\<rparr>))"

definition scores_dump :: "scores \<Rightarrow> pyobj" where
  "scores_dump s = PDict
    [(''memory'', PFloat (sc_memory s)), (''context'', PFloat (sc_context s)), (''sensory'', PFloat (sc_sensory s)),
     (''short_term'', PFloat (sc_short_term s)), (''urgency'', PFloat (sc_urgency s))]"

section \<open>The judge\<close>

text \<open>\<open>hint\<close> is the context builder; the hint of an escalation is a text in Japanese around
  topic and summary, the parameter \<open>escalation_hint\<close>.\<close>

record judge_env =
  je_inputs :: score_inputs
  je_question :: bool
  je_demanding :: bool
  je_hint :: "py_context \<Rightarrow> scores \<Rightarrow> string"
  je_escalation_hint :: "string \<Rightarrow> string \<Rightarrow> string"

definition escalation_context :: "judge_env \<Rightarrow> py_context \<Rightarrow> py_context" where
  "escalation_context je context =
    (let topic = ctx_str context ''topic'' ''general''; summary = ctx_str context ''summary'' ''''
     in [(''from_timer'', PBool True), (''salience'', PFloat 1), (''scores'', PDict [(''curiosity'', PFloat 1)]),
         (''context_hint'', PStr (je_escalation_hint je topic summary)), (''topic'', PStr topic),
         (''is_silent_proactive'', PBool False), (''escalation'', PBool True), (''summary'', PStr summary)])"

definition judge_decide :: "proactive_config \<Rightarrow> judge_env \<Rightarrow> input_ready \<Rightarrow> py_context \<Rightarrow> py_context option" where
  "judge_decide cfg je ev context =
    (if ctx_truthy context ''escalation'' then Some (escalation_context je context)
     else case compute_scores cfg (je_inputs je) (je_question je) (je_demanding je) (ir_content ev) context of
       (tot, sc) \<Rightarrow>
         if tot < pv_threshold cfg then None
         else Some
           [(''from_timer'', PBool True), (''salience'', PFloat tot), (''scores'', scores_dump sc),
            (''context_hint'', PStr (je_hint je context sc)), (''topic'', PStr ''general''),
            (''is_silent_proactive'', PBool False), (''chaos_level'', PFloat (ctx_real context ''chaos_level'' 0)),
            (''room_id'', PStr (ir_room_id ev)), (''account_id'', PStr (ir_account_id ev))])"

section \<open>Planning and queueing\<close>

record agency =
  ag_inhibition :: inhibition
  ag_queue :: "plan list"

record agency_env =
  ae_inhibition_cfg :: inhibition_config
  ae_proactive :: proactive_config
  ae_now :: real
  ae_session :: "bool option"
  ae_judge :: judge_env
  ae_limbic :: "modulation option"
  ae_response_hint :: string
  ae_is_task :: bool

definition is_proactive_event :: "py_context \<Rightarrow> bool" where
  "is_proactive_event context \<longleftrightarrow>
     ctx_truthy context ''from_timer'' \<or> ''system_event'' \<in> set (dkeys context) \<or> ctx_truthy context ''escalation''"

definition apply_limbic_modulation :: "modulation option \<Rightarrow> plan \<Rightarrow> plan" where
  "apply_limbic_modulation lm p = (case lm of None \<Rightarrow> p | Some m \<Rightarrow> p\<lparr>pl_modulation := m\<rparr>)"

text \<open>The execution handler: a plan the inhibition does not allow is dropped.\<close>

definition on_plan :: "real \<Rightarrow> plan \<Rightarrow> agency \<Rightarrow> agency" where
  "on_plan now p s =
    (case evaluate now p (ag_inhibition s) of
       (d, inh) \<Rightarrow> s\<lparr>ag_inhibition := inh, ag_queue := (if gd_allow d then ag_queue s @ [p] else ag_queue s)\<rparr>)"

definition silent_overrides :: "(string, pyobj) dict \<Rightarrow> (string, pyobj) dict" where
  "silent_overrides d = dput ''priority'' (PInt 1) (dput ''max_tool_iterations'' (PInt 3)
    (dput ''allow_side_effects'' (PBool False) d))"

definition publish_plan :: "real \<Rightarrow> plan \<Rightarrow> string \<Rightarrow> string \<Rightarrow> string \<Rightarrow> agency \<Rightarrow> agency" where
  "publish_plan now p sid aid rid s =
    on_plan now (p\<lparr>pl_session_id := sid, pl_account_id := aid, pl_room_id := rid,
        pl_overrides := (if pl_silent p then silent_overrides (pl_overrides p) else pl_overrides p)\<rparr>) s"

definition on_user_input :: "agency_env \<Rightarrow> input_ready \<Rightarrow> agency \<Rightarrow> agency" where
  "on_user_input e ev s =
    (let chaos = ctx_real (case ir_context ev of None \<Rightarrow> [] | Some c \<Rightarrow> c) ''chaos_level'' 0;
         p = apply_limbic_modulation (ae_limbic e)
               (build_response (ae_response_hint e) (ae_is_task e) (ir_content ev) chaos (ir_room_id ev) (ir_account_id ev))
     in publish_plan (ae_now e) p (ir_session_id ev) (ir_account_id ev) (ir_room_id ev) s)"

definition on_proactive_event :: "agency_env \<Rightarrow> input_ready \<Rightarrow> py_context \<Rightarrow> agency \<Rightarrow> agency" where
  "on_proactive_event e ev context s =
    (case should_suppress_proactive (ae_inhibition_cfg e) (ae_now e) (ae_session e) (ir_room_id ev) (ag_inhibition s) of
       (blocked, inh) \<Rightarrow>
         (let s1 = s\<lparr>ag_inhibition := inh\<rparr>
          in if blocked then s1
             else case judge_decide (ae_proactive e) (ae_judge e) ev context of
               None \<Rightarrow> s1
             | Some pc \<Rightarrow>
                (let p = apply_limbic_modulation (ae_limbic e) (build_proactive pc)
                 in if mod_suppresses_proactive (pl_modulation p) then s1
                    else publish_plan (ae_now e) p (ir_session_id ev)
                      (or_else (ir_account_id ev) (ctx_str context ''identity'' '''')) (ir_room_id ev) s1)))"

definition on_input_ready :: "agency_env \<Rightarrow> input_ready \<Rightarrow> agency \<Rightarrow> agency" where
  "on_input_ready e ev s =
    (let context = (case ir_context ev of None \<Rightarrow> [] | Some c \<Rightarrow> c)
     in if is_proactive_event context then on_proactive_event e ev context s else on_user_input e ev s)"

section \<open>Claims\<close>

lemma ag_queue_on_plan:
  "ag_queue (on_plan now p s) = (if gd_allow (fst (evaluate now p (ag_inhibition s))) then ag_queue s @ [p] else ag_queue s)"
  by (simp add: on_plan_def split: prod.split)

lemma client_context_not_proactive: "\<not> is_proactive_event (the (ir_context (input_event m sp aid)))"
  by (simp add: is_proactive_event_def input_event_def ctx_truthy_def)

lemma evaluate_user_input:
  assumes "user_safe s" and "pl_reason p = USER_INPUT"
  shows "gd_allow (fst (evaluate now p s)) \<longleftrightarrow> \<not> hyperdirect_blocks now p s"
proof -
  let ?s = "s\<lparr>in_gate := touch_gate (pl_room_id p) (in_gate s)\<rparr>"
  have "\<not> (se_reason e \<noteq> ''hyperdirect'' \<and> applies_to now ''user_input'' (Some (pl_room_id p)) e)"
    if "e \<in> set (dvalues (in_suppressions ?s))" for e
    using that assms(1) by (auto simp: user_safe_def applies_to_def)
  then have "find (\<lambda>e. se_reason e \<noteq> ''hyperdirect'' \<and> applies_to now ''user_input'' (Some (pl_room_id p)) e)
      (dvalues (in_suppressions ?s)) = None"
    unfolding find_None_iff' by blast
  then show ?thesis
    using assms(2) by (simp add: evaluate_def evaluate_profiles_def Let_def)
qed

text \<open>
  C4: what a client says becomes a plan that answers it and nothing else: the input event the
  gateway publishes is never taken for a proactive one, and the plan, with the client's text, room
  and session, is queued unless a global emergency stop is in force, whatever other suppressions,
  executions or cooldowns there are.
\<close>

theorem client_input_queued:
  assumes "ag_inhibition s = inhibition_run cfg ops"
  shows "\<exists>p. pl_reason p = USER_INPUT \<and> pl_content p = Plain (mg_content m) \<and> pl_room_id p = mg_room_id m \<and>
    pl_session_id p = mg_session_id m \<and> pl_account_id p = aid \<and>
    ag_queue (on_input_ready e (input_event m sp aid) s) =
      ag_queue s @ (if hyperdirect_blocks (ae_now e) p (ag_inhibition s) then [] else [p])"
proof -
  let ?ev = "input_event m sp aid"
  let ?p0 = "apply_limbic_modulation (ae_limbic e) (build_response (ae_response_hint e) (ae_is_task e) (mg_content m)
      (ctx_real (the (ir_context ?ev)) ''chaos_level'' 0) (mg_room_id m) aid)"
  let ?p = "?p0\<lparr>pl_session_id := mg_session_id m, pl_account_id := aid, pl_room_id := mg_room_id m, pl_overrides := pl_overrides ?p0\<rparr>"
  have silent: "pl_silent ?p0 = False" and p: "pl_reason ?p = USER_INPUT" "pl_content ?p = Plain (mg_content m)"
    by (simp_all add: apply_limbic_modulation_def build_response_def split: option.split)
  have "on_input_ready e ?ev s = on_user_input e ?ev s"
    using client_context_not_proactive [of m sp aid] by (simp add: on_input_ready_def input_event_def)
  moreover have "on_user_input e ?ev s = on_plan (ae_now e) ?p s"
    using silent by (simp add: on_user_input_def publish_plan_def input_event_def Let_def)
  moreover have "ag_queue (on_plan (ae_now e) ?p s) =
      ag_queue s @ (if hyperdirect_blocks (ae_now e) ?p (ag_inhibition s) then [] else [?p])"
    using evaluate_user_input [OF user_safe_run p(1), where now = "ae_now e" and cfg1 = cfg and ops1 = ops]
    by (simp add: ag_queue_on_plan assms)
  ultimately have "ag_queue (on_input_ready e ?ev s) =
      ag_queue s @ (if hyperdirect_blocks (ae_now e) ?p (ag_inhibition s) then [] else [?p])"
    by metis
  with p show ?thesis by (intro exI [of _ ?p]) simp
qed

definition demo_agency :: "inhibition \<Rightarrow> agency" where
  "demo_agency i = \<lparr>ag_inhibition = i, ag_queue = []\<rparr>"

definition demo_judge :: judge_env where
  "demo_judge = \<lparr>je_inputs = \<lparr>si_recent3 = Some [], si_search = (\<lambda>_. Some []), si_recent2 = Some [], si_sensory_raw = Some False, si_turns = Some 0\<rparr>,
     je_question = False, je_demanding = False, je_hint = (\<lambda>_ _. ''''), je_escalation_hint = (\<lambda>_ _. '''')\<rparr>"

definition demo_agency_env :: agency_env where
  "demo_agency_env = \<lparr>ae_inhibition_cfg = demo_config, ae_proactive = \<lparr>pv_w_memory = 0.55, pv_w_context = 0.3, pv_threshold = 0.3\<rparr>,
     ae_now = 2, ae_session = Some True, ae_judge = demo_judge, ae_limbic = None, ae_response_hint = '''', ae_is_task = False\<rparr>"

theorem client_input_queued_witness:
  "length (ag_queue (on_input_ready demo_agency_env (input_event demo_request
     \<lparr>im_provider = ''local'', im_subject = ''ann'', im_provider_name = '''', im_metadata = []\<rparr> ''a1'')
     (demo_agency (inhibition_run demo_config [Request 1 \<lparr>rq_action = ''true'', rq_reason = ''speaking'', rq_duration = 9, rq_room = ''r1''\<rparr>])))) = 1"
proof -
  let ?i = "inhibition_run demo_config [Request 1 \<lparr>rq_action = ''true'', rq_reason = ''speaking'', rq_duration = 9, rq_room = ''r1''\<rparr>]"
  have "\<not> hyperdirect_blocks t p ?i" for t p
    by (simp add: hyperdirect_blocks_def inhibition_run_def on_request_event_def suppress_def new_inhibition_def make_key_def
        room_or_empty_def room_option_def Let_def)
  then show ?thesis
    using client_input_queued [of "demo_agency ?i" demo_config "[Request 1 \<lparr>rq_action = ''true'', rq_reason = ''speaking'', rq_duration = 9, rq_room = ''r1''\<rparr>]"
        demo_request "''a1''" demo_agency_env "\<lparr>im_provider = ''local'', im_subject = ''ann'', im_provider_name = '''', im_metadata = []\<rparr>"]
    by (auto simp: demo_agency_def)
qed

text \<open>
  one suppression that is active in any room holds back the proactive utterances of every room:
  the query the planning handler makes takes the room for executions and cooldowns only.
\<close>

theorem suppression_silences_every_room:
  assumes "su \<in> set (dvalues (in_suppressions (ag_inhibition s)))" and "entry_active (ae_now e) su"
    and "ir_context ev = Some context" and "is_proactive_event context"
  shows "ag_queue (on_input_ready e ev s) = ag_queue s"
proof -
  have "has_active_suppression (ae_now e) (ag_inhibition s)"
    using assms(1,2) by (auto simp: has_active_suppression_def)
  then have "fst (should_suppress_proactive (ae_inhibition_cfg e) (ae_now e) (ae_session e) (ir_room_id ev) (ag_inhibition s))"
    by (simp add: should_suppress_proactive_def split: prod.split)
  then obtain inh where "should_suppress_proactive (ae_inhibition_cfg e) (ae_now e) (ae_session e) (ir_room_id ev)
      (ag_inhibition s) = (True, inh)" by (metis prod.collapse)
  then show ?thesis
    using assms(3,4) by (simp add: on_input_ready_def on_proactive_event_def Let_def)
qed

text \<open>The mind is speaking in room \<open>r1\<close>, the event is for room \<open>r2\<close>.\<close>

end
