(* ===== verification/Execution.thy ===== *)
theory Execution
  imports Planning
begin

text \<open>
  Carrying out a plan (\<open>iris/agency/execution\<close>: executor, orchestrator, router,
  routing\_decision, state\_transition, node\_type and nodes).

  The graph library calls the nodes and edge functions of \<open>orchestrator.py\<close>; \<open>limit\<close> is its
  bound on steps, after which it raises. Whether what an edge function writes into the state it was
  given is seen by the next node is the library's choice, the parameter \<open>keep\<close>. (A node
  writes through the list of messages and through its returned update, which every choice keeps.)
  The language model is the parameter \<open>chat\<close>, the tool engine the parameter of type
  \<open>tool_engine\<close>. A plan's text is kept as \<open>plan_text\<close>, and \<open>name_of\<close> is the display name of an
  account.
\<close>

section \<open>State\<close>

type_synonym tool_call = "string \<times> (string, pyobj) dict"

datatype chat_msg =
    HumanMsg string plan_text
  | AIMsg string "tool_call list"
  | ToolMsg string string
  | ErrorMsg

record exec_state =
  es_plan :: plan
  es_messages :: "chat_msg list"
  es_response_text :: string
  es_tool_iterations :: int
  es_interrupted :: bool
  es_error :: bool
  es_completed :: bool
  es_node_type :: string
  es_level_idx :: int
  es_chain_depth :: int

definition build_execution_state :: "plan \<Rightarrow> chat_msg list \<Rightarrow> exec_state" where
  "build_execution_state p ms =
    \<lparr>es_plan = p, es_messages = ms, es_response_text = '''', es_tool_iterations = 0, es_interrupted = False,
     es_error = False, es_completed = False, es_node_type = ''general_chat'', es_level_idx = 0, es_chain_depth = 0\<rparr>"

record node_type =
  nt_name :: string
  nt_entry_level :: string
  nt_levels :: "string list"
  nt_max_chain_depth :: int
  nt_routing_targets :: "string list"
  nt_tools :: "(string, string list option) dict"

definition NODE_TYPES :: "(string, node_type) dict" where
  "NODE_TYPES =
    [(''general_chat'',
      \<lparr>nt_name = ''general_chat'', nt_entry_level = ''chat'', nt_levels = [''chat'', ''light''], nt_max_chain_depth = 10,
       nt_routing_targets = [''general_chat'', ''general_task'', ''finish''],
       nt_tools = [(''chat'', Some []), (''light'', Some [''web_search'', ''read_file''])]\<rparr>),
     (''general_task'',
      \<lparr>nt_name = ''general_task'', nt_entry_level = ''normal'', nt_levels = [''normal'', ''deep'', ''research''], nt_max_chain_depth = 3,
       nt_routing_targets = [''general_chat'', ''general_task'', ''deep_task'', ''finish''],
       nt_tools = [(''normal'', None), (''deep'', None), (''research'', None)]\<rparr>)]"

section \<open>Routing\<close>

record route_decision =
  rd_next :: string
  rd_node_type :: "string option"
  rd_chain_depth :: "int option"
  rd_level_idx :: "int option"

definition go_to :: "string \<Rightarrow> route_decision" where
  "go_to n = \<lparr>rd_next = n, rd_node_type = None, rd_chain_depth = None, rd_level_idx = None\<rparr>"

definition index_of :: "string \<Rightarrow> string list \<Rightarrow> int" where
  "index_of x xs = int (length (takeWhile (\<lambda>y. y \<noteq> x) xs))"

definition task_node :: node_type where
  "task_node = the (dget NODE_TYPES ''general_task'')"

text \<open>The first routing tool among the calls decides; \<open>None\<close> when there is none.\<close>

fun route_by_call :: "exec_state \<Rightarrow> tool_call list \<Rightarrow> route_decision option" where
  "route_by_call s [] = None"
| "route_by_call s ((name, args) # tcs) =
    (if name = ''general_chat'' then
       Some \<lparr>rd_next = ''general_chat'', rd_node_type = Some ''general_chat'', rd_chain_depth = Some (es_chain_depth s + 1),
             rd_level_idx = None\<rparr>
     else if name = ''general_task'' then
       Some \<lparr>rd_next = ''general_task'', rd_node_type = Some ''general_task'', rd_chain_depth = Some 0,
             rd_level_idx = Some (index_of (nt_entry_level task_node) (nt_levels task_node))\<rparr>
     else if name = ''deep_task'' then
       (let nt = dget_or NODE_TYPES (es_node_type s) task_node; i = es_level_idx s + 1
        in Some \<lparr>rd_next = es_node_type s, rd_node_type = None, rd_chain_depth = Some 0,
                 rd_level_idx = (if i < int (length (nt_levels nt)) then Some i else None)\<rparr>)
     else if name = ''finish'' then Some (go_to ''finalize'')
     else route_by_call s tcs)"

fun calls_of :: "chat_msg \<Rightarrow> tool_call list" where
  "calls_of (AIMsg t tcs) = tcs"
| "calls_of _ = []"

definition decide_next_route :: "exec_state \<Rightarrow> route_decision" where
  "decide_next_route s =
    (if es_interrupted s \<or> es_error s \<or> es_messages s = [] then go_to ''finalize''
     else case route_by_call s (calls_of (last (es_messages s))) of
       Some d \<Rightarrow> d
     | None \<Rightarrow> go_to (if calls_of (last (es_messages s)) \<noteq> [] then ''execute_tools'' else ''finalize''))"

text \<open>\<open>None\<close> is the \<open>KeyError\<close> of a plan with an unknown task level.\<close>

definition decide_after_tools :: "exec_state \<Rightarrow> route_decision option" where
  "decide_after_tools s =
    map_option (\<lambda>l. if tl_max_tool_iterations l \<le> es_tool_iterations s then go_to ''finalize'' else go_to (es_node_type s))
      (dget TASK_LEVELS (pl_task_level (es_plan s)))"

definition apply_route_transition :: "route_decision \<Rightarrow> exec_state \<Rightarrow> exec_state" where
  "apply_route_transition d s =
    (let s1 = (case rd_node_type d of None \<Rightarrow> s | Some n \<Rightarrow> s\<lparr>es_node_type := n\<rparr>);
         s2 = (case rd_chain_depth d of None \<Rightarrow> s1 | Some c \<Rightarrow> s1\<lparr>es_chain_depth := c\<rparr>)
     in case rd_level_idx d of None \<Rightarrow> s2 | Some i \<Rightarrow> s2\<lparr>es_level_idx := i\<rparr>)"

definition route_after_llm :: "exec_state \<Rightarrow> string \<times> exec_state" where
  "route_after_llm s = (let d = decide_next_route s in (rd_next d, apply_route_transition d s))"

definition route_after_tools :: "exec_state \<Rightarrow> (string \<times> exec_state) option" where
  "route_after_tools s = map_option (\<lambda>d. (rd_next d, apply_route_transition d s)) (decide_after_tools s)"

section \<open>Nodes\<close>

record tool_engine =
  te_named :: "string list \<Rightarrow> bool \<Rightarrow> string list"
  te_all :: "bool \<Rightarrow> string list"
  te_run :: "tool_call \<Rightarrow> string option"
  te_side_effect :: "string \<Rightarrow> bool"

record chat_params =
  cp_model_role :: string
  cp_temperature :: "real option"
  cp_max_tokens :: "int option"
  cp_priority :: pyobj
  cp_show_thinking :: bool

text \<open>The tokens streamed before the outcome; a reply comes with whether the interrupt token was
  cancelled meanwhile.\<close>

datatype chat_result = ChatFails "string list" | ChatReply "string list" string "tool_call list" bool

type_synonym language_model = "chat_msg list \<Rightarrow> string list option \<Rightarrow> chat_params \<Rightarrow> chat_result"

record graph_state =
  gs_state :: exec_state
  gs_turns :: "(string \<times> chat_msg \<times> string \<times> string) list"
  gs_out :: "out_event list"

record graph_env =
  ge_chat :: language_model
  ge_tools :: "tool_engine option"
  ge_name_of :: "string \<Rightarrow> string"
  ge_has_memory :: bool
  ge_has_bus :: bool

definition stream_event :: "plan \<Rightarrow> string \<Rightarrow> string \<Rightarrow> out_event" where
  "stream_event p state content =
    \<lparr>oe_session_id = pl_session_id p, oe_source_role = '''', oe_account_id = '''', oe_direction = ''stream'', oe_msg_type = ''chat'',
     oe_content = content, oe_state = Some state, oe_correlation_id = None, oe_room_id = pl_room_id p\<rparr>"

definition is_system_text :: "plan_text \<Rightarrow> bool" where
  "is_system_text t = (case t of Plain x \<Rightarrow> starts_with ''[system]'' x | _ \<Rightarrow> False)"

definition add_turn_of :: "string \<Rightarrow> chat_msg \<Rightarrow> plan \<Rightarrow> graph_state \<Rightarrow> graph_state" where
  "add_turn_of role m p g = g\<lparr>gs_turns := gs_turns g @ [(role, m, pl_account_id p, pl_room_id p)]\<rparr>"

definition emit :: "graph_env \<Rightarrow> out_event \<Rightarrow> graph_state \<Rightarrow> graph_state" where
  "emit e ev g = (if ge_has_bus e then g\<lparr>gs_out := gs_out g @ [ev]\<rparr> else g)"

definition setup_node :: "graph_env \<Rightarrow> graph_state \<Rightarrow> graph_state option" where
  "setup_node e g =
    (let p = es_plan (gs_state g)
     in case dget TASK_LEVELS (pl_task_level p) of
          None \<Rightarrow> None
        | Some level \<Rightarrow>
           (let g1 = (if pl_content p = Plain '''' then g
                 else let system = is_system_text (pl_content p);
                          prefix = (if \<not> system \<and> pl_account_id p \<noteq> '''' then ge_name_of e (pl_account_id p) else '''');
                          m = HumanMsg prefix (pl_content p);
                          g0 = g\<lparr>gs_state := (gs_state g)\<lparr>es_messages := es_messages (gs_state g) @ [m]\<rparr>\<rparr>
                      in if ge_has_memory e then add_turn_of (if system then ''system'' else ''user'') m p g0 else g0)
            in Some (if tl_show_thinking level then emit e (stream_event p ''thinking'' '''') g1 else g1)))"

definition current_level_name :: "node_type \<Rightarrow> exec_state \<Rightarrow> string" where
  "current_level_name nt s =
    (if 0 \<le> es_level_idx s \<and> es_level_idx s < int (length (nt_levels nt)) then nt_levels nt ! nat (es_level_idx s)
     else nt_entry_level nt)"

definition side_effects_allowed :: "plan \<Rightarrow> bool" where
  "side_effects_allowed p = (case dget (pl_overrides p) ''allow_side_effects'' of None \<Rightarrow> True | Some v \<Rightarrow> truthy v)"

definition get_tools :: "graph_env \<Rightarrow> node_type \<Rightarrow> string \<Rightarrow> plan \<Rightarrow> string list" where
  "get_tools e nt level p =
    (case ge_tools e of
       None \<Rightarrow> []
     | Some te \<Rightarrow>
        (case dget (nt_tools nt) level of
           Some (Some names) \<Rightarrow> te_named te names (side_effects_allowed p)
         | _ \<Rightarrow> te_all te (side_effects_allowed p)))"

definition build_routing_tools :: "node_type \<Rightarrow> exec_state \<Rightarrow> string list" where
  "build_routing_tools nt s =
    (if nt_max_chain_depth nt \<le> es_chain_depth s then filter (\<lambda>t. t \<noteq> nt_name nt) (nt_routing_targets nt)
     else nt_routing_targets nt)"

definition build_chat_params :: "node_type \<Rightarrow> task_level \<Rightarrow> chat_params" where
  "build_chat_params nt l =
    (if nt_name nt = ''general_chat''
     then \<lparr>cp_model_role = ''low'', cp_temperature = Some (case tl_temperature l of None \<Rightarrow> 0.85 | Some t \<Rightarrow> t),
           cp_max_tokens = Some 256, cp_priority = PInt (tl_priority l), cp_show_thinking = False\<rparr>
     else \<lparr>cp_model_role = tl_model_role l, cp_temperature = tl_temperature l,
           cp_max_tokens = (if tl_max_tokens l = 0 then None else Some (tl_max_tokens l)),
           cp_priority = PInt (tl_priority l), cp_show_thinking = tl_show_thinking l\<rparr>)"

definition resolve_chat_params :: "node_type \<Rightarrow> task_level \<Rightarrow> plan \<Rightarrow> chat_params" where
  "resolve_chat_params nt l p =
    (let c = build_chat_params nt l
     in c\<lparr>cp_priority := (case dget (pl_overrides p) ''priority'' of None \<Rightarrow> cp_priority c | Some v \<Rightarrow> v),
          cp_max_tokens := (case cp_max_tokens c of None \<Rightarrow> None
            | Some n \<Rightarrow> Some (if 0 < tl_max_tokens l then min n (tl_max_tokens l) else n)),
          cp_temperature := (case (cp_temperature c, tl_temperature l) of (Some a, Some b) \<Rightarrow> Some (min a b) | _ \<Rightarrow> cp_temperature c)\<rparr>)"

definition set_state :: "exec_state \<Rightarrow> graph_state \<Rightarrow> graph_state" where
  "set_state s g = g\<lparr>gs_state := s\<rparr>"

definition emit_tokens :: "graph_env \<Rightarrow> plan \<Rightarrow> string list \<Rightarrow> graph_state \<Rightarrow> graph_state" where
  "emit_tokens e p ds g = fold (\<lambda>d. emit e (stream_event p ''speaking'' d)) ds g"

definition llm_node :: "graph_env \<Rightarrow> node_type \<Rightarrow> graph_state \<Rightarrow> graph_state option" where
  "llm_node e nt g =
    (let s = gs_state g; p = es_plan s; level = current_level_name nt s
     in if es_interrupted s then Some g
        else case dget TASK_LEVELS level of
          None \<Rightarrow> None
        | Some l \<Rightarrow>
            (let tools = get_tools e nt level p @ build_routing_tools nt s
             in case ge_chat e (es_messages s) (if tools = [] then None else Some tools) (resolve_chat_params nt l p) of
               ChatFails ds \<Rightarrow> Some (set_state (s\<lparr>es_error := True, es_response_text := ''''\<rparr>) (emit_tokens e p ds g))
             | ChatReply ds txt' tcs cancelled \<Rightarrow>
                 if cancelled then Some (set_state (s\<lparr>es_response_text := '''', es_interrupted := True\<rparr>) (emit_tokens e p ds g))
                 else let s1 = s\<lparr>es_messages := es_messages s @ [AIMsg txt' tcs], es_response_text := py_strip txt'\<rparr>;
                          g1 = set_state s1 (emit_tokens e p ds g)
                      in Some (if py_strip txt' \<noteq> '''' \<and> ge_has_memory e then add_turn_of ''assistant'' (AIMsg (py_strip txt') []) p g1 else g1)))"

fun truncate_output :: "chat_msg \<Rightarrow> chat_msg" where
  "truncate_output (ToolMsg n c) = ToolMsg n (if 200 < length c then take 200 c @ ''...'' else c)"
| "truncate_output m = m"

text \<open>
  The messages appended for a list of calls, which of them had a side effect, and whether all tools
  returned: a tool that raises stops the loop.
\<close>

fun run_calls :: "tool_engine \<Rightarrow> tool_call list \<Rightarrow> chat_msg list \<times> bool list \<times> bool" where
  "run_calls te [] = ([], [], True)"
| "run_calls te (tc # tcs) = (case te_run te tc of
     None \<Rightarrow> ([], [], False)
   | Some r \<Rightarrow> (case run_calls te tcs of (ms, sides, ok) \<Rightarrow>
       (if te_side_effect te (fst tc) then ms else ToolMsg (fst tc) r # ms, te_side_effect te (fst tc) # sides, ok)))"

definition run_tool_calls :: "tool_engine \<Rightarrow> chat_msg list \<Rightarrow> chat_msg list \<times> bool list \<times> bool" where
  "run_tool_calls te ms =
    (let (new, sides, ok) = run_calls te (if ms = [] then [] else calls_of (last ms)) in (ms @ new, sides, ok))"

definition tool_node :: "graph_env \<Rightarrow> graph_state \<Rightarrow> graph_state option" where
  "tool_node e g =
    (case ge_tools e of
       None \<Rightarrow> Some g
     | Some te \<Rightarrow>
        (let s = gs_state g
         in case run_tool_calls te (es_messages s) of
              (ms, sides, ok) \<Rightarrow> if \<not> ok then None
                else Some (set_state (s\<lparr>es_messages := map truncate_output ms,
                  es_tool_iterations := (if sides \<noteq> [] \<and> list_all id sides then 99 else es_tool_iterations s + 1)\<rparr>) g)))"

text \<open>What a node that raises leaves behind: the tool node has appended the messages of the tools that returned.\<close>

definition unfinished_tools :: "graph_env \<Rightarrow> graph_state \<Rightarrow> graph_state" where
  "unfinished_tools e g = (case ge_tools e of
     None \<Rightarrow> g
   | Some te \<Rightarrow> set_state ((gs_state g)\<lparr>es_messages := fst (run_tool_calls te (es_messages (gs_state g)))\<rparr>) g)"

definition finalize_node :: "graph_env \<Rightarrow> graph_state \<Rightarrow> graph_state" where
  "finalize_node e g =
    (let s = gs_state g; g1 = set_state (s\<lparr>es_completed := True\<rparr>) g
     in if es_interrupted s then g1 else emit e (stream_event (es_plan s) ''done'' '''') g1)"

section \<open>The graph\<close>

datatype node = Prepare | ChatNode | TaskNode | ToolsNode | Finalize

definition chat_node :: node_type where
  "chat_node = the (dget NODE_TYPES ''general_chat'')"

fun exec_node :: "graph_env \<Rightarrow> node \<Rightarrow> graph_state \<Rightarrow> graph_state option" where
  "exec_node e Prepare g = setup_node e g"
| "exec_node e ChatNode g = llm_node e chat_node g"
| "exec_node e TaskNode g = llm_node e task_node g"
| "exec_node e ToolsNode g = tool_node e g"
| "exec_node e Finalize g = Some (finalize_node e g)"

definition unfinished :: "graph_env \<Rightarrow> node \<Rightarrow> graph_state \<Rightarrow> graph_state" where
  "unfinished e n g = (if n = ToolsNode then unfinished_tools e g else g)"

definition llm_targets :: "(string, node) dict" where
  "llm_targets = [(''general_chat'', ChatNode), (''general_task'', TaskNode), (''execute_tools'', ToolsNode), (''finalize'', Finalize)]"

definition tool_targets :: "(string, node) dict" where
  "tool_targets = [(''general_chat'', ChatNode), (''general_task'', TaskNode), (''finalize'', Finalize)]"

text \<open>\<open>None\<close> is an exception of the edge function or an unknown target.\<close>

definition take_edge :: "bool \<Rightarrow> (string, node) dict \<Rightarrow> string \<times> exec_state \<Rightarrow> graph_state \<Rightarrow> (node \<times> graph_state) option" where
  "take_edge keep targets r g = map_option (\<lambda>n. (n, if keep then set_state (snd r) g else g)) (dget targets (fst r))"

fun next_node :: "bool \<Rightarrow> node \<Rightarrow> graph_state \<Rightarrow> (node \<times> graph_state) option" where
  "next_node keep Prepare g = Some (ChatNode, g)"
| "next_node keep ToolsNode g =
    (case route_after_tools (gs_state g) of None \<Rightarrow> None | Some r \<Rightarrow> take_edge keep tool_targets r g)"
| "next_node keep Finalize g = None"
| "next_node keep _ g = take_edge keep llm_targets (route_after_llm (gs_state g)) g"

datatype graph_result = Finished graph_state | Raised graph_state

text \<open>The nodes visited and the result.\<close>

fun run_graph :: "bool \<Rightarrow> graph_env \<Rightarrow> nat \<Rightarrow> node \<Rightarrow> graph_state \<Rightarrow> node list \<times> graph_result" where
  "run_graph keep e 0 n g = ([], Raised g)"
| "run_graph keep e (Suc k) n g =
    (case exec_node e n g of
       None \<Rightarrow> ([n], Raised (unfinished e n g))
     | Some g1 \<Rightarrow>
        if n = Finalize then ([n], Finished g1)
        else case next_node keep n g1 of
          None \<Rightarrow> ([n], Raised g1)
        | Some (n', g2) \<Rightarrow> (case run_graph keep e k n' g2 of (ns, r) \<Rightarrow> (n # ns, r)))"

section \<open>The executor\<close>

record executor =
  ex_messages :: "chat_msg list"
  ex_inhibition :: inhibition

fun ai_text :: "chat_msg \<Rightarrow> string" where
  "ai_text (AIMsg t tcs) = t"
| "ai_text _ = ''''"

fun result_state :: "graph_result \<Rightarrow> graph_state" where
  "result_state (Finished g) = g"
| "result_state (Raised g) = g"

fun result_messages :: "graph_result \<Rightarrow> chat_msg list" where
  "result_messages (Finished g) = es_messages (gs_state g)"
| "result_messages (Raised g) = es_messages (gs_state g) @ [ErrorMsg]"

text \<open>The result says whether the plan was carried out; \<open>start\<close> and \<open>end\<close> are the clock when
  the gate is acquired and released.\<close>

definition process :: "inhibition_config \<Rightarrow> real \<Rightarrow> bool \<Rightarrow> graph_env \<Rightarrow> nat \<Rightarrow> real \<Rightarrow> real \<Rightarrow> plan \<Rightarrow> executor \<Rightarrow>
    bool \<times> executor \<times> out_event list" where
  "process cfg mora keep e limit t0 t1 p x =
    (let room = pl_room_id p;
         inh0 = ex_inhibition x;
         inh1 = (if pl_reason p = USER_INPUT then inh0\<lparr>in_gate := gate_force_release room (in_gate inh0)\<rparr> else inh0)
     in case gate_acquire t0 room (in_gate inh1) of
          (d, ga) \<Rightarrow>
            (let inh2 = inh1\<lparr>in_gate := ga\<rparr>
             in if \<not> gd_allow d then (False, x\<lparr>ex_inhibition := inh2\<rparr>, [])
                else let r = snd (run_graph keep e limit Prepare
                           \<lparr>gs_state = build_execution_state p (ex_messages x), gs_turns = [], gs_out = []\<rparr>);
                         ms = result_messages r;
                         inh3 = inh2\<lparr>in_gate := gate_release cfg t1 room (in_gate inh2)\<rparr>;
                         spoken = concat (map ai_text (drop (length (ex_messages x)) ms));
                         inh4 = (if spoken \<noteq> '''' then suppress t1 ''speaking'' (real (length spoken) / mora) (Some room) None inh3 else inh3)
                     in (True, \<lparr>ex_messages = ms, ex_inhibition = inh4\<rparr>, gs_out (result_state r))))"

section \<open>Lemmas\<close>

lemma set_state_simps [simp]:
  "gs_state (set_state s g) = s" "gs_turns (set_state s g) = gs_turns g" "gs_out (set_state s g) = gs_out g"
  by (simp_all add: set_state_def)

lemma emit_simps [simp]:
  "gs_state (emit e ev g) = gs_state g" "gs_turns (emit e ev g) = gs_turns g"
  "gs_out (emit e ev g) = gs_out g @ (if ge_has_bus e then [ev] else [])"
  by (simp_all add: emit_def)

lemma emit_tokens_simps [simp]:
  "gs_state (emit_tokens e p ds g) = gs_state g" "gs_turns (emit_tokens e p ds g) = gs_turns g"
  "gs_out (emit_tokens e p ds g) = gs_out g @ (if ge_has_bus e then map (stream_event p ''speaking'') ds else [])"
  unfolding emit_tokens_def by (induction ds arbitrary: g) auto

lemma add_turn_simps [simp]:
  "gs_state (add_turn_of r m p g) = gs_state g" "gs_out (add_turn_of r m p g) = gs_out g"
  by (simp_all add: add_turn_of_def)

text \<open>What a node leaves alone.\<close>

lemma setup_node_frame:
  "setup_node e g = Some g1 \<Longrightarrow> es_plan (gs_state g1) = es_plan (gs_state g) \<and>
    es_tool_iterations (gs_state g1) = es_tool_iterations (gs_state g) \<and> es_node_type (gs_state g1) = es_node_type (gs_state g) \<and>
    es_level_idx (gs_state g1) = es_level_idx (gs_state g) \<and> es_chain_depth (gs_state g1) = es_chain_depth (gs_state g)"
  by (auto simp: setup_node_def Let_def split: option.splits if_splits)

lemma llm_node_frame:
  "llm_node e nt g = Some g1 \<Longrightarrow> es_plan (gs_state g1) = es_plan (gs_state g) \<and>
    es_tool_iterations (gs_state g1) = es_tool_iterations (gs_state g) \<and> es_node_type (gs_state g1) = es_node_type (gs_state g) \<and>
    es_level_idx (gs_state g1) = es_level_idx (gs_state g) \<and> es_chain_depth (gs_state g1) = es_chain_depth (gs_state g)"
  by (auto simp: llm_node_def Let_def split: option.splits chat_result.splits if_splits)

lemma tool_node_frame:
  "tool_node e g = Some g1 \<Longrightarrow> es_plan (gs_state g1) = es_plan (gs_state g) \<and> es_node_type (gs_state g1) = es_node_type (gs_state g) \<and>
    es_level_idx (gs_state g1) = es_level_idx (gs_state g) \<and> es_chain_depth (gs_state g1) = es_chain_depth (gs_state g)"
  by (auto simp: tool_node_def Let_def split: option.splits prod.splits if_splits)

lemma unfinished_frame [simp]:
  "es_plan (gs_state (unfinished e n g)) = es_plan (gs_state g)" "es_node_type (gs_state (unfinished e n g)) = es_node_type (gs_state g)"
  "es_level_idx (gs_state (unfinished e n g)) = es_level_idx (gs_state g)" "es_chain_depth (gs_state (unfinished e n g)) = es_chain_depth (gs_state g)"
  "gs_out (unfinished e n g) = gs_out g"
  by (auto simp: unfinished_def unfinished_tools_def split: option.split)

lemma exec_node_frame:
  "exec_node e n g = Some g1 \<Longrightarrow> es_plan (gs_state g1) = es_plan (gs_state g) \<and> es_node_type (gs_state g1) = es_node_type (gs_state g) \<and>
    es_level_idx (gs_state g1) = es_level_idx (gs_state g) \<and> es_chain_depth (gs_state g1) = es_chain_depth (gs_state g)"
  by (cases n) (auto dest: setup_node_frame llm_node_frame tool_node_frame simp: finalize_node_def Let_def)

lemma exec_node_iterations:
  "exec_node e n g = Some g1 \<Longrightarrow> n \<noteq> ToolsNode \<Longrightarrow> es_tool_iterations (gs_state g1) = es_tool_iterations (gs_state g)"
  by (cases n) (auto dest: setup_node_frame llm_node_frame simp: finalize_node_def Let_def)

lemma tool_node_iterations:
  "ge_tools e \<noteq> None \<Longrightarrow> tool_node e g = Some g1 \<Longrightarrow> es_tool_iterations (gs_state g1) \<in> {99, es_tool_iterations (gs_state g) + 1}"
  by (auto simp: tool_node_def Let_def split: prod.splits if_splits)

lemma apply_route_frame [simp]:
  "es_plan (apply_route_transition d s) = es_plan s" "es_tool_iterations (apply_route_transition d s) = es_tool_iterations s"
  "es_interrupted (apply_route_transition d s) = es_interrupted s" "es_completed (apply_route_transition d s) = es_completed s"
  by (simp_all add: apply_route_transition_def Let_def split: option.split)

lemma take_edge_frame:
  "take_edge keep ts r g = Some (n, g2) \<Longrightarrow> es_plan (snd r) = es_plan (gs_state g) \<Longrightarrow>
    es_tool_iterations (snd r) = es_tool_iterations (gs_state g) \<Longrightarrow>
    es_plan (gs_state g2) = es_plan (gs_state g) \<and> es_tool_iterations (gs_state g2) = es_tool_iterations (gs_state g) \<and> gs_out g2 = gs_out g"
  by (auto simp: take_edge_def split: if_splits)

lemma route_after_tools_frame:
  "route_after_tools s = Some r \<Longrightarrow> es_plan (snd r) = es_plan s \<and> es_tool_iterations (snd r) = es_tool_iterations s"
  by (auto simp: route_after_tools_def)

lemma next_node_frame:
  assumes "next_node keep n g = Some (n', g2)"
  shows "es_plan (gs_state g2) = es_plan (gs_state g) \<and> es_tool_iterations (gs_state g2) = es_tool_iterations (gs_state g) \<and> gs_out g2 = gs_out g"
  using assms
  by (cases n) (auto simp: route_after_llm_def Let_def dest!: take_edge_frame route_after_tools_frame split: option.splits)

lemma next_after_tools:
  assumes "next_node keep ToolsNode g = Some (n', g2)" and "dget TASK_LEVELS (pl_task_level (es_plan (gs_state g))) = Some l"
  shows "n' \<noteq> ToolsNode \<and> (n' \<noteq> Finalize \<longrightarrow> es_tool_iterations (gs_state g) < tl_max_tool_iterations l)"
  using assms by (auto simp: route_after_tools_def decide_after_tools_def take_edge_def tool_targets_def go_to_def split: if_splits)

lemma max_iterations_small: "dget TASK_LEVELS k = Some l \<Longrightarrow> tl_max_tool_iterations l \<le> 20"
  by (auto simp: TASK_LEVELS_def level_of_def split: if_splits)

text \<open>How often a run visits the tool node.\<close>

lemma tool_rounds:
  assumes "ge_tools e \<noteq> None" and "dget TASK_LEVELS (pl_task_level (es_plan (gs_state g))) = Some l"
  shows "int (count_list (fst (run_graph keep e k n g)) ToolsNode) \<le> max 1 (tl_max_tool_iterations l - es_tool_iterations (gs_state g)) \<and>
    (n = Finalize \<longrightarrow> count_list (fst (run_graph keep e k n g)) ToolsNode = 0)"
  using assms(2)
proof (induction k arbitrary: n g)
  case (Suc k)
  show ?case
  proof (cases "\<exists>g1 n' g2. exec_node e n g = Some g1 \<and> n \<noteq> Finalize \<and> next_node keep n g1 = Some (n', g2)")
    case True
    then obtain g1 n' g2 where st: "exec_node e n g = Some g1" "n \<noteq> Finalize" "next_node keep n g1 = Some (n', g2)" by blast
    have pl: "es_plan (gs_state g2) = es_plan (gs_state g)" "es_tool_iterations (gs_state g2) = es_tool_iterations (gs_state g1)"
      using exec_node_frame [OF st(1)] next_node_frame [OF st(3)] by simp_all
    have run: "fst (run_graph keep e (Suc k) n g) = n # fst (run_graph keep e k n' g2)"
      using st by (simp split: prod.split)
    have IH: "int (count_list (fst (run_graph keep e k n' g2)) ToolsNode) \<le> max 1 (tl_max_tool_iterations l - es_tool_iterations (gs_state g1))"
      "n' = Finalize \<Longrightarrow> count_list (fst (run_graph keep e k n' g2)) ToolsNode = 0"
      using Suc.IH [of g2 n'] Suc.prems by (simp_all add: pl)
    show ?thesis
    proof (cases "n = ToolsNode")
      case False
      then show ?thesis using IH(1) exec_node_iterations [OF st(1)] st(2) unfolding run by simp
    next
      case tn: True
      have g1: "tool_node e g = Some g1" using st(1) tn by simp
      have pl1: "dget TASK_LEVELS (pl_task_level (es_plan (gs_state g1))) = Some l"
        using Suc.prems exec_node_frame [OF st(1)] by simp
      show ?thesis
      proof (cases "n' = Finalize")
        case True
        then show ?thesis using IH(2) st(2) tn unfolding run by simp
      next
        case False
        then have "es_tool_iterations (gs_state g1) < tl_max_tool_iterations l"
          using next_after_tools [of keep g1 n' g2 l] st(3) tn pl1 by simp
        moreover then have "es_tool_iterations (gs_state g1) = es_tool_iterations (gs_state g) + 1"
          using tool_node_iterations [OF assms(1) g1] max_iterations_small [OF pl1] by auto
        ultimately show ?thesis using IH(1) st(2) unfolding run by simp
      qed
    qed
  next
    case False
    then have "fst (run_graph keep e (Suc k) n g) = [n]"
      by (auto split: option.split)
    then show ?thesis by (cases "n = Finalize") (auto simp del: run_graph.simps simp: max_def)
  qed
qed simp


text \<open>When edge functions write into a copy, the routing fields keep their initial values.\<close>

lemma run_graph_keeps_routing:
  assumes "run_graph False e k n g = (ns, r)"
  shows "es_node_type (gs_state (result_state r)) = es_node_type (gs_state g) \<and>
    es_level_idx (gs_state (result_state r)) = es_level_idx (gs_state g) \<and>
    es_chain_depth (gs_state (result_state r)) = es_chain_depth (gs_state g)"
  using assms
proof (induction k arbitrary: n g ns)
  case (Suc k)
  have nx: "gs_state g2 = gs_state g1" if "next_node False n g1 = Some (n', g2)" for n' g1 g2
    using that by (cases n) (auto simp: take_edge_def split: option.splits)
  show ?case
  proof (cases "\<exists>g1 n' g2. exec_node e n g = Some g1 \<and> n \<noteq> Finalize \<and> next_node False n g1 = Some (n', g2)")
    case True
    then obtain g1 n' g2 where st: "exec_node e n g = Some g1" "n \<noteq> Finalize" "next_node False n g1 = Some (n', g2)" by blast
    obtain ns' where r: "run_graph False e k n' g2 = (ns', r)"
      using Suc.prems st by (auto split: prod.splits)
    show ?thesis using Suc.IH [OF r] exec_node_frame [OF st(1)] by (simp add: nx [OF st(3)])
  next
    case False
    then have "r = Raised (unfinished e n g) \<or> (\<exists>g1. exec_node e n g = Some g1 \<and> (r = Raised g1 \<or> r = Finished g1))"
      using Suc.prems by (auto split: option.splits if_splits prod.splits)
    then show ?thesis using exec_node_frame [of e n g] by auto
  qed
qed auto

definition is_done :: "out_event \<Rightarrow> bool" where
  "is_done ev \<longleftrightarrow> oe_state ev = Some ''done''"

lemma setup_no_done: "setup_node e g = Some g1 \<Longrightarrow> filter is_done (gs_out g1) = filter is_done (gs_out g)"
  by (auto simp: setup_node_def Let_def is_done_def stream_event_def split: option.splits if_splits)

lemma llm_no_done: "llm_node e nt g = Some g1 \<Longrightarrow> filter is_done (gs_out g1) = filter is_done (gs_out g)"
  by (auto simp: llm_node_def Let_def is_done_def stream_event_def filter_empty_conv split: option.splits chat_result.splits if_splits)

lemma exec_no_done:
  "exec_node e n g = Some g1 \<Longrightarrow> n \<noteq> Finalize \<Longrightarrow> filter is_done (gs_out g1) = filter is_done (gs_out g)"
  by (cases n) (auto dest: setup_no_done llm_no_done simp: tool_node_def Let_def split: option.splits prod.splits if_splits)

lemma run_graph_done:
  assumes "run_graph keep e k n g = (ns, r)"
  shows "filter is_done (gs_out (result_state r)) = filter is_done (gs_out g) @
    (case r of Raised _ \<Rightarrow> []
     | Finished g' \<Rightarrow> if ge_has_bus e \<and> \<not> es_interrupted (gs_state g') then [stream_event (es_plan (gs_state g)) ''done'' ''''] else [])"
  using assms
proof (induction k arbitrary: n g ns)
  case (Suc k)
  show ?case
  proof (cases "n = Finalize")
    case True
    then show ?thesis
      using Suc.prems by (auto simp: finalize_node_def Let_def is_done_def stream_event_def)
  next
    case False
    show ?thesis
    proof (cases "\<exists>g1 n' g2. exec_node e n g = Some g1 \<and> next_node keep n g1 = Some (n', g2)")
      case True
      then obtain g1 n' g2 where st: "exec_node e n g = Some g1" "next_node keep n g1 = Some (n', g2)" by blast
      obtain ns' where r: "run_graph keep e k n' g2 = (ns', r)"
        using Suc.prems st False by (auto split: prod.splits)
      show ?thesis
        using Suc.IH [OF r] exec_no_done [OF st(1) False] exec_node_frame [OF st(1)] next_node_frame [OF st(2)] by (simp split: graph_result.split)
    next
      case False': False
      then have "r = Raised (unfinished e n g) \<or> (\<exists>g1. exec_node e n g = Some g1 \<and> r = Raised g1)"
        using Suc.prems False by (auto split: option.splits prod.splits)
      then show ?thesis using exec_no_done [of e n g] False by auto
    qed
  qed
qed auto

section \<open>Claims\<close>

text \<open>
  C5: carrying out a plan uses its room's gate properly: a plan that answers a user always runs,
  after any plan that runs the gate is free again, a plan that is refused leaves it as it was, and
  no other room's gate is touched.
\<close>

theorem process_gate:
  assumes "process cfg mora keep e limit t0 t1 p x = (did, x', out)" and "0 \<le> t0"
  shows "(pl_reason p = USER_INPUT \<longrightarrow> did) \<and>
    (did \<longrightarrow> \<not> rg_executing (get_gate (pl_room_id p) (in_gate (ex_inhibition x')))) \<and>
    (\<not> did \<longrightarrow> ex_messages x' = ex_messages x \<and> out = [] \<and>
       get_gate (pl_room_id p) (in_gate (ex_inhibition x')) = get_gate (pl_room_id p) (in_gate (ex_inhibition x))) \<and>
    (\<forall>room. room \<noteq> pl_room_id p \<longrightarrow>
       get_gate room (in_gate (ex_inhibition x')) = get_gate room (in_gate (ex_inhibition x)))"
proof -
  have sup: "in_gate (suppress t r d o' None i) = in_gate i" for t r d o' i by (simp add: suppress_def Let_def)
  show ?thesis
    using assms
    by (auto simp: process_def Let_def gate_acquire_def rg_acquire_def gate_force_release_def rg_force_release_def
        gate_release_def rg_release_def rg_on_cooldown_def store_simps sup split: prod.splits if_splits)
qed

text \<open>
  an execution offers its client one final \<open>done\<close> message, after everything was said, if the
  graph runs to its end without an interruption, and none otherwise: when a step raises or the step
  limit is reached, the client that saw the thinking and the streamed text never hears that it is over.
\<close>

theorem done_exactly_when_finished:
  assumes "run_graph keep e limit Prepare
    \<lparr>gs_state = build_execution_state p ms, gs_turns = [], gs_out = []\<rparr> = (ns, r)" and "ge_has_bus e"
  shows "filter is_done (gs_out (result_state r)) =
    (case r of Finished g \<Rightarrow> if es_interrupted (gs_state g) then [] else [stream_event p ''done'' '''']
     | Raised g \<Rightarrow> [])"
  using run_graph_done [OF assms(1)] assms(2) by (simp add: build_execution_state_def split: graph_result.split)

text \<open>
  C8: the tools of a plan run at most as many rounds as its task level allows, and once at level
  \<open>chat\<close> which allows none, however long the language model keeps asking for them and whatever
  the step limit of the graph.
\<close>

theorem tool_rounds_bounded:
  assumes "dget TASK_LEVELS (pl_task_level p) = Some l" and "ge_tools e \<noteq> None"
  shows "int (count_list (fst (run_graph keep e limit Prepare
      \<lparr>gs_state = build_execution_state p ms, gs_turns = [], gs_out = []\<rparr>)) ToolsNode) \<le> max 1 (tl_max_tool_iterations l)"
  using tool_rounds [OF assms(2), of "\<lparr>gs_state = build_execution_state p ms, gs_turns = [], gs_out = []\<rparr>" l keep limit Prepare] assms(1)
  by (simp add: build_execution_state_def)

text \<open>
  the routing writes the chain depth, the task level and the current node type in edge
  functions only; if the graph library gives those a copy of the state, the fields keep their
  initial values for the whole run: the depth limit on chained messages never applies and no plan
  is ever moved to a higher task level.
\<close>

theorem edge_writes_lost:
  assumes "run_graph False e limit Prepare
    \<lparr>gs_state = build_execution_state p ms, gs_turns = [], gs_out = []\<rparr> = (ns, r)"
  shows "let s = gs_state (result_state r)
    in es_chain_depth s = 0 \<and> es_node_type s = ''general_chat'' \<and> current_level_name chat_node s = ''chat'' \<and>
       current_level_name task_node s = ''normal'' \<and> build_routing_tools chat_node s = [''general_chat'', ''general_task'', ''finish'']"
  using run_graph_keeps_routing [OF assms]
  by (simp add: Let_def build_execution_state_def current_level_name_def chat_node_def task_node_def NODE_TYPES_def build_routing_tools_def)

section \<open>Witnesses\<close>

text \<open>A model that always says the same and calls a tool.\<close>

definition demo_graph :: graph_env where
  "demo_graph = \<lparr>ge_chat = (\<lambda>_ _ _. ChatReply [] ''hm'' [(''web_search'', [])] False),
     ge_tools = Some \<lparr>te_named = (\<lambda>ns _. ns), te_all = (\<lambda>_. []), te_run = (\<lambda>_. Some ''found''), te_side_effect = (\<lambda>_. False)\<rparr>,
     ge_name_of = (\<lambda>_. ''''), ge_has_memory = False, ge_has_bus = True\<rparr>"

definition demo_start :: graph_state where
  "demo_start = \<lparr>gs_state = build_execution_state (demo_plan ''lobby'') [], gs_turns = [], gs_out = []\<rparr>"

lemma demo_level: "dget TASK_LEVELS (pl_task_level (demo_plan ''lobby'')) =
    Some (level_of ''light'' 2 ''low'' 256 1 1 False False True)"
  by (simp add: demo_plan_def build_response_def TASK_LEVELS_def)

lemma demo_run: "fst (run_graph True demo_graph 25 Prepare demo_start) = [Prepare, ChatNode, ToolsNode, Finalize]"
  by code_simp

theorem tool_rounds_bounded_witness:
  "int (count_list (fst (run_graph True demo_graph 25 Prepare demo_start)) ToolsNode) \<le> 1"
  using tool_rounds_bounded [OF demo_level, of demo_graph True 25 "[]"]
  by (simp add: demo_graph_def demo_start_def level_of_def)

theorem process_gate_witness:
  "fst (process demo_config 6.5 True demo_graph 25 0 1 (demo_plan ''lobby'') \<lparr>ex_messages = [], ex_inhibition = new_inhibition\<rparr>)"
proof -
  obtain did x' out' where "process demo_config 6.5 True demo_graph 25 0 1 (demo_plan ''lobby'') \<lparr>ex_messages = [], ex_inhibition = new_inhibition\<rparr>
      = (did, x', out')" by (rule prod_cases3)
  with process_gate [OF this] show ?thesis by (simp add: demo_plan_def build_response_def)
qed

end
