(* ===== verification/Limbic.thy ===== *)
theory Limbic
  imports Agency_Plan Room
begin

text \<open>
  The limbic system (\<open>iris/limbic\<close>): appraisal of a text, emotion, mood, relationship to an
  account, and the orchestrator and event handlers that run the pipeline.

  Numbers are reals; clock readings are arguments. The regular expressions and the neural classifier are parameters:
  \<open>le_emotions\<close> gives the classifier's scores (or none, then the numbers of matching keywords are
  used), \<open>le_contexts\<close> the number of matching patterns per context type, in the order of the table.
  \<open>le_float\<close> is Python's \<open>float\<close> on values that are not numbers.
\<close>

section \<open>Appraisal\<close>

datatype plutchik = JOY | SADNESS | ANTICIPATION | SURPRISE | ANGER | FEAR | DISGUST | TRUST

definition all_emotions :: "plutchik list" where
  "all_emotions = [JOY, SADNESS, ANTICIPATION, SURPRISE, ANGER, FEAR, DISGUST, TRUST]"

record limbic_env =
  le_neural :: "(string \<Rightarrow> (plutchik, real) dict) option"
  le_keywords :: "string \<Rightarrow> (plutchik \<times> nat) list"
  le_contexts :: "string \<Rightarrow> (string \<times> nat) list"
  le_float :: "pyobj \<Rightarrow> real option"

record primary_appraisal =
  pa_novelty :: real
  pa_pleasantness :: real
  pa_goal_relevance :: real
  pa_agency :: real
  pa_coping :: real

record secondary_appraisal =
  sa_accountability :: real
  sa_control :: real
  sa_controllability :: real
  sa_social_norms :: real

record dimensions =
  di_unpleasantness :: real
  di_control :: real
  di_responsibility :: real
  di_certainty :: real
  di_effort :: real
  di_attention :: real

definition keyword_match :: "(plutchik \<times> nat) list \<Rightarrow> (plutchik, real) dict" where
  "keyword_match counts = map (\<lambda>(e, n). (e, min 1 (real n * 0.3))) (filter (\<lambda>(e, n). 0 < n) counts)"

definition detect_word_emotions :: "limbic_env \<Rightarrow> string \<Rightarrow> (plutchik, real) dict" where
  "detect_word_emotions env txt' = (case le_neural env of Some f \<Rightarrow> f txt' | None \<Rightarrow> keyword_match (le_keywords env txt'))"

fun best_context :: "string option \<Rightarrow> nat \<Rightarrow> (string \<times> nat) list \<Rightarrow> string option" where
  "best_context best n [] = best"
| "best_context best n ((c, k) # cs) = (if n < k then best_context (Some c) k cs else best_context best n cs)"

definition detect_context_type :: "limbic_env \<Rightarrow> string \<Rightarrow> string option" where
  "detect_context_type env txt' = best_context None 0 (le_contexts env txt')"

definition ctx_true :: "(string, pyobj) dict \<Rightarrow> string \<Rightarrow> bool" where
  "ctx_true ctx k \<longleftrightarrow> py_truthy (dget_or ctx k (PBool False))"

definition score_novelty :: "(string, pyobj) dict \<Rightarrow> real" where
  "score_novelty ctx = (if ctx_true ctx ''is_new_topic'' then 0.8 else if ctx_true ctx ''topic_changed'' then 0.6 else 0.3)"

definition score_pleasantness :: "(plutchik, real) dict \<Rightarrow> real" where
  "score_pleasantness d =
    (let pos = sum_list (map (\<lambda>e. dget_or d e 0) [JOY, TRUST, ANTICIPATION]);
         neg = sum_list (map (\<lambda>e. dget_or d e 0) [SADNESS, ANGER, FEAR, DISGUST])
     in max (- 1) (min 1 (pos - neg)))"

definition relevance_of :: "string \<Rightarrow> real option" where
  "relevance_of c = map_of [(''support_seeking'', 0.9), (''self_disclosure'', 0.7), (''positive_feedback'', 0.4),
     (''negative_feedback'', 0.6)] c"

definition score_goal_relevance :: "string option \<Rightarrow> (string, pyobj) dict \<Rightarrow> real" where
  "score_goal_relevance c ctx =
    (case Option.bind c relevance_of of Some x \<Rightarrow> x | None \<Rightarrow> if ctx_true ctx ''is_direct_question'' then 0.8 else 0.5)"

definition score_agency :: "(string, pyobj) dict \<Rightarrow> real" where
  "score_agency ctx = (if ctx_true ctx ''user_is_agent'' then 0.8 else 0.3)"

definition number_of :: "pyobj \<Rightarrow> real option" where
  "number_of v = (case v of PFloat x \<Rightarrow> Some x | PInt i \<Rightarrow> Some (of_int i) | PBool b \<Rightarrow> Some (if b then 1 else 0) | _ \<Rightarrow> None)"

definition py_float :: "limbic_env \<Rightarrow> pyobj \<Rightarrow> real option" where
  "py_float env v = (case number_of v of Some x \<Rightarrow> Some x | None \<Rightarrow> le_float env v)"

definition score_coping :: "limbic_env \<Rightarrow> (string, pyobj) dict \<Rightarrow> real option" where
  "score_coping env ctx =
    (case (py_float env (dget_or ctx ''trust_level'' (PFloat 0.5)), py_float env (dget_or ctx ''familiarity'' (PFloat 0))) of
       (Some t, Some f) \<Rightarrow> Some (min 1 (t * 0.6 + f * 0.4))
     | _ \<Rightarrow> None)"

text \<open>\<open>None\<close> stands for the exception of a value that is not a number.\<close>

definition appraise_primary :: "limbic_env \<Rightarrow> string \<Rightarrow> (string, pyobj) dict \<Rightarrow> primary_appraisal option" where
  "appraise_primary env txt' ctx = map_option (\<lambda>coping.
     \<lparr>pa_novelty = score_novelty ctx, pa_pleasantness = score_pleasantness (detect_word_emotions env txt'),
      pa_goal_relevance = score_goal_relevance (detect_context_type env txt') ctx, pa_agency = score_agency ctx,
      pa_coping = coping\<rparr>) (score_coping env ctx)"

definition appraise_secondary :: "primary_appraisal \<Rightarrow> (string, pyobj) dict \<Rightarrow> secondary_appraisal option" where
  "appraise_secondary p profile =
    (case (number_of (dget_or profile ''trust_level'' (PFloat 0.5)), number_of (dget_or profile ''familiarity'' (PFloat 0))) of
       (Some t, Some f) \<Rightarrow> Some \<lparr>sa_accountability = min 1 (t * 0.7 + f * 0.3), sa_control = pa_coping p * 0.6 + t * 0.4,
          sa_controllability = pa_coping p * 0.8 + f * 0.2, sa_social_norms = 0.5 + f * 0.3 + t * 0.2\<rparr>
     | _ \<Rightarrow> None)"

definition compute_dimensions :: "primary_appraisal \<Rightarrow> secondary_appraisal \<Rightarrow> dimensions" where
  "compute_dimensions p s = \<lparr>di_unpleasantness = max 0 (- pa_pleasantness p), di_control = sa_control s,
     di_responsibility = sa_accountability s, di_certainty = 1 - pa_novelty p, di_effort = 1 - pa_coping p,
     di_attention = pa_goal_relevance p\<rparr>"

section \<open>Emotion\<close>

record emotion =
  em_primary :: plutchik
  em_intensity :: real
  em_valence :: real
  em_arousal :: real
  em_dominance :: real
  em_secondary :: "plutchik option"
  em_secondary_intensity :: real

record mood =
  md_valence :: real
  md_arousal :: real
  md_dominance :: real
  md_updated :: real

fun plutchik_vad :: "plutchik \<Rightarrow> real \<times> real \<times> real" where
  "plutchik_vad JOY = (0.8, 0.6, 0.6)"
| "plutchik_vad SADNESS = (- 0.6, - 0.4, - 0.3)"
| "plutchik_vad ANTICIPATION = (0.4, 0.7, 0.3)"
| "plutchik_vad SURPRISE = (0.2, 0.9, - 0.2)"
| "plutchik_vad ANGER = (- 0.7, 0.8, 0.5)"
| "plutchik_vad FEAR = (- 0.7, 0.8, - 0.6)"
| "plutchik_vad DISGUST = (- 0.6, 0.3, 0.1)"
| "plutchik_vad TRUST = (0.5, 0.2, 0.3)"

definition dimension_weights :: "dimensions \<Rightarrow> (real \<times> (plutchik, real) dict) list" where
  "dimension_weights d =
    [(di_unpleasantness d, [(SADNESS, 0.4), (ANGER, 0.3), (DISGUST, 0.2), (FEAR, 0.1)]),
     (di_control d, [(ANGER, 0.3), (JOY, 0.2), (TRUST, 0.3), (FEAR, 0.2)]),
     (di_responsibility d, [(ANGER, 0.3), (DISGUST, 0.2), (SADNESS, 0.2), (TRUST, 0.3)]),
     (di_certainty d, [(TRUST, 0.4), (SURPRISE, 0.3), (FEAR, 0.3)]),
     (di_effort d, [(ANTICIPATION, 0.4), (SADNESS, 0.3), (JOY, 0.3)]),
     (di_attention d, [(SURPRISE, 0.3), (ANTICIPATION, 0.4), (JOY, 0.3)])]"

definition emotion_scores :: "dimensions \<Rightarrow> (plutchik \<times> real) list" where
  "emotion_scores d = map (\<lambda>e. (e, sum_list (map (\<lambda>(x, ws). x * dget_or ws e 0) (dimension_weights d)))) all_emotions"

definition unit_clamp :: "real \<Rightarrow> real" where
  "unit_clamp x = max (- 1) (min 1 x)"

definition generate_emotion :: "dimensions \<Rightarrow> mood \<Rightarrow> emotion" where
  "generate_emotion d m =
    (let es = rev (sort_key snd (rev (emotion_scores d)))
     in if snd (hd es) \<le> 0
        then \<lparr>em_primary = TRUST, em_intensity = 0.1, em_valence = md_valence m, em_arousal = md_arousal m,
              em_dominance = md_dominance m, em_secondary = None, em_secondary_intensity = 0\<rparr>
        else let p = fst (hd es); q = es ! 1
             in case plutchik_vad p of (v, a, dm) \<Rightarrow>
                  \<lparr>em_primary = p, em_intensity = min 1 (snd (hd es)),
                   em_valence = unit_clamp (v * 0.7 + md_valence m * 0.3),
                   em_arousal = unit_clamp (a * 0.7 + md_arousal m * 0.3),
                   em_dominance = unit_clamp (dm * 0.7 + md_dominance m * 0.3),
                   em_secondary = Some (fst q), em_secondary_intensity = min 1 (snd q)\<rparr>)"

section \<open>Mood\<close>

definition mood_decay :: "real \<Rightarrow> real" where
  "mood_decay dt = exp (- 0.693 * dt / 600)"

definition get_mood :: "real \<Rightarrow> real \<Rightarrow> mood \<Rightarrow> mood" where
  "get_mood now updated m = (let k = mood_decay (now - updated)
     in \<lparr>md_valence = md_valence m * k, md_arousal = md_arousal m * k, md_dominance = md_dominance m * k, md_updated = now\<rparr>)"

definition update_mood :: "real \<Rightarrow> real \<Rightarrow> emotion \<Rightarrow> mood \<Rightarrow> mood" where
  "update_mood now updated e m =
    (let k = mood_decay (now - updated); mix = (\<lambda>old new. unit_clamp (old * k + new * em_intensity e * (1 - k)))
     in \<lparr>md_valence = mix (md_valence m) (em_valence e), md_arousal = mix (md_arousal m) (em_arousal e),
         md_dominance = mix (md_dominance m) (em_dominance e), md_updated = now\<rparr>)"

section \<open>Relationship\<close>

datatype rel_level = ACQUAINTANCE | FAMILIAR | BONDED

datatype attachment = SECURE | ANXIOUS | AVOIDANT | DISORGANIZED

record relationship =
  rl_level :: rel_level
  rl_trust :: real
  rl_familiarity :: real
  rl_attachment :: attachment
  rl_count :: nat
  rl_disclosure :: real

definition new_relationship :: relationship where
  "new_relationship = \<lparr>rl_level = ACQUAINTANCE, rl_trust = 0.1, rl_familiarity = 0, rl_attachment = SECURE, rl_count = 0,
     rl_disclosure = 0\<rparr>"

type_synonym relationships = "(string, relationship) dict"

definition rel_key :: "string \<Rightarrow> string" where
  "rel_key account = or_else account ''__global__''"

definition get_relationship :: "string \<Rightarrow> relationships \<Rightarrow> relationship" where
  "get_relationship account rs = dget_or rs (rel_key account) new_relationship"

fun level_rank :: "rel_level \<Rightarrow> nat" where
  "level_rank ACQUAINTANCE = 0"
| "level_rank FAMILIAR = 1"
| "level_rank BONDED = 2"

instantiation rel_level :: linorder
begin

definition less_eq_rel_level :: "rel_level \<Rightarrow> rel_level \<Rightarrow> bool" where
  "less_eq_rel_level a b \<longleftrightarrow> level_rank a \<le> level_rank b"

definition less_rel_level :: "rel_level \<Rightarrow> rel_level \<Rightarrow> bool" where
  "less_rel_level a b \<longleftrightarrow> level_rank a < level_rank b"

instance
proof
  fix x y z :: rel_level
  show "(x < y) = (x \<le> y \<and> \<not> y \<le> x)"
    by (auto simp: less_eq_rel_level_def less_rel_level_def)
  show "x \<le> x"
    by (simp add: less_eq_rel_level_def)
  show "x \<le> y \<Longrightarrow> y \<le> z \<Longrightarrow> x \<le> z"
    by (simp add: less_eq_rel_level_def)
  show "x \<le> y \<Longrightarrow> y \<le> x \<Longrightarrow> x = y"
    by (cases x; cases y) (simp_all add: less_eq_rel_level_def)
  show "x \<le> y \<or> y \<le> x"
    by (auto simp: less_eq_rel_level_def)
qed

end

definition update_level :: "relationship \<Rightarrow> relationship" where
  "update_level r =
    (if 0.7 \<le> rl_trust r then (if rl_level r < BONDED then r\<lparr>rl_level := BONDED\<rparr> else r)
     else if 0.3 \<le> rl_trust r \<and> rl_level r < FAMILIAR then r\<lparr>rl_level := FAMILIAR\<rparr> else r)"

fun impact_of :: "plutchik \<Rightarrow> real \<times> real" where
  "impact_of JOY = (0.02, 0.03)"
| "impact_of TRUST = (0.04, 0.02)"
| "impact_of SADNESS = (- 0.01, 0.01)"
| "impact_of ANGER = (- 0.03, - 0.01)"
| "impact_of FEAR = (- 0.02, 0)"
| "impact_of DISGUST = (- 0.04, - 0.02)"
| "impact_of ANTICIPATION = (0.01, 0.02)"
| "impact_of SURPRISE = (0, 0.01)"

definition disclosure_of :: "string \<Rightarrow> real option" where
  "disclosure_of c = map_of [(''self_disclosure'', 0.15), (''support_seeking'', 0.1), (''positive_feedback'', 0.05),
     (''negative_feedback'', 0.03)] c"

definition attachment_named :: "pyobj \<Rightarrow> attachment option" where
  "attachment_named v = (case v of PStr s \<Rightarrow> map_of [(''secure'', SECURE), (''anxious'', ANXIOUS), (''avoidant'', AVOIDANT),
     (''disorganized'', DISORGANIZED)] s | _ \<Rightarrow> None)"

definition update_attachment :: "(string, pyobj) dict \<Rightarrow> relationship \<Rightarrow> relationship" where
  "update_attachment profile r =
    (case Option.bind (dget profile ''attachment_style'') attachment_named of
       Some a \<Rightarrow> r\<lparr>rl_attachment := a\<rparr> | None \<Rightarrow> r)"

definition unit_part :: "real \<Rightarrow> real" where
  "unit_part x = max 0 (min 1 x)"

definition relate :: "emotion \<Rightarrow> string option \<Rightarrow> (string, pyobj) dict \<Rightarrow> relationship \<Rightarrow> relationship" where
  "relate e context_type profile r =
    (case impact_of (em_primary e) of (t, f) \<Rightarrow>
       let r1 = r\<lparr>rl_trust := unit_part (rl_trust r + t), rl_familiarity := unit_part (rl_familiarity r + f)\<rparr>;
           r2 = (case Option.bind context_type disclosure_of of
                   Some x \<Rightarrow> r1\<lparr>rl_disclosure := unit_part (rl_disclosure r1 + x)\<rparr> | None \<Rightarrow> r1)
       in update_attachment profile (update_level (r2\<lparr>rl_count := rl_count r2 + 1\<rparr>)))"

definition update_relationship :: "emotion \<Rightarrow> string \<Rightarrow> string option \<Rightarrow> (string, pyobj) dict \<Rightarrow> relationships \<Rightarrow>
    relationship \<times> relationships" where
  "update_relationship e account context_type profile rs =
    (let r = relate e context_type profile (get_relationship account rs) in (r, dput (rel_key account) r rs))"

definition level_value :: "rel_level \<Rightarrow> int" where
  "level_value l = int (level_rank l)"

definition attachment_value :: "attachment \<Rightarrow> string" where
  "attachment_value a = (case a of SECURE \<Rightarrow> ''secure'' | ANXIOUS \<Rightarrow> ''anxious'' | AVOIDANT \<Rightarrow> ''avoidant''
     | DISORGANIZED \<Rightarrow> ''disorganized'')"

definition get_profile :: "string \<Rightarrow> relationships \<Rightarrow> (string, pyobj) dict" where
  "get_profile account rs =
    (let r = get_relationship account rs
     in [(''trust_level'', PFloat (rl_trust r)), (''familiarity'', PFloat (rl_familiarity r)),
         (''relationship_level'', PInt (level_value (rl_level r))), (''attachment_style'', PStr (attachment_value (rl_attachment r))),
         (''disclosure_depth'', PFloat (rl_disclosure r))])"

text \<open>\<open>None\<close> stands for the \<open>ValueError\<close> of an unknown field.\<close>

definition apply_candidate_delta :: "string \<Rightarrow> real \<Rightarrow> string \<Rightarrow> relationships \<Rightarrow> (relationship \<times> relationships) option" where
  "apply_candidate_delta field delta account rs =
    (let r = get_relationship account rs;
         done = (\<lambda>r'. let r'' = update_level r' in Some (r'', dput (rel_key account) r'' rs))
     in if field = ''trust'' then done (r\<lparr>rl_trust := unit_part (rl_trust r + delta)\<rparr>)
        else if field = ''familiarity'' then done (r\<lparr>rl_familiarity := unit_part (rl_familiarity r + delta)\<rparr>)
        else if field = ''disclosure_depth'' then done (r\<lparr>rl_disclosure := unit_part (rl_disclosure r + delta)\<rparr>)
        else None)"

section \<open>The orchestrator\<close>

datatype suggestion = NoSuggestion | SuggestFor plutchik | SuggestGeneral

record emotion_result =
  er_dimensions :: dimensions
  er_emotion :: emotion
  er_mood :: mood
  er_relationship :: relationship
  er_suggestion :: suggestion

text \<open>A snapshot of the history is the emotion, mood and relationship of a result; \<open>li_snapshots\<close> are the
  triggers of the published debug snapshots.\<close>

record limbic =
  li_mood :: mood
  li_last :: real
  li_relations :: relationships
  li_latest :: "emotion_result option"
  li_history :: "(emotion \<times> mood \<times> relationship) list"
  li_snapshots :: "string list"

definition new_limbic :: "real \<Rightarrow> limbic" where
  "new_limbic now = \<lparr>li_mood = \<lparr>md_valence = 0, md_arousal = 0, md_dominance = 0, md_updated = 0\<rparr>, li_last = now,
     li_relations = [], li_latest = None, li_history = [], li_snapshots = []\<rparr>"

definition state_update :: "emotion_result \<Rightarrow> limbic \<Rightarrow> limbic" where
  "state_update r s =
    (let h = li_history s @ [(er_emotion r, er_mood r, er_relationship r)]
     in s\<lparr>li_latest := Some r, li_history := (if 50 < length h then slice_last 50 h else h)\<rparr>)"

definition reappraisal_needed :: "dimensions \<Rightarrow> emotion \<Rightarrow> bool" where
  "reappraisal_needed d e \<longleftrightarrow> (em_primary e \<in> {ANGER, FEAR, DISGUST} \<and> 0.6 < em_intensity e) \<or>
     (0.7 < di_unpleasantness d \<and> di_control d < 0.3)"

definition suggest_reappraisal :: "emotion \<Rightarrow> suggestion" where
  "suggest_reappraisal e = (if em_primary e \<in> {ANGER, FEAR, DISGUST} then SuggestFor (em_primary e) else SuggestGeneral)"

definition setdefault :: "string \<Rightarrow> pyobj \<Rightarrow> (string, pyobj) dict \<Rightarrow> (string, pyobj) dict" where
  "setdefault k v d = (if dget d k = None then d @ [(k, v)] else d)"

definition enrich_context :: "account_manager \<Rightarrow> room_manager \<Rightarrow> (string, pyobj) dict \<Rightarrow> string \<Rightarrow> (string, pyobj) dict" where
  "enrich_context am rm ctx account =
    (let c1 = (case if account = [] then None else resolve account am of
                 None \<Rightarrow> ctx
               | Some a \<Rightarrow> setdefault ''account_created'' (PStr (ac_created_at a))
                   (setdefault ''display_name'' (PStr (ac_display_name a)) ctx))
     in case dget c1 ''room_id'' of
          Some (PStr rid) \<Rightarrow> (case if rid = [] then None else get_room rid rm of
              None \<Rightarrow> c1
            | Some r \<Rightarrow> setdefault ''member_count'' (PInt (int (length (get_members rid rm))))
                (setdefault ''room_topic'' (PStr (ro_topic r)) (setdefault ''room_name'' (PStr (ro_name r)) c1)))
        | _ \<Rightarrow> c1)"

text \<open>\<open>t1\<close> and \<open>t2\<close> are the readings of the clock in \<open>get_mood\<close> and \<open>update\<close>; an
  empty \<open>user_profile\<close> counts as none.\<close>

definition limbic_process :: "limbic_env \<Rightarrow> real \<Rightarrow> real \<Rightarrow> account_manager \<Rightarrow> room_manager \<Rightarrow> string \<Rightarrow> (string, pyobj) dict \<Rightarrow>
    (string, pyobj) dict \<Rightarrow> string \<Rightarrow> limbic \<Rightarrow> emotion_result option \<times> limbic" where
  "limbic_process env t1 t2 am rm txt' context user_profile account s =
    (let ctx = enrich_context am rm context account;
         profile = (if user_profile \<noteq> [] then user_profile else get_profile account (li_relations s))
     in case appraise_primary env txt' ctx of
          None \<Rightarrow> (None, s)
        | Some p \<Rightarrow> (case appraise_secondary p profile of
            None \<Rightarrow> (None, s)
          | Some sec \<Rightarrow>
              let d = compute_dimensions p sec;
                  e = generate_emotion d (get_mood t1 (li_last s) (li_mood s));
                  m = update_mood t2 (li_last s) e (li_mood s)
              in case update_relationship e account (detect_context_type env txt') profile (li_relations s) of
                   (rel, rels) \<Rightarrow>
                     let r = \<lparr>er_dimensions = d, er_emotion = e, er_mood = m, er_relationship = rel,
                           er_suggestion = (if reappraisal_needed d e then suggest_reappraisal e else NoSuggestion)\<rparr>
                     in (Some r, state_update r (s\<lparr>li_mood := m, li_last := t2, li_relations := rels\<rparr>))))"

definition compute_chaos_level :: "emotion \<Rightarrow> real" where
  "compute_chaos_level e =
    (if em_primary e \<in> {ANGER, FEAR, DISGUST, SURPRISE} then min 0.35 (em_intensity e * 0.25)
     else min 0.2 (em_intensity e * 0.12))"

datatype mood_label = ALERT | WORRIED | BRIGHT | CALM | NEUTRAL

definition classify_mood :: "real \<Rightarrow> real \<Rightarrow> mood_label" where
  "classify_mood v a =
    (if v < - 0.35 \<and> 0.25 < a then ALERT else if v < - 0.35 then WORRIED
     else if 0.35 < v \<and> 0.25 < a then BRIGHT else if 0.35 < v then CALM else NEUTRAL)"

fun emotion_name :: "plutchik \<Rightarrow> string" where
  "emotion_name JOY = ''joy''"
| "emotion_name SADNESS = ''sadness''"
| "emotion_name ANTICIPATION = ''anticipation''"
| "emotion_name SURPRISE = ''surprise''"
| "emotion_name ANGER = ''anger''"
| "emotion_name FEAR = ''fear''"
| "emotion_name DISGUST = ''disgust''"
| "emotion_name TRUST = ''trust''"

text \<open>\<open>label\<close> is the Japanese name of a mood; \<open>ModulationState()\<close> has the defaults below.\<close>

definition get_modulation_state :: "(mood_label \<Rightarrow> string) \<Rightarrow> limbic \<Rightarrow> modulation" where
  "get_modulation_state label s =
    (case li_latest s of
       None \<Rightarrow> new_modulation 0 0 0 0 ''neutral'' ''''
     | Some r \<Rightarrow> new_modulation (compute_chaos_level (er_emotion r)) (md_valence (er_mood r)) (md_arousal (er_mood r))
         (md_dominance (er_mood r)) (label (classify_mood (md_valence (er_mood r)) (md_arousal (er_mood r))))
         (emotion_name (em_primary (er_emotion r))))"

section \<open>The event handlers\<close>

text \<open>An exception of the pipeline is logged and nothing is published.\<close>

definition processed :: "string \<Rightarrow> emotion_result option \<times> limbic \<Rightarrow> limbic" where
  "processed trigger p = (case p of (None, s) \<Rightarrow> s | (Some r, s) \<Rightarrow> s\<lparr>li_snapshots := li_snapshots s @ [trigger]\<rparr>)"

definition limbic_on_message :: "limbic_env \<Rightarrow> real \<Rightarrow> real \<Rightarrow> account_manager \<Rightarrow> room_manager \<Rightarrow> message_event \<Rightarrow> string \<Rightarrow>
    limbic \<Rightarrow> limbic" where
  "limbic_on_message env t1 t2 am rm e content s =
    (if mv_direction e \<noteq> ''request'' \<or> content = [] then s
     else let acc = (if mv_account_id e = [] then None else resolve (mv_account_id e) am);
              rm' = (if mv_room_id e = [] then None else get_room (mv_room_id e) rm);
              c0 = [(''account_id'', PStr (mv_account_id e)), (''room_id'', PStr (mv_room_id e))];
              c1 = (case acc of None \<Rightarrow> c0 | Some a \<Rightarrow> c0 @ [(''display_name'', PStr (ac_display_name a))]);
              c2 = (case rm' of None \<Rightarrow> c1 | Some r \<Rightarrow> c1 @ [(''room_name'', PStr (ro_name r)), (''room_topic'', PStr (ro_topic r))])
          in processed ''message_processed'' (limbic_process env t1 t2 am rm content c2
               (case acc of None \<Rightarrow> [] | Some a \<Rightarrow> ac_profile a) (mv_account_id e) s))"

text \<open>\<open>announce\<close> is the wording of the text that is appraised when someone joins or leaves.\<close>

fun limbic_room_event :: "limbic_env \<Rightarrow> real \<Rightarrow> real \<Rightarrow> account_manager \<Rightarrow> room_manager \<Rightarrow> (bool \<Rightarrow> string \<Rightarrow> string) \<Rightarrow>
    room_event \<Rightarrow> limbic \<Rightarrow> limbic" where
  "limbic_room_event env t1 t2 am rm announce (RoomJoined j) s =
    processed ''room_joined'' (limbic_process env t1 t2 am rm (announce True (jo_display_name j))
      [(''event_type'', PStr ''room_joined''), (''display_name'', PStr (jo_display_name j)), (''room_id'', PStr (jo_room j))]
      [] (jo_account j) s)"
| "limbic_room_event env t1 t2 am rm announce (RoomJoinedBatch rid js n) s =
    s\<lparr>li_snapshots := li_snapshots s @ [''room_joined_batch'']\<rparr>"
| "limbic_room_event env t1 t2 am rm announce (RoomLeft rid aid nm) s =
    processed ''room_left'' (limbic_process env t1 t2 am rm (announce False nm)
      [(''event_type'', PStr ''room_left''), (''display_name'', PStr nm), (''room_id'', PStr rid)] [] aid s)"
| "limbic_room_event env t1 t2 am rm announce _ s = s"

section \<open>Ranges\<close>

lemma unit_clamp_bounds [simp]: "\<bar>unit_clamp x\<bar> \<le> 1"
  by (auto simp: unit_clamp_def)

lemma unit_part_bounds [simp]: "0 \<le> unit_part x" "unit_part x \<le> 1"
  by (auto simp: unit_part_def)

definition emotion_ok :: "emotion \<Rightarrow> bool" where
  "emotion_ok e \<longleftrightarrow> 0 < em_intensity e \<and> em_intensity e \<le> 1 \<and> \<bar>em_valence e\<bar> \<le> 1 \<and> \<bar>em_arousal e\<bar> \<le> 1 \<and>
     \<bar>em_dominance e\<bar> \<le> 1 \<and> 0 < em_secondary_intensity e \<and> em_secondary_intensity e \<le> em_intensity e \<and>
     em_secondary e \<notin> {None, Some (em_primary e)}"

definition mood_ok :: "mood \<Rightarrow> bool" where
  "mood_ok m \<longleftrightarrow> \<bar>md_valence m\<bar> \<le> 1 \<and> \<bar>md_arousal m\<bar> \<le> 1 \<and> \<bar>md_dominance m\<bar> \<le> 1"

definition relationship_ok :: "relationship \<Rightarrow> bool" where
  "relationship_ok r \<longleftrightarrow> rl_trust r \<in> {0..1} \<and> rl_familiarity r \<in> {0..1} \<and> rl_disclosure r \<in> {0..1}"

definition limbic_ok :: "limbic \<Rightarrow> bool" where
  "limbic_ok s \<longleftrightarrow> mood_ok (li_mood s) \<and> (\<forall>r \<in> set (dvalues (li_relations s)). relationship_ok r) \<and>
     length (li_history s) \<le> 50 \<and>
     (case li_latest s of None \<Rightarrow> True
      | Some r \<Rightarrow> emotion_ok (er_emotion r) \<and> mood_ok (er_mood r) \<and> relationship_ok (er_relationship r))"

lemma desc_sorted:
  "sorted (map f (rev ys)) \<Longrightarrow> i < j \<Longrightarrow> j < length ys \<Longrightarrow> f (ys ! j) \<le> f (ys ! i)"
  using sorted_nth_mono [of "map f (rev ys)" "length ys - 1 - j" "length ys - 1 - i"]
  by (auto simp: rev_nth)

lemma ranked:
  fixes es :: "('a \<times> real) list"
  defines "rs \<equiv> rev (sort_key snd (rev es))"
  shows "length rs = length es" and "set rs = set es" and "mset (map fst rs) = mset (map fst es)"
    and "i < j \<Longrightarrow> j < length es \<Longrightarrow> snd (rs ! j) \<le> snd (rs ! i)"
proof -
  show l: "length rs = length es" and "set rs = set es"
    by (simp_all add: rs_def)
  show "mset (map fst rs) = mset (map fst es)"
    by (simp add: rs_def)
  show "snd (rs ! j) \<le> snd (rs ! i)" if "i < j" "j < length es"
    using desc_sorted [of snd rs i j] that l by (simp add: rs_def)
qed

lemma two_positive:
  fixes es :: "('a \<times> real) list"
  defines "rs \<equiv> rev (sort_key snd (rev es))"
  assumes "distinct (map fst es)" and "(a, x) \<in> set es" and "(b, y) \<in> set es" and "a \<noteq> b" and "0 < x" and "0 < y"
  shows "0 < snd (rs ! 0) \<and> 0 < snd (rs ! 1) \<and> snd (rs ! 1) \<le> snd (rs ! 0) \<and> fst (rs ! 0) \<noteq> fst (rs ! 1) \<and>
    rs \<noteq> [] \<and> x \<le> snd (rs ! 0) \<and> rs ! 0 \<in> set es"
proof -
  note r = ranked [where es = es, folded rs_def]
  obtain i j where i: "i < length es" "rs ! i = (a, x)" and j: "j < length es" "rs ! j = (b, y)"
    using assms(3,4) r(1,2) by (metis in_set_conv_nth)
  have "i \<noteq> j"
    using i j assms(5) by auto
  then have len: "2 \<le> length es"
    using i(1) j(1) by linarith
  have le0: "snd (rs ! k) \<le> snd (rs ! 0)" if "k < length es" for k
    using r(4) [of 0 k] that by (cases k) auto
  have le1: "snd (rs ! k) \<le> snd (rs ! 1)" if "k < length es" "k \<noteq> 0" for k
    using r(4) [of 1 k] that by (cases "k = 1") auto
  have "0 < snd (rs ! 1)"
    using le1 [of i] le1 [of j] i j assms(6,7) \<open>i \<noteq> j\<close> by (cases "i = 0") auto
  moreover have "snd (rs ! 1) \<le> snd (rs ! 0)" and "x \<le> snd (rs ! 0)"
    using le0 [of 1] le0 [of i] len i by auto
  moreover have "distinct (map fst rs)"
    using assms(2) r(3) by (metis mset_eq_imp_distinct_iff)
  then have "map fst rs ! 0 \<noteq> map fst rs ! 1"
    using len r(1) by (subst nth_eq_iff_index_eq) auto
  then have "fst (rs ! 0) \<noteq> fst (rs ! 1)"
    using len r(1) by (subst (asm) (1 2) nth_map) auto
  moreover have "rs \<noteq> []"
    using len r(1) by auto
  then have "rs \<noteq> []" and "rs ! 0 \<in> set es"
    using r(2) nth_mem [of 0 rs] by auto
  ultimately show ?thesis
    by linarith
qed

lemma scores_keys: "map fst (emotion_scores d) = all_emotions"
  by (simp add: emotion_scores_def comp_def)

lemma score_values:
  "(ANTICIPATION, di_effort d * 0.4 + di_attention d * 0.4) \<in> set (emotion_scores d)"
  "(SURPRISE, di_certainty d * 0.3 + di_attention d * 0.3) \<in> set (emotion_scores d)"
  "(TRUST, di_control d * 0.3 + di_responsibility d * 0.3 + di_certainty d * 0.4) \<in> set (emotion_scores d)"
  "(JOY, x) \<in> set (emotion_scores d) \<longleftrightarrow> x = di_control d * 0.2 + di_effort d * 0.3 + di_attention d * 0.3"
  by (auto simp: emotion_scores_def all_emotions_def dimension_weights_def dget_or_def)

lemma generate_ok:
  assumes "0 < di_effort d * 0.4 + di_attention d * 0.4" and "0 < di_certainty d * 0.3 + di_attention d * 0.3"
  shows "emotion_ok (generate_emotion d m) \<and> (\<exists>x. (em_primary (generate_emotion d m), x) \<in> set (emotion_scores d) \<and>
    di_effort d * 0.4 + di_attention d * 0.4 \<le> x \<and> di_control d * 0.3 + di_responsibility d * 0.3 + di_certainty d * 0.4 \<le> x)"
proof -
  let ?es = "rev (sort_key snd (rev (emotion_scores d)))"
  have dist: "distinct (map fst (emotion_scores d))"
    by (simp add: scores_keys all_emotions_def)
  note t = two_positive [OF dist score_values(1) score_values(2) _ assms]
  have pos: "0 < snd (?es ! 0)" "0 < snd (?es ! 1)" "snd (?es ! 1) \<le> snd (?es ! 0)" "fst (?es ! 0) \<noteq> fst (?es ! 1)" "?es \<noteq> []"
      "di_effort d * 0.4 + di_attention d * 0.4 \<le> snd (?es ! 0)" "?es ! 0 \<in> set (emotion_scores d)"
    using t by blast+
  have trust: "di_control d * 0.3 + di_responsibility d * 0.3 + di_certainty d * 0.4 \<le> snd (?es ! 0)"
  proof -
    obtain k where "k < length (emotion_scores d)" "?es ! k = (TRUST, di_control d * 0.3 + di_responsibility d * 0.3 + di_certainty d * 0.4)"
      using score_values(3) [of d] ranked(1,2) [where es = "emotion_scores d"] by (metis in_set_conv_nth)
    then show ?thesis
      using ranked(4) [of 0 k "emotion_scores d"] by (cases k) auto
  qed
  have hd: "hd ?es = ?es ! 0"
    using pos(5) by (rule hd_conv_nth)
  obtain v a dm where vad: "plutchik_vad (fst (?es ! 0)) = (v, a, dm)"
    by (cases "plutchik_vad (fst (?es ! 0))")
  have gen: "generate_emotion d m = \<lparr>em_primary = fst (?es ! 0), em_intensity = min 1 (snd (?es ! 0)),
      em_valence = unit_clamp (v * 0.7 + md_valence m * 0.3), em_arousal = unit_clamp (a * 0.7 + md_arousal m * 0.3),
      em_dominance = unit_clamp (dm * 0.7 + md_dominance m * 0.3), em_secondary = Some (fst (?es ! 1)),
      em_secondary_intensity = min 1 (snd (?es ! 1))\<rparr>"
    unfolding generate_emotion_def Let_def hd using pos(1) by (simp add: vad)
  have "emotion_ok (generate_emotion d m)"
    unfolding gen emotion_ok_def using pos by (auto simp: min_def)
  moreover have "(em_primary (generate_emotion d m), snd (?es ! 0)) \<in> set (emotion_scores d)"
    using pos(7) by (simp add: gen)
  ultimately show ?thesis
    using pos(6) trust by blast
qed

section \<open>The pipeline keeps its values in range\<close>

lemma relevance_range: "0.4 \<le> score_goal_relevance c ctx" "score_goal_relevance c ctx \<le> 0.9"
  by (auto simp: score_goal_relevance_def relevance_of_def split: option.splits if_splits bind_splits)

lemma novelty_range: "score_novelty ctx \<le> 0.8"
  by (simp add: score_novelty_def)

lemma coping_le_1: "score_coping env ctx = Some x \<Longrightarrow> x \<le> 1"
  by (auto simp: score_coping_def split: option.splits)

lemma dimensions_positive:
  assumes "appraise_primary env txt' ctx = Some p"
  shows "0 < di_effort (compute_dimensions p q) * 0.4 + di_attention (compute_dimensions p q) * 0.4"
    and "0 < di_certainty (compute_dimensions p q) * 0.3 + di_attention (compute_dimensions p q) * 0.3"
proof -
  have "pa_coping p \<le> 1" "0.4 \<le> pa_goal_relevance p" "pa_novelty p \<le> 0.8"
    using assms relevance_range(1) novelty_range coping_le_1 [of env ctx] by (auto simp: appraise_primary_def)
  then show "0 < di_effort (compute_dimensions p q) * 0.4 + di_attention (compute_dimensions p q) * 0.4"
      and "0 < di_certainty (compute_dimensions p q) * 0.3 + di_attention (compute_dimensions p q) * 0.3"
    unfolding compute_dimensions_def dimensions.select_convs by (auto intro!: add_nonneg_pos)
qed

lemma update_level_reads [simp]:
  "rl_trust (update_level r) = rl_trust r" "rl_familiarity (update_level r) = rl_familiarity r"
  "rl_disclosure (update_level r) = rl_disclosure r"
  by (simp_all add: update_level_def)

lemma update_attachment_reads [simp]:
  "rl_trust (update_attachment p r) = rl_trust r" "rl_familiarity (update_attachment p r) = rl_familiarity r"
  "rl_disclosure (update_attachment p r) = rl_disclosure r" "rl_level (update_attachment p r) = rl_level r"
  by (auto simp: update_attachment_def split: option.splits)

lemma relate_ok: "relationship_ok r \<Longrightarrow> relationship_ok (relate e c profile r)"
  by (auto simp: relationship_ok_def relate_def Let_def split: prod.split option.split)

lemma get_relationship_ok:
  "\<forall>r \<in> set (dvalues rs). relationship_ok r \<Longrightarrow> relationship_ok (get_relationship a rs)"
  by (force simp: get_relationship_def dget_or_def new_relationship_def relationship_ok_def
      dest: dget_Some_in split: option.splits)

lemma length_slice_50: "length (slice_last 50 xs) \<le> 50"
  by (simp add: slice_last_def)

lemma process_ok:
  assumes "limbic_ok s"
  shows "limbic_ok (snd (limbic_process env t1 t2 am rm txt' ctx prof account s))"
proof -
  let ?ctx = "enrich_context am rm ctx account"
  let ?prof = "if prof \<noteq> [] then prof else get_profile account (li_relations s)"
  show ?thesis
  proof (cases "appraise_primary env txt' ?ctx")
    case None
    with assms show ?thesis
      by (simp add: limbic_process_def Let_def)
  next
    case (Some p)
    show ?thesis
    proof (cases "appraise_secondary p ?prof")
      case None
      with Some assms show ?thesis
        by (simp add: limbic_process_def Let_def)
    next
      case (Some q)
      let ?e = "generate_emotion (compute_dimensions p q) (get_mood t1 (li_last s) (li_mood s))"
      let ?r = "relate ?e (detect_context_type env txt') ?prof (get_relationship account (li_relations s))"
      have "emotion_ok ?e"
        using generate_ok dimensions_positive [OF \<open>appraise_primary env txt' ?ctx = Some p\<close>] by blast
      moreover have rel: "relationship_ok ?r"
        using assms by (intro relate_ok get_relationship_ok) (simp add: limbic_ok_def)
      moreover have "\<forall>r \<in> set (dvalues (dput (rel_key account) ?r (li_relations s))). relationship_ok r"
        using dvalues_dput [of "rel_key account" ?r "li_relations s"] assms rel by (auto simp: limbic_ok_def simp del: set_map)
      moreover have "mood_ok (update_mood t2 (li_last s) ?e (li_mood s))"
        by (simp add: mood_ok_def update_mood_def Let_def)
      moreover have "length (li_history s) \<le> 50"
        using assms by (simp add: limbic_ok_def)
      ultimately show ?thesis
        using Some \<open>appraise_primary env txt' ?ctx = Some p\<close>
        by (simp add: length_slice_50 limbic_process_def update_relationship_def Let_def limbic_ok_def state_update_def)
    qed
  qed
qed

datatype limbic_op =
    LimbicMessage message_event string
  | LimbicRoom room_event

text \<open>An event comes with the clock readings and the state of the account and room manager at its time.\<close>

record limbic_input =
  in_op :: limbic_op
  in_t1 :: real
  in_t2 :: real
  in_accounts :: account_manager
  in_rooms :: room_manager

definition limbic_step :: "limbic_env \<Rightarrow> (bool \<Rightarrow> string \<Rightarrow> string) \<Rightarrow> limbic_input \<Rightarrow> limbic \<Rightarrow> limbic" where
  "limbic_step env announce i s =
    (case in_op i of
       LimbicMessage e c \<Rightarrow> limbic_on_message env (in_t1 i) (in_t2 i) (in_accounts i) (in_rooms i) e c s
     | LimbicRoom e \<Rightarrow> limbic_room_event env (in_t1 i) (in_t2 i) (in_accounts i) (in_rooms i) announce e s)"

lemma processed_ok: "limbic_ok (snd p) \<Longrightarrow> limbic_ok (processed t p)"
  by (cases p; cases "fst p") (simp_all add: processed_def limbic_ok_def)

lemma limbic_step_ok: "limbic_ok s \<Longrightarrow> limbic_ok (limbic_step env announce i s)"
proof (cases "in_op i")
  case (LimbicRoom e)
  moreover assume "limbic_ok s"
  ultimately show ?thesis
    by (cases e) (auto simp: limbic_step_def intro!: processed_ok process_ok, simp add: limbic_ok_def)
qed (auto simp: limbic_step_def limbic_on_message_def Let_def intro!: processed_ok process_ok)

lemma limbic_run_ok: "limbic_ok s \<Longrightarrow> limbic_ok (fold (limbic_step env announce) is s)"
  by (induction "is" arbitrary: s) (auto intro: limbic_step_ok)

text \<open>C27: The affective state is well typed in every run. After any sequence of messages and room events, with any texts,
  contexts, clock readings (also backward ones) and classifier, the latest emotion has a primary and a different
  secondary emotion with intensities in (0, 1], affect and mood lie in [-1, 1], trust, familiarity and disclosure of every
  account in [0, 1], at most 50 results are remembered, and the temperature, candidate count and probabilities the agency
  derives from the state are in their ranges.\<close>
theorem affect_well_typed:
  "let s = fold (limbic_step env announce) is (new_limbic now); m = get_modulation_state label s
   in limbic_ok s \<and> modulation_ok m \<and> mo_chaos m \<le> 0.35 \<and> 0.2 \<le> sampling_temperature m \<and> sampling_temperature m \<le> 0.9 \<and>
      curiosity_candidate_count m \<in> {1..2} \<and> random_memory_inject_prob m \<in> {0..0.105} \<and> topic_jump_prob m \<in> {0..0.0875}"
proof -
  let ?s = "fold (limbic_step env announce) is (new_limbic now)"
  let ?m = "get_modulation_state label ?s"
  have ok: "limbic_ok ?s"
    by (rule limbic_run_ok) (simp add: limbic_ok_def new_limbic_def mood_ok_def)
  have m: "modulation_ok ?m"
    by (auto simp: get_modulation_state_def new_modulation_ok split: option.split)
  have c: "0 \<le> mo_chaos ?m" "mo_chaos ?m \<le> 0.35"
    using ok by (auto simp: get_modulation_state_def new_modulation_def compute_chaos_level_def limbic_ok_def emotion_ok_def split: option.splits)
  then have "0 \<le> \<lfloor>mo_chaos ?m * 3\<rfloor>" "\<lfloor>mo_chaos ?m * 3\<rfloor> \<le> 1"
    by (simp_all add: floor_le_iff)
  then have "curiosity_candidate_count ?m \<in> {1..2}"
    using c by (simp add: curiosity_candidate_count_def py_trunc_def)
  moreover have "0.2 \<le> max 0.2 (min 0.9 x) \<and> max 0.2 (min 0.9 x) \<le> 0.9" for x :: real
    by (auto simp: max_def min_def)
  then have "0.2 \<le> sampling_temperature ?m" "sampling_temperature ?m \<le> 0.9"
    unfolding sampling_temperature_def Let_def by blast+
  ultimately show ?thesis
    using ok m c by (simp add: Let_def random_memory_inject_prob_def topic_jump_prob_def)
qed

section \<open>Bonds\<close>

definition trust_level :: "real \<Rightarrow> rel_level" where
  "trust_level t = (if 0.7 \<le> t then BONDED else if 0.3 \<le> t then FAMILIAR else ACQUAINTANCE)"

lemma update_level_max: "rl_level (update_level r) = max (rl_level r) (trust_level (rl_trust r))"
  by (cases "rl_level r") (auto simp: update_level_def trust_level_def max_def less_eq_rel_level_def less_rel_level_def)

lemma relate_level: "rl_level (relate e c p r) = max (rl_level r) (trust_level (rl_trust (relate e c p r)))"
  by (simp add: relate_def update_level_max Let_def split: prod.split option.split)

lemma process_relations:
  "get_relationship a (li_relations (snd (limbic_process env t1 t2 am rm txt' ctx prof account s))) =
    get_relationship a (li_relations s) \<or>
   (\<exists>e c p. get_relationship a (li_relations (snd (limbic_process env t1 t2 am rm txt' ctx prof account s))) =
      relate e c p (get_relationship a (li_relations s)))"
  by (cases "rel_key a = rel_key account")
    (auto simp: limbic_process_def Let_def state_update_def update_relationship_def get_relationship_def dget_or_def
      split: option.split)

lemma processed_relations [simp]: "li_relations (processed t p) = li_relations (snd p)"
  by (cases p; cases "fst p") (simp_all add: processed_def)

lemma step_relations:
  "get_relationship a (li_relations (limbic_step env announce i s)) = get_relationship a (li_relations s) \<or>
   (\<exists>e c p. get_relationship a (li_relations (limbic_step env announce i s)) = relate e c p (get_relationship a (li_relations s)))"
proof (cases "in_op i")
  case (LimbicMessage e c)
  then show ?thesis
    using process_relations by (simp add: limbic_step_def limbic_on_message_def Let_def)
next
  case (LimbicRoom e)
  then show ?thesis
    using process_relations by (cases e) (simp_all add: limbic_step_def)
qed

text \<open>The trust an account has after each step of a run.\<close>

fun trust_trace :: "limbic_env \<Rightarrow> (bool \<Rightarrow> string \<Rightarrow> string) \<Rightarrow> string \<Rightarrow> limbic_input list \<Rightarrow> limbic \<Rightarrow> real list" where
  "trust_trace env announce a [] s = []"
| "trust_trace env announce a (i # is) s =
    (let s' = limbic_step env announce i s
     in rl_trust (get_relationship a (li_relations s')) # trust_trace env announce a is s')"

lemma level_run:
  assumes "trust_level (rl_trust (get_relationship a (li_relations s))) \<le> rl_level (get_relationship a (li_relations s))"
  shows "rl_level (get_relationship a (li_relations (fold (limbic_step env announce) is s))) =
    fold (\<lambda>t l. max l (trust_level t)) (trust_trace env announce a is s) (rl_level (get_relationship a (li_relations s)))"
  using assms
proof (induction "is" arbitrary: s)
  case (Cons i "is")
  let ?s = "limbic_step env announce i s"
  have *: "rl_level (get_relationship a (li_relations ?s)) =
      max (rl_level (get_relationship a (li_relations s))) (trust_level (rl_trust (get_relationship a (li_relations ?s))))"
    using step_relations [of a env announce i s] Cons.prems by (auto simp: relate_level)
  then have "trust_level (rl_trust (get_relationship a (li_relations ?s))) \<le> rl_level (get_relationship a (li_relations ?s))"
    by (metis max.cobounded2)
  from Cons.IH [OF this] show ?case
    by (simp add: Let_def *)
qed simp

text \<open>The level of a relationship is the highest its trust ever reached. After any run it is the maximum of
  ACQUAINTANCE and of the levels of all trust values along the run (BONDED from 0.7, FAMILIAR from 0.3): it never goes down,
  so that one moment of trust 0.7 bonds an account for good, however low the trust falls afterwards.\<close>
theorem bond_is_highest_trust:
  "rl_level (get_relationship a (li_relations (fold (limbic_step env announce) is (new_limbic now)))) =
    fold (\<lambda>t l. max l (trust_level t)) (trust_trace env announce a is (new_limbic now)) ACQUAINTANCE"
proof -
  have "get_relationship a (li_relations (new_limbic now)) = new_relationship"
    by (simp add: get_relationship_def new_limbic_def dget_or_def)
  then show ?thesis
    using level_run [of a "new_limbic now" env announce "is"] by (simp add: new_relationship_def trust_level_def less_eq_rel_level_def)
qed

section \<open>Joy\<close>

text \<open>Pleasant words change nothing. For two classifiers that both find a text at least as pleasant as unpleasant,
  the pipeline gives the same result and the same state, since pleasantness enters the dimensions only as
  unpleasantness, cut off at 0.\<close>
theorem pleasant_words_ignored:
  assumes "0 \<le> score_pleasantness (detect_word_emotions env txt')"
    and "0 \<le> score_pleasantness (detect_word_emotions (env\<lparr>le_neural := Some f\<rparr>) txt')"
  shows "limbic_process (env\<lparr>le_neural := Some f\<rparr>) t1 t2 am rm txt' ctx prof account s =
    limbic_process env t1 t2 am rm txt' ctx prof account s"
proof -
  let ?env = "env\<lparr>le_neural := Some f\<rparr>"
  have same: "score_coping ?env c = score_coping env c" "detect_context_type ?env txt' = detect_context_type env txt'" for c
    by (simp_all add: score_coping_def py_float_def detect_context_type_def split: option.split)
  define p where "p c = appraise_primary env txt' c" for c
  have "appraise_primary ?env txt' c =
      map_option (\<lambda>x. x\<lparr>pa_pleasantness := score_pleasantness (detect_word_emotions ?env txt')\<rparr>) (p c)" for c
    by (cases "score_coping env c") (simp_all add: appraise_primary_def same p_def)
  moreover have "pa_pleasantness x = score_pleasantness (detect_word_emotions env txt')" if "p c = Some x" for c x
    using that by (auto simp: p_def appraise_primary_def)
  moreover have "appraise_secondary (x\<lparr>pa_pleasantness := y\<rparr>) q = appraise_secondary x q" for x y q
    by (simp add: appraise_secondary_def split: option.split)
  moreover have "compute_dimensions (x\<lparr>pa_pleasantness := y\<rparr>) q = compute_dimensions x q"
    if "0 \<le> y" "0 \<le> pa_pleasantness x" for x y q
    using that by (simp add: compute_dimensions_def)
  ultimately show ?thesis
    using assms unfolding limbic_process_def Let_def same p_def [symmetric] by (auto split: option.split)
qed

definition demo_limbic_env :: limbic_env where
  "demo_limbic_env = \<lparr>le_neural = None, le_keywords = (\<lambda>_. []), le_contexts = (\<lambda>_. []), le_float = (\<lambda>_. None)\<rparr>"

end
