(* ===== verification/Procedural.thy ===== *)
theory Procedural
  imports Json_Store "HOL-Library.Product_Lexorder" "HOL-Library.Sublist"
begin

text \<open>
  Procedural memory (\<open>iris/memory/procedural\<close>): style memories, and the proposed changes of the
  persona profile with their approval and their application to a file.

  A store is the list its JSON lines file holds (see \<open>Json_Store\<close>). A path is the list of its components; what
  \<open>Path.resolve\<close> makes of symbolic links is the parameter \<open>links\<close>. The files are a dictionary
  from paths to texts.
\<close>

section \<open>Style memories\<close>

record style =
  sl_id :: string
  sl_scope :: string
  sl_account :: string
  sl_room :: string
  sl_kind :: string
  sl_content :: string
  sl_evidence :: string
  sl_confidence :: real
  sl_success :: int
  sl_failure :: int
  sl_last_used :: string
  sl_enabled :: bool
  sl_condition :: string
  sl_sources :: "string list"

definition style_visible :: "string \<Rightarrow> string \<Rightarrow> style \<Rightarrow> bool" where
  "style_visible account room m \<longleftrightarrow> sl_enabled m \<and>
     \<not> (sl_scope m = ''room'' \<and> sl_room m \<noteq> [] \<and> sl_room m \<noteq> room) \<and>
     \<not> (sl_scope m = ''account'' \<and> sl_account m \<noteq> [] \<and> sl_account m \<noteq> account)"

definition list_enabled :: "string \<Rightarrow> string \<Rightarrow> nat \<Rightarrow> style list \<Rightarrow> style list" where
  "list_enabled account room n ms =
    take n (rev (sort_key (\<lambda>m. (sl_confidence m, sl_success m - sl_failure m)) (rev (filter (style_visible account room) ms))))"

text \<open>An index replaces \<open>list_enabled\<close> when one is set; the shipped one forwards to it.\<close>

definition style_search :: "(string \<Rightarrow> string \<Rightarrow> string \<Rightarrow> nat \<Rightarrow> style list) option \<Rightarrow> string \<Rightarrow> string \<Rightarrow> string \<Rightarrow> nat \<Rightarrow> style list \<Rightarrow> style list" where
  "style_search index query account room n ms =
    (case index of Some f \<Rightarrow> f query account room n | None \<Rightarrow> list_enabled account room n ms)"

definition metadata_index :: "style list \<Rightarrow> string \<Rightarrow> string \<Rightarrow> string \<Rightarrow> nat \<Rightarrow> style list" where
  "metadata_index ms query account room n = list_enabled account room n ms"

definition kind_prefix :: "string \<Rightarrow> string" where
  "kind_prefix k = (case map_of
     [(''tone_preference'', ''[tone]''), (''successful_pattern'', ''[pattern]''), (''running_gag'', ''[gag]''),
      (''avoidance_rule'', ''[avoid]''), (''chaos_preference'', ''[chaos]''), (''conversation_strategy'', ''[strategy]'')] k of
       None \<Rightarrow> ''[hint]'' | Some p \<Rightarrow> p)"

text \<open>\<open>condition\<close> is the phrase around an activation condition and \<open>ellipsis\<close> the character that ends
  a text that was cut.\<close>

definition style_line :: "(string \<Rightarrow> string) \<Rightarrow> style \<Rightarrow> string" where
  "style_line condition m = ''- '' @ kind_prefix (sl_kind m) @ '' '' @ sl_content m @
     (if sl_condition m = [] then [] else condition (sl_condition m))"

definition render_style_hints :: "(string \<Rightarrow> string) \<Rightarrow> char \<Rightarrow> int \<Rightarrow> style list \<Rightarrow> string" where
  "render_style_hints condition ellipsis max_chars ms =
    (let t = join_with [CHR 0x0A] (map (style_line condition) ms)
     in if max_chars < int (length t) then slice_to (max_chars - 1) t @ [ellipsis] else t)"

definition build_style_hints :: "(string \<Rightarrow> string) \<Rightarrow> char \<Rightarrow> string \<Rightarrow> string \<Rightarrow> nat \<Rightarrow> int \<Rightarrow> style list \<Rightarrow> string" where
  "build_style_hints condition ellipsis account room max_items max_chars ms =
    (case list_enabled account room max_items ms of [] \<Rightarrow> [] | m # ms' \<Rightarrow> render_style_hints condition ellipsis max_chars (m # ms'))"

lemma style_hints_within_limit:
  "0 < max_chars \<Longrightarrow> int (length (build_style_hints condition ellipsis account room n max_chars ms)) \<le> max_chars"
  by (auto simp: build_style_hints_def render_style_hints_def slice_to_def Let_def split: list.split)

lemma index_changes_nothing:
  "style_search (Some (metadata_index ms)) query account room n ms = style_search None query account room n ms"
  by (simp add: style_search_def metadata_index_def)

definition record_usage :: "string \<Rightarrow> string \<Rightarrow> bool \<Rightarrow> style list \<Rightarrow> style option \<times> style list" where
  "record_usage now i success ms =
    (case id_find sl_id i ms of
       None \<Rightarrow> (None, ms)
     | Some m \<Rightarrow>
         let m' = (if success then m\<lparr>sl_success := sl_success m + 1\<rparr> else m\<lparr>sl_failure := sl_failure m + 1\<rparr>)\<lparr>sl_last_used := now\<rparr>
         in id_update sl_id i (\<lambda>_. m') ms)"

section \<open>Proposed changes of the profile\<close>

datatype patch_status = PatchPending | PatchApproved | PatchRejected | PatchApplied

record patch =
  pp_id :: string
  pp_target :: string
  pp_reason :: string
  pp_text :: string
  pp_evidence :: "string list"
  pp_confidence :: real
  pp_status :: patch_status
  pp_metadata :: "(string, pyobj) dict"

definition list_pending :: "patch list \<Rightarrow> patch list" where
  "list_pending ps = filter (\<lambda>p. pp_status p = PatchPending) ps"

definition approve_patch :: "string \<Rightarrow> patch list \<Rightarrow> patch option \<times> patch list" where
  "approve_patch i ps = id_update pp_id i (\<lambda>p. p\<lparr>pp_status := PatchApproved\<rparr>) ps"

definition reject_patch :: "string \<Rightarrow> string \<Rightarrow> patch list \<Rightarrow> patch option \<times> patch list" where
  "reject_patch i reason ps =
    id_update pp_id i (\<lambda>p. p\<lparr>pp_status := PatchRejected, pp_metadata := [(''rejection_reason'', PStr reason)]\<rparr>) ps"

section \<open>The target of a change\<close>

type_synonym path = "string list"

fun split_slash :: "string \<Rightarrow> string list" where
  "split_slash [] = [[]]"
| "split_slash (c # cs) =
    (if c = CHR ''/'' then [] # split_slash cs else case split_slash cs of [] \<Rightarrow> [[c]] | l # ls \<Rightarrow> (c # l) # ls)"

definition path_parts :: "string \<Rightarrow> path" where
  "path_parts raw = filter (\<lambda>p. p \<noteq> [] \<and> p \<noteq> ''.'') (split_slash raw)"

definition path_text :: "path \<Rightarrow> string" where
  "path_text ps = (if ps = [] then ''.'' else join_with ''/'' ps)"

definition profile_char :: "char \<Rightarrow> bool" where
  "profile_char c \<longleftrightarrow> (let n = (of_char c :: nat) in (65 \<le> n \<and> n \<le> 90) \<or> (97 \<le> n \<and> n \<le> 122) \<or> (48 \<le> n \<and> n \<le> 57)) \<or>
     c \<in> {CHR ''_'', CHR ''.'', CHR ''/'', CHR ''-''}"

text \<open>The dollar sign of the pattern also matches before a final line feed.\<close>

definition matches_profile :: "string \<Rightarrow> bool" where
  "matches_profile txt' \<longleftrightarrow>
    (let s = (if txt' \<noteq> [] \<and> last txt' = CHR 0x0A then butlast txt' else txt');
         pre = ''.iris/config/''; m = drop (length pre) (take (length s - 3) s)
     in starts_with pre s \<and> length pre + 3 < length s \<and> drop (length s - 3) s = ''.md'' \<and> list_all profile_char m)"

definition profile_dir :: path where
  "profile_dir = [''.iris'', ''config'']"

text \<open>\<open>None\<close> stands for the \<open>ValueError\<close>.\<close>

definition resolve_target :: "(path \<Rightarrow> path) \<Rightarrow> path \<Rightarrow> string \<Rightarrow> path option" where
  "resolve_target links base target =
    (let raw = py_strip target; parts = path_parts raw; resolved = links (base @ parts)
     in if raw = [] then Some (base @ profile_dir @ [''iris_profile.md''])
        else if starts_with ''/'' raw then None
        else if parts = [] \<or> hd parts \<noteq> ''.iris'' then None
        else if ''..'' \<in> set parts then None
        else if \<not> matches_profile (path_text parts) then None
        else if prefix (links (base @ profile_dir)) resolved then Some resolved
        else None)"

section \<open>Applying an approved change\<close>

record patch_world =
  pw_patches :: "patch list"
  pw_files :: "(path, string) dict"

definition rstrip :: "(char \<Rightarrow> bool) \<Rightarrow> string \<Rightarrow> string" where
  "rstrip P s = rev (dropWhile P (rev s))"

definition appended :: "string \<Rightarrow> string \<Rightarrow> string" where
  "appended existing text' =
    (let e = (if existing \<noteq> [] \<and> last existing = CHR 0x0A then existing else existing @ [CHR 0x0A]);
         sep = (if rstrip py_space e = [] then [] else [CHR 0x0A])
     in e @ sep @ rstrip (\<lambda>c. c = CHR 0x0A) text' @ [CHR 0x0A])"

definition apply_approved :: "(path \<Rightarrow> path) \<Rightarrow> path \<Rightarrow> bool \<Rightarrow> bool \<Rightarrow> string \<Rightarrow> patch_world \<Rightarrow> bool \<times> patch_world" where
  "apply_approved links base backup replace i w =
    (case id_find pp_id i (pw_patches w) of
       None \<Rightarrow> (False, w)
     | Some p \<Rightarrow>
         if pp_status p \<noteq> PatchApproved then (False, w)
         else (case resolve_target links base (pp_target p) of
           None \<Rightarrow> (False, w)
         | Some target \<Rightarrow>
             if py_strip (pp_text p) = [] then (False, w)
             else let old = dget (pw_files w) target;
                      f1 = (case old of
                              Some x \<Rightarrow> if backup then dput (butlast target @ [last target @ ''.bak'']) x (pw_files w) else pw_files w
                            | None \<Rightarrow> pw_files w);
                      new = (case old of
                               Some x \<Rightarrow> if replace then pp_text p else appended x (pp_text p)
                             | None \<Rightarrow> pp_text p)
                  in (True, w\<lparr>pw_files := dput target new f1,
                        pw_patches := snd (id_update pp_id i (\<lambda>q. q\<lparr>pp_status := PatchApplied\<rparr>) (pw_patches w))\<rparr>)))"

section \<open>Paths stay in the profile directory\<close>

lemma resolve_targetD:
  assumes "resolve_target links base target = Some p"
  obtains (default) "py_strip target = []" and "p = base @ profile_dir @ [''iris_profile.md'']"
  | (under) "p = links (base @ path_parts (py_strip target))" and "prefix (links (base @ profile_dir)) p"
      and "''..'' \<notin> set (path_parts (py_strip target))" and "matches_profile (path_text (path_parts (py_strip target)))"
  using assms by (auto simp: resolve_target_def Let_def split: if_splits)

lemma matches_profile_not_dir: "matches_profile (path_text parts) \<Longrightarrow> parts \<noteq> profile_dir"
  by (auto simp: matches_profile_def path_text_def profile_dir_def join_with_def starts_with_def Let_def)

lemma target_confined:
  assumes "resolve_target links base target = Some p"
  shows "prefix (links (base @ profile_dir)) p \<or> p = base @ profile_dir @ [''iris_profile.md'']"
    and "links = (\<lambda>q. q) \<longrightarrow> (\<exists>rest. p = base @ profile_dir @ rest \<and> rest \<noteq> [] \<and> ''..'' \<notin> set rest)"
proof -
  show "prefix (links (base @ profile_dir)) p \<or> p = base @ profile_dir @ [''iris_profile.md'']"
    using assms by (cases rule: resolve_targetD) auto
  show "links = (\<lambda>q. q) \<longrightarrow> (\<exists>rest. p = base @ profile_dir @ rest \<and> rest \<noteq> [] \<and> ''..'' \<notin> set rest)"
  proof
    assume links: "links = (\<lambda>q. q)"
    show "\<exists>rest. p = base @ profile_dir @ rest \<and> rest \<noteq> [] \<and> ''..'' \<notin> set rest"
      using assms
    proof (cases rule: resolve_targetD)
      case default
      then show ?thesis by simp
    next
      case under
      then obtain rest where "path_parts (py_strip target) = profile_dir @ rest"
        by (auto simp: links prefix_def)
      with under show ?thesis
        using matches_profile_not_dir [of "path_parts (py_strip target)"] by (auto simp: links)
    qed
  qed
qed


section \<open>Only approved changes are applied, and once\<close>

lemma backup_differs: "butlast t @ [last t @ ''.bak''] \<noteq> (t :: path)"
proof
  assume eq: "butlast t @ [last t @ ''.bak''] = t"
  then have "t \<noteq> []"
    by auto
  then have "butlast t @ [last t @ ''.bak''] = butlast t @ [last t]"
    using eq by simp
  then show False
    by simp
qed

lemma appended_prefix: "\<exists>y. appended x text' = x @ y"
  by (auto simp: appended_def Let_def)

lemma find_upd_first_same:
  assumes "find (\<lambda>e. key e = i) es = Some e" and "key (f e) = i"
  shows "find (\<lambda>e. key e = i) (upd_first (\<lambda>e. key e = i) f es) = Some (f e)"
  using assms by (induction es) (auto split: if_splits)

text \<open>Applying a proposal changes nothing unless the proposal is approved, its target acceptable and its text not
  empty. When it is applied, only the target file and its backup change, the backup holds the former content, in append mode the
  former content is a prefix of the new one, and the proposal is applied for good: a second application does nothing.\<close>
theorem patch_applied_once:
  "case apply_approved links base backup replace i w of (ok, w') \<Rightarrow>
     (\<not> ok \<longrightarrow> w' = w) \<and>
     (ok \<longrightarrow> (\<exists>p t. id_find pp_id i (pw_patches w) = Some p \<and> pp_status p = PatchApproved \<and>
        resolve_target links base (pp_target p) = Some t \<and>
        (\<forall>q. q \<noteq> t \<and> q \<noteq> butlast t @ [last t @ ''.bak''] \<longrightarrow> dget (pw_files w') q = dget (pw_files w) q) \<and>
        (\<forall>x. dget (pw_files w) t = Some x \<longrightarrow>
           (backup \<longrightarrow> dget (pw_files w') (butlast t @ [last t @ ''.bak'']) = Some x) \<and>
           (\<not> replace \<longrightarrow> (\<exists>y. dget (pw_files w') t = Some (x @ y)))) \<and>
        apply_approved links base backup replace i w' = (False, w')))"
proof (cases "apply_approved links base backup replace i w")
  case (Pair ok w')
  show ?thesis
  proof (cases ok)
    case False
    with Pair show ?thesis
      by (auto simp: apply_approved_def Let_def split: option.splits if_splits)
  next
    case True
    from Pair True obtain p t where p: "id_find pp_id i (pw_patches w) = Some p" "pp_status p = PatchApproved"
        and t: "resolve_target links base (pp_target p) = Some t" and ne: "py_strip (pp_text p) \<noteq> []"
      by (auto simp: apply_approved_def split: option.splits if_splits)
    let ?bak = "butlast t @ [last t @ ''.bak'']"
    have w': "w' = w\<lparr>pw_files := dput t (case dget (pw_files w) t of Some x \<Rightarrow> if replace then pp_text p else appended x (pp_text p) | None \<Rightarrow> pp_text p)
           (case dget (pw_files w) t of Some x \<Rightarrow> if backup then dput ?bak x (pw_files w) else pw_files w | None \<Rightarrow> pw_files w),
         pw_patches := snd (id_update pp_id i (\<lambda>q. q\<lparr>pp_status := PatchApplied\<rparr>) (pw_patches w))\<rparr>"
      using Pair True p t ne by (auto simp: apply_approved_def Let_def)
    have "id_find pp_id i (pw_patches w') = Some (p\<lparr>pp_status := PatchApplied\<rparr>)"
      using p(1) find_SomeD [of "\<lambda>e. pp_id e = i" "pw_patches w" p]
      by (simp add: w' id_update_def id_find_def find_upd_first_same)
    then have "apply_approved links base backup replace i w' = (False, w')"
      by (simp add: apply_approved_def)
    moreover have "dget (pw_files w') q = dget (pw_files w) q" if "q \<noteq> t" "q \<noteq> ?bak" for q
      using that by (simp add: w' split: option.split)
    moreover have "dget (pw_files w') ?bak = Some x" if "dget (pw_files w) t = Some x" backup for x
      using that backup_differs by (simp add: w')
    moreover have "\<exists>y. dget (pw_files w') t = Some (x @ y)" if "dget (pw_files w) t = Some x" "\<not> replace" for x
      using that appended_prefix [of x "pp_text p"] by (auto simp: w')
    ultimately show ?thesis
      using Pair True p t by auto
  qed
qed

definition demo_patch :: patch where
  "demo_patch = \<lparr>pp_id = ''p1'', pp_target = ''.iris/config/iris_profile.md'', pp_reason = ''why'', pp_text = ''be kind'',
     pp_evidence = [], pp_confidence = 1, pp_status = PatchApproved, pp_metadata = []\<rparr>"

lemma demo_target:
  "resolve_target (\<lambda>q. q) [''home''] (pp_target demo_patch) = Some [''home'', ''.iris'', ''config'', ''iris_profile.md'']"
  by (simp add: resolve_target_def demo_patch_def py_strip_def py_space_def path_parts_def path_text_def join_with_def
      matches_profile_def starts_with_def profile_char_def profile_dir_def Let_def)



definition demo_patch_world :: patch_world where
  "demo_patch_world = \<lparr>pw_patches = [demo_patch], pw_files = []\<rparr>"

lemma demo_applied: "fst (apply_approved (\<lambda>q. q) [''home''] True False ''p1'' demo_patch_world)"
  using demo_target by (simp add: apply_approved_def demo_patch_world_def id_find_def demo_patch_def py_strip_def
      py_space_def Let_def)

end
