(* ===== verification/Archive.thy ===== *)
theory Archive
  imports Long_Term "HOL-Library.List_Lexorder" "HOL-Library.Char_ord"
begin

text \<open>
  The archive of raw conversations (\<open>iris/memory/archive\<close>): one JSON lines file per day, a further one when a
  file is full, and at most a number of files.

  The directory is a dictionary from file names to texts. Names are compared by code points, as Python sorts
  paths of one directory. The JSON encoder and parser are the parameters \<open>dump\<close> and \<open>parse\<close> of
  \<open>Json_Store\<close>.
\<close>

section \<open>Records\<close>

record conversation_record =
  ar_id :: string
  ar_timestamp :: string
  ar_direction :: string
  ar_role :: string
  ar_content :: string
  ar_room :: string
  ar_account :: string
  ar_session :: string
  ar_source :: string
  ar_message_type :: string

record archive_policy =
  ap_enabled :: bool
  ap_max_bytes :: nat
  ap_keep :: int

type_synonym archive_dir = "(string, string) dict"

definition coerce_record :: "string \<Rightarrow> string \<Rightarrow> conversation_record \<Rightarrow> conversation_record" where
  "coerce_record new_id now r = r\<lparr>ar_id := or_else (ar_id r) new_id, ar_timestamp := or_else (ar_timestamp r) now\<rparr>"

section \<open>File names\<close>

definition ends_with :: "string \<Rightarrow> string \<Rightarrow> bool" where
  "ends_with p s \<longleftrightarrow> length p \<le> length s \<and> drop (length s - length p) s = p"

definition jsonl_suffix :: string where
  "jsonl_suffix = ''.jsonl''"

definition jsonl_names :: "archive_dir \<Rightarrow> string list" where
  "jsonl_names d = sort (filter (ends_with jsonl_suffix) (dkeys d))"

definition day_files :: "string \<Rightarrow> archive_dir \<Rightarrow> string list" where
  "day_files day d = sort (filter (\<lambda>n. starts_with day n \<and> ends_with jsonl_suffix (drop (length day) n)) (dkeys d))"

definition stem :: "string \<Rightarrow> string" where
  "stem n = take (length n - length jsonl_suffix) n"

definition is_digit :: "char \<Rightarrow> bool" where
  "is_digit c \<longleftrightarrow> (let n = (of_char c :: nat) in 48 \<le> n \<and> n \<le> 57)"

text \<open>\<open>int(s)\<close> on texts without underscores; \<open>None\<close> stands for the \<open>ValueError\<close>.\<close>

definition py_int :: "string \<Rightarrow> int option" where
  "py_int s =
    (let t = py_strip s;
         ds = (if t \<noteq> [] \<and> hd t \<in> {CHR ''+'', CHR ''-''} then tl t else t)
     in if ds = [] \<or> \<not> list_all is_digit ds then None
        else Some (if hd t = CHR ''-'' then - int (read_nat ds) else int (read_nat ds)))"

definition after_underscore :: "string \<Rightarrow> string" where
  "after_underscore s = rev (takeWhile (\<lambda>c. c \<noteq> CHR ''_'') (rev s))"

definition roll_index :: "string \<Rightarrow> string \<Rightarrow> int option" where
  "roll_index day n = (if starts_with (day @ ''_'') (stem n) then py_int (after_underscore (stem n)) else None)"

definition next_index :: "string \<Rightarrow> string list \<Rightarrow> int" where
  "next_index day names =
    fold (\<lambda>n i. case roll_index day n of None \<Rightarrow> i | Some k \<Rightarrow> max i (k + 1)) names 1"

definition rolled_name :: "string \<Rightarrow> nat \<Rightarrow> string" where
  "rolled_name day i = day @ ''_'' @ pad_left 2 (show_nat i) @ jsonl_suffix"

definition select_file :: "archive_policy \<Rightarrow> string \<Rightarrow> archive_dir \<Rightarrow> string" where
  "select_file p day d =
    (case day_files day d of
       [] \<Rightarrow> day @ jsonl_suffix
     | n # ns \<Rightarrow>
         let latest = last (n # ns)
         in if ap_max_bytes p \<le> utf8_len (dget_or d latest [])
            then rolled_name day (nat (next_index day (n # ns)))
            else latest)"

section \<open>Writing and reading\<close>

definition evict :: "archive_policy \<Rightarrow> archive_dir \<Rightarrow> archive_dir" where
  "evict p d =
    (let files = jsonl_names d
     in if int (length files) \<le> ap_keep p then d else fold ddel (slice_to (- ap_keep p) files) d)"

definition write_line :: "string \<Rightarrow> string \<Rightarrow> archive_dir \<Rightarrow> archive_dir" where
  "write_line n line d = dput n (dget_or d n [] @ line @ [CHR 0x0A]) d"

definition archive_append :: "(conversation_record \<Rightarrow> string) \<Rightarrow> archive_policy \<Rightarrow> string \<Rightarrow> string \<Rightarrow> string \<Rightarrow>
    conversation_record \<Rightarrow> archive_dir \<Rightarrow> string option \<times> archive_dir" where
  "archive_append dump p new_id now day r d =
    (if ap_enabled p
     then let r' = coerce_record new_id now r
          in (Some (ar_id r'), evict p (write_line (select_file p day d) (dump r') d))
     else (None, d))"

definition load_archive :: "(string \<Rightarrow> conversation_record option) \<Rightarrow> archive_dir \<Rightarrow> conversation_record list" where
  "load_archive parse d = concat (map (\<lambda>n. read_lines parse (dget_or d n [])) (jsonl_names d))"

definition query_by_time :: "(string \<Rightarrow> conversation_record option) \<Rightarrow> string \<Rightarrow> string \<Rightarrow> archive_dir \<Rightarrow> conversation_record list" where
  "query_by_time parse start end' d =
    (let e = or_else end' ''9999-12-31T23:59:59+00:00''
     in filter (\<lambda>r. start \<le> ar_timestamp r \<and> ar_timestamp r \<le> e) (load_archive parse d))"

definition find_record :: "(string \<Rightarrow> conversation_record option) \<Rightarrow> string \<Rightarrow> archive_dir \<Rightarrow> conversation_record option" where
  "find_record parse i d = find (\<lambda>r. ar_id r = i) (load_archive parse d)"

section \<open>The handler\<close>

record archived_event = message_event +
  mv_content :: string
  mv_source :: string
  mv_source_role :: string

definition inbound_record :: "archived_event \<Rightarrow> conversation_record" where
  "inbound_record e = \<lparr>ar_id = [], ar_timestamp = [], ar_direction = ''inbound'', ar_role = ''user'', ar_content = mv_content e,
     ar_room = mv_room_id e, ar_account = mv_account_id e, ar_session = mv_session_id e,
     ar_source = or_else (mv_source_role e) (mv_source e), ar_message_type = mv_msg_type e\<rparr>"

definition outbound_record :: "archived_event \<Rightarrow> conversation_record" where
  "outbound_record e = \<lparr>ar_id = [], ar_timestamp = [], ar_direction = ''outbound'', ar_role = ''assistant'', ar_content = mv_content e,
     ar_room = mv_room_id e, ar_account = mv_account_id e, ar_session = mv_session_id e,
     ar_source = or_else (mv_source_role e) (or_else (mv_source e) ''assistant''), ar_message_type = mv_msg_type e\<rparr>"

definition response_record :: "string \<Rightarrow> string \<Rightarrow> string \<Rightarrow> string \<Rightarrow> string \<Rightarrow> conversation_record" where
  "response_record txt' account room session source =
    \<lparr>ar_id = [], ar_timestamp = [], ar_direction = ''outbound'', ar_role = ''assistant'', ar_content = txt',
     ar_room = room, ar_account = account, ar_session = session, ar_source = source, ar_message_type = ''chat''\<rparr>"

text \<open>What a message event adds to the archive.\<close>

definition archived :: "bool \<Rightarrow> archived_event \<Rightarrow> conversation_record option" where
  "archived include_outbound e =
    (if mv_content e = [] then None
     else if mv_direction e = ''request'' \<and> mv_msg_type e \<in> {''chat'', ''system''} then Some (inbound_record e)
     else if mv_direction e = ''response'' \<and> include_outbound then Some (outbound_record e)
     else None)"

definition archive_on_message :: "(conversation_record \<Rightarrow> string) \<Rightarrow> archive_policy \<Rightarrow> bool \<Rightarrow> string \<Rightarrow> string \<Rightarrow> string \<Rightarrow>
    archived_event \<Rightarrow> archive_dir \<Rightarrow> archive_dir" where
  "archive_on_message dump p include_outbound new_id now day e d =
    (case archived include_outbound e of
       None \<Rightarrow> d
     | Some r \<Rightarrow> snd (archive_append dump p new_id now day r d))"

definition archive_response_text :: "(conversation_record \<Rightarrow> string) \<Rightarrow> archive_policy \<Rightarrow> string \<Rightarrow> string \<Rightarrow> string \<Rightarrow>
    string \<Rightarrow> string \<Rightarrow> string \<Rightarrow> string \<Rightarrow> string \<Rightarrow> archive_dir \<Rightarrow> archive_dir" where
  "archive_response_text dump p new_id now day txt' account room session source d =
    (if txt' = [] then d else snd (archive_append dump p new_id now day (response_record txt' account room session source) d))"

section \<open>The directory holds whole lines\<close>

definition archive_text :: "(conversation_record \<Rightarrow> string) \<Rightarrow> conversation_record list \<Rightarrow> string" where
  "archive_text dump rs = concat (map (\<lambda>r. dump r @ [CHR 0x0A]) rs)"

definition archive_ok :: "(conversation_record \<Rightarrow> string) \<Rightarrow> archive_dir \<Rightarrow> bool" where
  "archive_ok dump d \<longleftrightarrow> distinct (dkeys d) \<and>
     (\<forall>n t. dget d n = Some t \<and> ends_with jsonl_suffix n \<longrightarrow> (\<exists>rs. t = archive_text dump rs))"

lemma read_archive_text:
  assumes "codec_ok dump parse"
  shows "read_lines parse (archive_text dump rs) = rs"
proof -
  have split: "split_lines (archive_text dump rs) = map dump rs"
  proof (induction rs)
    case (Cons r rs)
    have "\<forall>c \<in> set (dump r). \<not> line_break c"
      using assms by (simp add: codec_ok_def)
    then have "split_lines (dump r @ CHR 0x0A # archive_text dump rs) = dump r # split_lines (archive_text dump rs)"
      by (rule split_lines_append_LF)
    with Cons show ?case
      by (simp add: archive_text_def)
  qed (simp add: archive_text_def)
  have "filter (\<lambda>l. \<not> blank l) (map dump rs) = map dump rs"
    using assms by (auto simp: codec_ok_def filter_id_conv)
  moreover have "List.map_filter parse (map dump rs) = rs"
    using assms by (induction rs) (auto simp: codec_ok_def List.map_filter_simps)
  ultimately show ?thesis
    by (simp add: read_lines_def split)
qed

lemma archive_text_snoc: "archive_text dump rs @ dump r @ [CHR 0x0A] = archive_text dump (rs @ [r])"
  by (simp add: archive_text_def)

lemma ends_with_append [simp]: "ends_with p (s @ p)"
  by (simp add: ends_with_def)

lemma ends_with_iff: "ends_with p s \<longleftrightarrow> (\<exists>u. s = u @ p)"
  by (metis append_take_drop_id ends_with_append ends_with_def)

lemma ends_with_drop: "ends_with p (drop k n) \<Longrightarrow> ends_with p n"
  unfolding ends_with_iff by (metis append.assoc append_take_drop_id)

lemma set_jsonl_names: "set (jsonl_names d) = {n \<in> set (dkeys d). ends_with jsonl_suffix n}"
  by (auto simp: jsonl_names_def)

lemma sorted_jsonl_names [simp]: "sorted (jsonl_names d)"
  by (simp add: jsonl_names_def)

lemma distinct_jsonl_names [simp]: "distinct (dkeys d) \<Longrightarrow> distinct (jsonl_names d)"
  by (simp add: jsonl_names_def)

lemma select_file_jsonl [simp]: "ends_with jsonl_suffix (select_file p day d)"
proof (cases "day_files day d")
  case (Cons n ns)
  have "last (n # ns) \<in> set (day_files day d)"
    using Cons last_in_set [of "n # ns"] by simp
  then have "ends_with jsonl_suffix (last (n # ns))"
    by (auto simp: day_files_def dest: ends_with_drop)
  moreover have "ends_with jsonl_suffix (rolled_name day i)" for i
    using ends_with_append [of jsonl_suffix "day @ ''_'' @ pad_left 2 (show_nat i)"] by (simp add: rolled_name_def)
  ultimately show ?thesis
    by (simp add: select_file_def Cons Let_def)
qed (simp add: select_file_def)

lemma fold_ddel: "fold ddel xs d = filter (\<lambda>p. fst p \<notin> set xs) d"
  by (induction xs arbitrary: d) (auto simp: AList.delete_eq intro: filter_cong)

lemma dget_evicted:
  "dget (fold ddel xs d) n = (if n \<in> set xs then None else dget d n)"
  by (induction xs arbitrary: d) auto

lemma dkeys_fold_ddel: "set (dkeys (fold ddel xs d)) = set (dkeys d) - set xs"
  by (auto simp: fold_ddel)

lemma distinct_fold_ddel: "distinct (dkeys d) \<Longrightarrow> distinct (dkeys (fold ddel xs d))"
  by (simp add: fold_ddel distinct_map_filter)

lemma archive_ok_write:
  assumes "archive_ok dump d" and "ends_with jsonl_suffix n"
  shows "archive_ok dump (write_line n (dump r) d)"
proof -
  have "\<exists>rs. dget_or d n [] = archive_text dump rs"
  proof (cases "dget d n")
    case None
    then show ?thesis
      by (intro exI [of _ "[]"]) (simp add: dget_or_def archive_text_def)
  next
    case (Some t)
    with assms show ?thesis
      by (auto simp: archive_ok_def dget_or_def)
  qed
  then obtain rs where rs: "dget_or d n [] = archive_text dump rs" ..
  have "\<exists>rs. t = archive_text dump rs" if "dget (write_line n (dump r) d) m = Some t" "ends_with jsonl_suffix m" for m t
  proof (cases "m = n")
    case True
    with that have "t = archive_text dump rs @ dump r @ [CHR 0x0A]"
      by (simp add: write_line_def rs)
    then show ?thesis
      by (auto simp: archive_text_snoc)
  next
    case False
    with that assms(1) show ?thesis
      by (auto simp: write_line_def archive_ok_def)
  qed
  moreover have "distinct (dkeys (write_line n (dump r) d))"
    using assms(1) by (simp add: archive_ok_def write_line_def)
  ultimately show ?thesis
    by (auto simp: archive_ok_def)
qed

lemma archive_ok_evict: "archive_ok dump d \<Longrightarrow> archive_ok dump (evict p d)"
  unfolding archive_ok_def evict_def Let_def by (auto simp: fold_ddel distinct_map_filter simp del: dget_eq_iff)

lemma archive_ok_append [inv_intros]:
  "archive_ok dump d \<Longrightarrow> archive_ok dump (snd (archive_append dump p new_id now day r d))"
  by (simp add: archive_append_def Let_def archive_ok_evict archive_ok_write)

section \<open>The newest records are kept\<close>

lemma jsonl_names_write:
  assumes "distinct (dkeys d)" and "ends_with jsonl_suffix f" and max: "\<forall>n \<in> set (jsonl_names d). n \<le> f"
  shows "jsonl_names (write_line f line d) = filter (\<lambda>n. n \<noteq> f) (jsonl_names d) @ [f]"
proof (rule sorted_distinct_set_unique)
  show "sorted (filter (\<lambda>n. n \<noteq> f) (jsonl_names d) @ [f])"
    using max sorted_wrt_filter [OF sorted_jsonl_names, of "\<lambda>n. n \<noteq> f" d] by (auto simp: sorted_append)
  show "set (jsonl_names (write_line f line d)) = set (filter (\<lambda>n. n \<noteq> f) (jsonl_names d) @ [f])"
    using assms(2) unfolding set_append set_filter set_jsonl_names write_line_def set_dkeys_dput by auto
qed (use assms(1) in \<open>auto simp: write_line_def\<close>)

lemma jsonl_names_evicted:
  assumes "distinct (dkeys d)" and "0 < ap_keep p"
  shows "jsonl_names (evict p d) = lastn (nat (ap_keep p)) (jsonl_names d)"
proof (cases "int (length (jsonl_names d)) \<le> ap_keep p")
  case True
  then show ?thesis
    by (simp add: evict_def)
next
  case False
  let ?f = "jsonl_names d" and ?k = "nat (ap_keep p)"
  let ?cut = "take (length ?f - ?k) ?f"
  have d': "evict p d = fold ddel ?cut d"
    using False assms(2) by (simp add: evict_def slice_to_neg Let_def)
  have dis: "distinct (?cut @ lastn ?k ?f)"
    using assms(1) by (simp add: lastn_def)
  show ?thesis
  proof (rule sorted_distinct_set_unique)
    show "sorted (lastn ?k ?f)"
      by (simp add: lastn_def sorted_wrt_drop)
    show "distinct (jsonl_names (evict p d))" "distinct (lastn ?k ?f)"
      using assms(1) dis by (simp_all add: d' distinct_fold_ddel)
    have "set (jsonl_names (evict p d)) = set ?f - set ?cut"
      unfolding set_jsonl_names d' dkeys_fold_ddel by auto
    also have "\<dots> = set (?cut @ lastn ?k ?f) - set ?cut"
      by (simp add: lastn_def)
    also have "\<dots> = set (lastn ?k ?f)"
      using dis by auto
    finally show "set (jsonl_names (evict p d)) = set (lastn ?k ?f)" .
  qed simp
qed

lemma dget_kept:
  assumes "distinct (dkeys d)" and "0 < ap_keep p" and "n \<in> set (jsonl_names (evict p d))"
  shows "dget (evict p d) n = dget d n"
proof (cases "dget (evict p d) n")
  case None
  then show ?thesis
    using assms(3) by (simp add: set_jsonl_names dget_None_iff)
next
  case (Some t)
  then have "(n, t) \<in> set d"
    by (auto simp: evict_def Let_def fold_ddel split: if_splits dest: dget_Some_in)
  with Some assms(1) show ?thesis
    by simp
qed


section \<open>The hundredth file of a day\<close>

lemma after_underscore_append [simp]:
  "CHR ''_'' \<notin> set s \<Longrightarrow> after_underscore (t @ CHR ''_'' # s) = s"
  by (simp add: after_underscore_def takeWhile_append takeWhile_tail)

lemma stem_rolled [simp]: "stem (rolled_name day i) = day @ CHR ''_'' # pad_left 2 (show_nat i)"
  by (simp add: stem_def rolled_name_def jsonl_suffix_def)

lemma show_99: "pad_left 2 (show_nat 99) = ''99''" "pad_left 2 (show_nat 100) = ''100''"
  by (simp_all add: show_nat.simps pad_left_def digit_def char_of_def bit_Suc_0_iff)

lemma roll_index_99: "roll_index day (rolled_name day 99) = Some 99"
  by (simp add: roll_index_def show_99 starts_with_def py_int_def py_strip_def py_space_def is_digit_def read_nat_def)

lemma next_index_bounds:
  "i \<le> m \<Longrightarrow> \<forall>n \<in> set names. \<forall>k. roll_index day n = Some k \<longrightarrow> k < m \<Longrightarrow>
    i \<le> fold (\<lambda>n i. case roll_index day n of None \<Rightarrow> i | Some k \<Rightarrow> max i (k + 1)) names i \<and>
    fold (\<lambda>n i. case roll_index day n of None \<Rightarrow> i | Some k \<Rightarrow> max i (k + 1)) names i \<le> m"
proof (induction names arbitrary: i)
  case (Cons n names)
  show ?case
  proof (cases "roll_index day n")
    case None
    with Cons show ?thesis by simp
  next
    case (Some k)
    with Cons.prems have "max i (k + 1) \<le> m"
      by simp
    then show ?thesis
      using Cons.IH [of "max i (k + 1)"] Cons.prems Some by simp
  qed
qed simp

lemma next_index_last:
  assumes "names \<noteq> []" and "roll_index day (last names) = Some k" and "0 \<le> k"
    and "\<forall>n \<in> set names. \<forall>j. roll_index day n = Some j \<longrightarrow> j \<le> k"
  shows "next_index day names = k + 1"
proof -
  let ?f = "\<lambda>n i. case roll_index day n of None \<Rightarrow> i | Some j \<Rightarrow> max i (j + 1)"
  have "fold ?f (butlast names) 1 \<le> k + 1"
    using next_index_bounds [of 1 "k + 1" "butlast names" day] assms(3,4) by (auto dest: in_set_butlastD)
  moreover have "next_index day names = ?f (last names) (fold ?f (butlast names) 1)"
    by (subst append_butlast_last_id [OF assms(1), symmetric]) (simp add: next_index_def)
  ultimately show ?thesis
    using assms(2) by simp
qed

text \<open>Names are compared as texts, so the hundredth overflow file of a day sorts before the second. Once file 99 of
  a day is full and enough files sort after number 100, a new record is lost as soon as it is written: the file it goes to is
  deleted in the same step, and no file holds anything that was not there before. The call still answers the id of the record.\<close>
theorem hundredth_file_lost:
  assumes dis: "distinct (dkeys d)" and on: "ap_enabled p" and keep: "0 < ap_keep p"
    and latest: "day_files day d \<noteq> []" "last (day_files day d) = rolled_name day 99"
    and none: "\<forall>n \<in> set (day_files day d). \<forall>k. roll_index day n = Some k \<longrightarrow> k \<le> 99"
    and full: "ap_max_bytes p \<le> utf8_len (dget_or d (rolled_name day 99) [])"
    and absent: "rolled_name day 100 \<notin> set (dkeys d)"
    and later: "ap_keep p \<le> int (length (filter (\<lambda>n. rolled_name day 100 < n) (jsonl_names d)))"
    and step: "archive_append dump p new_id now day r d = (res, d')"
  shows "res = Some (ar_id (coerce_record new_id now r)) \<and> set d' \<subseteq> set d"
proof -
  let ?f = "rolled_name day 100" and ?k = "nat (ap_keep p)"
  have "next_index day (day_files day d) = 99 + 1"
    using latest none by (intro next_index_last) (simp_all add: roll_index_99)
  then have f: "select_file p day d = ?f"
    using latest full by (cases "day_files day d") (simp_all add: select_file_def Let_def)
  have jf: "ends_with jsonl_suffix ?f"
    using select_file_jsonl [of p day d] by (simp add: f)
  let ?w = "write_line ?f (dump (coerce_record new_id now r)) d"
  have res: "res = Some (ar_id (coerce_record new_id now r))" and d': "d' = evict p ?w"
    using step on by (auto simp: archive_append_def Let_def f)
  have disw: "distinct (dkeys ?w)"
    using dis by (simp add: write_line_def)
  have "jsonl_names d' = lastn ?k (jsonl_names ?w)"
    using jsonl_names_evicted [OF disw keep] by (simp add: d')
  moreover have "?f \<notin> set (lastn ?k (jsonl_names ?w))"
  proof
    assume fin: "?f \<in> set (lastn ?k (jsonl_names ?w))"
    let ?late = "filter (\<lambda>n. ?f < n) (jsonl_names ?w)"
    have le: "lastn ?k (jsonl_names ?w) = drop (length (jsonl_names ?w) - ?k) (jsonl_names ?w)"
      by (simp add: lastn_def)
    have cut: "jsonl_names ?w = take (length (jsonl_names ?w) - ?k) (jsonl_names ?w) @ lastn ?k (jsonl_names ?w)"
      by (simp add: lastn_def)
    have "sorted (take (length (jsonl_names ?w) - ?k) (jsonl_names ?w) @ lastn ?k (jsonl_names ?w))"
      using cut by (metis sorted_jsonl_names)
    then have "\<forall>n \<in> set (take (length (jsonl_names ?w) - ?k) (jsonl_names ?w)). n \<le> ?f"
      using fin by (auto simp: sorted_append)
    then have "?late = filter (\<lambda>n. ?f < n) (lastn ?k (jsonl_names ?w))"
      by (subst cut) (auto simp: filter_empty_conv)
    moreover have "length (filter (\<lambda>n. ?f < n) (lastn ?k (jsonl_names ?w))) < length (lastn ?k (jsonl_names ?w))"
      using fin by (intro length_filter_less [of ?f]) auto
    ultimately have "length ?late < ?k"
      by simp
    moreover have "length ?late = card {n \<in> set (jsonl_names ?w). ?f < n}"
      using distinct_card [of ?late] disw by simp
    moreover have "{n \<in> set (jsonl_names ?w). ?f < n} = {n \<in> set (jsonl_names d). ?f < n}"
      unfolding set_jsonl_names write_line_def set_dkeys_dput by auto
    moreover have "length (filter (\<lambda>n. ?f < n) (jsonl_names d)) = card {n \<in> set (jsonl_names d). ?f < n}"
      using distinct_card [of "filter (\<lambda>n. ?f < n) (jsonl_names d)"] dis by simp
    ultimately show False
      using later by simp
  qed
  ultimately have gone: "?f \<notin> set (dkeys d')"
    using jf by (metis (mono_tags, lifting) mem_Collect_eq set_jsonl_names)
  have "x \<in> set d" if "x \<in> set d'" for x
  proof -
    have "x \<in> set ?w"
      using that by (auto simp: d' evict_def Let_def fold_ddel split: if_splits)
    moreover have "fst x \<noteq> ?f"
      using gone that by (metis image_eqI list.set_map)
    ultimately show ?thesis
      using dis by (auto simp: write_line_def set_dput)
  qed
  with res show ?thesis by blast
qed

section \<open>Nothing in the program reaches the archive\<close>

lemma stream_never_archived: "mv_direction e = ''stream'' \<Longrightarrow> archive_on_message dump p out i now day e d = d"
  by (simp add: archive_on_message_def archived_def)

definition demo_record :: conversation_record where
  "demo_record = \<lparr>ar_id = ''r'', ar_timestamp = ''t'', ar_direction = ''inbound'', ar_role = ''user'', ar_content = ''hi'',
     ar_room = [], ar_account = [], ar_session = [], ar_source = [], ar_message_type = ''chat''\<rparr>"

definition demo_policy :: archive_policy where
  "demo_policy = \<lparr>ap_enabled = True, ap_max_bytes = 1, ap_keep = 1\<rparr>"

definition demo_dir :: archive_dir where
  "demo_dir = [(''2026-01-01_99.jsonl'', ''x'')]"

lemma demo_dir_names: "day_files ''2026-01-01'' demo_dir = [''2026-01-01_99.jsonl'']"
  "jsonl_names demo_dir = [''2026-01-01_99.jsonl'']"
  "rolled_name ''2026-01-01'' 99 = ''2026-01-01_99.jsonl''" "rolled_name ''2026-01-01'' 100 = ''2026-01-01_100.jsonl''"
  by (simp_all add: day_files_def jsonl_names_def demo_dir_def starts_with_def ends_with_def jsonl_suffix_def rolled_name_def show_99)

section \<open>An encoder that meets the contract\<close>

text \<open>Every character is written as two letters, every field ends in a full stop.\<close>

definition enc_char :: "char \<Rightarrow> string" where
  "enc_char c = [char_of (65 + of_char c div 16 :: nat), char_of (65 + of_char c mod 16 :: nat)]"

definition enc_str :: "string \<Rightarrow> string" where
  "enc_str s = concat (map enc_char s) @ ''.''"

fun dec_str :: "string \<Rightarrow> (string \<times> string) option" where
  "dec_str (c # d # ds) =
    (if c = CHR ''.'' then Some ([], d # ds)
     else case dec_str ds of
       None \<Rightarrow> None
     | Some (s, rest) \<Rightarrow> Some (char_of (16 * (of_char c - 65) + (of_char d - 65) :: nat) # s, rest))"
| "dec_str [c] = (if c = CHR ''.'' then Some ([], []) else None)"
| "dec_str [] = None"

fun dec_strs :: "nat \<Rightarrow> string \<Rightarrow> string list option" where
  "dec_strs 0 l = (if l = [] then Some [] else None)"
| "dec_strs (Suc n) l =
    (case dec_str l of None \<Rightarrow> None | Some (s, rest) \<Rightarrow> map_option ((#) s) (dec_strs n rest))"

definition plain :: "char \<Rightarrow> bool" where
  "plain c \<longleftrightarrow> (let n = (of_char c :: nat) in n = 46 \<or> (65 \<le> n \<and> n \<le> 80))"

lemma nibbles: "(of_char (char_of (65 + n div 16 :: nat)) :: nat) = 65 + n div 16"
  "(of_char (char_of (65 + n mod 16 :: nat)) :: nat) = 65 + n mod 16" if "n < 256"
  using that by simp_all

lemma dec_enc_str [simp]: "dec_str (enc_str s @ t) = Some (s, t)"
proof (induction s)
  case Nil
  then show ?case
    by (cases t) (simp_all add: enc_str_def)
next
  case (Cons c s)
  have n: "(of_char c :: nat) < 256"
    by simp
  have "char_of (65 + of_char c div 16 :: nat) \<noteq> (CHR ''.'')"
  proof
    assume "char_of (65 + of_char c div 16 :: nat) = (CHR ''.'')"
    then have "(of_char (char_of (65 + of_char c div 16 :: nat)) :: nat) = of_char (CHR ''.'')"
      by simp
    then show False
      unfolding nibbles(1) [OF n] by simp
  qed
  moreover have "16 * (of_char c div 16) + of_char c mod 16 = (of_char c :: nat)"
    by simp
  ultimately show ?case
    using Cons by (simp add: enc_str_def enc_char_def nibbles [OF n] del: of_char_of)
qed

lemma dec_strs_enc: "dec_strs (length ss) (concat (map enc_str ss)) = Some ss"
  by (induction ss) simp_all

lemma plain_enc_str: "\<forall>c \<in> set (enc_str s). plain c"
proof -
  have "plain a" if "a \<in> set (enc_char c)" for a c
  proof -
    have "(of_char c :: nat) < 256"
      by simp
    then have "(of_char c :: nat) div 16 < 16"
      by (simp add: less_mult_imp_div_less)
    then show ?thesis
      using that nibbles [of "of_char c"] by (auto simp: enc_char_def plain_def Let_def simp del: of_char_of)
  qed
  then show ?thesis
    by (auto simp: enc_str_def) (simp add: plain_def)
qed

lemma plain_line: "plain c \<Longrightarrow> \<not> line_break c" "plain c \<Longrightarrow> \<not> py_space c"
  by (auto simp: plain_def line_break_def py_space_def Let_def)

lemma plain_not_blank:
  assumes "s \<noteq> []" and "\<forall>c \<in> set s. plain c"
  shows "\<not> blank s"
proof -
  have "dropWhile py_space s = s"
    using assms by (cases s) (auto simp: plain_line)
  moreover have "dropWhile py_space (rev s) = rev s"
    using assms by (cases "rev s") (auto simp: plain_line dest: arg_cong [of _ _ set])
  ultimately show ?thesis
    using assms(1) by (simp add: blank_def py_strip_def)
qed

definition enc_record :: "conversation_record \<Rightarrow> string" where
  "enc_record r = concat (map enc_str [ar_id r, ar_timestamp r, ar_direction r, ar_role r, ar_content r, ar_room r,
     ar_account r, ar_session r, ar_source r, ar_message_type r])"

definition dec_record :: "string \<Rightarrow> conversation_record option" where
  "dec_record l = (case dec_strs 10 l of
     Some [a, b, c, d, e, f, g, h, i, j] \<Rightarrow>
       Some \<lparr>ar_id = a, ar_timestamp = b, ar_direction = c, ar_role = d, ar_content = e, ar_room = f, ar_account = g,
         ar_session = h, ar_source = i, ar_message_type = j\<rparr>
   | _ \<Rightarrow> None)"

lemma enc_record_codec: "codec_ok enc_record dec_record"
proof -
  have "dec_record (enc_record r) = Some r" for r
    using dec_strs_enc [of "[ar_id r, ar_timestamp r, ar_direction r, ar_role r, ar_content r, ar_room r,
     ar_account r, ar_session r, ar_source r, ar_message_type r]"]
    unfolding dec_record_def enc_record_def by (simp add: numeral_nat del: dec_strs.simps)
  moreover have plain: "\<forall>c \<in> set (enc_record r). plain c" for r
    using plain_enc_str by (auto simp: enc_record_def)
  moreover have "enc_record r \<noteq> []" for r
    by (simp add: enc_record_def enc_str_def)
  ultimately show ?thesis
    by (simp add: codec_ok_def plain_line plain_not_blank)
qed


end
