(* ===== verification/Proactive.thy ===== *)
theory Proactive
  imports Working_Memory Planning "HOL-Library.List_Lexorder" "HOL-Library.Char_ord"
begin

text \<open>
  The timer of the memory layer (\<open>iris/memory/handler.py\<close>) and the trigger of proactive utterances
  (\<open>iris/memory/events/proactive_trigger.py\<close>).

  \<open>last_active\<close> is the field of that name of a room member. No operation of the program writes it, so that it is
  \<open>None\<close> unless the membership file was edited by hand.
\<close>

section \<open>The trigger\<close>

definition weigh :: "(member \<Rightarrow> string option) \<Rightarrow> room \<Rightarrow> member \<Rightarrow> room option \<times> string option \<Rightarrow> room option \<times> string option" where
  "weigh last_active r m best =
    (if me_active m \<and>
        (case snd best of None \<Rightarrow> True | Some b \<Rightarrow> b < (case last_active m of None \<Rightarrow> [] | Some a \<Rightarrow> a))
     then (Some r, last_active m) else best)"

definition best_room :: "(member \<Rightarrow> string option) \<Rightarrow> room_manager \<Rightarrow> room option" where
  "best_room last_active rm =
    fst (fold (\<lambda>r. fold (weigh last_active r) (get_members (ro_id r) rm)) (find_rooms_by_state ACTIVE (rm_store rm)) (None, None))"

definition select_room :: "(member \<Rightarrow> string option) \<Rightarrow> string \<Rightarrow> string \<Rightarrow> room_manager \<Rightarrow> string \<times> room_manager" where
  "select_room last_active fresh now rm =
    (case best_room last_active rm of
       Some r \<Rightarrow> (ro_id r, rm)
     | None \<Rightarrow> (case get_default_room fresh now rm of (r, rm1) \<Rightarrow> (ro_id r, rm1)))"

definition proactive_event :: "string \<Rightarrow> input_ready" where
  "proactive_event rid = \<lparr>ir_session_id = [], ir_content = [], ir_account_id = [], ir_room_id = rid,
     ir_context = Some [(''from_timer'', PBool True)]\<rparr>"

definition trigger :: "(member \<Rightarrow> string option) \<Rightarrow> string \<Rightarrow> string \<Rightarrow> room_manager option \<Rightarrow> input_ready \<times> room_manager option" where
  "trigger last_active fresh now rooms =
    (case rooms of
       None \<Rightarrow> (proactive_event [], None)
     | Some rm \<Rightarrow> (case select_room last_active fresh now rm of (rid, rm1) \<Rightarrow> (proactive_event rid, Some rm1)))"

text \<open>A tick that handles an input triggers nothing.\<close>

definition memory_on_tick :: "(member \<Rightarrow> string option) \<Rightarrow> string \<Rightarrow> string \<Rightarrow> bool \<Rightarrow> string list \<Rightarrow> sensory \<Rightarrow> room_manager option \<Rightarrow>
    input_ready option \<times> sensory \<times> room_manager option" where
  "memory_on_tick last_active fresh now configured ids s rooms =
    (case sensory_on_tick ids s of
       (handled, s1) \<Rightarrow>
         if handled \<or> \<not> configured then (None, s1, rooms)
         else case trigger last_active fresh now rooms of (ev, rooms1) \<Rightarrow> (Some ev, s1, rooms1))"

section \<open>The last room wins\<close>

lemma weigh_None [simp]:
  "weigh (\<lambda>_. None) r m (b, None) = ((if me_active m then Some r else b), None)"
  by (simp add: weigh_def)

lemma fold_weigh_None:
  "fold (weigh (\<lambda>_. None) r) ms (b, None) = ((if \<exists>m \<in> set ms. me_active m then Some r else b), None)"
  by (induction ms arbitrary: b) auto

definition occupied :: "room_manager \<Rightarrow> room \<Rightarrow> bool" where
  "occupied rm r \<longleftrightarrow> (\<exists>m \<in> set (rs_members (rm_store rm)). me_room m = ro_id r \<and> me_active m)"

lemma fold_rooms_None:
  "fold (\<lambda>r. fold (weigh (\<lambda>_. None) r) (get_members (ro_id r) rm)) rs (b, None) =
    ((if filter (occupied rm) rs = [] then b else Some (last (filter (occupied rm) rs))), None)"
proof (induction rs arbitrary: b)
  case (Cons r rs)
  have "(\<exists>m \<in> set (get_members (ro_id r) rm). me_active m) \<longleftrightarrow> occupied rm r"
    by (auto simp: get_members_def find_members_by_room_def occupied_def)
  with Cons show ?case
    by (auto simp: fold_weigh_None)
qed simp

text \<open>The trigger is meant to choose the room that was used last, but the time it compares is never written. Whatever
  happens in the rooms, every idle tick goes to the active room that was created last and has an active member, and
  the planning layer takes the event for a proactive one, never for something a user said.\<close>
theorem idle_tick_takes_last_room:
  assumes "sensory_on_tick ids s = (False, s1)" and "filter (occupied rm) (find_active_rooms (rm_store rm)) \<noteq> []"
  shows "\<exists>ev. memory_on_tick (\<lambda>_. None) fresh now True ids s (Some rm) = (Some ev, s1, Some rm) \<and>
    ir_room_id ev = ro_id (last (filter (occupied rm) (find_active_rooms (rm_store rm)))) \<and>
    on_input_ready e ev ag = on_proactive_event e ev [(''from_timer'', PBool True)] ag"
proof -
  let ?r = "last (filter (occupied rm) (find_active_rooms (rm_store rm)))"
  have "best_room (\<lambda>_. None) rm = Some ?r"
    using assms(2) fold_rooms_None [of rm "find_active_rooms (rm_store rm)" None]
    by (simp add: best_room_def find_rooms_by_state_def find_active_rooms_def)
  then have "memory_on_tick (\<lambda>_. None) fresh now True ids s (Some rm) = (Some (proactive_event (ro_id ?r)), s1, Some rm)"
    by (simp add: memory_on_tick_def assms(1) trigger_def select_room_def)
  then show ?thesis
    by (simp add: proactive_event_def on_input_ready_def is_proactive_event_def ctx_truthy_def Let_def)
qed

definition two_rooms :: room_manager where
  "two_rooms = new_room_manager\<lparr>rm_store := \<lparr>
     rs_rooms = map (\<lambda>i. \<lparr>ro_id = i, ro_name = i, ro_description = [], ro_topic = [], ro_state = ACTIVE, ro_created_by = [],
        ro_created_at = [], ro_updated_at = None, ro_metadata = []\<rparr>) [''r1'', ''r2''],
     rs_members = map (\<lambda>i. \<lparr>me_room = i, me_account = ''ann'', me_sessions = [''s''], me_role = ''member'', me_joined_at = [],
        me_disconnected = None\<rparr>) [''r2'', ''r1'']\<rparr>\<rparr>"

end
