(* ===== verification/Candidates.thy ===== *)
theory Candidates
  imports Json_Store "HOL-Library.List_Lexorder" "HOL-Library.Char_ord"
begin

text \<open>
  Memory candidates (\<open>iris/memory/langmem/models.py\<close>, \<open>dedup.py\<close>, \<open>stores.py\<close>): what the extraction
  proposes, the hash that recognises repeated proposals, and the store that refuses them.

  A store is the list its JSON lines file holds (see \<open>Json_Store\<close>). The JSON encoder without the option to sort keys
  is the parameter \<open>enc\<close>, the hash function the parameter \<open>sha\<close>; the sorting is \<open>canonical\<close>.
\<close>

section \<open>Candidates and jobs\<close>

datatype target_store = Semantic | Episodic | Relationship | Appraisal | Style | Persona_Patch

definition target_value :: "target_store \<Rightarrow> string" where
  "target_value t = (case t of Semantic \<Rightarrow> ''semantic'' | Episodic \<Rightarrow> ''episodic'' | Relationship \<Rightarrow> ''relationship''
     | Appraisal \<Rightarrow> ''appraisal'' | Style \<Rightarrow> ''style'' | Persona_Patch \<Rightarrow> ''persona_patch'')"

datatype candidate_status = CandidatePending | CandidatePromoted | CandidateRejected | CandidateNeedsReview

record candidate =
  mc_id :: string
  mc_sources :: "string list"
  mc_job :: string
  mc_target :: target_store
  mc_payload :: "(string, pyobj) dict"
  mc_confidence :: real
  mc_status :: candidate_status
  mc_hash :: string
  mc_account :: string
  mc_room :: string

datatype job_status = JobPending | JobRunning | JobSucceeded | JobFailed | JobSkipped

record job =
  jb_id :: string
  jb_status :: job_status
  jb_sources :: "string list"
  jb_model :: string
  jb_pass :: target_store
  jb_error :: string
  jb_account :: string
  jb_room :: string

section \<open>The hash of a candidate\<close>

definition volatile_keys :: "string list" where
  "volatile_keys = [''id'', ''created_at'', ''updated_at'', ''timestamp'', ''retry_count'', ''status'', ''rejection_reason'']"

definition strip_volatile :: "(string, pyobj) dict \<Rightarrow> (string, pyobj) dict" where
  "strip_volatile d = filter (\<lambda>p. fst p \<notin> set volatile_keys) d"

definition trimmed_keys :: "string list" where
  "trimmed_keys = [''content'', ''evidence'', ''reason'', ''trigger_summary'', ''proposed_patch'', ''lesson'']"

definition trim_value :: "string \<Rightarrow> pyobj \<Rightarrow> pyobj" where
  "trim_value k v = (if k \<in> set trimmed_keys then (case v of PStr s \<Rightarrow> PStr (py_strip s) | _ \<Rightarrow> v) else v)"

definition normalize_strings :: "(string, pyobj) dict \<Rightarrow> (string, pyobj) dict" where
  "normalize_strings d = map (\<lambda>(k, v). (k, trim_value k v)) d"

fun canonical :: "pyobj \<Rightarrow> pyobj" where
  "canonical (PDict d) = PDict (sort_key fst (map (\<lambda>(k, v). (k, canonical v)) d))"
| "canonical (PList vs) = PList (map canonical vs)"
| "canonical v = v"

definition payload_form :: "(string, pyobj) dict \<Rightarrow> pyobj" where
  "payload_form d = canonical (PDict (normalize_strings (strip_volatile d)))"

definition payload_signature :: "(pyobj \<Rightarrow> string) \<Rightarrow> (string \<Rightarrow> string) \<Rightarrow> (string, pyobj) dict \<Rightarrow> string" where
  "payload_signature enc sha d = sha (enc (payload_form d))"

definition candidate_hash :: "(pyobj \<Rightarrow> string) \<Rightarrow> (string \<Rightarrow> string) \<Rightarrow> target_store \<Rightarrow> (string, pyobj) dict \<Rightarrow> string \<Rightarrow> string \<Rightarrow> string" where
  "candidate_hash enc sha t d account room =
    sha (enc (canonical (PDict [(''target_store'', PStr (target_value t)), (''account_id'', PStr (py_strip account)),
      (''room_id'', PStr (py_strip room)), (''payload_sig'', PStr (payload_signature enc sha d))])))"

section \<open>The candidate store\<close>

definition same_candidate :: "candidate \<Rightarrow> candidate \<Rightarrow> bool" where
  "same_candidate c e \<longleftrightarrow> mc_target e = mc_target c \<and> mc_account e = mc_account c \<and> mc_room e = mc_room c \<and> mc_hash e = mc_hash c"

definition has_pending_duplicate :: "candidate \<Rightarrow> candidate list \<Rightarrow> bool" where
  "has_pending_duplicate c es \<longleftrightarrow> mc_hash c \<noteq> [] \<and>
     (\<exists>e \<in> set (filter (same_candidate c) es). mc_status e \<in> {CandidatePending, CandidatePromoted, CandidateNeedsReview})"

definition with_hash :: "(pyobj \<Rightarrow> string) \<Rightarrow> (string \<Rightarrow> string) \<Rightarrow> candidate \<Rightarrow> candidate" where
  "with_hash enc sha c =
    (if mc_hash c = [] then c\<lparr>mc_hash := candidate_hash enc sha (mc_target c) (mc_payload c) (mc_account c) (mc_room c)\<rparr> else c)"

definition candidate_add :: "(pyobj \<Rightarrow> string) \<Rightarrow> (string \<Rightarrow> string) \<Rightarrow> bool \<Rightarrow> candidate \<Rightarrow> candidate list \<Rightarrow> candidate \<times> candidate list" where
  "candidate_add enc sha allow_duplicates c es =
    (let c' = with_hash enc sha c
     in if \<not> allow_duplicates \<and> has_pending_duplicate c' es then (c', es) else (c', es @ [c']))"

definition find_by_payload_hash :: "target_store \<Rightarrow> string \<Rightarrow> string \<Rightarrow> string \<Rightarrow> candidate list \<Rightarrow> candidate option" where
  "find_by_payload_hash t h account room es =
    find (\<lambda>e. mc_target e = t \<and> mc_hash e = h \<and> mc_account e = account \<and> mc_room e = room) es"

section \<open>What the hash sees\<close>

lemma sort_key_mset_eq:
  assumes "distinct (map f xs)" and "mset xs = mset ys"
  shows "sort_key f xs = sort_key f ys"
  using assms by (intro sort_key_inj_key_eq) (simp_all add: distinct_map)

text \<open>Two payloads say the same when they have the same entries, apart from the volatile ones, in some order, with the
  same values up to surrounding white space in the trimmed fields and the order of keys in nested dictionaries.\<close>

definition entry_form :: "string \<times> pyobj \<Rightarrow> string \<times> pyobj" where
  "entry_form p = (fst p, canonical (trim_value (fst p) (snd p)))"

definition same_payload :: "(string, pyobj) dict \<Rightarrow> (string, pyobj) dict \<Rightarrow> bool" where
  "same_payload d d' \<longleftrightarrow> mset (map entry_form (strip_volatile d)) = mset (map entry_form (strip_volatile d'))"

lemma payload_form_sort: "payload_form d = PDict (sort_key fst (map entry_form (strip_volatile d)))"
proof -
  have "map (\<lambda>(k, v). (k, canonical v)) (normalize_strings (strip_volatile d)) = map entry_form (strip_volatile d)"
    by (auto simp: normalize_strings_def entry_form_def)
  then show ?thesis
    by (simp add: payload_form_def)
qed

lemma dkeys_entry_form: "map fst (map entry_form d) = dkeys d"
  by (simp add: entry_form_def)

lemma payload_form_eq_iff:
  assumes "distinct (dkeys d)"
  shows "payload_form d = payload_form d' \<longleftrightarrow> same_payload d d'"
proof
  assume "same_payload d d'"
  moreover have "distinct (map fst (map entry_form (strip_volatile d)))"
    unfolding dkeys_entry_form using assms by (simp add: strip_volatile_def distinct_map_filter)
  ultimately show "payload_form d = payload_form d'"
    unfolding payload_form_sort same_payload_def by (simp add: sort_key_mset_eq)
next
  assume "payload_form d = payload_form d'"
  then have "sort_key fst (map entry_form (strip_volatile d)) = sort_key fst (map entry_form (strip_volatile d'))"
    by (simp add: payload_form_sort)
  then show "same_payload d d'"
    unfolding same_payload_def by (metis mset_sort)
qed

lemma target_value_inj [simp]: "target_value s = target_value t \<longleftrightarrow> s = t"
  by (cases s; cases t) (simp_all add: target_value_def)

text \<open>The hash recognises a proposal by what it says. Candidates of the same target whose account and room agree up to
  surrounding white space and whose payloads say the same have the same hash, whatever order their keys have; and when the
  encoder and the hash function have no collisions, only those do.\<close>
theorem hash_recognises_content:
  assumes "distinct (dkeys d)"
  shows "(s = t \<and> py_strip a = py_strip b \<and> py_strip r = py_strip q \<and> same_payload d d' \<longrightarrow>
      candidate_hash enc sha s d a r = candidate_hash enc sha t d' b q) \<and>
    (inj enc \<and> inj sha \<and> candidate_hash enc sha s d a r = candidate_hash enc sha t d' b q \<longrightarrow>
      s = t \<and> py_strip a = py_strip b \<and> py_strip r = py_strip q \<and> same_payload d d')"
proof -
  have "same_payload d d' \<Longrightarrow> payload_signature enc sha d = payload_signature enc sha d'"
    by (metis payload_form_eq_iff [OF assms] payload_signature_def)
  moreover have "payload_signature enc sha d = payload_signature enc sha d' \<Longrightarrow> inj enc \<Longrightarrow> inj sha \<Longrightarrow> same_payload d d'"
    by (metis payload_form_eq_iff [OF assms] payload_signature_def injD)
  ultimately show ?thesis
    by (auto simp: candidate_hash_def inj_eq)
qed

section \<open>No candidate is stored twice\<close>

definition live :: "candidate \<Rightarrow> bool" where
  "live c \<longleftrightarrow> mc_status c \<noteq> CandidateRejected"

definition candidate_key :: "candidate \<Rightarrow> target_store \<times> string \<times> string \<times> string" where
  "candidate_key c = (mc_target c, mc_account c, mc_room c, mc_hash c)"

definition no_duplicates :: "candidate list \<Rightarrow> bool" where
  "no_duplicates es \<longleftrightarrow> distinct (map candidate_key (filter (\<lambda>e. live e \<and> mc_hash e \<noteq> []) es))"

lemma duplicate_iff:
  "has_pending_duplicate c es \<longleftrightarrow>
    mc_hash c \<noteq> [] \<and> candidate_key c \<in> candidate_key ` set (filter (\<lambda>e. live e \<and> mc_hash e \<noteq> []) es)"
proof -
  have l: "mc_status e \<in> {CandidatePending, CandidatePromoted, CandidateNeedsReview} \<longleftrightarrow> live e" for e
    by (cases "mc_status e") (simp_all add: live_def)
  have k: "same_candidate c e \<longleftrightarrow> candidate_key e = candidate_key c" for e
    by (auto simp: same_candidate_def candidate_key_def)
  have h: "mc_hash e = mc_hash c" if "candidate_key e = candidate_key c" for e
    using that by (simp add: candidate_key_def)
  show ?thesis
  proof
    assume "has_pending_duplicate c es"
    then obtain e where e: "mc_hash c \<noteq> []" "e \<in> set es" "same_candidate c e" "live e"
      unfolding has_pending_duplicate_def l by auto
    then have "candidate_key e = candidate_key c" and "mc_hash e \<noteq> []"
      using k h by metis+
    with e show "mc_hash c \<noteq> [] \<and> candidate_key c \<in> candidate_key ` set (filter (\<lambda>e. live e \<and> mc_hash e \<noteq> []) es)"
      by (auto intro!: rev_image_eqI [of e])
  next
    assume r: "mc_hash c \<noteq> [] \<and> candidate_key c \<in> candidate_key ` set (filter (\<lambda>e. live e \<and> mc_hash e \<noteq> []) es)"
    then obtain e where "e \<in> set es" "live e" "candidate_key e = candidate_key c"
      by auto
    then have "e \<in> set (filter (same_candidate c) es)" "live e"
      by (simp_all add: k)
    then show "has_pending_duplicate c es"
      unfolding has_pending_duplicate_def l using r by blast
  qed
qed

lemma no_duplicates_add:
  "no_duplicates es \<Longrightarrow> no_duplicates (snd (candidate_add enc sha False c es))"
  by (auto simp: candidate_add_def Let_def duplicate_iff no_duplicates_def image_iff)

text \<open>However often the extraction proposes something, the store holds at most one live candidate (pending, promoted or
  waiting for review) of the same target, account, room and hash; only after a rejection is it stored again.\<close>
theorem candidates_stored_once:
  "no_duplicates (fold (\<lambda>c es. snd (candidate_add enc sha False c es)) cs [])"
proof -
  have "no_duplicates es \<Longrightarrow> no_duplicates (fold (\<lambda>c es. snd (candidate_add enc sha False c es)) cs es)" for es
    by (induction cs arbitrary: es) (simp_all add: no_duplicates_add)
  then show ?thesis
    by (simp add: no_duplicates_def)
qed

end
