(* ===== verification/Promotion.thy ===== *)
theory Promotion
  imports Candidates Procedural Limbic Long_Term
begin

text \<open>
  The promotion of memory candidates (\<open>iris/memory/langmem/promotion.py\<close>, \<open>handlers.py\<close>): the rules a
  candidate has to meet, and the handlers that write it to its store.

  The stores are those of the other theories, as the lists their files hold. \<open>str\<close> of a value that is no text,
  \<open>float\<close> of a text, the current time, the ids of new entities and the sensitive keywords, which are Japanese, are
  parameters. A category that is a list or a dictionary, which the schemas of the extraction exclude, is taken for none.
\<close>

section \<open>The world a promotion changes\<close>

record promo_env =
  pe_to_text :: "pyobj \<Rightarrow> string"
  pe_float :: "string \<Rightarrow> real option"
  pe_now :: string
  pe_id :: "string \<Rightarrow> string"
  pe_sensitive :: "string list"

record promo_cfg =
  pc_min_confidence :: real
  pc_guard :: bool
  pc_handlers :: "target_store list"
  pc_log :: bool

record snapshot =
  sn_id :: string
  sn_account :: string
  sn_room :: string
  sn_state :: relationship
  sn_sources :: "string list"
  sn_all_sources :: "string list"

record appraisal_episode =
  aq_id :: string
  aq_account :: string
  aq_room :: string
  aq_trigger :: string
  aq_context :: string
  aq_dimension :: string
  aq_raw :: real
  aq_scaled :: real
  aq_reason :: string
  aq_candidate :: string
  aq_sources :: "string list"

datatype reason =
    NoReason | DuplicateHash | ApplyFailed | HandlerReturnedNone | LowConfidence | EmptyContent | VeryShortContent
  | MissingDelta | MissingTrigger | NoSources | MissingEvidence | SensitiveKeyword string | AvoidanceNeedsConfidence
  | MissingPatch | MissingPatchReason | MissingFields | LowConfidencePending

record consolidation =
  cs_sources :: "string set"
  cs_candidates :: "string list"
  cs_created :: "string list"
  cs_rejected :: "string list"
  cs_confidence :: real
  cs_notes :: "(target_store \<times> reason) list"

record promo_world =
  wd_long :: long_term
  wd_styles :: "style list"
  wd_patches :: "patch list"
  wd_relations :: relationships
  wd_snapshots :: "snapshot list option"
  wd_episodes :: "appraisal_episode list"
  wd_seen :: "string list"
  wd_log :: "consolidation list"

section \<open>Reading a payload\<close>

definition field_text :: "promo_env \<Rightarrow> candidate \<Rightarrow> string \<Rightarrow> string \<Rightarrow> string" where
  "field_text env c k v = str_field (pe_to_text env) (mc_payload c) k v"

definition field_strip :: "promo_env \<Rightarrow> candidate \<Rightarrow> string \<Rightarrow> string" where
  "field_strip env c k = py_strip (field_text env c k [])"

text \<open>\<open>str(d.get(k, v) or w)\<close> and \<open>float(d.get(k, 0.0) or 0.0)\<close>.\<close>

definition field_or :: "promo_env \<Rightarrow> candidate \<Rightarrow> string \<Rightarrow> string \<Rightarrow> string \<Rightarrow> string" where
  "field_or env c k v w =
    (let x = dget_or (mc_payload c) k (PStr v) in if py_truthy x then py_str (pe_to_text env) x else w)"

definition field_float :: "promo_env \<Rightarrow> candidate \<Rightarrow> string \<Rightarrow> real option" where
  "field_float env c k =
    (let x = dget_or (mc_payload c) k (PFloat 0)
     in if \<not> py_truthy x then Some 0
        else case x of PStr s \<Rightarrow> pe_float env s | _ \<Rightarrow> number_of x)"

section \<open>The rules\<close>

definition validate_patch :: "promo_env \<Rightarrow> candidate \<Rightarrow> candidate_status \<times> reason" where
  "validate_patch env c =
    (if field_strip env c ''proposed_patch'' = [] then (CandidateNeedsReview, MissingPatch)
     else if field_strip env c ''reason'' = [] then (CandidateNeedsReview, MissingPatchReason)
     else if mc_sources c = [] then (CandidateNeedsReview, NoSources)
     else (CandidatePromoted, NoReason))"

definition check_content :: "promo_env \<Rightarrow> candidate \<Rightarrow> (candidate_status \<times> reason) option" where
  "check_content env c =
    (let content = field_strip env c ''content''
     in if mc_target c = Relationship then
          (if dget_or (mc_payload c) ''suggested_delta'' PNone = PNone then Some (CandidateNeedsReview, MissingDelta) else None)
        else if mc_target c = Appraisal then
          (if field_strip env c ''trigger_summary'' = [] then Some (CandidateNeedsReview, MissingTrigger) else None)
        else if content = [] then Some (CandidateRejected, EmptyContent)
        else if length content < 4 then Some (CandidateNeedsReview, VeryShortContent)
        else None)"

definition check_sensitive :: "promo_env \<Rightarrow> candidate \<Rightarrow> (candidate_status \<times> reason) option" where
  "check_sensitive env c =
    (case find (\<lambda>k. is_infix k (field_strip env c ''content'') \<and> mc_confidence c < 0.9) (pe_sensitive env) of
       Some k \<Rightarrow> Some (CandidateRejected, SensitiveKeyword k)
     | None \<Rightarrow>
         if dget (mc_payload c) ''category'' = Some (PStr ''avoidance'') \<and> mc_confidence c < 0.85
         then Some (CandidateRejected, AvoidanceNeedsConfidence) else None)"

definition validate :: "promo_cfg \<Rightarrow> promo_env \<Rightarrow> candidate \<Rightarrow> candidate_status \<times> reason" where
  "validate cfg env c =
    (if mc_target c = Persona_Patch then validate_patch env c
     else if mc_confidence c < pc_min_confidence cfg then (CandidateRejected, LowConfidence)
     else case check_content env c of
       Some v \<Rightarrow> v
     | None \<Rightarrow>
         if mc_sources c = [] then (CandidateNeedsReview, NoSources)
         else if mc_target c \<in> {Semantic, Episodic, Style} \<and> field_strip env c ''evidence'' = []
         then (CandidateNeedsReview, MissingEvidence)
         else if mc_target c \<in> {Semantic, Episodic}
         then (case check_sensitive env c of Some v \<Rightarrow> v | None \<Rightarrow> (CandidatePromoted, NoReason))
         else (CandidatePromoted, NoReason))"

section \<open>The handlers\<close>

datatype applied = Raised | NoResult | Created string | Outcome candidate_status reason

definition clamp_delta :: "real \<Rightarrow> real \<Rightarrow> real" where
  "clamp_delta v cap = (if cap < v then cap else if v < - cap then - cap else v)"

definition scale_by_confidence :: "real \<Rightarrow> real \<Rightarrow> real" where
  "scale_by_confidence v conf = v * max 0 (min 1 conf)"

definition short_id :: "string \<Rightarrow> candidate \<Rightarrow> string" where
  "short_id pre c = pre @ take 12 (mc_id c)"

definition snapshot_id :: "string \<Rightarrow> string \<Rightarrow> string" where
  "snapshot_id account room = account @ (if room = [] then ''::__global__'' else ''::'' @ room)"

definition unique :: "string list \<Rightarrow> string list" where
  "unique xs = rev (remdups (rev xs))"

definition save_snapshot :: "string \<Rightarrow> relationship \<Rightarrow> string \<Rightarrow> string list \<Rightarrow> snapshot list \<Rightarrow> snapshot list" where
  "save_snapshot account st room sources sns =
    (let i = snapshot_id account room;
         new = \<lambda>al. \<lparr>sn_id = i, sn_account = account, sn_room = room, sn_state = st, sn_sources = sources, sn_all_sources = al\<rparr>
     in case id_find sn_id i sns of
          Some old \<Rightarrow> snd (id_update sn_id i (\<lambda>_. new (unique (sn_all_sources old @ sources))) sns)
        | None \<Rightarrow> sns @ [new sources])"

definition load_for_account :: "string \<Rightarrow> snapshot list \<Rightarrow> snapshot option" where
  "load_for_account account sns =
    (case find (\<lambda>s. sn_id s = snapshot_id account []) sns of
       Some s \<Rightarrow> Some s | None \<Rightarrow> find (\<lambda>s. sn_account s = account) sns)"

definition relationship_delta :: "candidate \<Rightarrow> real \<Rightarrow> real" where
  "relationship_delta c suggested =
    (let cap = (if suggested < 0 then 0.05 * 0.5 else 0.05)
     in scale_by_confidence (clamp_delta suggested cap) (mc_confidence c))"

definition apply_relationship :: "promo_env \<Rightarrow> string \<Rightarrow> string \<Rightarrow> candidate \<Rightarrow> promo_world \<Rightarrow> applied \<times> promo_world" where
  "apply_relationship env room account c w =
    (if mc_confidence c < 0.6 then (NoResult, w)
     else case field_float env c ''suggested_delta'' of
       None \<Rightarrow> (Raised, w)
     | Some d \<Rightarrow>
         if d = 0 then (NoResult, w)
         else let f = field_or env c ''field'' ''trust'' ''trust'';
                  f' = (if f = ''trust'' \<or> f = ''familiarity'' then f else ''trust'')
              in (case apply_candidate_delta f' (relationship_delta c d) account (wd_relations w) of
                    None \<Rightarrow> (Raised, w)
                  | Some (st, rs) \<Rightarrow>
                      (Created (short_id ''rel_'' c),
                       w\<lparr>wd_relations := rs,
                         wd_snapshots := map_option (save_snapshot account st room (mc_sources c)) (wd_snapshots w)\<rparr>)))"

definition apply_appraisal :: "promo_env \<Rightarrow> string \<Rightarrow> string \<Rightarrow> candidate \<Rightarrow> promo_world \<Rightarrow> applied \<times> promo_world" where
  "apply_appraisal env room account c w =
    (if mc_confidence c < 0.5 then (NoResult, w)
     else case field_float env c ''estimated_delta'' of
       None \<Rightarrow> (Raised, w)
     | Some d \<Rightarrow>
         let e = \<lparr>aq_id = pe_id env (mc_id c), aq_account = account, aq_room = room,
               aq_trigger = field_strip env c ''trigger_summary'', aq_context = field_text env c ''appraisal_dimension'' ''general'',
               aq_dimension = field_text env c ''appraisal_dimension'' [], aq_raw = d,
               aq_scaled = scale_by_confidence (clamp_delta d 0.5) (mc_confidence c),
               aq_reason = field_text env c ''reason'' [], aq_candidate = mc_id c, aq_sources = mc_sources c\<rparr>
         in (Created (aq_id e), w\<lparr>wd_episodes := wd_episodes w @ [e]\<rparr>))"

definition profile_file :: string where
  "profile_file = ''.iris/config/iris_profile.md''"

definition proposed :: "promo_env \<Rightarrow> candidate \<Rightarrow> patch" where
  "proposed env c =
    \<lparr>pp_id = pe_id env (mc_id c), pp_target = field_or env c ''target_file'' profile_file [],
     pp_reason = field_strip env c ''reason'', pp_text = field_strip env c ''proposed_patch'', pp_evidence = mc_sources c,
     pp_confidence = mc_confidence c, pp_status = PatchPending,
     pp_metadata = (if mc_confidence c < 0.9 then [(''needs_review'', PBool True), (''low_confidence'', PBool True)] else []) @
       [(''source_candidate_id'', PStr (mc_id c)), (''evidence'', PStr (field_strip env c ''evidence''))]\<rparr>"

definition apply_persona :: "promo_env \<Rightarrow> candidate \<Rightarrow> promo_world \<Rightarrow> applied \<times> promo_world" where
  "apply_persona env c w =
    (if field_strip env c ''proposed_patch'' = [] \<or> field_strip env c ''reason'' = []
     then (Outcome CandidateRejected MissingFields, w)
     else let w1 = w\<lparr>wd_patches := wd_patches w @ [proposed env c]\<rparr>
          in if mc_confidence c < 0.9 then (Outcome CandidateNeedsReview LowConfidencePending, w1)
             else (Outcome CandidatePromoted NoReason, w1))"

definition style_kinds :: "string list" where
  "style_kinds = [''tone_preference'', ''successful_pattern'', ''running_gag'', ''avoidance_rule'', ''chaos_preference'',
     ''conversation_strategy'']"

definition apply_style :: "promo_env \<Rightarrow> string \<Rightarrow> string \<Rightarrow> candidate \<Rightarrow> promo_world \<Rightarrow> applied \<times> promo_world" where
  "apply_style env room account c w =
    (let kind = field_text env c ''kind'' ''successful_pattern''; scope = field_or env c ''scope'' ''account'' ''account'';
         m = \<lparr>sl_id = pe_id env (mc_id c),
              sl_scope = (if scope \<in> {''global'', ''account'', ''room''} then scope else ''account''),
              sl_account = account, sl_room = room,
              sl_kind = (if kind \<in> set style_kinds then kind else ''successful_pattern''),
              sl_content = field_strip env c ''content'', sl_evidence = field_strip env c ''evidence'',
              sl_confidence = mc_confidence c, sl_success = 0, sl_failure = 0, sl_last_used = [], sl_enabled = True,
              sl_condition = field_strip env c ''activation_condition'', sl_sources = mc_sources c\<rparr>
     in if mc_confidence c < 0.6 \<or> sl_content m = [] then (NoResult, w)
        else (Created (sl_id m), w\<lparr>wd_styles := wd_styles w @ [m]\<rparr>))"

definition promote_semantic :: "promo_env \<Rightarrow> string \<Rightarrow> string \<Rightarrow> candidate \<Rightarrow> promo_world \<Rightarrow> applied \<times> promo_world" where
  "promote_semantic env room account c w =
    (let d = setdefault ''tags'' (PList [PStr ''langmem'']) (setdefault ''type'' (PStr ''user_preference'') (mc_payload c));
         d' = setdefault ''id'' (PStr (short_id ''sem_'' c)) (dput ''confidence'' (PFloat (mc_confidence c)) d)
     in (Created (str_field (pe_to_text env) d' ''id'' []),
         w\<lparr>wd_long := store_semantic (pe_to_text env) room account (DictData d') (wd_long w)\<rparr>))"

definition strip_arrow :: "string \<Rightarrow> string" where
  "strip_arrow s = (let P = (\<lambda>c. c \<in> {CHR '' '', CHR ''-'', CHR ''>''}) in rev (dropWhile P (rev (dropWhile P s))))"

definition promote_episodic :: "promo_env \<Rightarrow> string \<Rightarrow> string \<Rightarrow> candidate \<Rightarrow> promo_world \<Rightarrow> applied \<times> promo_world" where
  "promote_episodic env room account c w =
    (let content = strip_arrow (field_text env c ''situation'' [] @ '' -> '' @ field_text env c ''lesson'' [])
     in (Created (short_id ''epi_'' c),
         w\<lparr>wd_long := store_episodic (pe_to_text env) (pe_now env) [] room account
           (DictData [(''content'', PStr content), (''kind'', PStr ''interaction''),
             (''metadata'', PDict [(''confidence'', PFloat (mc_confidence c))])]) (wd_long w)\<rparr>))"

definition apply_candidate :: "promo_cfg \<Rightarrow> promo_env \<Rightarrow> string \<Rightarrow> string \<Rightarrow> candidate \<Rightarrow> promo_world \<Rightarrow> applied \<times> promo_world" where
  "apply_candidate cfg env room account c w =
    (if mc_target c = Semantic then promote_semantic env room account c w
     else if mc_target c = Episodic then promote_episodic env room account c w
     else if mc_target c \<notin> set (pc_handlers cfg) then (Raised, w)
     else if mc_target c = Relationship then apply_relationship env room account c w
     else if mc_target c = Appraisal then apply_appraisal env room account c w
     else if mc_target c = Persona_Patch then apply_persona env c w
     else apply_style env room account c w)"

section \<open>Promotion\<close>

definition handler_duplicate :: "promo_env \<Rightarrow> candidate \<Rightarrow> promo_world \<Rightarrow> bool" where
  "handler_duplicate env c w =
    (if mc_target c = Persona_Patch then
       (\<exists>p \<in> set (list_pending (wd_patches w)). pp_reason p = field_strip env c ''reason'' \<and>
          pp_text p = field_strip env c ''proposed_patch'' \<and> pp_target p = field_text env c ''target_file'' profile_file)
     else if mc_target c = Style then
       field_strip env c ''content'' \<noteq> [] \<and>
       (\<exists>m \<in> set (wd_styles w). sl_content m = field_strip env c ''content'' \<and> sl_kind m = field_text env c ''kind'' [])
     else False)"

definition already_seen :: "promo_cfg \<Rightarrow> promo_env \<Rightarrow> candidate \<Rightarrow> promo_world \<Rightarrow> bool" where
  "already_seen cfg env c w \<longleftrightarrow> mc_hash c \<noteq> [] \<and>
     (mc_hash c \<in> set (wd_seen w) \<or> (mc_target c \<in> set (pc_handlers cfg) \<and> handler_duplicate env c w))"

definition remember_hash :: "candidate \<Rightarrow> promo_world \<Rightarrow> promo_world" where
  "remember_hash c w = (if mc_hash c \<noteq> [] then w\<lparr>wd_seen := mc_hash c # wd_seen w\<rparr> else w)"

definition verdict_of :: "applied \<Rightarrow> candidate_status \<times> reason" where
  "verdict_of a = (case a of Raised \<Rightarrow> (CandidateRejected, ApplyFailed) | NoResult \<Rightarrow> (CandidateRejected, HandlerReturnedNone)
     | Created _ \<Rightarrow> (CandidatePromoted, NoReason) | Outcome s r \<Rightarrow> (s, r))"

definition promote :: "promo_cfg \<Rightarrow> promo_env \<Rightarrow> string \<Rightarrow> string \<Rightarrow> candidate \<Rightarrow> promo_world \<Rightarrow>
    (candidate_status \<times> reason) \<times> promo_world" where
  "promote cfg env room account c w =
    (if pc_guard cfg \<and> already_seen cfg env c w then ((CandidateRejected, DuplicateHash), w)
     else case validate cfg env c of
       (CandidatePromoted, _) \<Rightarrow>
         (case apply_candidate cfg env room account c w of
            (a, w1) \<Rightarrow> (verdict_of a, if fst (verdict_of a) = CandidatePromoted then remember_hash c w1 else w1))
     | v \<Rightarrow> (v, w))"

fun promote_all :: "promo_cfg \<Rightarrow> promo_env \<Rightarrow> string \<Rightarrow> string \<Rightarrow> candidate list \<Rightarrow> promo_world \<Rightarrow>
    (candidate \<times> candidate_status \<times> reason) list \<times> promo_world" where
  "promote_all cfg env room account [] w = ([], w)"
| "promote_all cfg env room account (c # cs) w =
    (case promote cfg env room account c w of
       ((st, r), w1) \<Rightarrow>
         (case promote_all cfg env room account cs w1 of
            (rs, w2) \<Rightarrow> ((c\<lparr>mc_status := st\<rparr>, st, r) # rs, w2)))"

definition evaluate_candidates :: "promo_cfg \<Rightarrow> promo_env \<Rightarrow> string \<Rightarrow> string \<Rightarrow> candidate list \<Rightarrow> promo_world \<Rightarrow>
    (candidate \<times> candidate_status \<times> reason) list \<times> promo_world" where
  "evaluate_candidates cfg env room account cs w =
    (case promote_all cfg env room account cs w of
       (rs, w1) \<Rightarrow>
         let ok = filter (\<lambda>(_, st, _). st = CandidatePromoted) rs; bad = filter (\<lambda>(_, st, _). st \<noteq> CandidatePromoted) rs;
             confs = map (\<lambda>(c, _). mc_confidence c) ok;
             entry = \<lparr>cs_sources = \<Union> (set ` mc_sources ` set cs), cs_candidates = map mc_id cs, cs_created = map (\<lambda>(c, _). mc_id c) ok,
               cs_rejected = map (\<lambda>(c, _). mc_id c) bad,
               cs_confidence = (if confs = [] then 0 else sum_list confs / real (length confs)),
               cs_notes = map (\<lambda>(c, _, r). (mc_target c, r)) bad\<rparr>
         in (rs, if pc_log cfg then w1\<lparr>wd_log := wd_log w1 @ [entry]\<rparr> else w1))"

section \<open>Nothing passes the gate that the rules forbid\<close>

lemma promotedD:
  assumes "promote cfg env room account c w = ((CandidatePromoted, r), w')"
  obtains a w1 where "\<not> (pc_guard cfg \<and> already_seen cfg env c w)" and "fst (validate cfg env c) = CandidatePromoted"
    and "apply_candidate cfg env room account c w = (a, w1)" and "fst (verdict_of a) = CandidatePromoted" and "w' = remember_hash c w1"
  using assms by (auto simp: promote_def split: if_splits prod.splits candidate_status.splits)

lemma validate_promoted:
  assumes "fst (validate cfg env c) = CandidatePromoted"
  shows "mc_sources c \<noteq> []"
    and "mc_target c \<noteq> Persona_Patch \<Longrightarrow> pc_min_confidence cfg \<le> mc_confidence c"
    and "mc_target c \<in> {Semantic, Episodic, Style} \<Longrightarrow> 4 \<le> length (field_strip env c ''content'') \<and> field_strip env c ''evidence'' \<noteq> []"
    and "mc_target c \<in> {Semantic, Episodic} \<Longrightarrow> k \<in> set (pe_sensitive env) \<Longrightarrow> is_infix k (field_strip env c ''content'') \<Longrightarrow> 0.9 \<le> mc_confidence c"
  using assms
  by (auto simp: validate_def validate_patch_def check_content_def check_sensitive_def Let_def find_None_iff' not_less
      split: if_splits option.splits)

lemma apply_not_stored:
  assumes "apply_candidate cfg env room account c w = (a, w1)" and "fst (verdict_of a) \<noteq> CandidatePromoted"
  shows "w1 = w \<or> (mc_target c = Persona_Patch \<and> mc_confidence c < 0.9 \<and> w1 = w\<lparr>wd_patches := wd_patches w @ [proposed env c]\<rparr>)"
  using assms
  by (auto simp: apply_candidate_def promote_semantic_def promote_episodic_def apply_relationship_def apply_appraisal_def
      apply_persona_def apply_style_def verdict_of_def Let_def split: if_splits option.splits prod.splits)

lemma apply_promoted_persona:
  assumes "apply_candidate cfg env room account c w = (a, w1)" and "fst (verdict_of a) = CandidatePromoted"
    and "mc_target c = Persona_Patch"
  shows "0.9 \<le> mc_confidence c"
  using assms by (auto simp: apply_candidate_def apply_persona_def verdict_of_def Let_def split: if_splits)


section \<open>Relationships move in small steps\<close>

lemma scale_bounds:
  assumes "lo \<le> v" and "v \<le> hi" and "lo \<le> 0" and "0 \<le> hi"
  shows "lo \<le> scale_by_confidence v conf \<and> scale_by_confidence v conf \<le> hi"
proof -
  define k where "k = max 0 (min 1 conf)"
  have k: "0 \<le> k" "k \<le> 1"
    by (auto simp: k_def)
  have "lo * 1 \<le> lo * k"
    using k assms(3) by (intro mult_left_mono_neg) auto
  moreover have "lo * k \<le> v * k" and "v * k \<le> hi * k"
    using k assms(1,2) by (auto intro: mult_right_mono)
  moreover have "hi * k \<le> hi * 1"
    using k assms(4) by (intro mult_left_mono) auto
  ultimately show ?thesis
    by (simp add: scale_by_confidence_def k_def)
qed

lemma relationship_delta_bounds: "- 0.025 \<le> relationship_delta c d \<and> relationship_delta c d \<le> 0.05"
  unfolding relationship_delta_def Let_def by (rule scale_bounds) (auto simp: clamp_delta_def)

lemma unit_part_near:
  assumes "0 \<le> x" and "x \<le> 1" and "- 0.025 \<le> d" and "d \<le> 0.05"
  shows "x - 0.025 \<le> unit_part (x + d) \<and> unit_part (x + d) \<le> x + 0.05 \<and> 0 \<le> unit_part (x + d) \<and> unit_part (x + d) \<le> 1"
  using assms by (auto simp: unit_part_def)

definition unit_relations :: "relationships \<Rightarrow> bool" where
  "unit_relations rs \<longleftrightarrow> (\<forall>a. let r = get_relationship a rs in 0 \<le> rl_trust r \<and> rl_trust r \<le> 1 \<and> 0 \<le> rl_familiarity r \<and> rl_familiarity r \<le> 1)"

lemma update_level_trust [simp]:
  "rl_trust (update_level r) = rl_trust r" "rl_familiarity (update_level r) = rl_familiarity r"
  by (simp_all add: update_level_def)

lemma rel_key_same: "rel_key a = rel_key b \<Longrightarrow> get_relationship a rs = get_relationship b rs"
  by (simp add: get_relationship_def)

lemma relations_of_apply:
  assumes "apply_candidate cfg env room account c w = (a, w1)"
  shows "wd_relations w1 = wd_relations w \<or>
    (\<exists>d st f. (f = ''trust'' \<or> f = ''familiarity'') \<and> mc_target c = Relationship \<and>
       apply_candidate_delta f (relationship_delta c d) account (wd_relations w) = Some (st, wd_relations w1))"
proof (cases "mc_target c = Relationship \<and> w1 \<noteq> w")
  case True
  let ?f = "field_or env c ''field'' ''trust'' ''trust''"
  let ?g = "if ?f = ''trust'' \<or> ?f = ''familiarity'' then ?f else ''trust''"
  from True assms obtain d st where
    "apply_candidate_delta ?g (relationship_delta c d) account (wd_relations w) = Some (st, wd_relations w1)"
    by (auto simp: apply_candidate_def apply_relationship_def Let_def split: if_split_asm option.split_asm prod.split_asm)
  moreover have "?g = ''trust'' \<or> ?g = ''familiarity''"
    by simp
  ultimately show ?thesis
    using True by blast
next
  case False
  with assms show ?thesis
    by (auto simp: apply_candidate_def promote_semantic_def promote_episodic_def apply_appraisal_def
      apply_persona_def apply_style_def Let_def split: if_splits option.splits)
qed

lemma promote_world:
  assumes "promote cfg env room account c w = (v, w')"
  shows "w' = w \<or> (\<exists>a w1. apply_candidate cfg env room account c w = (a, w1) \<and> (w' = w1 \<or> w' = remember_hash c w1))"
  using assms by (auto simp: promote_def split: if_splits prod.splits candidate_status.splits)

lemma relations_of_promote:
  assumes "promote cfg env room account c w = (v, w')"
  shows "wd_relations w' = wd_relations w \<or>
    (\<exists>d st f. (f = ''trust'' \<or> f = ''familiarity'') \<and> mc_target c = Relationship \<and>
       apply_candidate_delta f (relationship_delta c d) account (wd_relations w) = Some (st, wd_relations w'))"
  using promote_world [OF assms]
proof
  assume "\<exists>a w1. apply_candidate cfg env room account c w = (a, w1) \<and> (w' = w1 \<or> w' = remember_hash c w1)"
  then obtain a w1 where "apply_candidate cfg env room account c w = (a, w1)" and "wd_relations w' = wd_relations w1"
    by (auto simp: remember_hash_def)
  then show ?thesis
    using relations_of_apply [of cfg env room account c w a w1] by simp
qed simp


section \<open>No proposal applies itself\<close>

lemma patches_of_promote:
  assumes "promote cfg env room account c w = (v, w')"
  shows "\<exists>ps. wd_patches w' = wd_patches w @ ps \<and> (\<forall>p \<in> set ps. pp_status p = PatchPending)"
  using promote_world [OF assms]
proof
  assume "\<exists>a w1. apply_candidate cfg env room account c w = (a, w1) \<and> (w' = w1 \<or> w' = remember_hash c w1)"
  then obtain a w1 where a: "apply_candidate cfg env room account c w = (a, w1)" and "wd_patches w' = wd_patches w1"
    by (auto simp: remember_hash_def)
  moreover have "wd_patches w1 = wd_patches w \<or> wd_patches w1 = wd_patches w @ [proposed env c]"
    using a by (auto simp: apply_candidate_def promote_semantic_def promote_episodic_def apply_relationship_def
        apply_appraisal_def apply_persona_def apply_style_def Let_def split: if_splits option.splits prod.splits)
  ultimately show ?thesis
    by (auto simp: proposed_def)
qed simp

lemma patches_of_promote_all:
  assumes "promote_all cfg env room account cs w = (rs, w')"
  shows "\<exists>ps. wd_patches w' = wd_patches w @ ps \<and> (\<forall>p \<in> set ps. pp_status p = PatchPending)"
  using assms
proof (induction cs arbitrary: w rs)
  case (Cons c cs)
  then obtain st r w1 rs' where p: "promote cfg env room account c w = ((st, r), w1)"
      and q: "promote_all cfg env room account cs w1 = (rs', w')"
    by (auto split: prod.splits)
  from patches_of_promote [OF p] obtain ps where "wd_patches w1 = wd_patches w @ ps" "\<forall>p \<in> set ps. pp_status p = PatchPending"
    by blast
  moreover from Cons.IH [OF q] obtain ps' where "wd_patches w' = wd_patches w1 @ ps'" "\<forall>p \<in> set ps'. pp_status p = PatchPending"
    by blast
  ultimately show ?case
    by (intro exI [of _ "ps @ ps'"]) auto
qed simp

lemma patches_of_evaluate:
  assumes "evaluate_candidates cfg env room account cs w = (rs, w')"
  shows "\<exists>ps. wd_patches w' = wd_patches w @ ps \<and> (\<forall>p \<in> set ps. pp_status p = PatchPending)"
  using assms patches_of_promote_all [of cfg env room account cs w]
  by (auto simp: evaluate_candidates_def Let_def split: prod.splits if_splits)

text \<open>The extraction can propose changes of the profile but never make one. Whatever candidates are evaluated, a change can
  be applied afterwards only if the same change could be applied before: what was added waits for its approval.\<close>
theorem proposals_wait_for_approval:
  assumes "evaluate_candidates cfg env room account cs w = (rs, w')"
    and "fst (apply_approved links base backup replace i \<lparr>pw_patches = wd_patches w', pw_files = files\<rparr>)"
  shows "fst (apply_approved links base backup replace i \<lparr>pw_patches = wd_patches w, pw_files = files\<rparr>)"
proof -
  from patches_of_evaluate [OF assms(1)] obtain ps where ps: "wd_patches w' = wd_patches w @ ps"
      and pend: "\<forall>p \<in> set ps. pp_status p = PatchPending"
    by blast
  have "id_find pp_id i (wd_patches w') = id_find pp_id i (wd_patches w)"
  proof (cases "id_find pp_id i (wd_patches w)")
    case None
    then have "id_find pp_id i (wd_patches w') = id_find pp_id i ps"
      by (simp add: ps id_find_def find_append)
    moreover have "id_find pp_id i ps = None"
    proof (cases "id_find pp_id i ps")
      case (Some p)
      then have "pp_status p = PatchPending"
        using pend find_SomeD [of "\<lambda>e. pp_id e = i" ps p] by (simp add: id_find_def)
      with assms(2) None Some show ?thesis
        by (simp add: apply_approved_def ps id_find_def find_append)
    qed
    ultimately show ?thesis
      using None by simp
  qed (simp add: ps id_find_def find_append)
  with assms(2) show ?thesis
    by (auto simp: apply_approved_def Let_def split: option.splits if_splits)
qed

section \<open>No hash is promoted twice\<close>

lemma seen_of_promote:
  assumes "promote cfg env room account c w = ((st, r), w')"
  shows "wd_seen w' = (if st = CandidatePromoted \<and> mc_hash c \<noteq> [] then mc_hash c # wd_seen w else wd_seen w)"
proof -
  have a: "wd_seen w1 = wd_seen w" if "apply_candidate cfg env room account c w = (a, w1)" for a w1
    using that by (auto simp: apply_candidate_def promote_semantic_def promote_episodic_def apply_relationship_def
        apply_appraisal_def apply_persona_def apply_style_def Let_def split: if_splits option.splits prod.splits)
  show ?thesis
  proof (cases "st = CandidatePromoted")
    case True
    then obtain b w1 where "apply_candidate cfg env room account c w = (b, w1)" "w' = remember_hash c w1"
      using assms promotedD [of cfg env room account c w r w'] by metis
    with True a show ?thesis
      by (simp add: remember_hash_def)
  next
    case False
    then have "w' = w \<or> (\<exists>a. apply_candidate cfg env room account c w = (a, w'))"
      using assms by (auto simp: promote_def split: if_splits prod.splits candidate_status.splits)
    with False a show ?thesis
      by auto
  qed
qed

definition promoted_hashes :: "(candidate \<times> candidate_status \<times> reason) list \<Rightarrow> string list" where
  "promoted_hashes rs = map (\<lambda>(c, _). mc_hash c) (filter (\<lambda>(c, st, _). st = CandidatePromoted \<and> mc_hash c \<noteq> []) rs)"

lemma promote_all_hashes:
  assumes "pc_guard cfg" and "promote_all cfg env room account cs w = (rs, w')"
  shows "set (wd_seen w') = set (wd_seen w) \<union> set (promoted_hashes rs) \<and> distinct (promoted_hashes rs) \<and>
    set (promoted_hashes rs) \<inter> set (wd_seen w) = {}"
  using assms(2)
proof (induction cs arbitrary: w rs)
  case Nil
  then show ?case
    by (auto simp: promoted_hashes_def)
next
  case (Cons c cs)
  then obtain st r w1 rs' where p: "promote cfg env room account c w = ((st, r), w1)"
      and q: "promote_all cfg env room account cs w1 = (rs', w')" and rs: "rs = (c\<lparr>mc_status := st\<rparr>, st, r) # rs'"
    by (auto split: prod.splits)
  have new: "mc_hash c \<notin> set (wd_seen w)" if "st = CandidatePromoted" "mc_hash c \<noteq> []"
    using promotedD [of cfg env room account c w r w1] p that assms(1) unfolding already_seen_def by metis
  have h: "promoted_hashes rs = (if st = CandidatePromoted \<and> mc_hash c \<noteq> [] then [mc_hash c] else []) @ promoted_hashes rs'"
    by (simp add: promoted_hashes_def rs)
  show ?case
    using Cons.IH [OF q] seen_of_promote [OF p] new by (auto simp: h split: if_splits)
qed

fun evaluate_run :: "promo_cfg \<Rightarrow> (promo_env \<times> string \<times> string \<times> candidate list) list \<Rightarrow> promo_world \<Rightarrow>
    (candidate \<times> candidate_status \<times> reason) list \<times> promo_world" where
  "evaluate_run cfg [] w = ([], w)"
| "evaluate_run cfg ((env, room, account, cs) # bs) w =
    (case evaluate_candidates cfg env room account cs w of
       (rs, w1) \<Rightarrow> (case evaluate_run cfg bs w1 of (rs', w2) \<Rightarrow> (rs @ rs', w2)))"

lemma evaluate_hashes:
  assumes "pc_guard cfg" and "evaluate_candidates cfg env room account cs w = (rs, w')"
  shows "set (wd_seen w') = set (wd_seen w) \<union> set (promoted_hashes rs) \<and> distinct (promoted_hashes rs) \<and>
    set (promoted_hashes rs) \<inter> set (wd_seen w) = {}"
proof -
  obtain w1 where "promote_all cfg env room account cs w = (rs, w1)" and "wd_seen w' = wd_seen w1"
    using assms(2) by (auto simp: evaluate_candidates_def Let_def split: prod.splits if_splits)
  with promote_all_hashes [OF assms(1)] show ?thesis
    by metis
qed

lemma promoted_hashes_append: "promoted_hashes (rs @ rs') = promoted_hashes rs @ promoted_hashes rs'"
  by (simp add: promoted_hashes_def)

lemma evaluate_run_hashes:
  assumes "pc_guard cfg"
  shows "distinct (promoted_hashes (fst (evaluate_run cfg bs w))) \<and>
    set (promoted_hashes (fst (evaluate_run cfg bs w))) \<inter> set (wd_seen w) = {}"
proof (induction bs arbitrary: w)
  case Nil
  then show ?case
    by (simp add: promoted_hashes_def)
next
  case (Cons b bs)
  obtain env room account cs where b: "b = (env, room, account, cs)"
    by (cases b)
  obtain rs w1 where e: "evaluate_candidates cfg env room account cs w = (rs, w1)"
    by (cases "evaluate_candidates cfg env room account cs w")
  have "fst (evaluate_run cfg (b # bs) w) = rs @ fst (evaluate_run cfg bs w1)"
    by (simp add: b e split: prod.split)
  with evaluate_hashes [OF assms e] Cons.IH [of w1] show ?case
    by (auto simp: promoted_hashes_append)
qed

text \<open>No proposal is promoted twice. Over any sequence of evaluations, for any accounts and rooms, the hashes of the
  candidates that were promoted are all different.\<close>
theorem promoted_once:
  assumes "pc_guard cfg" and "wd_seen w = []"
  shows "distinct (promoted_hashes (fst (evaluate_run cfg bs w)))"
  using evaluate_run_hashes [OF assms(1)] by blast

definition demo_env :: promo_env where
  "demo_env = \<lparr>pe_to_text = (\<lambda>_. ''''), pe_float = (\<lambda>_. None), pe_now = ''now'', pe_id = (\<lambda>i. i), pe_sensitive = [''SSN'']\<rparr>"

definition demo_cfg :: promo_cfg where
  "demo_cfg = \<lparr>pc_min_confidence = 0.75, pc_guard = True, pc_handlers = [Style, Relationship, Persona_Patch], pc_log = True\<rparr>"

definition demo_world :: promo_world where
  "demo_world = \<lparr>wd_long = \<lparr>lt_episodic = None, lt_semantic = None, lt_vector = False\<rparr>, wd_styles = [], wd_patches = [demo_patch],
     wd_relations = [], wd_snapshots = None, wd_episodes = [], wd_seen = [], wd_log = []\<rparr>"

definition demo_candidate :: "target_store \<Rightarrow> (string, pyobj) dict \<Rightarrow> candidate" where
  "demo_candidate t d = \<lparr>mc_id = ''c1'', mc_sources = [''r1''], mc_job = ''j1'', mc_target = t, mc_payload = d, mc_confidence = 0.95,
     mc_status = CandidatePending, mc_hash = ''h'', mc_account = ''ann'', mc_room = ''room''\<rparr>"

definition demo_bond :: candidate where
  "demo_bond = demo_candidate Relationship [(''suggested_delta'', PFloat 1)]"

lemmas demo_defs = demo_env_def demo_cfg_def demo_world_def demo_candidate_def demo_bond_def

lemma demo_bond_promoted:
  "promote demo_cfg demo_env ''room'' ''ann'' demo_bond demo_world =
    ((CandidatePromoted, NoReason), remember_hash demo_bond (snd (apply_relationship demo_env ''room'' ''ann'' demo_bond demo_world)))"
  by (simp add: promote_def already_seen_def handler_duplicate_def validate_def check_content_def dget_or_def apply_candidate_def
      apply_relationship_def field_float_def field_or_def py_truthy_def number_of_def verdict_of_def apply_candidate_delta_def
      field_strip_def field_text_def str_field_def py_str_def Let_def demo_defs split: prod.split)



end
