(* ===== verification/Extractor.thy ===== *)
theory Extractor
  imports Promotion Archive
begin

text \<open>
  The extraction of candidates and the pipeline around it (\<open>iris/memory/langmem/extractor.py\<close>,
  \<open>pipeline.py\<close>).

  The model is a parameter: for a pass and the messages it answers with an extraction, or \<open>None\<close> when it raises. The
  archive is the list of records it holds. \<open>ids\<close> gives the ids of new jobs and candidates.
\<close>

section \<open>The extractor\<close>

datatype role = Human | Assistant_Message | System_Message

type_synonym message = "role \<times> string"

definition role_of :: "string \<Rightarrow> role" where
  "role_of r = (if r = ''user'' then Human else if r = ''assistant'' then Assistant_Message else System_Message)"

definition records_to_messages :: "conversation_record list \<Rightarrow> message list" where
  "records_to_messages rs = map (\<lambda>r. (role_of (ar_role r), ar_content r)) (filter (\<lambda>r. ar_content r \<noteq> []) rs)"

text \<open>What the model can answer: nothing, an object of a schema with its items, a dictionary, a list, or something else. A
  dictionary has a method \<open>items\<close>, so that the first test takes it for a schema object and listing the method
  raises (\<open>None\<close>).\<close>

datatype extraction = NoExtraction | SchemaItems "(string, pyobj) dict list" | DictResult "(string, pyobj) dict"
  | ListResult "(string, pyobj) dict list" | OtherResult

definition extract_items :: "extraction \<Rightarrow> (string, pyobj) dict list option" where
  "extract_items x = (case x of NoExtraction \<Rightarrow> Some [] | SchemaItems is \<Rightarrow> Some is | DictResult _ \<Rightarrow> None
     | ListResult is \<Rightarrow> Some is | OtherResult \<Rightarrow> Some [])"

record extract_env =
  xe_enc :: "pyobj \<Rightarrow> string"
  xe_sha :: "string \<Rightarrow> string"
  xe_float :: "string \<Rightarrow> real option"
  xe_model :: "target_store \<Rightarrow> message list \<Rightarrow> extraction option"
  xe_passes :: "target_store list"
  xe_ids :: "nat \<Rightarrow> string"

definition confidence_of :: "extract_env \<Rightarrow> (string, pyobj) dict \<Rightarrow> real option" where
  "confidence_of xe d =
    (let v = dget_or d ''confidence'' (PFloat 0)
     in if \<not> py_truthy v then Some 0 else case v of PStr s \<Rightarrow> xe_float xe s | _ \<Rightarrow> number_of v)"

definition job_scope :: "string \<Rightarrow> string \<Rightarrow> target_store \<Rightarrow> (string, pyobj) dict \<Rightarrow> string \<times> string" where
  "job_scope account room _ _ = (account, room)"

definition new_candidate :: "extract_env \<Rightarrow> (target_store \<Rightarrow> (string, pyobj) dict \<Rightarrow> string \<times> string) \<Rightarrow> string \<Rightarrow> job \<Rightarrow>
    (string, pyobj) dict \<Rightarrow> candidate option" where
  "new_candidate xe resolver i j d =
    (case confidence_of xe d of
       None \<Rightarrow> None
     | Some conf \<Rightarrow>
         (case resolver (jb_pass j) d of (a, r) \<Rightarrow>
            let account = or_else a (jb_account j); room = or_else r (jb_room j)
            in Some \<lparr>mc_id = i, mc_sources = jb_sources j, mc_job = jb_id j, mc_target = jb_pass j, mc_payload = d,
                 mc_confidence = conf, mc_status = CandidatePending,
                 mc_hash = candidate_hash (xe_enc xe) (xe_sha xe) (jb_pass j) d account room,
                 mc_account = account, mc_room = room\<rparr>))"

text \<open>The loop over the items: a confidence that is no number raises, after the items before it were stored.\<close>

fun candidates_of :: "extract_env \<Rightarrow> (target_store \<Rightarrow> (string, pyobj) dict \<Rightarrow> string \<times> string) \<Rightarrow> job \<Rightarrow> nat \<Rightarrow>
    (string, pyobj) dict list \<Rightarrow> candidate list \<Rightarrow> candidate list option \<times> candidate list" where
  "candidates_of xe resolver j n [] es = (Some [], es)"
| "candidates_of xe resolver j n (d # ds) es =
    (case new_candidate xe resolver (xe_ids xe n) j d of
       None \<Rightarrow> (None, es)
     | Some c \<Rightarrow>
         (case candidate_add (xe_enc xe) (xe_sha xe) False c es of
            (c', es1) \<Rightarrow>
              (case candidates_of xe resolver j (n + 1) ds es1 of (cs, es2) \<Rightarrow> (map_option ((#) c') cs, es2))))"

definition run_extractor :: "extract_env \<Rightarrow> (target_store \<Rightarrow> (string, pyobj) dict \<Rightarrow> string \<times> string) \<Rightarrow> job \<Rightarrow>
    conversation_record list \<Rightarrow> candidate list \<Rightarrow> candidate list option \<times> candidate list" where
  "run_extractor xe resolver j records es =
    (if jb_pass j \<notin> set (xe_passes xe) then (Some [], es)
     else let msgs = records_to_messages records
          in if msgs = [] then (Some [], es)
             else case xe_model xe (jb_pass j) msgs of
               None \<Rightarrow> (Some [], es)
             | Some x \<Rightarrow>
                 (case extract_items x of
                    None \<Rightarrow> (None, es)
                  | Some is \<Rightarrow> candidates_of xe resolver j 0 is es))"

section \<open>The pipeline\<close>

record langmem_config =
  lc_enabled :: bool
  lc_model_role :: string
  lc_min_turns :: nat
  lc_max_chars :: int

record pipeline =
  mp_jobs :: "job list"
  mp_candidates :: "candidate list"
  mp_world :: promo_world

definition batch_window :: "langmem_config \<Rightarrow> int" where
  "batch_window cfg = max 1 (lc_max_chars cfg div 200)"

definition collect_records :: "langmem_config \<Rightarrow> string list option \<Rightarrow> conversation_record list \<Rightarrow> string list \<times> conversation_record list" where
  "collect_records cfg source_ids archive =
    (case source_ids of
       Some (i # is) \<Rightarrow> (i # is, List.map_filter (\<lambda>i. find (\<lambda>r. ar_id r = i) archive) (i # is))
     | _ \<Rightarrow> (let rs = slice_last (batch_window cfg) archive in (map ar_id rs, rs)))"

definition set_job :: "string \<Rightarrow> job_status \<Rightarrow> string \<Rightarrow> job list \<Rightarrow> job list" where
  "set_job i st err js = snd (id_update jb_id i (\<lambda>j. j\<lparr>jb_status := st, jb_error := or_else err (jb_error j)\<rparr>) js)"

text \<open>\<open>jid\<close> is the id of the job and \<open>err\<close> the text of an exception.\<close>

definition run_pass :: "langmem_config \<Rightarrow> promo_cfg \<Rightarrow> promo_env \<Rightarrow> extract_env \<Rightarrow> string \<Rightarrow> string \<Rightarrow> target_store \<Rightarrow>
    string list option \<Rightarrow> string \<Rightarrow> string \<Rightarrow> conversation_record list \<Rightarrow> pipeline \<Rightarrow> candidate list \<times> pipeline" where
  "run_pass cfg pcfg penv xe jid err pass source_ids account room archive s =
    (if \<not> lc_enabled cfg then ([], s)
     else case collect_records cfg source_ids archive of
       (ids, records) \<Rightarrow>
         if records = [] then ([], s)
         else let j = \<lparr>jb_id = jid, jb_status = JobPending, jb_sources = ids, jb_model = lc_model_role cfg, jb_pass = pass,
                     jb_error = [], jb_account = account, jb_room = room\<rparr>;
                  js = set_job jid JobRunning [] (mp_jobs s @ [j])
              in case run_extractor xe (job_scope account room) j records (mp_candidates s) of
                   (None, es) \<Rightarrow> ([], s\<lparr>mp_jobs := set_job jid JobFailed err js, mp_candidates := es\<rparr>)
                 | (Some cs, es) \<Rightarrow>
                     (case evaluate_candidates pcfg penv room account cs (mp_world s) of
                        (rs, w) \<Rightarrow> (map fst rs, s\<lparr>mp_jobs := set_job jid JobSucceeded [] js, mp_candidates := es, mp_world := w\<rparr>)))"

definition all_passes :: "target_store list" where
  "all_passes = [Semantic, Episodic, Style, Relationship, Appraisal, Persona_Patch]"

text \<open>The environments of the passes: new ids for each.\<close>

definition run_full_cycle :: "langmem_config \<Rightarrow> promo_cfg \<Rightarrow> (target_store \<Rightarrow> promo_env) \<Rightarrow> (target_store \<Rightarrow> extract_env) \<Rightarrow>
    (target_store \<Rightarrow> string) \<Rightarrow> string \<Rightarrow> string list option \<Rightarrow> string \<Rightarrow> string \<Rightarrow> conversation_record list \<Rightarrow> pipeline \<Rightarrow>
    (target_store \<times> candidate list) list \<times> pipeline" where
  "run_full_cycle cfg pcfg penv xe jid err source_ids account room archive s =
    fold (\<lambda>p (out, s). case run_pass cfg pcfg (penv p) (xe p) (jid p) err p source_ids account room archive s of
        (cs, s1) \<Rightarrow> (out @ [(p, cs)], s1)) all_passes ([], s)"

section \<open>Every job comes to an end\<close>

lemma set_job_last:
  assumes "i \<notin> jb_id ` set js" and "jb_id j = i"
  shows "set_job i st err (js @ [j]) = js @ [j\<lparr>jb_status := st, jb_error := or_else err (jb_error j)\<rparr>]"
proof -
  have f: "id_find jb_id i js = None"
    using assms(1) by (auto simp: id_find_def find_None_iff')
  have "upd_first (\<lambda>e. jb_id e = i) f (js @ [j]) = js @ [f j]" for f
    using assms by (induction js) auto
  with f show ?thesis
    using assms(2) by (simp add: set_job_def id_update_def id_find_def find_append)
qed

lemma candidates_of_job:
  assumes "candidates_of xe (job_scope account room) j n ds es = (Some cs, es')" and "jb_account j = account" and "jb_room j = room"
  shows "length cs = length ds \<and> (\<forall>c \<in> set cs. mc_job c = jb_id j \<and> mc_account c = account \<and> mc_room c = room \<and>
    mc_target c = jb_pass j \<and> mc_sources c = jb_sources j \<and> mc_payload c \<in> set ds)"
  using assms(1)
proof (induction ds arbitrary: n es cs)
  case (Cons d ds)
  from Cons.prems obtain c c' es1 cs' where c: "new_candidate xe (job_scope account room) (xe_ids xe n) j d = Some c"
      and a: "candidate_add (xe_enc xe) (xe_sha xe) False c es = (c', es1)"
      and r: "candidates_of xe (job_scope account room) j (n + 1) ds es1 = (Some cs', es')" and cs: "cs = c' # cs'"
    by (auto split: option.splits prod.splits)
  have "mc_job c' = jb_id j \<and> mc_account c' = account \<and> mc_room c' = room \<and> mc_target c' = jb_pass j \<and>
      mc_sources c' = jb_sources j \<and> mc_payload c' = d"
    using c a assms(2,3)
    by (auto simp: new_candidate_def job_scope_def or_else_def candidate_add_def with_hash_def Let_def
        split: option.splits if_splits)
  with Cons.IH [OF r] show ?case
    by (auto simp: cs)
qed simp

lemma promote_all_fst:
  "promote_all cfg env room account cs w = (rs, w') \<Longrightarrow>
    length rs = length cs \<and> (\<forall>x \<in> set rs. \<exists>c \<in> set cs. fst x = c\<lparr>mc_status := fst (snd x)\<rparr>)"
proof (induction cs arbitrary: w rs)
  case (Cons c cs)
  then obtain st r w1 rs' where q: "promote_all cfg env room account cs w1 = (rs', w')"
      and rs: "rs = (c\<lparr>mc_status := st\<rparr>, st, r) # rs'"
    by (auto split: prod.splits)
  from Cons.IH [OF q] show ?case
    by (auto simp: rs)
qed simp

lemma evaluate_fst:
  assumes "evaluate_candidates cfg env room account cs w = (rs, w')"
  shows "length rs = length cs \<and> (\<forall>x \<in> set rs. \<exists>c \<in> set cs. fst x = c\<lparr>mc_status := fst (snd x)\<rparr>)"
proof -
  from assms obtain w1 where "promote_all cfg env room account cs w = (rs, w1)"
    by (auto simp: evaluate_candidates_def Let_def split: prod.splits)
  then show ?thesis
    by (rule promote_all_fst)
qed

lemma run_extractor_job:
  assumes "run_extractor xe (job_scope account room) j records es = (Some cs, es')" and "jb_account j = account" and "jb_room j = room"
  shows "\<forall>c \<in> set cs. mc_job c = jb_id j \<and> mc_account c = account \<and> mc_room c = room \<and> mc_target c = jb_pass j"
  using assms candidates_of_job [of xe account room j 0]
  by (fastforce simp: run_extractor_def Let_def split: if_splits option.splits)

text \<open>An extraction job never stays running. A pass creates no job and changes nothing when the pipeline is off or has no records;
  otherwise it adds one job, which ends either succeeded or, when the answer of the model raises, failed - and then nothing was promoted.
  Every candidate it returns carries the scope and the target of the job.\<close>
theorem job_comes_to_an_end:
  assumes "jid \<notin> jb_id ` set (mp_jobs s)"
    and "run_pass cfg pcfg penv xe jid err pass source_ids account room archive s = (cs, s')"
  shows "(cs = [] \<and> s' = s) \<or>
    (\<exists>j. mp_jobs s' = mp_jobs s @ [j] \<and> jb_id j = jid \<and> jb_pass j = pass \<and>
       (jb_status j = JobSucceeded \<or> jb_status j = JobFailed \<and> cs = [] \<and> mp_world s' = mp_world s) \<and>
       (\<forall>c \<in> set cs. mc_job c = jid \<and> mc_account c = account \<and> mc_room c = room \<and> mc_target c = pass))"
proof (cases "lc_enabled cfg \<and> snd (collect_records cfg source_ids archive) \<noteq> []")
  case False
  with assms(2) show ?thesis
    by (auto simp: run_pass_def split: prod.splits if_splits)
next
  case True
  obtain ids records where col: "collect_records cfg source_ids archive = (ids, records)"
    by (cases "collect_records cfg source_ids archive")
  let ?j = "\<lparr>jb_id = jid, jb_status = JobPending, jb_sources = ids, jb_model = lc_model_role cfg, jb_pass = pass,
      jb_error = [], jb_account = account, jb_room = room\<rparr>"
  have js: "set_job jid st e2 (set_job jid JobRunning [] (mp_jobs s @ [?j])) = mp_jobs s @ [?j\<lparr>jb_status := st, jb_error := e2\<rparr>]" for st e2
    using assms(1) by (simp add: set_job_last or_else_def)
  obtain res es where ext: "run_extractor xe (job_scope account room) ?j records (mp_candidates s) = (res, es)"
    by (cases "run_extractor xe (job_scope account room) ?j records (mp_candidates s)")
  show ?thesis
  proof (cases res)
    case None
    with assms(2) True col ext show ?thesis
      by (auto simp: run_pass_def js)
  next
    case (Some cs0)
    obtain rs w where ev: "evaluate_candidates pcfg penv room account cs0 (mp_world s) = (rs, w)"
      by (cases "evaluate_candidates pcfg penv room account cs0 (mp_world s)")
    have "cs = map fst rs" and "mp_jobs s' = mp_jobs s @ [?j\<lparr>jb_status := JobSucceeded, jb_error := []\<rparr>]"
      using assms(2) True col ext Some ev by (auto simp: run_pass_def js)
    moreover have "\<forall>c \<in> set cs0. mc_job c = jid \<and> mc_account c = account \<and> mc_room c = room \<and> mc_target c = pass"
      using run_extractor_job [of xe account room ?j records "mp_candidates s" cs0 es] ext Some by simp
    ultimately show ?thesis
      using evaluate_fst [OF ev] by (intro disjI2 exI [of _ "?j\<lparr>jb_status := JobSucceeded, jb_error := []\<rparr>"]) fastforce
  qed
qed

section \<open>What the schemas leave out\<close>

text \<open>The fields of the objects each pass asks the model for.\<close>

definition schema_fields :: "target_store \<Rightarrow> string list" where
  "schema_fields t = (case t of
     Semantic \<Rightarrow> [''category'', ''content'', ''evidence'', ''confidence'', ''scope'']
   | Episodic \<Rightarrow> [''situation'', ''user_intent'', ''assistant_action'', ''result'', ''lesson'', ''confidence'']
   | Style \<Rightarrow> [''kind'', ''content'', ''evidence'', ''confidence'', ''activation_condition'']
   | Relationship \<Rightarrow> [''signal'', ''evidence'', ''suggested_delta'', ''confidence'']
   | Appraisal \<Rightarrow> [''trigger_summary'', ''appraisal_dimension'', ''estimated_delta'', ''reason'', ''confidence'']
   | Persona_Patch \<Rightarrow> [''target_file'', ''proposed_patch'', ''reason'', ''evidence'', ''confidence''])"

definition of_schema :: "target_store \<Rightarrow> (string, pyobj) dict \<Rightarrow> bool" where
  "of_schema t d \<longleftrightarrow> dkeys d = schema_fields t"

lemma episodic_not_validated:
  assumes "mc_target c = Episodic" and "of_schema Episodic (mc_payload c)"
  shows "fst (validate cfg env c) = CandidateRejected"
proof -
  have "dget (mc_payload c) ''content'' = None"
    using assms(2) by (simp add: dget_None_iff of_schema_def schema_fields_def del: list.set_map)
  then have "field_strip env c ''content'' = []"
    by (simp add: field_strip_def field_text_def str_field_def dget_or_def py_str_def py_strip_def)
  then show ?thesis
    using assms(1) by (simp add: validate_def check_content_def)
qed

lemma episodic_not_promoted:
  assumes "mc_target c = Episodic" and "of_schema Episodic (mc_payload c)" and "promote cfg env room account c w = ((st, r), w')"
  shows "st = CandidateRejected \<and> w' = w"
  using assms(3) episodic_not_validated [OF assms(1,2), of cfg env]
  by (auto simp: promote_def split: if_splits prod.splits candidate_status.splits)

lemma episodic_none_promoted:
  assumes "\<forall>c \<in> set cs. mc_target c = Episodic \<and> of_schema Episodic (mc_payload c)" and "promote_all cfg env room account cs w = (rs, w')"
  shows "w' = w \<and> (\<forall>x \<in> set rs. mc_status (fst x) = CandidateRejected)"
  using assms
proof (induction cs arbitrary: w rs)
  case (Cons c cs)
  then obtain st r w1 rs' where p: "promote cfg env room account c w = ((st, r), w1)"
      and q: "promote_all cfg env room account cs w1 = (rs', w')" and rs: "rs = (c\<lparr>mc_status := st\<rparr>, st, r) # rs'"
    by (auto split: prod.splits)
  have "st = CandidateRejected \<and> w1 = w"
    using episodic_not_promoted [OF _ _ p] Cons.prems(1) by simp
  moreover have "w' = w1 \<and> (\<forall>x \<in> set rs'. mc_status (fst x) = CandidateRejected)"
    using Cons.IH [OF _ q] Cons.prems(1) by simp
  ultimately show ?case
    by (simp add: rs)
qed simp

text \<open>The episodic pass can never store anything. The objects it asks the model for have no field \<open>content\<close>, which
  the promotion demands of every episodic candidate: whatever the model finds, every candidate is rejected and no memory
  changes, though the job succeeds.\<close>
theorem episodic_pass_stores_nothing:
  assumes "\<forall>msgs x. xe_model xe Episodic msgs = Some x \<longrightarrow> (\<exists>ds. x = SchemaItems ds \<and> (\<forall>d \<in> set ds. of_schema Episodic d))"
    and "run_pass cfg pcfg penv xe jid err Episodic source_ids account room archive s = (cs, s')"
  shows "(\<forall>c \<in> set cs. mc_status c = CandidateRejected) \<and> (\<exists>l. mp_world s' = mp_world s\<lparr>wd_log := l\<rparr>)"
proof (cases "lc_enabled cfg \<and> snd (collect_records cfg source_ids archive) \<noteq> []")
  case False
  with assms(2) have "cs = [] \<and> s' = s"
    by (auto simp: run_pass_def split: prod.splits if_splits)
  then show ?thesis
    by (auto intro: exI [of _ "wd_log (mp_world s)"])
next
  case True
  obtain ids records where col: "collect_records cfg source_ids archive = (ids, records)"
    by (cases "collect_records cfg source_ids archive")
  let ?j = "\<lparr>jb_id = jid, jb_status = JobPending, jb_sources = ids, jb_model = lc_model_role cfg, jb_pass = Episodic,
      jb_error = [], jb_account = account, jb_room = room\<rparr>"
  obtain res es where ext: "run_extractor xe (job_scope account room) ?j records (mp_candidates s) = (res, es)"
    by (cases "run_extractor xe (job_scope account room) ?j records (mp_candidates s)")
  show ?thesis
  proof (cases res)
    case None
    with assms(2) True col ext have "cs = [] \<and> mp_world s' = mp_world s"
      by (auto simp: run_pass_def)
    then show ?thesis
      by (auto intro: exI [of _ "wd_log (mp_world s)"])
  next
    case (Some cs0)
    have "\<forall>c \<in> set cs0. mc_target c = Episodic \<and> of_schema Episodic (mc_payload c)"
    proof (cases "cs0 = []")
      case False
      then obtain x ds where x: "xe_model xe Episodic (records_to_messages records) = Some x" "extract_items x = Some ds"
          and cands: "candidates_of xe (job_scope account room) ?j 0 ds (mp_candidates s) = (Some cs0, es)"
        using ext Some by (auto simp: run_extractor_def Let_def split: if_splits option.splits)
      have "\<forall>d \<in> set ds. of_schema Episodic d"
        using assms(1) x by (fastforce simp: extract_items_def)
      with candidates_of_job [OF cands] show ?thesis
        by fastforce
    qed simp
    moreover obtain rs w1 where all: "promote_all pcfg penv room account cs0 (mp_world s) = (rs, w1)"
      by (cases "promote_all pcfg penv room account cs0 (mp_world s)")
    ultimately have "w1 = mp_world s" and "\<forall>x \<in> set rs. mc_status (fst x) = CandidateRejected"
      using episodic_none_promoted [of cs0 pcfg penv room account "mp_world s" rs w1] by auto
    moreover have "cs = map fst rs" and "\<exists>l. mp_world s' = w1\<lparr>wd_log := l\<rparr>"
      using assms(2) True col ext Some all
      by (auto simp: run_pass_def evaluate_candidates_def Let_def split: if_splits intro: exI [of _ "wd_log w1"])
    ultimately show ?thesis
      by auto
  qed
qed

section \<open>The scope of the records is not asked for\<close>

definition said :: "conversation_record \<Rightarrow> string \<times> string \<times> string" where
  "said r = (ar_id r, ar_role r, ar_content r)"

lemma messages_of_said:
  "records_to_messages rs = map (\<lambda>(_, r, c). (role_of r, c)) (filter (\<lambda>(_, _, c). c \<noteq> []) (map said rs))"
  by (induction rs) (simp_all add: records_to_messages_def said_def)

lemma find_of_said:
  "map_option said (find (\<lambda>r. ar_id r = i) rs) = find (\<lambda>x. fst x = i) (map said rs)"
  by (induction rs) (simp_all add: said_def)

lemma ids_of_said: "map ar_id rs = map fst (map said rs)"
  by (simp add: said_def)

lemma messages_said: "map said rs = map said rs' \<Longrightarrow> records_to_messages rs = records_to_messages rs'"
  by (simp only: messages_of_said)

lemma find_said:
  "map said rs = map said rs' \<Longrightarrow>
    map_option said (find (\<lambda>r. ar_id r = i) rs) = map_option said (find (\<lambda>r. ar_id r = i) rs')"
  by (simp only: find_of_said)

lemma map_filter_said:
  assumes "\<And>i. map_option said (f i) = map_option said (g i)"
  shows "map said (List.map_filter f js) = map said (List.map_filter g js)"
proof (induction js)
  case (Cons j js)
  then show ?case
    using assms [of j] by (cases "f j"; cases "g j") (simp_all add: List.map_filter_simps)
qed (simp add: List.map_filter_simps)

lemma collect_said:
  assumes "map said a = map said a'"
  shows "fst (collect_records cfg ids a) = fst (collect_records cfg ids a')" (is ?ids)
    and "map said (snd (collect_records cfg ids a)) = map said (snd (collect_records cfg ids a'))" (is ?recs)
proof -
  have sl: "map said (slice_last n a) = map said (slice_last n a')" for n
  proof -
    have l: "length a = length a'"
      using arg_cong [OF assms, of length] by simp
    have "map said (drop k a) = map said (drop k a')" for k
      using arg_cong [OF assms, of "drop k"] by (simp add: drop_map)
    with l show ?thesis
      by (simp add: slice_last_def lastn_def)
  qed
  have mf: "map said (List.map_filter (\<lambda>i. find (\<lambda>r. ar_id r = i) a) js) = map said (List.map_filter (\<lambda>i. find (\<lambda>r. ar_id r = i) a') js)" for js
    by (rule map_filter_said) (rule find_said [OF assms])
  have newest: "?ids \<and> ?recs" if "fst (collect_records cfg ids a) = map ar_id (slice_last (batch_window cfg) a)"
      "snd (collect_records cfg ids a) = slice_last (batch_window cfg) a"
      "fst (collect_records cfg ids a') = map ar_id (slice_last (batch_window cfg) a')"
      "snd (collect_records cfg ids a') = slice_last (batch_window cfg) a'"
    unfolding that ids_of_said sl [of "batch_window cfg"] by simp
  have "?ids \<and> ?recs"
  proof (cases ids)
    case None
    then show ?thesis
      by (intro newest) (simp_all add: collect_records_def Let_def)
  next
    case (Some js)
    show ?thesis
    proof (cases js)
      case Nil
      with Some show ?thesis
        by (intro newest) (simp_all add: collect_records_def Let_def)
    next
      case (Cons i js')
      with Some mf [of "i # js'"] show ?thesis
        by (simp add: collect_records_def)
    qed
  qed
  then show ?ids ?recs
    by simp_all
qed

text \<open>A pass for one account reads what every account said. Nothing it does depends on the account, room or session of a
  record: two archives whose records agree in id, role and content give the same candidates, all of them under the scope of
  the job, and the same memories.\<close>
theorem pass_ignores_scope_of_records:
  assumes "map said archive = map said archive'"
  shows "run_pass cfg pcfg penv xe jid err pass source_ids account room archive s =
    run_pass cfg pcfg penv xe jid err pass source_ids account room archive' s"
proof -
  obtain ids rs where c: "collect_records cfg source_ids archive = (ids, rs)"
    by (cases "collect_records cfg source_ids archive")
  obtain ids' rs' where c': "collect_records cfg source_ids archive' = (ids', rs')"
    by (cases "collect_records cfg source_ids archive'")
  have ids: "ids = ids'" and said: "map said rs = map said rs'"
    using collect_said [OF assms, of cfg source_ids] by (simp_all add: c c')
  have "rs = [] \<longleftrightarrow> rs' = []"
    using said by auto
  moreover have "run_extractor xe sc j rs es = run_extractor xe sc j rs' es" for sc j es
    by (simp add: run_extractor_def messages_said [OF said])
  ultimately show ?thesis
    by (simp add: run_pass_def c c' ids)
qed

definition demo_episode :: "(string, pyobj) dict" where
  "demo_episode = map (\<lambda>k. (k, PStr k)) [''situation'', ''user_intent'', ''assistant_action'', ''result'', ''lesson''] @ [(''confidence'', PFloat 0.9)]"

definition demo_extract :: extract_env where
  "demo_extract = \<lparr>xe_enc = (\<lambda>_. ''{}''), xe_sha = id, xe_float = (\<lambda>_. None), xe_model = (\<lambda>_ _. Some (SchemaItems [demo_episode])),
     xe_passes = all_passes, xe_ids = (\<lambda>n. ''c'')\<rparr>"

definition demo_langmem :: langmem_config where
  "demo_langmem = \<lparr>lc_enabled = True, lc_model_role = ''memory'', lc_min_turns = 6, lc_max_chars = 8000\<rparr>"

definition demo_pipeline :: pipeline where
  "demo_pipeline = \<lparr>mp_jobs = [], mp_candidates = [], mp_world = demo_world\<rparr>"

end
