(* ===== verification/Scheduler.thy ===== *)
theory Scheduler
  imports Extractor
begin

text \<open>
  The scheduler of the extraction (\<open>iris/memory/langmem/scheduler.py\<close>): at most one background task per account and
  room, and scopes put aside while there is no event loop.

  A task is its number in the order of creation; which tasks are done is a set of numbers that grows as the event loop runs
  them. The threads of \<open>asyncio.to_thread\<close> only run the pipeline of \<open>Extractor\<close>.
\<close>

section \<open>State\<close>

type_synonym scope = "string \<times> string"

record scheduled =
  sk_task :: nat
  sk_count :: nat

record scheduler =
  sd_tasks :: "(scope, scheduled) dict"
  sd_done :: "nat set"
  sd_created :: "scope list"
  sd_deduplicated :: nat
  sd_failed :: nat
  sd_deferred :: "scope list"

definition new_scheduler :: scheduler where
  "new_scheduler = \<lparr>sd_tasks = [], sd_done = {}, sd_created = [], sd_deduplicated = 0, sd_failed = 0, sd_deferred = []\<rparr>"

definition total_scheduled :: "scheduler \<Rightarrow> nat" where
  "total_scheduled s = length (sd_created s)"

definition active_tasks :: "scheduler \<Rightarrow> nat" where
  "active_tasks s = length (filter (\<lambda>p. sk_task (snd p) \<notin> sd_done s) (sd_tasks s))"

definition is_already_running :: "scope \<Rightarrow> scheduler \<Rightarrow> bool" where
  "is_already_running k s = (case dget (sd_tasks s) k of None \<Rightarrow> False | Some t \<Rightarrow> sk_task t \<notin> sd_done s)"

section \<open>Scheduling\<close>

text \<open>\<open>loop\<close> says whether an event loop is running; the result is the new task, if there is one.\<close>

definition schedule :: "bool \<Rightarrow> scope \<Rightarrow> scheduler \<Rightarrow> nat option \<times> scheduler" where
  "schedule loop k s =
    (if \<not> loop then (None, s)
     else case dget (sd_tasks s) k of
       Some t \<Rightarrow>
         if sk_task t \<notin> sd_done s
         then (None, s\<lparr>sd_tasks := dput k (t\<lparr>sk_count := sk_count t + 1\<rparr>) (sd_tasks s), sd_deduplicated := sd_deduplicated s + 1\<rparr>)
         else (Some (length (sd_created s)),
               s\<lparr>sd_tasks := dput k \<lparr>sk_task = length (sd_created s), sk_count = 1\<rparr> (sd_tasks s), sd_created := sd_created s @ [k]\<rparr>)
     | None \<Rightarrow>
         (Some (length (sd_created s)),
          s\<lparr>sd_tasks := dput k \<lparr>sk_task = length (sd_created s), sk_count = 1\<rparr> (sd_tasks s), sd_created := sd_created s @ [k]\<rparr>))"

definition drain_one :: "bool \<Rightarrow> scope \<Rightarrow> scheduler \<Rightarrow> scheduler" where
  "drain_one loop k s =
    (if is_already_running k s then s\<lparr>sd_deferred := removeAll k (sd_deferred s)\<rparr>
     else case schedule loop k s of
       (None, s1) \<Rightarrow> s1
     | (Some _, s1) \<Rightarrow> s1\<lparr>sd_deferred := removeAll k (sd_deferred s1)\<rparr>)"

definition run_if_needed :: "bool \<Rightarrow> nat \<Rightarrow> scope \<Rightarrow> nat \<Rightarrow> bool \<Rightarrow> scheduler \<Rightarrow> scheduler" where
  "run_if_needed loop turns k min_turns enabled s =
    (if \<not> enabled \<or> turns < min_turns then s
     else let s1 = fold (drain_one loop) (sd_deferred s) s
          in if is_already_running k s1 then s1
             else case schedule loop k s1 of
               (Some _, s2) \<Rightarrow> s2
             | (None, s2) \<Rightarrow> s2\<lparr>sd_deferred := List.insert k (sd_deferred s2)\<rparr>)"

text \<open>The call at the end of a flush: a flush without new turns calls nothing, and a pipeline is on when its configuration says so.\<close>

definition trigger_pipeline :: "bool \<Rightarrow> langmem_config option \<Rightarrow> (nat \<times> string \<times> string) option \<Rightarrow> scheduler \<Rightarrow> scheduler" where
  "trigger_pipeline loop cfg flushed s =
    (case flushed of
       None \<Rightarrow> s
     | Some (n, room, account) \<Rightarrow>
         (case cfg of
            None \<Rightarrow> s
          | Some c \<Rightarrow> run_if_needed loop n (account, room) (lc_min_turns c) (lc_enabled c) s))"

text \<open>A task ends, with or without an exception. The coroutine looks for its own entry to remove it, but in its
  \<open>finally\<close> block the task is not done yet, so the entry stays.\<close>

definition finish_task :: "nat \<Rightarrow> bool \<Rightarrow> scheduler \<Rightarrow> scheduler" where
  "finish_task t failed s = s\<lparr>sd_done := insert t (sd_done s), sd_failed := sd_failed s + (if failed then 1 else 0)\<rparr>"

definition shutdown :: "scheduler \<Rightarrow> scheduler" where
  "shutdown s = s\<lparr>sd_tasks := [], sd_done := sd_done s \<union> (\<lambda>p. sk_task (snd p)) ` set (sd_tasks s)\<rparr>"

section \<open>One task per scope\<close>

datatype sched_op =
    Need bool nat scope nat bool
  | ScheduleCall bool scope
  | Finish nat bool
  | Shutdown

fun sched_step :: "sched_op \<Rightarrow> scheduler \<Rightarrow> scheduler" where
  "sched_step (Need loop n k m e) s = run_if_needed loop n k m e s"
| "sched_step (ScheduleCall loop k) s = snd (schedule loop k s)"
| "sched_step (Finish t f) s = (if t < length (sd_created s) then finish_task t f s else s)"
| "sched_step Shutdown s = shutdown s"

text \<open>Every task of the table was created for its scope, and a task that is not done is the one its scope's entry names.\<close>

definition sched_inv :: "scheduler \<Rightarrow> bool" where
  "sched_inv s \<longleftrightarrow> distinct (dkeys (sd_tasks s)) \<and> distinct (sd_deferred s) \<and>
     (\<forall>k t. dget (sd_tasks s) k = Some t \<longrightarrow> sk_task t < length (sd_created s) \<and> sd_created s ! sk_task t = k) \<and>
     (\<forall>i < length (sd_created s). i \<notin> sd_done s \<longrightarrow> map_option sk_task (dget (sd_tasks s) (sd_created s ! i)) = Some i) \<and>
     (\<forall>i \<in> sd_done s. i < length (sd_created s))"

lemma sched_inv_new: "sched_inv new_scheduler"
  by (simp add: sched_inv_def new_scheduler_def)

lemma running_iff: "is_already_running k s \<longleftrightarrow> (\<exists>t. dget (sd_tasks s) k = Some t \<and> sk_task t \<notin> sd_done s)"
  by (auto simp: is_already_running_def split: option.splits)

definition start_task :: "scope \<Rightarrow> scheduler \<Rightarrow> scheduler" where
  "start_task k s = s\<lparr>sd_tasks := dput k \<lparr>sk_task = length (sd_created s), sk_count = 1\<rparr> (sd_tasks s), sd_created := sd_created s @ [k]\<rparr>"

lemma schedule_cases:
  "schedule loop k s =
    (if \<not> loop then (None, s)
     else if is_already_running k s
     then (None, s\<lparr>sd_tasks := dput k ((the (dget (sd_tasks s) k))\<lparr>sk_count := sk_count (the (dget (sd_tasks s) k)) + 1\<rparr>) (sd_tasks s),
             sd_deduplicated := sd_deduplicated s + 1\<rparr>)
     else (Some (length (sd_created s)), start_task k s))"
  by (auto simp: schedule_def running_iff start_task_def split: option.splits)

lemma sched_inv_entry:
  "sched_inv s \<Longrightarrow> dget (sd_tasks s) k = Some t \<Longrightarrow> sk_task t < length (sd_created s) \<and> sd_created s ! sk_task t = k"
  unfolding sched_inv_def by blast

lemma sched_inv_live:
  "sched_inv s \<Longrightarrow> i < length (sd_created s) \<Longrightarrow> i \<notin> sd_done s \<Longrightarrow>
    map_option sk_task (dget (sd_tasks s) (sd_created s ! i)) = Some i"
  unfolding sched_inv_def by blast

lemma running_deferred [simp]: "is_already_running q (s\<lparr>sd_deferred := ks\<rparr>) = is_already_running q s"
  by (simp add: running_iff)

lemma sched_inv_start:
  assumes "sched_inv s" and "\<not> is_already_running k s"
  shows "sched_inv (start_task k s)"
proof -
  let ?n = "length (sd_created s)"
  have d: "distinct (dkeys (sd_tasks (start_task k s)))" "distinct (sd_deferred (start_task k s))"
    using assms(1) by (simp_all add: sched_inv_def start_task_def)
  have t: "sk_task t < length (sd_created (start_task k s)) \<and> sd_created (start_task k s) ! sk_task t = q"
    if "dget (sd_tasks (start_task k s)) q = Some t" for q t
  proof (cases "q = k")
    case True
    with that show ?thesis
      by (auto simp: start_task_def nth_append)
  next
    case False
    with that have "dget (sd_tasks s) q = Some t"
      by (simp add: start_task_def)
    from sched_inv_entry [OF assms(1) this] show ?thesis
      by (simp add: start_task_def nth_append)
  qed
  have l: "map_option sk_task (dget (sd_tasks (start_task k s)) (sd_created (start_task k s) ! i)) = Some i"
    if "i < length (sd_created (start_task k s))" "i \<notin> sd_done (start_task k s)" for i
  proof (cases "i < ?n")
    case True
    with that(2) have o: "map_option sk_task (dget (sd_tasks s) (sd_created s ! i)) = Some i"
      by (intro sched_inv_live [OF assms(1)]) (simp_all add: start_task_def)
    have "sd_created s ! i \<noteq> k"
      using o that(2) assms(2) by (auto simp: running_iff start_task_def)
    with o True show ?thesis
      by (simp add: start_task_def nth_append)
  next
    case False
    with that(1) have "i = ?n"
      by (simp add: start_task_def)
    then show ?thesis
      by (simp add: start_task_def nth_append)
  qed
  have "\<forall>i \<in> sd_done (start_task k s). i < length (sd_created (start_task k s))"
    using assms(1) by (auto simp: sched_inv_def start_task_def)
  with d t l show ?thesis
    unfolding sched_inv_def by blast
qed

lemma sched_inv_count:
  assumes "sched_inv s" and "dget (sd_tasks s) k = Some t" and "sk_task t' = sk_task t"
  shows "sched_inv (s\<lparr>sd_tasks := dput k t' (sd_tasks s), sd_deduplicated := n\<rparr>)"
proof -
  have t: "sk_task u < length (sd_created s) \<and> sd_created s ! sk_task u = q" if "dget (dput k t' (sd_tasks s)) q = Some u" for q u
    using that assms(3) sched_inv_entry [OF assms(1,2)] sched_inv_entry [OF assms(1), of q u]
    by (simp del: map_of_eq_Some_iff split: if_splits)
  have "map_option sk_task (dget (dput k t' (sd_tasks s)) q) = map_option sk_task (dget (sd_tasks s) q)" for q
    using assms(2,3) by (simp del: map_of_eq_Some_iff)
  with t assms(1) show ?thesis
    by (simp add: sched_inv_def del: map_of_eq_Some_iff split_paired_All)
qed

lemma sched_inv_schedule [inv_intros]: "sched_inv s \<Longrightarrow> sched_inv (snd (schedule loop k s))"
proof (cases "is_already_running k s")
  case True
  then obtain t where t: "dget (sd_tasks s) k = Some t"
    by (auto simp: running_iff)
  assume "sched_inv s"
  then show ?thesis
    using True sched_inv_count [OF _ t, of "t\<lparr>sk_count := sk_count t + 1\<rparr>" "sd_deduplicated s + 1"]
    by (simp add: schedule_cases t del: map_of_eq_Some_iff)
next
  case False
  assume "sched_inv s"
  then show ?thesis
    using False by (simp add: schedule_cases sched_inv_start)
qed

lemma sched_inv_deferred [inv_intros]: "sched_inv s \<Longrightarrow> distinct ks \<Longrightarrow> sched_inv (s\<lparr>sd_deferred := ks\<rparr>)"
  by (auto simp: sched_inv_def)

lemma sched_inv_distinct: "sched_inv s \<Longrightarrow> distinct (sd_deferred s)"
  by (simp add: sched_inv_def)

lemma sched_inv_drain [inv_intros]: "sched_inv s \<Longrightarrow> sched_inv (drain_one loop k s)"
  using sched_inv_schedule [of s loop k]
  by (auto simp: drain_one_def distinct_removeAll sched_inv_distinct split: prod.split option.split intro!: sched_inv_deferred)

lemma sched_inv_drain_all [inv_intros]: "sched_inv s \<Longrightarrow> sched_inv (fold (drain_one loop) ks s)"
  by (induction ks arbitrary: s) (simp_all add: sched_inv_drain)

lemma sched_inv_need [inv_intros]: "sched_inv s \<Longrightarrow> sched_inv (run_if_needed loop n k m e s)"
  using sched_inv_schedule [of "fold (drain_one loop) (sd_deferred s) s" loop k] sched_inv_drain_all [of s loop "sd_deferred s"]
  by (auto simp: run_if_needed_def Let_def sched_inv_distinct split: prod.split option.split intro!: sched_inv_deferred)

lemma sched_inv_step [inv_intros]: "sched_inv s \<Longrightarrow> sched_inv (sched_step op s)"
proof (cases op)
  case (Finish t f)
  assume "sched_inv s"
  with Finish show ?thesis
    by (auto simp: sched_inv_def finish_task_def)
next
  case Shutdown
  assume i: "sched_inv s"
  have "i \<in> (\<lambda>p. sk_task (snd p)) ` set (sd_tasks s)" if "i < length (sd_created s)" "i \<notin> sd_done s" for i
  proof -
    from i that obtain t where "dget (sd_tasks s) (sd_created s ! i) = Some t" "sk_task t = i"
      by (auto simp: sched_inv_def)
    then show ?thesis
      using dget_Some_in by (metis image_eqI snd_conv)
  qed
  moreover have "sk_task (snd p) < length (sd_created s)" if "p \<in> set (sd_tasks s)" for p
    using i that by (cases p) (auto simp: sched_inv_def)
  ultimately show ?thesis
    using i Shutdown by (auto simp: sched_inv_def shutdown_def)
qed (simp_all add: inv_intros)

lemma sched_inv_run: "sched_inv s \<Longrightarrow> sched_inv (fold sched_step ops s)"
  by (induction ops arbitrary: s) (simp_all add: sched_inv_step)


section \<open>Nothing is put aside for ever\<close>

lemma running_start:
  assumes "sched_inv s"
  shows "is_already_running q (start_task k s) \<longleftrightarrow> q = k \<or> is_already_running q s"
  using assms by (auto simp: running_iff start_task_def sched_inv_def)

lemma drain_loop:
  assumes "sched_inv s"
  shows "is_already_running q (drain_one True k s) \<longleftrightarrow> q = k \<or> is_already_running q s"
    and "sd_deferred (drain_one True k s) = removeAll k (sd_deferred s)"
proof -
  show "is_already_running q (drain_one True k s) \<longleftrightarrow> q = k \<or> is_already_running q s"
    using running_start [OF assms] by (auto simp: drain_one_def schedule_cases)
  show "sd_deferred (drain_one True k s) = removeAll k (sd_deferred s)"
    by (simp add: drain_one_def schedule_cases start_task_def)
qed

lemma drain_all_loop:
  assumes "sched_inv s"
  shows "(is_already_running q (fold (drain_one True) ks s) \<longleftrightarrow> q \<in> set ks \<or> is_already_running q s) \<and>
    set (sd_deferred (fold (drain_one True) ks s)) = set (sd_deferred s) - set ks"
  using assms
proof (induction ks arbitrary: s)
  case (Cons k ks)
  from Cons.IH [OF sched_inv_drain [OF Cons.prems, of True k]] drain_loop(1) [OF Cons.prems, of q k]
    drain_loop(2) [OF Cons.prems, of k] show ?case
    by auto
qed simp

lemma drain_no_loop:
  "is_already_running q (fold (drain_one False) ks s) = is_already_running q s \<and>
    sd_tasks (fold (drain_one False) ks s) = sd_tasks s \<and>
    set (sd_deferred (fold (drain_one False) ks s)) = set (sd_deferred s) - {k \<in> set ks. is_already_running k s}"
proof (induction ks arbitrary: s)
  case (Cons k ks)
  have "is_already_running x (drain_one False k s) = is_already_running x s" for x
    by (simp add: drain_one_def schedule_cases)
  moreover have "sd_tasks (drain_one False k s) = sd_tasks s"
    by (simp add: drain_one_def schedule_cases)
  moreover have "set (sd_deferred (drain_one False k s)) = set (sd_deferred s) - (if is_already_running k s then {k} else {})"
    by (simp add: drain_one_def schedule_cases)
  ultimately show ?case
    using Cons.IH [of "drain_one False k s"] by auto
qed simp

text \<open>C29: No extraction that is due is forgotten. A due call made while an event loop runs leaves nothing put aside: its own scope and every
  scope that was put aside before have a running task. A due call without a loop starts nothing, and then its scope is running or
  put aside, and so is every scope that was put aside before.\<close>
theorem deferred_scopes_run:
  assumes "s = fold sched_step ops new_scheduler" and "m \<le> n"
  shows "(let s' = run_if_needed True n k m True s
          in sd_deferred s' = [] \<and> (\<forall>q \<in> insert k (set (sd_deferred s)). is_already_running q s')) \<and>
    (let s' = run_if_needed False n k m True s
     in sd_tasks s' = sd_tasks s \<and>
        (\<forall>q \<in> insert k (set (sd_deferred s)). is_already_running q s' \<or> q \<in> set (sd_deferred s')))"
proof -
  have i: "sched_inv s"
    using sched_inv_run [OF sched_inv_new] assms(1) by simp
  let ?t = "fold (drain_one True) (sd_deferred s) s" and ?f = "fold (drain_one False) (sd_deferred s) s"
  have t: "sched_inv ?t"
    using i by (rule sched_inv_drain_all)
  have "set (sd_deferred ?t) = {}"
    using conjunct2 [OF drain_all_loop [OF i, of k "sd_deferred s"]] by simp
  then have empty: "sd_deferred ?t = []"
    by simp
  have run: "run_if_needed True n k m True s = (if is_already_running k ?t then ?t else start_task k ?t)"
    using assms(2) by (simp add: run_if_needed_def schedule_cases Let_def)
  have "sd_deferred (run_if_needed True n k m True s) = []"
    using empty by (simp add: run start_task_def)
  moreover have "is_already_running q (run_if_needed True n k m True s)" if "q \<in> insert k (set (sd_deferred s))" for q
    using that drain_all_loop [OF i, of q "sd_deferred s"] running_start [OF t] by (auto simp: run)
  moreover have nrun: "run_if_needed False n k m True s =
      (if is_already_running k ?f then ?f else ?f\<lparr>sd_deferred := List.insert k (sd_deferred ?f)\<rparr>)"
    using assms(2) by (simp add: run_if_needed_def schedule_cases Let_def)
  moreover have "sd_tasks (run_if_needed False n k m True s) = sd_tasks s"
    using drain_no_loop [of k "sd_deferred s" s] by (simp add: nrun)
  moreover have "is_already_running q (run_if_needed False n k m True s) \<or> q \<in> set (sd_deferred (run_if_needed False n k m True s))"
    if "q \<in> insert k (set (sd_deferred s))" for q
  proof -
    have f: "is_already_running q ?f = is_already_running q s" for q
      using conjunct1 [OF drain_no_loop [of q "sd_deferred s" s]] .
    have d: "set (sd_deferred ?f) = set (sd_deferred s) - {k \<in> set (sd_deferred s). is_already_running k s}"
      using conjunct2 [OF conjunct2 [OF drain_no_loop [of k "sd_deferred s" s]]] .
    from that f d show ?thesis
      by (auto simp: nrun)
  qed
  ultimately show ?thesis
    unfolding Let_def by blast
qed


lemma deferred_scopes_run_witness:
  "is_already_running (''ann'', ''room'') (run_if_needed True 6 (''bob'', ''room'') 6 True
     (fold sched_step [Need False 6 (''ann'', ''room'') 6 True] new_scheduler))"
proof -
  let ?s = "fold sched_step [Need False 6 (''ann'', ''room'') 6 True] new_scheduler"
  have "(''ann'', ''room'') \<in> insert (''bob'', ''room'') (set (sd_deferred ?s))"
    by (simp add: run_if_needed_def schedule_def is_already_running_def new_scheduler_def)
  moreover have "\<forall>q \<in> insert (''bob'', ''room'') (set (sd_deferred ?s)). is_already_running q (run_if_needed True 6 (''bob'', ''room'') 6 True ?s)"
    using deferred_scopes_run [OF refl, where m = 6 and n = 6 and k = "(''bob'', ''room'')" and ops = "[Need False 6 (''ann'', ''room'') 6 True]"] by (simp add: Let_def)
  ultimately show ?thesis by blast
qed

end
