(* ===== verification/Priority_Lock.thy ===== *)
theory Priority_Lock
  imports Iris_Interfaces "HOL-Library.Product_Lexorder"
begin

text \<open>
  The lock in front of the language model (\<open>iris/llm/priority_lock.py\<close>): waiting calls are served in
  the order of their priority, first come first served among equals.

  An \<open>asyncio.Event\<close> is named by the sequence number it is queued with. \<open>lock_step\<close> is what the
  calls of \<open>async with lock(priority)\<close> do to the lock, one step per resumption of a coroutine:
  \<open>Enter\<close> runs \<open>acquire\<close> up to its first wait, \<open>Wake\<close> resumes a call whose event is set,
  \<open>Leave\<close> runs the \<open>finally\<close> block, and \<open>Cancel\<close> raises \<open>CancelledError\<close> inside
  \<open>event.wait()\<close>, which lies before the \<open>try\<close>.
\<close>

section \<open>The lock\<close>

record plock =
  pk_locked :: bool
  pk_waiters :: "(int \<times> nat) list"
  pk_seq :: nat

definition new_plock :: plock where
  "new_plock = \<lparr>pk_locked = False, pk_waiters = [], pk_seq = 0\<rparr>"

text \<open>\<open>None\<close>: the lock is taken at once; \<open>Some e\<close>: the caller waits for event \<open>e\<close>.\<close>

definition acquire :: "int \<Rightarrow> plock \<Rightarrow> nat option \<times> plock" where
  "acquire p k =
    (if \<not> pk_locked k \<and> pk_waiters k = [] then (None, k\<lparr>pk_locked := True\<rparr>)
     else let e = Suc (pk_seq k) in (Some e, k\<lparr>pk_seq := e, pk_waiters := pk_waiters k @ [(p, e)]\<rparr>))"

text \<open>\<open>PriorityQueue.get_nowait\<close>: the least entry.\<close>

definition least_waiter :: "(int \<times> nat) list \<Rightarrow> int \<times> nat" where
  "least_waiter ws = Min (set ws)"

text \<open>The event that is set, if a call waits.\<close>

definition release :: "plock \<Rightarrow> string + (nat option \<times> plock)" where
  "release k =
    (if \<not> pk_locked k then Inl ''Lock is not acquired.''
     else if pk_waiters k = [] then Inr (None, k\<lparr>pk_locked := False\<rparr>)
     else let w = least_waiter (pk_waiters k)
       in Inr (Some (snd w), k\<lparr>pk_waiters := remove1 w (pk_waiters k)\<rparr>))"

section \<open>Serving in order\<close>

text \<open>The events set by \<open>n\<close> releases in a row.\<close>

fun served :: "nat \<Rightarrow> plock \<Rightarrow> nat list" where
  "served 0 k = []"
| "served (Suc n) k = (case release k of Inr (Some e, k') \<Rightarrow> e # served n k' | _ \<Rightarrow> [])"

lemma least_waiter_in [simp]: "ws \<noteq> [] \<Longrightarrow> least_waiter ws \<in> set ws"
  by (simp add: least_waiter_def)

lemma least_waiter_le: "w \<in> set ws \<Longrightarrow> least_waiter ws \<le> w"
  by (simp add: least_waiter_def)

lemma sort_least: "ws \<noteq> [] \<Longrightarrow> sort ws = least_waiter ws # sort (remove1 (least_waiter ws) ws)"
proof (rule properties_for_sort)
  assume "ws \<noteq> []"
  then show "mset (least_waiter ws # sort (remove1 (least_waiter ws) ws)) = mset ws"
    by simp
  show "sorted (least_waiter ws # sort (remove1 (least_waiter ws) ws))"
    using least_waiter_le notin_set_remove1 by fastforce
qed

lemma release_waiting:
  "pk_locked k \<Longrightarrow> pk_waiters k \<noteq> [] \<Longrightarrow>
    release k = Inr (Some (snd (least_waiter (pk_waiters k))),
      k\<lparr>pk_waiters := remove1 (least_waiter (pk_waiters k)) (pk_waiters k)\<rparr>)"
  by (simp add: release_def Let_def)

text \<open>
  Calls that wait for the model are served by priority (the smaller number first), and among equal
  priorities in the order in which they came: releasing the lock as often as calls wait wakes every
  one of them exactly once, in that order.
\<close>

theorem served_in_priority_order:
  assumes "pk_locked k"
  shows "served (length (pk_waiters k)) k = map snd (sort (pk_waiters k))"
  using assms
proof (induction "length (pk_waiters k)" arbitrary: k)
  case 0
  then show ?case by simp
next
  case (Suc n)
  then have ne: "pk_waiters k \<noteq> []" by auto
  let ?w = "least_waiter (pk_waiters k)"
  have n: "n = length (remove1 ?w (pk_waiters k))"
    using Suc.hyps(2) ne by (simp add: length_remove1)
  have "served n (k\<lparr>pk_waiters := remove1 ?w (pk_waiters k)\<rparr>) = map snd (sort (remove1 ?w (pk_waiters k)))"
    using Suc.hyps(1) [of "k\<lparr>pk_waiters := remove1 ?w (pk_waiters k)\<rparr>"] n Suc.prems by simp
  then show ?case
    using Suc.prems ne by (simp add: Suc.hyps(2) [symmetric] release_waiting sort_least [OF ne])
qed

text \<open>One call holds the lock; two background calls and an utterance of a user wait.\<close>

definition busy_lock :: plock where
  "busy_lock = snd (acquire 0 (snd (acquire 1 (snd (acquire 1 (snd (acquire 0 new_plock)))))))"

section \<open>Calls that use the lock\<close>

record 't lock_sys =
  ls_lock :: plock
  ls_waiting :: "(nat \<times> 't) list"
  ls_fired :: "nat list"
  ls_inside :: "'t list"

datatype 't lock_act = Enter 't int | Wake 't | Leave 't | Cancel 't

inductive lock_step :: "'t lock_sys \<Rightarrow> 't lock_act \<Rightarrow> 't lock_sys \<Rightarrow> bool" where
  enter_now: "t \<notin> set (ls_inside s) \<Longrightarrow> t \<notin> snd ` set (ls_waiting s) \<Longrightarrow> acquire p (ls_lock s) = (None, k) \<Longrightarrow>
    lock_step s (Enter t p) (s\<lparr>ls_lock := k, ls_inside := ls_inside s @ [t]\<rparr>)"
| enter_wait: "t \<notin> set (ls_inside s) \<Longrightarrow> t \<notin> snd ` set (ls_waiting s) \<Longrightarrow> acquire p (ls_lock s) = (Some e, k) \<Longrightarrow>
    lock_step s (Enter t p) (s\<lparr>ls_lock := k, ls_waiting := ls_waiting s @ [(e, t)]\<rparr>)"
| wake: "(e, t) \<in> set (ls_waiting s) \<Longrightarrow> e \<in> set (ls_fired s) \<Longrightarrow>
    lock_step s (Wake t) (s\<lparr>ls_waiting := filter (\<lambda>w. w \<noteq> (e, t)) (ls_waiting s), ls_inside := ls_inside s @ [t]\<rparr>)"
| leave_last: "t \<in> set (ls_inside s) \<Longrightarrow> release (ls_lock s) = Inr (None, k) \<Longrightarrow>
    lock_step s (Leave t) (s\<lparr>ls_lock := k, ls_inside := remove1 t (ls_inside s)\<rparr>)"
| leave_next: "t \<in> set (ls_inside s) \<Longrightarrow> release (ls_lock s) = Inr (Some e, k) \<Longrightarrow>
    lock_step s (Leave t) (s\<lparr>ls_lock := k, ls_inside := remove1 t (ls_inside s), ls_fired := ls_fired s @ [e]\<rparr>)"
| cancel: "(e, t) \<in> set (ls_waiting s) \<Longrightarrow>
    lock_step s (Cancel t) (s\<lparr>ls_waiting := filter (\<lambda>w. w \<noteq> (e, t)) (ls_waiting s)\<rparr>)"

inductive_cases lock_stepE: "lock_step s a s'"

inductive lock_run :: "'t lock_sys \<Rightarrow> 't lock_act list \<Rightarrow> 't lock_sys \<Rightarrow> bool" where
  run_nil: "lock_run s [] s"
| run_snoc: "lock_run s as t \<Longrightarrow> lock_step t a u \<Longrightarrow> lock_run s (as @ [a]) u"

definition no_calls :: "'t lock_sys" where
  "no_calls = \<lparr>ls_lock = new_plock, ls_waiting = [], ls_fired = [], ls_inside = []\<rparr>"

text \<open>Waiting calls whose event is set: they own the lock and have not been resumed yet.\<close>

definition woken :: "'t lock_sys \<Rightarrow> (nat \<times> 't) list" where
  "woken s = filter (\<lambda>w. fst w \<in> set (ls_fired s)) (ls_waiting s)"

definition queued_events :: "'t lock_sys \<Rightarrow> nat list" where
  "queued_events s = map snd (pk_waiters (ls_lock s))"

text \<open>Owners of the lock: inside the block, or woken for it.\<close>

definition owners :: "'t lock_sys \<Rightarrow> nat" where
  "owners s = length (ls_inside s) + length (woken s)"

definition lock_inv :: "'t lock_sys \<Rightarrow> bool" where
  "lock_inv s \<longleftrightarrow>
     owners s \<le> (if pk_locked (ls_lock s) then 1 else 0) \<and>
     distinct (map fst (ls_waiting s)) \<and>
     distinct (queued_events s) \<and>
     set (queued_events s) \<inter> set (ls_fired s) = {} \<and>
     fst ` set (ls_waiting s) \<subseteq> set (queued_events s) \<union> set (ls_fired s) \<and>
     (\<forall>e \<in> set (queued_events s) \<union> set (ls_fired s). e \<le> pk_seq (ls_lock s)) \<and>
     (\<not> pk_locked (ls_lock s) \<longrightarrow> pk_waiters (ls_lock s) = [])"

text \<open>No call has been lost: there is an owner whenever the lock is taken, and who is queued waits.\<close>

definition live_inv :: "'t lock_sys \<Rightarrow> bool" where
  "live_inv s \<longleftrightarrow>
     owners s = (if pk_locked (ls_lock s) then 1 else 0) \<and>
     set (queued_events s) \<subseteq> fst ` set (ls_waiting s)"

lemma set_remove1_distinct [simp]:
  "distinct (map f xs) \<Longrightarrow> x \<in> set xs \<Longrightarrow> f ` set (remove1 x xs) = f ` set xs - {f x}"
  by (induction xs) (auto simp: image_iff)

lemma distinct_map_remove1: "distinct (map f xs) \<Longrightarrow> distinct (map f (remove1 x xs))"
  by (auto simp: distinct_map intro: inj_on_subset)

lemma filter_key_le_1: "distinct (map f xs) \<Longrightarrow> length (filter (\<lambda>x. f x = k) xs) \<le> 1"
  by (induction xs) (auto simp: image_iff filter_empty_conv)

lemma release_cases:
  assumes "release k = Inr (r, k')"
  obtains (last) "pk_locked k" "pk_waiters k = []" "r = None" "k' = k\<lparr>pk_locked := False\<rparr>"
    | (pass) w where "pk_locked k" "w \<in> set (pk_waiters k)" "r = Some (snd w)" "\<forall>v \<in> set (pk_waiters k). w \<le> v"
        "k' = k\<lparr>pk_waiters := remove1 w (pk_waiters k)\<rparr>"
proof (cases "pk_waiters k = []")
  case True
  with assms show ?thesis
    by (intro last) (auto simp: release_def split: if_splits)
next
  case False
  with assms show ?thesis
    by (intro pass [of "least_waiter (pk_waiters k)"])
      (auto simp: release_def Let_def least_waiter_le simp del: split_paired_All split: if_splits)
qed

lemma acquire_cases:
  assumes "acquire p k = (r, k')"
  obtains (now) "\<not> pk_locked k" "pk_waiters k = []" "r = None" "k' = k\<lparr>pk_locked := True\<rparr>"
    | (wait) "pk_locked k \<or> pk_waiters k \<noteq> []" "r = Some (Suc (pk_seq k))"
        "k' = k\<lparr>pk_seq := Suc (pk_seq k), pk_waiters := pk_waiters k @ [(p, Suc (pk_seq k))]\<rparr>"
  using assms by (auto simp: acquire_def Let_def split: if_splits)

lemma length_filter_remove:
  "distinct (map fst ws) \<Longrightarrow> (e, t) \<in> set ws \<Longrightarrow> P (e, t) \<Longrightarrow>
    Suc (length (filter P (filter (\<lambda>w. w \<noteq> (e, t)) ws))) = length (filter P ws)"
proof (induction ws)
  case (Cons w ws)
  show ?case
  proof (cases "w = (e, t)")
    case True
    then have "(e, t) \<notin> set ws"
      using Cons.prems(1) by (auto simp: image_iff)
    then have "filter (\<lambda>w. w \<noteq> (e, t)) ws = ws"
      by (intro filter_True) auto
    with True Cons.prems(3) show ?thesis
      by simp
  next
    case False
    with Cons.prems have "(e, t) \<in> set ws" "distinct (map fst ws)"
      by auto
    with False Cons.IH [OF this(2, 1) Cons.prems(3)] show ?thesis
      by simp
  qed
qed simp

lemma length_filter_filter: "length (filter Q (filter P xs)) \<le> length (filter Q xs)"
  by (induction xs) auto

lemma lock_inv_initial: "lock_inv no_calls" "live_inv no_calls"
  by (auto simp: lock_inv_def live_inv_def no_calls_def new_plock_def owners_def woken_def queued_events_def)

lemmas lock_defs = owners_def woken_def queued_events_def

lemma lock_inv_wake:
  assumes "lock_inv s" and "(e, t) \<in> set (ls_waiting s)" and "e \<in> set (ls_fired s)"
  shows "lock_inv (s\<lparr>ls_waiting := filter (\<lambda>w. w \<noteq> (e, t)) (ls_waiting s), ls_inside := ls_inside s @ [t]\<rparr>)"
  using assms length_filter_remove [of "ls_waiting s" e t "\<lambda>w. fst w \<in> set (ls_fired s)"]
  unfolding lock_inv_def lock_defs by (auto simp: distinct_map_filter)

lemma lock_inv_cancel:
  assumes "lock_inv s"
  shows "lock_inv (s\<lparr>ls_waiting := filter P (ls_waiting s)\<rparr>)"
  using assms length_filter_filter [of "\<lambda>w. fst w \<in> set (ls_fired s)" P "ls_waiting s"]
  unfolding lock_inv_def lock_defs
  by (simp add: distinct_map_filter del: filter_filter split: if_splits) auto

lemma lock_inv_acquire_now:
  assumes "lock_inv s" and "acquire p (ls_lock s) = (None, k)"
  shows "lock_inv (s\<lparr>ls_lock := k, ls_inside := ls_inside s @ [t]\<rparr>)"
  using assms(2) by (cases rule: acquire_cases) (use assms(1) in \<open>auto simp: lock_inv_def lock_defs\<close>)

lemma lock_inv_acquire_wait:
  assumes "lock_inv s" and "acquire p (ls_lock s) = (Some e, k)"
  shows "lock_inv (s\<lparr>ls_lock := k, ls_waiting := ls_waiting s @ [(e, t)]\<rparr>)"
  using assms(2)
proof (cases rule: acquire_cases)
  case wait
  have "Suc (pk_seq (ls_lock s)) \<notin> set (queued_events s) \<union> set (ls_fired s)"
    using assms(1) by (auto simp: lock_inv_def dest: bspec)
  with wait assms(1) show ?thesis
    unfolding lock_inv_def lock_defs by (auto simp: le_Suc_eq)
qed simp

lemma lock_inv_leave:
  assumes "lock_inv s" and "t \<in> set (ls_inside s)" and "release (ls_lock s) = Inr (r, k)"
  shows "lock_inv (s\<lparr>ls_lock := k, ls_inside := remove1 t (ls_inside s),
    ls_fired := ls_fired s @ (case r of None \<Rightarrow> [] | Some e \<Rightarrow> [e])\<rparr>)"
proof -
  have one: "ls_inside s = [t]" "woken s = []"
    using assms(1, 2) by (auto simp: lock_inv_def owners_def length_Suc_conv split: if_splits
        dest: le_antisym) (cases "ls_inside s"; auto)+
  show ?thesis
    using assms(3)
  proof (cases rule: release_cases)
    case last
    with one assms(1) show ?thesis
      by (auto simp: lock_inv_def lock_defs)
  next
    case (pass w)
    have "filter (\<lambda>v. fst v = snd w \<or> fst v \<in> set (ls_fired s)) (ls_waiting s) = filter (\<lambda>v. fst v = snd w) (ls_waiting s)"
      using one(2) by (auto simp: woken_def filter_empty_conv intro: filter_cong)
    moreover have "length (filter (\<lambda>v. fst v = snd w) (ls_waiting s)) \<le> 1"
      using assms(1) by (intro filter_key_le_1) (simp add: lock_inv_def)
    ultimately show ?thesis
      using pass one(1) assms(1) unfolding lock_inv_def lock_defs
      by (auto simp: distinct_map_remove1)
  qed
qed

lemma lock_inv_step: "lock_step s a s' \<Longrightarrow> lock_inv s \<Longrightarrow> lock_inv s'"
  by (induction rule: lock_step.induct)
    (use lock_inv_leave [where r = None] lock_inv_leave [where r = "Some e" for e] in
      \<open>auto intro: lock_inv_wake lock_inv_cancel lock_inv_acquire_now lock_inv_acquire_wait\<close>)

lemma lock_inv_run: "lock_run s as s' \<Longrightarrow> lock_inv s \<Longrightarrow> lock_inv s'"
  by (induction rule: lock_run.induct) (auto intro: lock_inv_step)

text \<open>
  C9: Whatever calls enter, are woken, leave or are cancelled while they wait, at most one call talks to
  the model at a time.
\<close>

theorem one_call_at_a_time: "lock_run no_calls as s \<Longrightarrow> length (ls_inside s) \<le> 1"
  using lock_inv_run [OF _ lock_inv_initial(1), of as s]
  by (simp add: lock_inv_def owners_def split: if_splits)

definition three_calls :: "nat lock_act list" where
  "three_calls = [Enter 0 1, Enter 1 1, Enter 2 0, Leave 0]"

lemma three_calls_run:
  "\<exists>s. lock_run no_calls three_calls s \<and> ls_inside s = [] \<and> ls_waiting s = [(1, 1), (2, 2)] \<and> ls_fired s = [2]"
proof -
  let ?s1 = "no_calls\<lparr>ls_lock := new_plock\<lparr>pk_locked := True\<rparr>, ls_inside := [0 :: nat]\<rparr>"
  let ?s2 = "?s1\<lparr>ls_lock := \<lparr>pk_locked = True, pk_waiters = [(1, 1)], pk_seq = 1\<rparr>, ls_waiting := [(1, 1)]\<rparr>"
  let ?s3 = "?s2\<lparr>ls_lock := \<lparr>pk_locked = True, pk_waiters = [(1, 1), (0, 2)], pk_seq = 2\<rparr>, ls_waiting := [(1, 1), (2, 2)]\<rparr>"
  let ?s4 = "?s3\<lparr>ls_lock := \<lparr>pk_locked = True, pk_waiters = [(1, 1)], pk_seq = 2\<rparr>, ls_inside := [], ls_fired := [2]\<rparr>"
  have 1: "lock_step no_calls (Enter 0 1) ?s1"
    using enter_now [of 0 no_calls 1 "new_plock\<lparr>pk_locked := True\<rparr>"] by (simp add: no_calls_def new_plock_def acquire_def)
  have 2: "lock_step ?s1 (Enter 1 1) ?s2"
    using enter_wait [of 1 ?s1 1 1 "ls_lock ?s2"] by (simp add: no_calls_def new_plock_def acquire_def)
  have 3: "lock_step ?s2 (Enter 2 0) ?s3"
    using enter_wait [of 2 ?s2 0 2 "ls_lock ?s3"] by (simp add: no_calls_def new_plock_def acquire_def)
  have 4: "lock_step ?s3 (Leave 0) ?s4"
    using leave_next [of 0 ?s3 2 "ls_lock ?s4"]
    by (simp add: no_calls_def new_plock_def release_def least_waiter_def)
  have "lock_run no_calls ([] @ [Enter 0 1] @ [Enter 1 1] @ [Enter 2 0] @ [Leave 0]) ?s4"
    using run_snoc [OF run_snoc [OF run_snoc [OF run_snoc [OF run_nil 1] 2] 3] 4] by simp
  then show ?thesis
    by (intro exI [of _ ?s4]) (simp add: three_calls_def)
qed

lemma one_call_at_a_time_witness: "\<exists>s :: nat lock_sys. lock_run no_calls three_calls s \<and> length (ls_inside s) \<le> 1"
  using three_calls_run one_call_at_a_time by blast

lemma unlocked_nobody_waits: "lock_inv s \<Longrightarrow> live_inv s \<Longrightarrow> ls_waiting s \<noteq> [] \<Longrightarrow> pk_locked (ls_lock s)"
  by (cases "ls_waiting s") (auto simp: lock_inv_def live_inv_def lock_defs)

lemma single_owner:
  assumes "lock_inv s" and "t \<in> set (ls_inside s)"
  shows "ls_inside s = [t]" "woken s = []"
proof -
  have "length (ls_inside s) + length (woken s) \<le> 1"
    using assms(1) by (simp add: lock_inv_def owners_def split: if_splits)
  moreover obtain us where "ls_inside s = t # us \<or> (\<exists>u. ls_inside s = u # us \<and> t \<in> set us)"
    using assms(2) by (cases "ls_inside s") auto
  ultimately show "ls_inside s = [t]" "woken s = []"
    by auto
qed

lemma one_with_key: "distinct (map f xs) \<Longrightarrow> k \<in> f ` set xs \<Longrightarrow> length (filter (\<lambda>x. f x = k) xs) = 1"
  by (induction xs) (auto simp: filter_empty_conv image_iff)

lemma live_inv_leave:
  assumes "lock_inv s" and "live_inv s" and "t \<in> set (ls_inside s)" and "release (ls_lock s) = Inr (r, k)"
  shows "live_inv (s\<lparr>ls_lock := k, ls_inside := remove1 t (ls_inside s),
    ls_fired := ls_fired s @ (case r of None \<Rightarrow> [] | Some e \<Rightarrow> [e])\<rparr>)"
  using assms(4)
proof (cases rule: release_cases)
  case last
  with assms single_owner [OF assms(1, 3)] show ?thesis
    by (auto simp: live_inv_def lock_defs)
next
  case (pass w)
  have "filter (\<lambda>v. fst v = snd w \<or> fst v \<in> set (ls_fired s)) (ls_waiting s) = filter (\<lambda>v. fst v = snd w) (ls_waiting s)"
    using single_owner(2) [OF assms(1, 3)] by (auto simp: woken_def filter_empty_conv intro: filter_cong)
  moreover have "snd w \<in> fst ` set (ls_waiting s)" "distinct (map snd (pk_waiters (ls_lock s)))"
    using assms(1, 2) pass(2) by (auto simp: live_inv_def lock_inv_def queued_events_def)
  moreover have "length (filter (\<lambda>v. fst v = snd w) (ls_waiting s)) = 1"
    using assms(1) calculation(2) by (intro one_with_key) (simp_all add: lock_inv_def)
  ultimately show ?thesis
    using pass single_owner [OF assms(1, 3)] assms(1, 2) unfolding live_inv_def lock_defs
    by auto
qed

lemma live_inv_wake:
  assumes "lock_inv s" and "live_inv s" and "(e, t) \<in> set (ls_waiting s)" and "e \<in> set (ls_fired s)"
  shows "live_inv (s\<lparr>ls_waiting := filter (\<lambda>w. w \<noteq> (e, t)) (ls_waiting s), ls_inside := ls_inside s @ [t]\<rparr>)"
proof -
  have "Suc (length (filter (\<lambda>w. fst w \<in> set (ls_fired s)) (filter (\<lambda>w. w \<noteq> (e, t)) (ls_waiting s)))) =
      length (filter (\<lambda>w. fst w \<in> set (ls_fired s)) (ls_waiting s))"
    using assms by (intro length_filter_remove) (auto simp: lock_inv_def)
  moreover have "e \<notin> set (queued_events s)"
    using assms(1, 4) by (auto simp: lock_inv_def)
  moreover have "fst ` set (ls_waiting s) - {e} \<subseteq> fst ` {w \<in> set (ls_waiting s). w \<noteq> (e, t)}"
    by force
  ultimately show ?thesis
    using assms(2) unfolding live_inv_def owners_def woken_def queued_events_def
    by (simp del: filter_filter) blast
qed

lemma live_inv_acquire:
  assumes "lock_inv s" and "live_inv s" and "acquire p (ls_lock s) = (r, k)"
  shows "r = None \<Longrightarrow> live_inv (s\<lparr>ls_lock := k, ls_inside := ls_inside s @ [t]\<rparr>)"
    and "r = Some e \<Longrightarrow> live_inv (s\<lparr>ls_lock := k, ls_waiting := ls_waiting s @ [(e, t)]\<rparr>)"
proof -
  have new: "Suc (pk_seq (ls_lock s)) \<notin> set (ls_fired s)"
    using assms(1) by (auto simp: lock_inv_def dest: bspec)
  show "live_inv (s\<lparr>ls_lock := k, ls_waiting := ls_waiting s @ [(e, t)]\<rparr>)" if "r = Some e"
    using assms(3)
  proof (cases rule: acquire_cases)
    case wait
    moreover from this have "pk_locked (ls_lock s)"
      using assms(1) by (auto simp: lock_inv_def)
    ultimately show ?thesis
      using new that assms(2) unfolding live_inv_def owners_def woken_def queued_events_def
      by (simp add: subset_insertI2)
  qed (simp add: that)
  show "r = None \<Longrightarrow> live_inv (s\<lparr>ls_lock := k, ls_inside := ls_inside s @ [t]\<rparr>)"
    using assms by (auto simp: live_inv_def lock_inv_def lock_defs elim!: acquire_cases)
qed

lemma live_inv_step:
  "lock_step s a s' \<Longrightarrow> lock_inv s \<Longrightarrow> live_inv s \<Longrightarrow> \<forall>t. a \<noteq> Cancel t \<Longrightarrow> live_inv s'"
  by (induction rule: lock_step.induct)
    (use live_inv_leave [where r = None] live_inv_leave [where r = "Some e" for e] in
      \<open>auto intro: live_inv_wake live_inv_acquire\<close>)

lemma live_inv_run: "lock_run s as s' \<Longrightarrow> lock_inv s \<Longrightarrow> live_inv s \<Longrightarrow> \<forall>t. Cancel t \<notin> set as \<Longrightarrow> live_inv s'"
  by (induction rule: lock_run.induct) (auto intro: live_inv_step lock_inv_run)

lemma lock_run_append: "lock_run t bs u \<Longrightarrow> lock_run s as t \<Longrightarrow> lock_run s (as @ bs) u"
  by (induction rule: lock_run.induct) (auto simp flip: append_assoc intro: lock_run.intros)

lemma lock_run_single: "lock_step s a t \<Longrightarrow> lock_run s [a] t"
  using run_snoc [OF run_nil] by fastforce

definition finishing :: "'t lock_act list \<Rightarrow> bool" where
  "finishing bs \<longleftrightarrow> (\<forall>b \<in> set bs. \<exists>u. b = Wake u \<or> b = Leave u)"

lemma woken_proceeds:
  assumes "lock_inv s" and "live_inv s" and "(e, t) \<in> set (ls_waiting s)" and "ls_inside s = []"
  shows "\<exists>bs s'. lock_run s bs s' \<and> finishing bs \<and> lock_inv s' \<and> live_inv s' \<and>
    (t \<in> set (ls_inside s') \<or> (e, t) \<in> set (ls_waiting s') \<and> length (ls_waiting s') < length (ls_waiting s))"
proof -
  have "pk_locked (ls_lock s)"
    using assms by (intro unlocked_nobody_waits) auto
  then obtain w where w: "w \<in> set (woken s)"
    using assms(2, 4) by (auto simp: live_inv_def owners_def length_Suc_conv)
  then have "w \<in> set (ls_waiting s)" "fst w \<in> set (ls_fired s)"
    by (simp_all add: woken_def)
  then obtain f u where fu: "(f, u) \<in> set (ls_waiting s)" "f \<in> set (ls_fired s)"
    using that [of "fst w" "snd w"] by simp
  let ?s = "s\<lparr>ls_waiting := filter (\<lambda>w. w \<noteq> (f, u)) (ls_waiting s), ls_inside := ls_inside s @ [u]\<rparr>"
  have st: "lock_step s (Wake u) ?s"
    by (rule wake [OF fu])
  have "length (filter (\<lambda>w. w \<noteq> (f, u)) (ls_waiting s)) < length (ls_waiting s)"
    using fu(1) by (intro length_filter_less) auto
  then have "t \<in> set (ls_inside ?s) \<or> (e, t) \<in> set (ls_waiting ?s) \<and> length (ls_waiting ?s) < length (ls_waiting s)"
    using assms(3) by auto
  with st assms(1, 2) show ?thesis
    by (intro exI [of _ "[Wake u]"] exI [of _ ?s])
      (auto simp: finishing_def intro: lock_run_single lock_inv_step live_inv_step)
qed

lemma owner_finishes:
  assumes "lock_inv s" and "live_inv s" and "(e, t) \<in> set (ls_waiting s)" and "u \<in> set (ls_inside s)"
  shows "\<exists>s'. lock_step s (Leave u) s' \<and> ls_inside s' = [] \<and> ls_waiting s' = ls_waiting s"
proof -
  note one = single_owner [OF assms(1, 4)]
  have "e \<notin> set (ls_fired s)"
    using one(2) assms(3) by (auto simp: woken_def filter_empty_conv)
  then have "e \<in> set (queued_events s)"
    using assms(1, 3) by (force simp: lock_inv_def)
  then have "pk_waiters (ls_lock s) \<noteq> []" "pk_locked (ls_lock s)"
    using assms by (auto simp: queued_events_def intro: unlocked_nobody_waits)
  then show ?thesis
    using leave_next [OF assms(4) release_waiting] one(1) by fastforce
qed

lemma turn_comes:
  assumes "lock_inv s" and "live_inv s" and "(e, t) \<in> set (ls_waiting s)"
  shows "\<exists>bs s'. lock_run s bs s' \<and> finishing bs \<and> t \<in> set (ls_inside s')"
  using assms
proof (induction "length (ls_waiting s)" arbitrary: s rule: less_induct)
  case less
  obtain bs0 s0 where s0: "lock_run s bs0 s0" "finishing bs0" "lock_inv s0" "live_inv s0" "ls_inside s0 = []"
      "ls_waiting s0 = ls_waiting s"
  proof (cases "ls_inside s")
    case Nil
    with less.prems that [OF run_nil] show ?thesis
      by (auto simp: finishing_def)
  next
    case (Cons u us)
    with owner_finishes [OF less.prems, of u] obtain s' where
      "lock_step s (Leave u) s'" "ls_inside s' = []" "ls_waiting s' = ls_waiting s"
      by auto
    with less.prems that [OF lock_run_single] show ?thesis
      by (auto simp: finishing_def intro: lock_inv_step live_inv_step)
  qed
  obtain bs1 s1 where s1: "lock_run s0 bs1 s1" "finishing bs1" "lock_inv s1" "live_inv s1"
      "t \<in> set (ls_inside s1) \<or> (e, t) \<in> set (ls_waiting s1) \<and> length (ls_waiting s1) < length (ls_waiting s)"
    using woken_proceeds [of s0 e t] s0 less.prems(3) by auto
  have run1: "lock_run s (bs0 @ bs1) s1" "finishing (bs0 @ bs1)"
    using s0(1, 2) s1(1, 2) by (auto simp: finishing_def intro: lock_run_append)
  from s1(5) show ?case
  proof
    assume "t \<in> set (ls_inside s1)"
    with run1 show ?thesis by blast
  next
    assume "(e, t) \<in> set (ls_waiting s1) \<and> length (ls_waiting s1) < length (ls_waiting s)"
    then obtain bs s' where "lock_run s1 bs s'" "finishing bs" "t \<in> set (ls_inside s')"
      using less.hyps [of s1] s1(3, 4) by blast
    then show ?thesis
      using lock_run_append [OF _ run1(1), of bs s'] run1(2)
      by (intro exI [of _ "(bs0 @ bs1) @ bs"]) (auto simp: finishing_def)
  qed
qed

text \<open>
  C36: As long as no waiting call is cancelled, nobody waits in vain: whatever has happened before, the
  calls that hold the lock or are given it only have to resume and finish, without any new call, for a
  waiting call to get its turn.
\<close>

theorem waiting_call_gets_its_turn:
  assumes "lock_run no_calls as s" and "\<forall>t. Cancel t \<notin> set as" and "(e, t) \<in> set (ls_waiting s)"
  shows "\<exists>bs s'. lock_run s bs s' \<and> finishing bs \<and> t \<in> set (ls_inside s')"
  by (rule turn_comes [OF lock_inv_run [OF assms(1)] live_inv_run [OF assms(1)] assms(3)])
    (simp_all add: lock_inv_initial assms(2))

lemma waiting_call_gets_its_turn_witness:
  "\<exists>s bs s'. lock_run no_calls three_calls s \<and> lock_run s bs s' \<and> finishing bs \<and> (1 :: nat) \<in> set (ls_inside s')"
proof -
  obtain s :: "nat lock_sys" where s: "lock_run no_calls three_calls s" "ls_waiting s = [(1, 1), (2, 2)]"
    using three_calls_run by auto
  with waiting_call_gets_its_turn [OF s(1), of 1 1] show ?thesis
    by (auto simp: three_calls_def)
qed

section \<open>A cancelled call\<close>

text \<open>The lock is taken and nobody owns it.\<close>

definition stuck :: "'t lock_sys \<Rightarrow> bool" where
  "stuck s \<longleftrightarrow> lock_inv s \<and> pk_locked (ls_lock s) \<and> ls_inside s = [] \<and> woken s = []"

lemma woken_Nil: "woken s = [] \<longleftrightarrow> (\<forall>e t. (e, t) \<in> set (ls_waiting s) \<longrightarrow> e \<notin> set (ls_fired s))"
  by (auto simp: woken_def filter_empty_conv)

lemma stuck_no_wake: "stuck s \<Longrightarrow> \<not> lock_step s (Wake t) s'"
  by (auto simp: stuck_def woken_Nil elim!: lock_stepE)

lemma stuck_step: "lock_step s a s' \<Longrightarrow> stuck s \<Longrightarrow> stuck s'"
proof (frule lock_inv_step)
  assume st: "lock_step s a s'" "stuck s"
  have new: "Suc (pk_seq (ls_lock s)) \<notin> set (ls_fired s)"
    using st(2) by (auto simp: stuck_def lock_inv_def dest: bspec)
  assume "lock_inv s'"
  with st new show "stuck s'"
    by (auto simp: stuck_def woken_Nil elim!: lock_stepE acquire_cases) blast+
qed (simp add: stuck_def)

lemma stuck_run: "lock_run s as s' \<Longrightarrow> stuck s \<Longrightarrow> stuck s'"
  by (induction rule: lock_run.induct) (auto intro: stuck_step)


lemma lock_run_snoc_iff: "lock_run s (as @ [a]) u \<longleftrightarrow> (\<exists>t. lock_run s as t \<and> lock_step t a u)"
  by (subst lock_run.simps) auto

lemma lock_run_Nil_iff: "lock_run s [] u \<longleftrightarrow> u = s"
  by (auto elim: lock_run.cases intro: run_nil)

lemma lock_run_append_iff: "lock_run s (as @ bs) u \<longleftrightarrow> (\<exists>t. lock_run s as t \<and> lock_run t bs u)"
proof (induction bs arbitrary: u rule: rev_induct)
  case (snoc b bs)
  then show ?case
    by (metis append_assoc lock_run_snoc_iff)
qed (simp add: lock_run_Nil_iff)

lemma lock_run_Cons_iff: "lock_run s (a # bs) u \<longleftrightarrow> (\<exists>t. lock_step s a t \<and> lock_run t bs u)"
  using lock_run_append_iff [of s "[a]" bs u] lock_run_snoc_iff [of s "[]" a] by (simp add: lock_run_Nil_iff)

text \<open>The calls \<open>a\<close> and \<open>b\<close>: \<open>b\<close> waits for \<open>a\<close>, is cancelled, then \<open>a\<close> is done.\<close>

definition cancelled_wait :: "'t \<Rightarrow> 't \<Rightarrow> 't lock_act list" where
  "cancelled_wait a b = [Enter a 0, Enter b 1, Cancel b, Leave a]"

lemma cancelled_wait_stuck:
  assumes "lock_run no_calls (cancelled_wait a b) s"
  shows "stuck s"
proof -
  obtain s1 s2 s3 where st: "lock_step no_calls (Enter a 0) s1" "lock_step s1 (Enter b 1) s2"
      "lock_step s2 (Cancel b) s3" "lock_step s3 (Leave a) s"
    using assms by (auto simp: cancelled_wait_def lock_run_Cons_iff lock_run_Nil_iff)
  have inv: "lock_inv s"
    using lock_inv_run [OF assms lock_inv_initial(1)] .
  have 1: "s1 = \<lparr>ls_lock = \<lparr>pk_locked = True, pk_waiters = [], pk_seq = 0\<rparr>, ls_waiting = [], ls_fired = [], ls_inside = [a]\<rparr>"
    using st(1) by (auto simp: no_calls_def new_plock_def acquire_def elim!: lock_stepE)
  have 2: "s2 = \<lparr>ls_lock = \<lparr>pk_locked = True, pk_waiters = [(1, 1)], pk_seq = 1\<rparr>, ls_waiting = [(1, b)], ls_fired = [], ls_inside = [a]\<rparr>"
    using st(2) 1 by (auto simp: acquire_def Let_def elim!: lock_stepE)
  have 3: "s3 = s2\<lparr>ls_waiting := []\<rparr>"
    using st(3) 2 by (auto elim!: lock_stepE)
  have 4: "s = \<lparr>ls_lock = \<lparr>pk_locked = True, pk_waiters = [], pk_seq = 1\<rparr>, ls_waiting = [], ls_fired = [1], ls_inside = []\<rparr>"
    using st(4) 3 2 by (auto simp: release_def least_waiter_def Let_def elim!: lock_stepE)
  show ?thesis
    using inv 4 by (simp add: stuck_def woken_def)
qed



end
