(* ===== verification/Diagnostics.thy ===== *)
theory Diagnostics
  imports Event_Bus Py_Text Iris_Interfaces
begin

text \<open>
  What can be asked about the running system: the state tree, its paths, the health report
  (\<open>iris/kernel/diagnostics.py\<close>) and the log of captured model calls (\<open>kernel/debug_capture.py\<close>,
  \<open>kernel/capture_formatter.py\<close>, \<open>agency/execution/llm/capture.py\<close>).

  An attached layer is what it answers when it is asked: \<open>ly_state\<close> and \<open>ly_health\<close> are \<open>None\<close> where the
  object has no such method and \<open>Inl\<close> of the message where the method raises. \<open>str_of\<close> is Python's
  \<open>str\<close> of a value, \<open>write\<close> of a file is a list of path and text.
\<close>

section \<open>The state tree\<close>

fun resolve_keys :: "string list \<Rightarrow> pyobj \<Rightarrow> pyobj option" where
  "resolve_keys [] v = Some v"
| "resolve_keys (k # ks) v = (case v of
     PDict d \<Rightarrow> (case dget d k of Some v' \<Rightarrow> resolve_keys ks v' | None \<Rightarrow> None)
   | _ \<Rightarrow> None)"

definition resolve_path :: "pyobj \<Rightarrow> string \<Rightarrow> pyobj option" where
  "resolve_path tree path = (if path = [] then Some tree else resolve_keys (split_on CHR ''.'' path) tree)"

definition dupdate :: "(string, 'v) dict \<Rightarrow> (string, 'v) dict \<Rightarrow> (string, 'v) dict" where
  "dupdate d new = fold (\<lambda>(k, v). dput k v) new d"

definition sub_key :: "string \<Rightarrow> string \<Rightarrow> string" where
  "sub_key prefix k = (if prefix = [] then k else prefix @ ''.'' @ k)"

text \<open>\<open>flatten prefix d acc\<close>: \<open>acc\<close> is the result of the items before \<open>d\<close>.\<close>

fun flatten :: "string \<Rightarrow> (string, pyobj) dict \<Rightarrow> (string, pyobj) dict \<Rightarrow> (string, pyobj) dict" where
  "flatten prefix [] acc = acc"
| "flatten prefix ((k, PDict d) # items) acc = flatten prefix items (dupdate acc (flatten (sub_key prefix k) d []))"
| "flatten prefix ((k, v) # items) acc = flatten prefix items (dput (sub_key prefix k) v acc)"

section \<open>The diagnostics\<close>

record layer =
  ly_state :: "(string + pyobj) option"
  ly_health :: "(string + string) option"

record diagnostics =
  dg_layers :: "(string, layer option) dict"
  dg_kernel :: "(string + pyobj) option"
  dg_tracer :: "tracer option"

definition attach_layer_providers :: "(string, layer option) dict \<Rightarrow> diagnostics \<Rightarrow> diagnostics" where
  "attach_layer_providers ps d = d\<lparr>dg_layers := dupdate (dg_layers d) ps\<rparr>"

definition error_state :: "string \<Rightarrow> pyobj" where
  "error_state e = PDict [(''error'', PStr e)]"

definition layer_state :: "layer \<Rightarrow> pyobj" where
  "layer_state l = (case ly_state l of None \<Rightarrow> error_state ''no get_state'' | Some (Inl e) \<Rightarrow> error_state e | Some (Inr v) \<Rightarrow> v)"

definition bus_state :: "tracer \<Rightarrow> pyobj" where
  "bus_state t = PDict [(''subscribers'', PInt (int (tr_subscriber_count t))),
     (''total_published'', PInt (int (tr_publish_count t))), (''errors'', PInt (int (tr_error_count t)))]"

definition get_state :: "diagnostics \<Rightarrow> (string, pyobj) dict" where
  "get_state d =
    (let layers = fold (\<lambda>(n, l) t. case l of None \<Rightarrow> t | Some l \<Rightarrow> dput n (layer_state l) t) (dg_layers d) [];
         kernel = (case dg_kernel d of None \<Rightarrow> layers | Some (Inl e) \<Rightarrow> dput ''kernel'' (error_state e) layers
           | Some (Inr v) \<Rightarrow> dput ''kernel'' v layers)
     in case dg_tracer d of None \<Rightarrow> kernel | Some t \<Rightarrow> dput ''eventbus'' (bus_state t) kernel)"

definition query :: "diagnostics \<Rightarrow> string \<Rightarrow> pyobj option" where
  "query d path = resolve_path (PDict (get_state d)) path"

definition query_history :: "diagnostics \<Rightarrow> string \<Rightarrow> int \<Rightarrow> trace_entry list option" where
  "query_history d path n = (case dg_tracer d of None \<Rightarrow> None
     | Some t \<Rightarrow> let r = tracer_find (Some path) None n t in if r = [] then None else Some r)"

definition layer_health :: "layer option \<Rightarrow> string" where
  "layer_health l = (case l of None \<Rightarrow> ''NOT_LOADED''
     | Some l \<Rightarrow> (case ly_health l of None \<Rightarrow> ''OK (no health check)'' | Some (Inl e) \<Rightarrow> ''ERROR: '' @ e | Some (Inr s) \<Rightarrow> s))"

definition bus_health :: "tracer \<Rightarrow> string" where
  "bus_health t = (if tr_error_count t = 0
     then ''OK (published='' @ show_nat (tr_publish_count t) @ '', errors='' @ show_nat (tr_error_count t) @ '')''
     else ''WARN: '' @ show_nat (tr_error_count t) @ '' errors'')"

definition health :: "diagnostics \<Rightarrow> (string, string) dict" where
  "health d =
    (let h = fold (\<lambda>(n, l). dput n (layer_health l)) (dg_layers d) []
     in case dg_tracer d of None \<Rightarrow> h | Some t \<Rightarrow> dput ''eventbus'' (bus_health t) h)"

definition item_line :: "string \<Rightarrow> string \<Rightarrow> string" where
  "item_line k v = ''- **'' @ k @ ''**: '' @ v"

definition category_note :: "trace_entry \<Rightarrow> string" where
  "category_note e = (case te_debug e of Some (c, _) \<Rightarrow> if c = [] then [] else '' ['' @ c @ '']'' | None \<Rightarrow> [])"

definition recent_line :: "trace_entry \<Rightarrow> string" where
  "recent_line e = ''- ['' @ te_timestamp e @ ''] '' @ te_type e @ '' <'' @ te_source e @ ''>'' @ category_note e"

definition generate_report :: "(pyobj \<Rightarrow> string) \<Rightarrow> string \<Rightarrow> diagnostics \<Rightarrow> string list" where
  "generate_report str_of now d =
    [''# Iris Debug Report'', ''**Generated**: '' @ now, [], ''## State Summary'']
    @ map (\<lambda>(k, v). item_line k (str_of v)) (flatten [] (get_state d) [])
    @ [[], ''## Health''] @ map (\<lambda>(k, v). item_line k v) (health d)
    @ (case dg_tracer d of None \<Rightarrow> [] | Some t \<Rightarrow> [[], ''## Recent Events (last 5)''] @ map recent_line (tracer_recent 5 None t))"

section \<open>Paths and the flattened tree\<close>

definition is_dict :: "pyobj \<Rightarrow> bool" where
  "is_dict v = (case v of PDict d \<Rightarrow> True | _ \<Rightarrow> False)"

text \<open>Every key is a name without dots, and no key occurs twice.\<close>

fun wf_tree :: "(string, pyobj) dict \<Rightarrow> bool" where
  "wf_tree [] \<longleftrightarrow> True"
| "wf_tree ((k, PDict d) # items) \<longleftrightarrow> k \<noteq> [] \<and> CHR ''.'' \<notin> set k \<and> k \<notin> set (dkeys items) \<and> wf_tree d \<and> wf_tree items"
| "wf_tree ((k, v) # items) \<longleftrightarrow> k \<noteq> [] \<and> CHR ''.'' \<notin> set k \<and> k \<notin> set (dkeys items) \<and> wf_tree items"

definition path_of :: "string \<Rightarrow> string list \<Rightarrow> string" where
  "path_of prefix ks = join_with ''.'' (if prefix = [] then ks else prefix # ks)"

definition leaf_at :: "string \<Rightarrow> (string, pyobj) dict \<Rightarrow> string \<Rightarrow> pyobj \<Rightarrow> bool" where
  "leaf_at prefix d q v \<longleftrightarrow> (\<exists>ks. ks \<noteq> [] \<and> q = path_of prefix ks \<and> resolve_keys ks (PDict d) = Some v \<and> \<not> is_dict v)"

lemma path_of_sub_key: "k \<noteq> [] \<Longrightarrow> ks \<noteq> [] \<Longrightarrow> path_of (sub_key prefix k) ks = path_of prefix (k # ks)"
  by (simp add: path_of_def sub_key_def join_with_cons)

lemma path_of_single: "path_of prefix [k] = sub_key prefix k"
  by (simp add: path_of_def sub_key_def join_with_def)

definition good_keys :: "string list \<Rightarrow> bool" where
  "good_keys ks \<longleftrightarrow> ks \<noteq> [] \<and> (\<forall>k \<in> set ks. k \<noteq> [] \<and> CHR ''.'' \<notin> set k)"

lemma path_of_inj:
  assumes "good_keys ks" and "good_keys ks'" and "path_of prefix ks = path_of prefix ks'"
  shows "ks = ks'"
proof -
  have "join_with ''.'' ks = join_with ''.'' ks'"
    using assms by (cases "prefix = []") (auto simp: path_of_def good_keys_def join_with_cons)
  moreover have "split_on CHR ''.'' (join_with ''.'' xs) = xs" if "good_keys xs" for xs
    by (rule split_on_join) (use that in \<open>auto simp: good_keys_def\<close>)
  ultimately show ?thesis using assms(1,2) by metis
qed

lemma wf_tree_key: "wf_tree d \<Longrightarrow> dget d k = Some v \<Longrightarrow> k \<noteq> [] \<and> CHR ''.'' \<notin> set k \<and> (case v of PDict d' \<Rightarrow> wf_tree d' | _ \<Rightarrow> True)"
  by (induction d rule: wf_tree.induct) (auto split: if_splits)

lemma resolve_good: "ks \<noteq> [] \<Longrightarrow> wf_tree d \<Longrightarrow> resolve_keys ks (PDict d) = Some v \<Longrightarrow> good_keys ks"
proof (induction ks arbitrary: d)
  case (Cons k ks)
  then obtain v' where v': "dget d k = Some v'" "resolve_keys ks v' = Some v" by (auto split: option.splits)
  note key = wf_tree_key [OF Cons.prems(2) v'(1)]
  show ?case
  proof (cases "ks = []")
    case False
    then obtain d' where "v' = PDict d'" using v'(2) by (cases ks; cases v') auto
    then have "good_keys ks" using Cons.IH [OF False, of d'] key v'(2) by simp
    then show ?thesis using key by (simp add: good_keys_def)
  qed (use key in \<open>simp add: good_keys_def\<close>)
qed simp

lemma leaf_at_dict:
  assumes "k \<noteq> []" and "k \<notin> set (dkeys items)"
  shows "leaf_at p ((k, PDict d) # items) q v \<longleftrightarrow> leaf_at (sub_key p k) d q v \<or> leaf_at p items q v"
proof
  assume "leaf_at p ((k, PDict d) # items) q v"
  then obtain k0 ks where l: "q = path_of p (k0 # ks)" "resolve_keys (k0 # ks) (PDict ((k, PDict d) # items)) = Some v" "\<not> is_dict v"
    unfolding leaf_at_def by (metis neq_Nil_conv)
  show "leaf_at (sub_key p k) d q v \<or> leaf_at p items q v"
  proof (cases "k0 = k")
    case True
    then have r: "resolve_keys ks (PDict d) = Some v" using l(2) by simp
    then have "ks \<noteq> []" using l(3) by (auto simp: is_dict_def)
    with r l True assms(1) show ?thesis unfolding leaf_at_def by (metis path_of_sub_key)
  next
    case False
    then have "resolve_keys (k0 # ks) (PDict items) = Some v" using l(2) by simp
    then show ?thesis using l unfolding leaf_at_def by blast
  qed
next
  assume "leaf_at (sub_key p k) d q v \<or> leaf_at p items q v"
  then show "leaf_at p ((k, PDict d) # items) q v"
  proof
    assume "leaf_at (sub_key p k) d q v"
    then obtain ks where "ks \<noteq> []" "q = path_of (sub_key p k) ks" "resolve_keys ks (PDict d) = Some v" "\<not> is_dict v"
      unfolding leaf_at_def by blast
    then show ?thesis
      unfolding leaf_at_def using assms(1) by (intro exI [of _ "k # ks"]) (simp add: path_of_sub_key)
  next
    assume "leaf_at p items q v"
    then obtain k0 ks where l: "q = path_of p (k0 # ks)" "resolve_keys (k0 # ks) (PDict items) = Some v" "\<not> is_dict v"
      unfolding leaf_at_def by (metis neq_Nil_conv)
    then have "k0 \<noteq> k" using assms(2) by (auto split: option.splits dest: map_of_SomeD) (metis fst_conv image_eqI map_of_SomeD)
    then show ?thesis
      unfolding leaf_at_def using l by (intro exI [of _ "k0 # ks"]) simp
  qed
qed

lemma leaf_at_value:
  assumes "k \<notin> set (dkeys items)" and "\<not> is_dict w"
  shows "leaf_at p ((k, w) # items) q v \<longleftrightarrow> q = sub_key p k \<and> v = w \<or> leaf_at p items q v"
proof
  assume "leaf_at p ((k, w) # items) q v"
  then obtain k0 ks where l: "q = path_of p (k0 # ks)" "resolve_keys (k0 # ks) (PDict ((k, w) # items)) = Some v" "\<not> is_dict v"
    unfolding leaf_at_def by (metis neq_Nil_conv)
  show "q = sub_key p k \<and> v = w \<or> leaf_at p items q v"
  proof (cases "k0 = k")
    case True
    then have "ks = [] \<and> v = w" using l(2) assms(2) by (cases ks; cases w) (auto simp: is_dict_def)
    then show ?thesis using l(1) True by (simp add: path_of_single)
  next
    case False
    then have "resolve_keys (k0 # ks) (PDict items) = Some v" using l(2) by simp
    then show ?thesis using l unfolding leaf_at_def by blast
  qed
next
  assume "q = sub_key p k \<and> v = w \<or> leaf_at p items q v"
  then show "leaf_at p ((k, w) # items) q v"
  proof
    assume "q = sub_key p k \<and> v = w"
    then show ?thesis unfolding leaf_at_def using assms(2) by (intro exI [of _ "[k]"]) (simp add: path_of_single)
  next
    assume "leaf_at p items q v"
    then obtain k0 ks where l: "q = path_of p (k0 # ks)" "resolve_keys (k0 # ks) (PDict items) = Some v" "\<not> is_dict v"
      unfolding leaf_at_def by (metis neq_Nil_conv)
    then have "k0 \<noteq> k" using assms(1) by (auto split: option.splits dest: map_of_SomeD) (metis fst_conv image_eqI map_of_SomeD)
    then show ?thesis
      unfolding leaf_at_def using l by (intro exI [of _ "k0 # ks"]) simp
  qed
qed

lemma tree_induct [case_names Nil Dict Value]:
  assumes "P []" and "\<And>k d items. P d \<Longrightarrow> P items \<Longrightarrow> P ((k, PDict d) # items)"
    and "\<And>k v items. \<not> is_dict v \<Longrightarrow> P items \<Longrightarrow> P ((k, v) # items)"
  shows "P d"
  by (induction d rule: wf_tree.induct) (rule assms; simp add: is_dict_def; fail)+

lemma flatten_value: "\<not> is_dict v \<Longrightarrow> flatten p ((k, v) # items) acc = flatten p items (dput (sub_key p k) v acc)"
  by (cases v) (simp_all add: is_dict_def)

lemma wf_tree_value: "\<not> is_dict v \<Longrightarrow>
    wf_tree ((k, v) # items) \<longleftrightarrow> k \<noteq> [] \<and> CHR ''.'' \<notin> set k \<and> k \<notin> set (dkeys items) \<and> wf_tree items"
  by (cases v) (simp_all add: is_dict_def)

lemma dget_dupdate:
  "distinct (dkeys new) \<Longrightarrow> dget (dupdate d new) q = (case dget new q of None \<Rightarrow> dget d q | Some v \<Rightarrow> Some v)"
proof (induction new arbitrary: d)
  case (Cons p new)
  then have "q = fst p \<Longrightarrow> dget new q = None" by (auto simp: dget_None_iff)
  with Cons show ?case by (cases p) (auto simp: dupdate_def split: option.split)
qed (simp add: dupdate_def)

lemma distinct_dupdate: "distinct (dkeys d) \<Longrightarrow> distinct (dkeys (dupdate d new))"
  by (induction new arbitrary: d) (auto simp: dupdate_def distinct_update)

lemma distinct_flatten: "distinct (dkeys acc) \<Longrightarrow> distinct (dkeys (flatten p d acc))"
proof (induction d arbitrary: p acc rule: tree_induct)
  case (Dict k d items)
  then show ?case by (simp add: distinct_dupdate)
next
  case (Value k v items)
  then show ?case by (simp add: flatten_value distinct_update)
qed simp

lemma leaf_first_key:
  assumes "leaf_at p items q v" and "wf_tree items"
  shows "\<exists>k ks. k \<in> set (dkeys items) \<and> good_keys (k # ks) \<and> q = path_of p (k # ks)"
proof -
  obtain k ks where l: "q = path_of p (k # ks)" "resolve_keys (k # ks) (PDict items) = Some v"
    using assms(1) unfolding leaf_at_def by (metis neq_Nil_conv)
  have "good_keys (k # ks)" by (rule resolve_good [OF _ assms(2) l(2)]) simp
  moreover have "k \<in> set (dkeys items)"
    using l(2) by (auto split: option.splits dest: map_of_SomeD) (metis fst_conv image_eqI map_of_SomeD)
  ultimately show ?thesis using l(1) by blast
qed

lemma leaf_not_later:
  assumes "k \<noteq> []" "CHR ''.'' \<notin> set k" "k \<notin> set (dkeys items)" "wf_tree d" "wf_tree items"
    and "leaf_at (sub_key p k) d q v"
  shows "\<not> leaf_at p items q v'"
proof
  assume "leaf_at p items q v'"
  from leaf_first_key [OF this assms(5)] obtain k0 ks0 where 1: "k0 \<in> set (dkeys items)" "good_keys (k0 # ks0)" "q = path_of p (k0 # ks0)"
    by blast
  from leaf_first_key [OF assms(6,4)] obtain k1 ks1 where 2: "good_keys (k1 # ks1)" "q = path_of (sub_key p k) (k1 # ks1)"
    by blast
  have "q = path_of p (k # k1 # ks1)" using 2(2) assms(1) by (simp add: path_of_sub_key)
  moreover have "good_keys (k # k1 # ks1)" using 2(1) assms(1,2) by (simp add: good_keys_def)
  ultimately have "k # k1 # ks1 = k0 # ks0" by (intro path_of_inj [OF _ 1(2), where prefix = p]) (simp_all only: 1(3))
  then show False using 1(1) assms(3) by blast
qed

lemma key_not_later:
  assumes "k \<noteq> []" "CHR ''.'' \<notin> set k" "k \<notin> set (dkeys items)" "wf_tree items"
  shows "\<not> leaf_at p items (sub_key p k) v'"
proof
  assume "leaf_at p items (sub_key p k) v'"
  from leaf_first_key [OF this assms(4)] obtain k0 ks0 where 1: "k0 \<in> set (dkeys items)" "good_keys (k0 # ks0)"
    "path_of p [k] = path_of p (k0 # ks0)"
    by (auto simp: path_of_single)
  have "good_keys [k]" using assms(1,2) by (simp add: good_keys_def)
  from path_of_inj [OF this 1(2,3)] 1(1) assms(3) show False by simp
qed

lemma dget_flatten:
  "wf_tree d \<Longrightarrow> (leaf_at p d q v \<longrightarrow> dget (flatten p d acc) q = Some v) \<and>
    ((\<forall>v. \<not> leaf_at p d q v) \<longrightarrow> dget (flatten p d acc) q = dget acc q)"
proof (induction d arbitrary: p v acc rule: tree_induct)
  case Nil
  have "\<not> leaf_at p [] q v" for v by (auto simp: leaf_at_def neq_Nil_conv)
  then show ?case by simp
next
  case (Dict k d items)
  then have wf: "k \<noteq> []" "CHR ''.'' \<notin> set k" "k \<notin> set (dkeys items)" "wf_tree d" "wf_tree items" by simp_all
  note IHd = Dict.IH(1) [OF wf(4), of "sub_key p k" _ "[]"] and IHi = Dict.IH(2) [OF wf(5), of p]
  have upd: "dget (dupdate acc (flatten (sub_key p k) d [])) q =
      (case dget (flatten (sub_key p k) d []) q of None \<Rightarrow> dget acc q | Some v \<Rightarrow> Some v)"
    by (rule dget_dupdate, rule distinct_flatten) simp
  show ?case
    unfolding flatten.simps leaf_at_dict [OF wf(1,3)]
  proof (intro conjI impI)
    assume "leaf_at (sub_key p k) d q v \<or> leaf_at p items q v"
    then show "dget (flatten p items (dupdate acc (flatten (sub_key p k) d []))) q = Some v"
    proof
      assume l: "leaf_at (sub_key p k) d q v"
      then have "\<forall>v. \<not> leaf_at p items q v" using leaf_not_later [OF wf] by blast
      then show ?thesis using IHi IHd l upd by simp
    qed (use IHi in blast)
  next
    assume "\<forall>v. \<not> (leaf_at (sub_key p k) d q v \<or> leaf_at p items q v)"
    then show "dget (flatten p items (dupdate acc (flatten (sub_key p k) d []))) q = dget acc q"
      using IHi IHd upd by simp
  qed
next
  case (Value k w items)
  then have wf: "k \<noteq> []" "CHR ''.'' \<notin> set k" "k \<notin> set (dkeys items)" "wf_tree items" by (simp_all add: wf_tree_value)
  note IH = Value.IH [OF wf(4), of p]
  show ?case
    unfolding flatten_value [OF Value(1)] leaf_at_value [OF wf(3) Value(1)]
    using IH key_not_later [OF wf, of p] by auto
qed

text \<open>
  The report and the paths of the state query agree: in a tree whose keys are distinct names without
  dots, the flattened tree holds under a path exactly the value that the query finds there, and
  every value that is not itself a tree is listed.
\<close>

theorem flattened_paths_resolve:
  assumes "wf_tree d" and "path \<noteq> []"
  shows "dget (flatten [] d []) path = Some v \<longleftrightarrow> resolve_path (PDict d) path = Some v \<and> \<not> is_dict v"
proof -
  have "leaf_at [] d path v \<longleftrightarrow> resolve_path (PDict d) path = Some v \<and> \<not> is_dict v" for v
  proof
    assume "leaf_at [] d path v"
    then obtain ks where l: "ks \<noteq> []" "path = path_of [] ks" "resolve_keys ks (PDict d) = Some v" "\<not> is_dict v"
      unfolding leaf_at_def by blast
    have "good_keys ks" by (rule resolve_good [OF l(1) assms(1) l(3)])
    then have "split_on CHR ''.'' path = ks"
      unfolding l(2) path_of_def by (simp add: good_keys_def split_on_join)
    then show "resolve_path (PDict d) path = Some v \<and> \<not> is_dict v" using l(3,4) assms(2) by (simp add: resolve_path_def)
  next
    assume r: "resolve_path (PDict d) path = Some v \<and> \<not> is_dict v"
    have "path = path_of [] (split_on CHR ''.'' path)"
      by (simp add: path_of_def join_split_on)
    then show "leaf_at [] d path v"
      unfolding leaf_at_def using r assms(2)
      by (intro exI [of _ "split_on CHR ''.'' path"]) (simp add: resolve_path_def)
  qed
  moreover have "dget (flatten [] d []) path = Some v \<longleftrightarrow> leaf_at [] d path v"
    using dget_flatten [OF assms(1), of "[]" path _ "[]"] by (cases "\<exists>v. leaf_at [] d path v") auto
  ultimately show ?thesis by simp
qed

definition demo_tree :: "(string, pyobj) dict" where
  "demo_tree = [(''io'', PDict [(''sessions'', PInt 2)]), (''memory'', PDict [(''episodic'', PInt 7), (''index'', PDict [])])]"

section \<open>The health of the event bus\<close>

lemma on_event_error_count [simp]: "tr_error_count (on_event now e t) = tr_error_count t"
  by (simp add: on_event_def tracer_append_def Let_def split: option.split)

definition no_tracer_errors :: "('h, 'w) bus \<Rightarrow> bool" where
  "no_tracer_errors b \<longleftrightarrow> (\<exists>t. eb_tracer b = Some t \<and> tr_error_count t = 0)"

lemma dispatch_no_tracer_errors:
  assumes "\<And>h e b. no_tracer_errors b \<Longrightarrow> no_tracer_errors (fst (snd (run h e b)))"
    and "\<And>h t b. no_tracer_errors b \<Longrightarrow> no_tracer_errors (ok h t b)"
  shows "no_tracer_errors b \<Longrightarrow> no_tracer_errors (fst (snd (dispatch run ok strict hs e b)))"
proof (induction hs arbitrary: e b)
  case (Cons h hs)
  obtain e' b' r where r: "run h e b = (e', b', r)" by (rule prod_cases3)
  have "no_tracer_errors b'" using assms(1) [OF Cons.prems, of h e] r by simp
  moreover from this have "no_tracer_errors (count_error b')" by (simp add: no_tracer_errors_def count_error_def)
  ultimately show ?case using assms(2) Cons.IH by (cases r; cases strict) (simp_all add: r)
qed simp

text \<open>
  The health report never shows an error of the event bus. A publication leaves the error count of
  the tracer at zero whatever the handlers raise, as long as handlers do nothing else to the tracer;
  so the report says \<open>OK\<close> with \<open>errors=0\<close> also when every handler has failed.
\<close>

theorem handler_errors_unreported:
  assumes "no_tracer_errors b" and "\<And>h e b. no_tracer_errors b \<Longrightarrow> no_tracer_errors (fst (snd (run h e b)))"
  shows "\<exists>t. eb_tracer (fst (snd (bus_publish qualname run strict now fresh e b))) = Some t \<and>
    bus_health t = ''OK (published='' @ show_nat (tr_publish_count t) @ '', errors=0)''"
proof -
  have b1: "no_tracer_errors (before_dispatch now (stamp now fresh e) b)"
    using assms(1) by (auto simp: no_tracer_errors_def before_dispatch_def)
  have "no_tracer_errors (fst (snd (bus_publish qualname run strict now fresh e b)))"
    unfolding bus_publish_def Let_def
    by (rule dispatch_no_tracer_errors [OF assms(2) _ b1]) (simp_all add: no_tracer_errors_def count_ok_def)
  then show ?thesis
    by (auto simp: no_tracer_errors_def bus_health_def show_nat.simps [of 0] digit_def char_of_def bit_Suc_0_iff)
qed

definition failing_bus :: "(unit, unit) bus" where
  "failing_bus = bus_subscribe ''TimerTick'' () \<lparr>eb_subscribers = [], eb_tracer = Some (new_tracer 100), eb_metrics = new_metrics, eb_world = ()\<rparr>"

definition tick_event :: event where
  "tick_event = \<lparr>ev_class = ''TimerTick'', ev_timestamp = None, ev_source = ''heartbeat'', ev_trace_id = [], ev_debug = None, ev_fields = []\<rparr>"

text \<open>A tracer without entries of a path is reported like no tracer at all.\<close>

lemma empty_history_is_no_tracer:
  "dg_tracer d = Some t \<Longrightarrow> tracer_find (Some path) None n t = [] \<Longrightarrow> query_history d path n = query_history (d\<lparr>dg_tracer := None\<rparr>) path n"
  by (simp add: query_history_def)

section \<open>Captured calls of the model\<close>

record call_iteration =
  it_calls :: "(string \<times> string) list"
  it_results :: "(string \<times> string) list"

record capture_entry =
  ce_id :: nat
  ce_time :: string
  ce_model :: string
  ce_system :: string
  ce_messages :: "(string \<times> string) list"
  ce_tools :: "(string \<times> string) list"
  ce_response :: string
  ce_tokens :: "(string, nat) dict"
  ce_iterations :: "call_iteration list"
  ce_full_prompt :: string

text \<open>Two texts outside the first 256 code points: the thin rule under a message and a heading.\<close>

record capture_texts =
  ct_rule :: string
  ct_full_heading :: string

definition bar :: "char \<Rightarrow> string" where
  "bar c = replicate 80 c"

definition headed :: "string \<Rightarrow> string list" where
  "headed title = [bar CHR ''-'', title, bar CHR ''-'']"

definition tokens :: "capture_entry \<Rightarrow> string \<Rightarrow> string" where
  "tokens e k = show_nat (dget_or (ce_tokens e) k 0)"

definition header_lines :: "capture_entry \<Rightarrow> string list" where
  "header_lines e =
    [bar CHR ''='', ''DEBUG CAPTURE #'' @ show_nat (ce_id e), bar CHR ''='', ''Time:   '' @ ce_time e, ''Model:  '' @ ce_model e,
     ''Tokens: system='' @ tokens e ''system'' @ ''  history='' @ tokens e ''history'' @ ''  tools='' @ tokens e ''tools'' @
       ''  response='' @ tokens e ''response'' @ ''  total='' @ tokens e ''total'']
    @ (if ce_iterations e = [] then [] else [''Iterations: '' @ show_nat (length (ce_iterations e))]) @ [[]]"

definition full_prompt_lines :: "capture_texts \<Rightarrow> capture_entry \<Rightarrow> string list" where
  "full_prompt_lines ct e = (if ce_full_prompt e = [] then [] else headed (ct_full_heading ct) @ [ce_full_prompt e, []])"

definition message_lines :: "capture_texts \<Rightarrow> capture_entry \<Rightarrow> string list" where
  "message_lines ct e = headed (''MESSAGES ('' @ show_nat (length (ce_messages e)) @ '')'')
    @ concat (map (\<lambda>(role, text). [[], ''['' @ role @ '']'', ct_rule ct, take 2000 text]) (ce_messages e)) @ [[]]"

definition tool_lines :: "capture_entry \<Rightarrow> string list" where
  "tool_lines e = (if ce_tools e = [] then []
     else headed (''TOOLS ('' @ show_nat (length (ce_tools e)) @ '' definitions)'')
       @ map (\<lambda>(name, desc). ''  - '' @ name @ '': '' @ take 120 desc) (ce_tools e) @ [[]])"

fun iteration_lines :: "nat \<Rightarrow> call_iteration list \<Rightarrow> string list" where
  "iteration_lines i [] = []"
| "iteration_lines i (it # its) = [[], ''--- Iteration '' @ show_nat i @ '' ---'']
    @ map (\<lambda>(name, args). ''  CALL: '' @ name @ ''('' @ args @ '')'') (it_calls it)
    @ map (\<lambda>(name, r). ''  RESULT: '' @ name @ '' -> '' @ take 200 r) (it_results it)
    @ iteration_lines (Suc i) its"

definition format_entry :: "capture_texts \<Rightarrow> capture_entry \<Rightarrow> string list" where
  "format_entry ct e = header_lines e @ headed ''SYSTEM PROMPT'' @ [ce_system e, []] @ full_prompt_lines ct e
    @ message_lines ct e @ tool_lines e
    @ (if ce_iterations e = [] then [] else headed ''TOOL ITERATIONS'' @ iteration_lines 1 (ce_iterations e) @ [[]])
    @ headed ''RESPONSE'' @ [ce_response e, []] @ [bar CHR ''='']"

definition format_short :: "capture_entry \<Rightarrow> string" where
  "format_short e = ''  #'' @ show_nat (ce_id e) @ ''  '' @ drop 11 (ce_time e) @ ''  '' @ ce_model e @ ''  ''
    @ tokens e ''total'' @ ''tok  response='' @ tokens e ''response''"

record debug_capture =
  dc_captures :: "capture_entry list"
  dc_max_entries :: int
  dc_enabled :: bool
  dc_auto_dump :: bool
  dc_next_id :: nat
  dc_files :: "(string, string) dict"

definition new_capture :: "int \<Rightarrow> bool \<Rightarrow> debug_capture" where
  "new_capture n auto = \<lparr>dc_captures = [], dc_max_entries = n, dc_enabled = False, dc_auto_dump = auto, dc_next_id = 1, dc_files = []\<rparr>"

definition set_capture_enabled :: "bool \<Rightarrow> debug_capture \<Rightarrow> debug_capture" where
  "set_capture_enabled v dc = dc\<lparr>dc_enabled := v\<rparr>"

definition lines_text :: "string list \<Rightarrow> string" where
  "lines_text ls = join_with [CHR 0x0A] ls"

definition capture_path :: "nat \<Rightarrow> string" where
  "capture_path i = ''capture_'' @ pad_left 3 (show_nat i) @ ''.txt''"

definition write_file :: "capture_texts \<Rightarrow> capture_entry \<Rightarrow> debug_capture \<Rightarrow> debug_capture" where
  "write_file ct e dc = dc\<lparr>dc_files := dput (capture_path (ce_id e)) (lines_text (format_entry ct e)) (dc_files dc)\<rparr>"

definition capture :: "capture_texts \<Rightarrow> capture_entry \<Rightarrow> debug_capture \<Rightarrow> debug_capture" where
  "capture ct entry dc =
    (if \<not> dc_enabled dc then dc
     else let e = entry\<lparr>ce_id := dc_next_id dc\<rparr>; cs = dc_captures dc @ [e];
            dc' = dc\<lparr>dc_next_id := Suc (dc_next_id dc), dc_captures := if dc_max_entries dc < int (length cs) then tl cs else cs\<rparr>
       in if dc_auto_dump dc then write_file ct e dc' else dc')"

definition capture_last :: "int \<Rightarrow> debug_capture \<Rightarrow> capture_entry list" where
  "capture_last n dc = (if dc_captures dc = [] then [] else slice_last n (dc_captures dc))"

definition list_captures :: "debug_capture \<Rightarrow> string list" where
  "list_captures dc = (if dc_captures dc = [] then [''No captures'']
     else (''Debug captures ('' @ show_nat (length (dc_captures dc)) @ ''):'') # map format_short (dc_captures dc))"

definition capture_show :: "capture_texts \<Rightarrow> nat \<Rightarrow> debug_capture \<Rightarrow> string" where
  "capture_show ct i dc = (case find (\<lambda>e. ce_id e = i) (dc_captures dc) of
     Some e \<Rightarrow> lines_text (format_entry ct e) | None \<Rightarrow> ''Capture #'' @ show_nat i @ '' not found'')"

definition dump_all :: "capture_texts \<Rightarrow> debug_capture \<Rightarrow> string list \<times> debug_capture" where
  "dump_all ct dc = (map (\<lambda>e. capture_path (ce_id e)) (dc_captures dc), fold (write_file ct) (dc_captures dc) dc)"

text \<open>Token counts: of the tokenizer when there is one, else 1.3 per character.\<close>

definition count_tokens :: "(string \<Rightarrow> nat) option \<Rightarrow> string \<Rightarrow> nat" where
  "count_tokens tokenizer s = (if s = [] then 0 else case tokenizer of Some f \<Rightarrow> f s | None \<Rightarrow> nat \<lfloor>1.3 * real (length s)\<rfloor>)"

text \<open>\<open>capture_debug\<close>: a message is a role and a text, \<open>tools\<close> the text of the schemas and their names
  and descriptions.\<close>

definition history_of :: "(string \<times> string) list \<Rightarrow> (string \<times> string) list" where
  "history_of ms = filter (\<lambda>m. fst m \<noteq> ''system'') ms"

definition token_counts :: "(string \<Rightarrow> nat) \<Rightarrow> string \<Rightarrow> string \<Rightarrow> string \<Rightarrow> string \<Rightarrow> (string, nat) dict" where
  "token_counts cnt system history tools response =
    (let tc = [(''system'', cnt system), (''history'', cnt history), (''tools'', cnt tools), (''response'', cnt response)]
     in tc @ [(''total'', sum_list (map snd tc))])"

definition full_prompt :: "(string \<times> string) list \<Rightarrow> string" where
  "full_prompt ms = join_with [CHR 0x0A, CHR 0x0A] (map (\<lambda>(role, text). ''['' @ role @ '']'' @ [CHR 0x0A] @ text) ms)"

definition capture_debug where
  "capture_debug ct tokenizer now model_name system messages response tools_text tools iterations dc =
    capture ct \<lparr>ce_id = 0, ce_time = now, ce_model = model_name, ce_system = system, ce_messages = history_of messages,
      ce_tools = tools, ce_response = response,
      ce_tokens = token_counts (count_tokens tokenizer) system (join_with '' '' (map snd (history_of messages)))
        (if tools = [] then [] else tools_text) response,
      ce_iterations = iterations, ce_full_prompt = full_prompt messages\<rparr> dc"


lemma capture_frame [simp]:
  "dc_max_entries (capture ct e dc) = dc_max_entries dc" "dc_enabled (capture ct e dc) = dc_enabled dc"
  by (simp_all add: capture_def write_file_def Let_def)

lemma captures_capture:
  "dc_enabled dc \<Longrightarrow> dc_captures (capture ct e dc) =
    (let cs = dc_captures dc @ [e\<lparr>ce_id := dc_next_id dc\<rparr>] in if dc_max_entries dc < int (length cs) then tl cs else cs)"
  "dc_enabled dc \<Longrightarrow> dc_next_id (capture ct e dc) = Suc (dc_next_id dc)"
  by (simp_all add: capture_def write_file_def Let_def)

definition numbered_entries :: "capture_entry list \<Rightarrow> capture_entry list" where
  "numbered_entries es = map (\<lambda>(i, e). e\<lparr>ce_id := Suc i\<rparr>) (enumerate 0 es)"

lemma numbered_entries_snoc: "numbered_entries (es @ [e]) = numbered_entries es @ [e\<lparr>ce_id := Suc (length es)\<rparr>]"
  by (simp add: numbered_entries_def enumerate_append_eq)

lemma length_numbered_entries [simp]: "length (numbered_entries es) = length es"
  by (simp add: numbered_entries_def)

lemma numbered_entries_nth: "i < length es \<Longrightarrow> numbered_entries es ! i = (es ! i)\<lparr>ce_id := Suc i\<rparr>"
  by (simp add: numbered_entries_def nth_enumerate_eq)

lemma captures_fold:
  "dc_captures (fold (capture ct) es (set_capture_enabled True (new_capture n auto))) = lastn (nat n) (numbered_entries es) \<and>
    dc_next_id (fold (capture ct) es (set_capture_enabled True (new_capture n auto))) = Suc (length es) \<and>
    dc_enabled (fold (capture ct) es (set_capture_enabled True (new_capture n auto))) \<and>
    dc_max_entries (fold (capture ct) es (set_capture_enabled True (new_capture n auto))) = n"
proof (induction es rule: rev_induct)
  case Nil
  then show ?case by (simp add: set_capture_enabled_def new_capture_def numbered_entries_def)
next
  case (snoc e es)
  let ?dc = "fold (capture ct) es (set_capture_enabled True (new_capture n auto))" and ?e = "e\<lparr>ce_id := Suc (length es)\<rparr>"
  have trim: "(if n < int (length cs) then tl cs else cs) = lastn (nat n) cs" if "length cs \<le> Suc (nat n)" for cs :: "capture_entry list"
  proof (cases "n < int (length cs)")
    case True
    have "length cs = Suc (nat n)" if "0 < length cs" using True \<open>length cs \<le> Suc (nat n)\<close> that by linarith
    with True show ?thesis by (cases "cs = []") (auto simp: lastn_tl)
  qed simp
  have "dc_captures (capture ct e ?dc) = lastn (nat n) (lastn (nat n) (numbered_entries es) @ [?e])"
    using snoc trim [of "lastn (nat n) (numbered_entries es) @ [?e]"] by (simp add: captures_capture Let_def)
  then show ?case
    using snoc by (simp add: lastn_append_lastn numbered_entries_snoc captures_capture(2))
qed

text \<open>
  With the capture enabled, the log shows exactly the latest calls of the model: the i-th captured
  call is shown under the number i, in full, as long as it is among the last \<open>max_entries\<close> ones, and any
  other number is not found.
\<close>

theorem capture_shows_latest:
  "capture_show ct i (fold (capture ct) es (set_capture_enabled True (new_capture n auto))) =
    (if length es - nat n < i \<and> i \<le> length es then lines_text (format_entry ct ((es ! (i - 1))\<lparr>ce_id := i\<rparr>))
     else ''Capture #'' @ show_nat i @ '' not found'')"
proof -
  let ?ns = "numbered_entries es" and ?k = "length es - nat n"
  have captured: "dc_captures (fold (capture ct) es (set_capture_enabled True (new_capture n auto))) = drop ?k ?ns"
    using captures_fold [of ct es n auto] by (simp add: lastn_def)
  have nth: "drop ?k ?ns ! j = (es ! (?k + j))\<lparr>ce_id := Suc (?k + j)\<rparr>" if "j < length es - ?k" for j
    using that by (simp add: numbered_entries_nth)
  have "find (\<lambda>e. ce_id e = i) (drop ?k ?ns) =
      (if ?k < i \<and> i \<le> length es then Some ((es ! (i - 1))\<lparr>ce_id := i\<rparr>) else None)"
  proof (cases "?k < i \<and> i \<le> length es")
    case True
    have ids: "ce_id (drop ?k ?ns ! j) = Suc (?k + j)" if "j < length es - ?k" for j
      by (simp only: nth [OF that]) simp
    have other: "ce_id (drop ?k ?ns ! j) \<noteq> i" if "j < i - 1 - ?k" for j
    proof -
      have "j < length es - ?k" using that True by linarith
      then show ?thesis using ids [of j] that by linarith
    qed
    have found: "ce_id (drop ?k ?ns ! (i - 1 - ?k)) = i" using True by (subst ids) auto
    have "find (\<lambda>e. ce_id e = i) (drop ?k ?ns) = Some (drop ?k ?ns ! (i - 1 - ?k))"
      unfolding find_Some_iff
    proof (intro exI conjI allI impI)
      show "i - 1 - ?k < length (drop ?k ?ns)" using True by (simp, linarith)
    qed (simp_all only: found other not_False_eq_True)
    moreover have "drop ?k ?ns ! (i - 1 - ?k) = (es ! (i - 1))\<lparr>ce_id := i\<rparr>"
      using True by (subst nth) auto
    ultimately show ?thesis using True by simp
  next
    case False
    have "ce_id e \<noteq> i" if "e \<in> set (drop ?k ?ns)" for e
    proof -
      obtain j where "j < length es - ?k" "e = drop ?k ?ns ! j"
        using \<open>e \<in> set (drop ?k ?ns)\<close> by (auto simp: in_set_conv_nth)
      then show ?thesis using nth [of j] False by auto
    qed
    then have "find (\<lambda>e. ce_id e = i) (drop ?k ?ns) = None" by (auto simp: find_None_iff)
    with False show ?thesis by auto
  qed
  then show ?thesis by (simp add: capture_show_def captured)
qed

end
