(* ===== verification/Tools.thy ===== *)
theory Tools
  imports Execution
begin

text \<open>
  The tools of the model (\<open>iris/tools\<close>: models, decorator, registry) and the engine that lists and runs
  them for the execution (\<open>iris/agency/execution/engine.py\<close>).

  What a tool does is the parameter \<open>td_invoke\<close> of its definition; it may raise. \<open>engine_of\<close> is the
  tool engine that theory Execution takes as a parameter.
\<close>

section \<open>Definitions of tools\<close>

datatype invoked = ToolRaises | NoResult | Result string

record tool_def =
  td_name :: string
  td_description :: string
  td_side_effect :: bool
  td_roles :: "string list option"
  td_invoke :: "(string, pyobj) dict \<Rightarrow> invoked"

text \<open>\<open>ToolDef.execute\<close>; \<open>None\<close> is the exception of the tool.\<close>

definition execute_tool :: "tool_def \<Rightarrow> (string, pyobj) dict \<Rightarrow> string option" where
  "execute_tool t args = (case td_invoke t args of ToolRaises \<Rightarrow> None | NoResult \<Rightarrow> Some [] | Result s \<Rightarrow> Some s)"

text \<open>The decorator: a name and a description, or those of the function.\<close>

definition decorate :: "string option \<Rightarrow> string option \<Rightarrow> bool \<Rightarrow> string list option \<Rightarrow> string \<Rightarrow> string option \<Rightarrow>
    ((string, pyobj) dict \<Rightarrow> invoked) \<Rightarrow> tool_def" where
  "decorate name description side roles fn_name fn_doc run =
    \<lparr>td_name = (case name of Some n \<Rightarrow> or_else n fn_name | None \<Rightarrow> fn_name),
     td_description = (let doc = py_strip (case fn_doc of Some d \<Rightarrow> d | None \<Rightarrow> [])
       in case description of Some d \<Rightarrow> or_else d doc | None \<Rightarrow> doc),
     td_side_effect = side, td_roles = roles, td_invoke = run\<rparr>"

section \<open>The registry\<close>

type_synonym registry = "(string, tool_def) dict"

definition default_roles :: "string list" where
  "default_roles = [''medium'', ''high'']"

definition register_tool :: "tool_def \<Rightarrow> registry \<Rightarrow> registry" where
  "register_tool t reg = dput (td_name t) t reg"

text \<open>A function without the decorator's mark is refused.\<close>

definition register_decorated :: "tool_def option \<Rightarrow> registry \<Rightarrow> string + registry" where
  "register_decorated t reg = (case t of None \<Rightarrow> Inl ''Function has no _tool_def. Use @tool decorator.''
     | Some d \<Rightarrow> Inr (register_tool d reg))"

definition may_side_effect :: "bool \<Rightarrow> tool_def \<Rightarrow> bool" where
  "may_side_effect allow t \<longleftrightarrow> allow \<or> \<not> td_side_effect t"

definition list_tools :: "bool \<Rightarrow> registry \<Rightarrow> tool_def list" where
  "list_tools allow reg = filter (may_side_effect allow) (dvalues reg)"

definition roles_of :: "tool_def \<Rightarrow> string list" where
  "roles_of t = (case td_roles t of None \<Rightarrow> default_roles | Some rs \<Rightarrow> if rs = [] then default_roles else rs)"

definition list_tools_for_role :: "string \<Rightarrow> bool \<Rightarrow> registry \<Rightarrow> tool_def list" where
  "list_tools_for_role role allow reg = filter (\<lambda>t. role \<in> set (roles_of t) \<and> may_side_effect allow t) (dvalues reg)"

definition list_tools_by_name :: "string list \<Rightarrow> bool \<Rightarrow> registry \<Rightarrow> tool_def list" where
  "list_tools_by_name names allow reg = filter (\<lambda>t. td_name t \<in> set names \<and> may_side_effect allow t) (dvalues reg)"

definition registry_execute :: "string \<Rightarrow> (string, pyobj) dict \<Rightarrow> registry \<Rightarrow> string option" where
  "registry_execute name args reg = (case dget reg name of
     None \<Rightarrow> Some (''Error: tool '' @ [CHR 0x27] @ name @ [CHR 0x27] @ '' not found'')
   | Some t \<Rightarrow> execute_tool t args)"

definition is_side_effect :: "string \<Rightarrow> registry \<Rightarrow> bool" where
  "is_side_effect name reg = (case dget reg name of None \<Rightarrow> False | Some t \<Rightarrow> td_side_effect t)"

text \<open>
  Loading the tool modules: what a module registers until it is done or raises stays registered. \<open>None\<close>
  is a module that cannot be imported.
\<close>

definition discover_modules :: "tool_def list option list \<Rightarrow> registry \<Rightarrow> registry" where
  "discover_modules ms reg = fold (\<lambda>m r. case m of None \<Rightarrow> r | Some ts \<Rightarrow> fold register_tool ts r) ms reg"

section \<open>The engine\<close>

definition engine_of :: "registry \<Rightarrow> tool_engine" where
  "engine_of reg =
    \<lparr>te_named = (\<lambda>names allow. map td_name (list_tools_by_name names allow reg)),
     te_all = (\<lambda>allow. map td_name (list_tools allow reg)),
     te_run = (\<lambda>(name, args). registry_execute name args reg),
     te_side_effect = (\<lambda>name. is_side_effect name reg)\<rparr>"

definition all_side_effect :: "bool list \<Rightarrow> bool" where
  "all_side_effect sides \<longleftrightarrow> sides \<noteq> [] \<and> list_all id sides"

definition registry_inv :: "registry \<Rightarrow> bool" where
  "registry_inv reg \<longleftrightarrow> distinct (dkeys reg) \<and> (\<forall>(n, t) \<in> set reg. td_name t = n)"

lemma register_inv: "registry_inv reg \<Longrightarrow> registry_inv (register_tool t reg)"
  by (auto simp: registry_inv_def register_tool_def set_dput)

lemma fold_register_inv: "registry_inv reg \<Longrightarrow> registry_inv (fold register_tool ts reg)"
  by (induction ts arbitrary: reg) (auto intro: register_inv)

lemma discover_inv: "registry_inv (discover_modules ms [])"
proof -
  have "registry_inv reg \<Longrightarrow> registry_inv (fold (\<lambda>m r. case m of None \<Rightarrow> r | Some ts \<Rightarrow> fold register_tool ts r) ms reg)" for reg
    by (induction ms arbitrary: reg) (auto intro: fold_register_inv split: option.split)
  moreover have "registry_inv []"
    by (simp add: registry_inv_def)
  ultimately show ?thesis
    by (simp add: discover_modules_def)
qed

lemma registry_get: "registry_inv reg \<Longrightarrow> t \<in> set (dvalues reg) \<Longrightarrow> dget reg (td_name t) = Some t"
  by (auto simp: registry_inv_def)

lemma empty_roles_are_default: "td_roles t = Some [] \<Longrightarrow> roles_of t = default_roles"
  by (simp add: roles_of_def)


text \<open>
  The permission is not checked when a tool is run: for a plan that forbids side effects a tool with
  a side effect is not offered, but when the model calls it all the same it is executed.
\<close>

theorem forbidden_tool_runs:
  assumes "dget reg n = Some t" and "td_side_effect t" and "\<not> side_effects_allowed p" and "registry_inv reg"
    and "ge_tools e = Some (engine_of reg)" and "td_invoke t args \<noteq> ToolRaises"
  shows "n \<notin> set (get_tools e nt level p) \<and>
    te_run (engine_of reg) (n, args) = execute_tool t args \<and>
    run_tool_calls (engine_of reg) (ms @ [AIMsg text' [(n, args)]]) = (ms @ [AIMsg text' [(n, args)]], [True], True)"
proof -
  have "td_name t' \<noteq> n" if "t' \<in> set (dvalues reg)" "\<not> td_side_effect t'" for t'
    using registry_get [OF assms(4) that(1)] that(2) assms(1, 2) by auto
  then have "n \<notin> set (get_tools e nt level p)"
    by (auto simp: get_tools_def assms(5) engine_of_def list_tools_def list_tools_by_name_def may_side_effect_def assms(3) split: option.splits)
  moreover have "te_run (engine_of reg) (n, args) = execute_tool t args" "te_side_effect (engine_of reg) n"
    using assms(1, 2) by (simp_all add: engine_of_def registry_execute_def is_side_effect_def)
  moreover have "execute_tool t args \<noteq> None"
    using assms(6) by (auto simp: execute_tool_def split: invoked.split)
  ultimately show ?thesis
    by (auto simp: run_tool_calls_def)
qed

section \<open>Running the calls of the model\<close>

text \<open>
  The calls of one answer are run in the order in which the model made them, each once: a tool without
  side effect and an unknown tool answer with one message, in order; a tool that raises stops the round,
  and the messages of the tools before it stay in the conversation.
\<close>

theorem calls_run_in_order:
  assumes "run_tool_calls te (ms @ [AIMsg text' tcs]) = (ms', sides, ok)"
  shows "\<exists>done rest. tcs = done @ rest \<and> (ok \<longleftrightarrow> rest = []) \<and> (\<forall>tc \<in> set done. te_run te tc \<noteq> None) \<and>
    (\<not> ok \<longrightarrow> te_run te (hd rest) = None) \<and> sides = map (\<lambda>tc. te_side_effect te (fst tc)) done \<and>
    ms' = ms @ [AIMsg text' tcs] @ map (\<lambda>tc. ToolMsg (fst tc) (the (te_run te tc))) (filter (\<lambda>tc. \<not> te_side_effect te (fst tc)) done)"
proof -
  have "\<exists>done rest. tcs = done @ rest \<and> (ok \<longleftrightarrow> rest = []) \<and> (\<forall>tc \<in> set done. te_run te tc \<noteq> None) \<and>
    (\<not> ok \<longrightarrow> te_run te (hd rest) = None) \<and> sides = map (\<lambda>tc. te_side_effect te (fst tc)) done \<and>
    new = map (\<lambda>tc. ToolMsg (fst tc) (the (te_run te tc))) (filter (\<lambda>tc. \<not> te_side_effect te (fst tc)) done)"
    if "run_calls te tcs = (new, sides, ok)" for new
    using that
  proof (induction tcs arbitrary: new sides ok)
    case (Cons tc tcs)
    show ?case
    proof (cases "te_run te tc")
      case None
      with Cons.prems show ?thesis
        by (intro exI [of _ "[]"] exI [of _ "tc # tcs"]) simp
    next
      case (Some r)
      obtain new' sides' ok' where rc: "run_calls te tcs = (new', sides', ok')"
        by (rule prod_cases3)
      from Cons.IH [OF rc] obtain done' rest where ih: "tcs = done' @ rest" "ok' \<longleftrightarrow> rest = []" "\<forall>tc \<in> set done'. te_run te tc \<noteq> None"
          "\<not> ok' \<longrightarrow> te_run te (hd rest) = None" "sides' = map (\<lambda>tc. te_side_effect te (fst tc)) done'"
          "new' = map (\<lambda>tc. ToolMsg (fst tc) (the (te_run te tc))) (filter (\<lambda>tc. \<not> te_side_effect te (fst tc)) done')"
        by blast
      show ?thesis
        by (intro exI [of _ "tc # done'"] exI [of _ rest]) (use Cons.prems Some rc ih in auto)
    qed
  qed simp
  moreover obtain new where "run_calls te tcs = (new, sides, ok)" "ms' = ms @ [AIMsg text' tcs] @ new"
    using assms by (auto simp: run_tool_calls_def split: prod.splits)
  ultimately show ?thesis by blast
qed

section \<open>Witnesses\<close>

definition send_mail :: tool_def where
  "send_mail = decorate (Some ''send_mail'') None True None ''send'' (Some '' Sends. '') (\<lambda>_. Result ''sent'')"

definition web_search :: tool_def where
  "web_search = decorate None None False (Some []) ''web_search'' None (\<lambda>_. Result ''found'')"

definition mail_graph :: graph_env where
  "mail_graph = demo_graph\<lparr>ge_tools := Some (engine_of (discover_modules [None, Some [send_mail, web_search]] []))\<rparr>"

definition quiet_plan :: plan where
  "quiet_plan = (demo_plan ''lobby'')\<lparr>pl_overrides := [(''allow_side_effects'', PBool False)]\<rparr>"

lemma demo_registry: "discover_modules [None, Some [send_mail, web_search]] [] = [(''send_mail'', send_mail), (''web_search'', web_search)]"
  by (simp add: discover_modules_def register_tool_def send_mail_def web_search_def decorate_def or_else_def)


definition half_engine :: tool_engine where
  "half_engine = \<lparr>te_named = (\<lambda>_ _. []), te_all = (\<lambda>_. []), te_run = (\<lambda>tc. if fst tc = ''a'' then Some ''ok'' else None), te_side_effect = (\<lambda>_. False)\<rparr>"

end
