(* ===== verification/Model_Config.thy ===== *)
theory Model_Config
  imports Iris_Interfaces
begin

text \<open>
  The configuration of the language models (\<open>iris/kernel/config/models.py\<close>: \<open>ProviderConnection\<close>,
  \<open>ModelEntry\<close>, \<open>ModelConfig\<close>), the references to environment variables in it (\<open>config/loader.py\<close>),
  the capabilities of a role's model (\<open>iris/llm/capability.py\<close>) and the policy that decides what a call
  may ask for (\<open>iris/agency/execution/llm/invocation_policy.py\<close>).

  A role is served by the last model that lists it; a role no model lists by the first model.
\<close>

section \<open>Entries\<close>

record provider_conn =
  pv_base_url :: string
  pv_api_key :: string

record model_entry =
  en_name :: string
  en_roles :: "string list"
  en_provider :: string
  en_max_tokens :: int
  en_temperature :: "real option"
  en_num_ctx :: "int option"
  en_num_gpu :: "int option"
  en_main_gpu :: "int option"
  en_context_window :: "int option"
  en_capabilities :: "string list option"
  en_tier :: string
  en_keep_alive :: "string option"
  en_presence_penalty :: "real option"
  en_frequency_penalty :: "real option"
  en_repeat_penalty :: "real option"
  en_reasoning :: bool

record model_config =
  mf_providers :: "(string, provider_conn) dict"
  mf_models :: "model_entry list"
  mf_temperature :: real
  mf_num_ctx :: int
  mf_num_gpu :: int
  mf_context_window :: int

text \<open>The validators of a loaded entry.\<close>

definition coerce_roles :: "pyobj \<Rightarrow> pyobj list" where
  "coerce_roles v = (case v of PStr s \<Rightarrow> [PStr s] | PList vs \<Rightarrow> vs | _ \<Rightarrow> [PStr ''default''])"

definition valid_tiers :: "string list" where
  "valid_tiers = [''fast'', ''balanced'', ''capable'']"

definition validate_tier :: "string \<Rightarrow> string + string" where
  "validate_tier v = (if v \<in> set valid_tiers then Inr v else Inl (''performance_tier must be one of the valid tiers, got '' @ v))"

section \<open>Roles\<close>

definition role_map :: "model_config \<Rightarrow> (string, model_entry) dict" where
  "role_map mc = fold (\<lambda>m d. fold (\<lambda>r. dput r m) (en_roles m) d) (mf_models mc) []"

definition default_entry :: "model_config \<Rightarrow> model_entry option" where
  "default_entry mc = (case mf_models mc of [] \<Rightarrow> None | m # _ \<Rightarrow> Some m)"

definition find_model :: "model_config \<Rightarrow> string \<Rightarrow> model_entry option" where
  "find_model mc role = (case dget (role_map mc) role of Some m \<Rightarrow> Some m | None \<Rightarrow> default_entry mc)"

definition get_model :: "model_config \<Rightarrow> string \<Rightarrow> string" where
  "get_model mc role = (case find_model mc role of Some m \<Rightarrow> en_name m | None \<Rightarrow> '''')"

text \<open>A setting of the role's model, or the default of the configuration.\<close>

definition effective :: "(model_entry \<Rightarrow> 'a option) \<Rightarrow> 'a \<Rightarrow> model_config \<Rightarrow> string \<Rightarrow> 'a" where
  "effective f d mc role = (case find_model mc role of None \<Rightarrow> d
     | Some m \<Rightarrow> (case f m of None \<Rightarrow> d | Some v \<Rightarrow> v))"

definition get_effective_temperature :: "model_config \<Rightarrow> string \<Rightarrow> real" where
  "get_effective_temperature mc = effective en_temperature (mf_temperature mc) mc"

definition get_effective_num_ctx :: "model_config \<Rightarrow> string \<Rightarrow> int" where
  "get_effective_num_ctx mc = effective en_num_ctx (mf_num_ctx mc) mc"

definition get_effective_num_gpu :: "model_config \<Rightarrow> string \<Rightarrow> int" where
  "get_effective_num_gpu mc = effective en_num_gpu (mf_num_gpu mc) mc"

definition get_effective_context_window :: "model_config \<Rightarrow> string \<Rightarrow> int" where
  "get_effective_context_window mc = effective en_context_window (mf_context_window mc) mc"

definition get_model_capabilities :: "model_config \<Rightarrow> string \<Rightarrow> string list" where
  "get_model_capabilities mc = effective en_capabilities [] mc"

definition get_model_performance_tier :: "model_config \<Rightarrow> string \<Rightarrow> string" where
  "get_model_performance_tier mc = effective (\<lambda>m. Some (en_tier m)) ''balanced'' mc"

definition get_effective_max_tokens :: "model_config \<Rightarrow> string \<Rightarrow> int" where
  "get_effective_max_tokens mc = effective (\<lambda>m. Some (en_max_tokens m)) 4096 mc"

lemma fold_dput_same: "dget (fold (\<lambda>r. dput r m) rs d) k = (if k \<in> set rs then Some m else dget d k)"
  by (induction rs arbitrary: d) auto

lemma fold_role_map:
  "dget (fold (\<lambda>m d. fold (\<lambda>r. dput r m) (en_roles m) d) ms d) k =
    (case find (\<lambda>m. k \<in> set (en_roles m)) (rev ms) of Some m \<Rightarrow> Some m | None \<Rightarrow> dget d k)"
  by (induction ms arbitrary: d) (auto simp: fold_dput_same find_append split: option.splits)

lemma dget_role_map: "dget (role_map mc) k = find (\<lambda>m. k \<in> set (en_roles m)) (rev (mf_models mc))"
  by (simp add: role_map_def fold_role_map split: option.split)

lemma find_model_in: "find_model mc role = Some m \<Longrightarrow> m \<in> set (mf_models mc)"
  by (auto simp: find_model_def dget_role_map default_entry_def dest!: find_SomeD split: option.splits list.splits)

text \<open>
  A role is always served by a configured model: by the last model that names the role, and by the
  first of all models when none does; only a configuration without models answers the empty name.
\<close>

theorem role_served:
  "(\<exists>pre m post. mf_models mc = pre @ m # post \<and> role \<in> set (en_roles m) \<and>
      (\<forall>p \<in> set post. role \<notin> set (en_roles p)) \<and> find_model mc role = Some m \<and> get_model mc role = en_name m) \<or>
   ((\<forall>m \<in> set (mf_models mc). role \<notin> set (en_roles m)) \<and> find_model mc role = default_entry mc \<and>
      get_model mc role = (case mf_models mc of [] \<Rightarrow> '''' | m # _ \<Rightarrow> en_name m))"
proof (cases "find (\<lambda>m. role \<in> set (en_roles m)) (rev (mf_models mc))")
  case None
  then have "\<forall>m \<in> set (mf_models mc). role \<notin> set (en_roles m)"
    by (simp add: find_None_iff')
  with None show ?thesis
    by (simp add: get_model_def find_model_def dget_role_map default_entry_def split: list.split)
next
  case (Some m)
  then obtain i where i: "i < length (mf_models mc)" "role \<in> set (en_roles m)" "m = rev (mf_models mc) ! i"
      "\<forall>j < i. role \<notin> set (en_roles (rev (mf_models mc) ! j))"
    by (auto simp: find_Some_iff)
  let ?ms = "rev (mf_models mc)"
  have "?ms = take i ?ms @ m # drop (Suc i) ?ms"
    using i(1, 3) by (simp add: id_take_nth_drop)
  then have "mf_models mc = rev (drop (Suc i) ?ms) @ m # rev (take i ?ms)"
    by (metis append.assoc append_Cons append_Nil rev.simps(2) rev_append rev_rev_ident)
  moreover have "\<forall>p \<in> set (rev (take i ?ms)). role \<notin> set (en_roles p)"
  proof
    fix p
    assume "p \<in> set (rev (take i ?ms))"
    then obtain j where "j < i" "p = ?ms ! j"
      by (auto simp: in_set_conv_nth [of p "take i ?ms"])
    with i(4) show "role \<notin> set (en_roles p)" by blast
  qed
  moreover have "find_model mc role = Some m" "get_model mc role = en_name m"
    using Some by (simp_all add: get_model_def find_model_def dget_role_map)
  ultimately show ?thesis
    using i(2) by blast
qed

definition demo_entry :: model_entry where
  "demo_entry = \<lparr>en_name = ''qwen'', en_roles = [''default'', ''memory''], en_provider = ''ollama'', en_max_tokens = 1024,
     en_temperature = None, en_num_ctx = None, en_num_gpu = None, en_main_gpu = None, en_context_window = None, en_capabilities = None,
     en_tier = ''balanced'', en_keep_alive = None, en_presence_penalty = None, en_frequency_penalty = None,
     en_repeat_penalty = None, en_reasoning = False\<rparr>"

definition demo_model_config :: model_config where
  "demo_model_config = \<lparr>mf_providers = [], mf_models = [demo_entry, demo_entry\<lparr>en_name := ''gemma'', en_roles := [''memory'']\<rparr>],
     mf_temperature = 0.7, mf_num_ctx = 8192, mf_num_gpu = 99, mf_context_window = 8192\<rparr>"

section \<open>References to environment variables\<close>

type_synonym environment = "string \<Rightarrow> string option"

text \<open>A match of \<open>\$\{([^}]+)\}\<close> at the head of a text: the name, and what follows.\<close>

definition reference_at :: "string \<Rightarrow> (string \<times> string) option" where
  "reference_at s =
    (let name = takeWhile (\<lambda>x. x \<noteq> CHR ''}'') (drop 2 s); rest = dropWhile (\<lambda>x. x \<noteq> CHR ''}'') (drop 2 s)
     in if take 2 s = ''${'' \<and> name \<noteq> [] \<and> rest \<noteq> [] then Some (name, tl rest) else None)"

lemma reference_shorter: "reference_at s = Some (n, r) \<Longrightarrow> length r < length s"
proof -
  assume r: "reference_at s = Some (n, r)"
  then have "r = tl (dropWhile (\<lambda>x. x \<noteq> CHR ''}'') (drop 2 s))" "s \<noteq> []"
    by (auto simp: reference_at_def Let_def split: if_splits)
  moreover have "length (dropWhile (\<lambda>x. x \<noteq> CHR ''}'') (drop 2 s)) \<le> length (drop 2 s)"
    by (rule length_dropWhile_le)
  ultimately show ?thesis
    by (cases s) auto
qed

text \<open>The text split at its references: plain characters and names.\<close>

function env_parts :: "string \<Rightarrow> (char + string) list" where
  "env_parts [] = []"
| "env_parts (c # s) = (case reference_at (c # s) of
     Some (name, rest) \<Rightarrow> Inr name # env_parts rest
   | None \<Rightarrow> Inl c # env_parts s)"
  by pat_completeness auto
termination
  by (relation "measure length") (auto dest: reference_shorter)

fun subst_parts :: "environment \<Rightarrow> (char + string) list \<Rightarrow> string + string" where
  "subst_parts env [] = Inr []"
| "subst_parts env (Inl c # ps) = (case subst_parts env ps of Inl e \<Rightarrow> Inl e | Inr t \<Rightarrow> Inr (c # t))"
| "subst_parts env (Inr n # ps) = (case env n of
     None \<Rightarrow> Inl n
   | Some v \<Rightarrow> (case subst_parts env ps of Inl e \<Rightarrow> Inl e | Inr t \<Rightarrow> Inr (v @ t)))"

text \<open>The error is the name of the variable that is not set.\<close>

function resolve_env_refs :: "environment \<Rightarrow> pyobj \<Rightarrow> string + pyobj"
  and resolve_items :: "environment \<Rightarrow> pyobj list \<Rightarrow> string + pyobj list"
  and resolve_entries :: "environment \<Rightarrow> (string \<times> pyobj) list \<Rightarrow> string + (string \<times> pyobj) list" where
  "resolve_env_refs env (PStr s) = (case subst_parts env (env_parts s) of Inl e \<Rightarrow> Inl e | Inr t \<Rightarrow> Inr (PStr t))"
| "resolve_env_refs env (PDict d) = (case resolve_entries env d of Inl e \<Rightarrow> Inl e | Inr d' \<Rightarrow> Inr (PDict d'))"
| "resolve_env_refs env (PList vs) = (case resolve_items env vs of Inl e \<Rightarrow> Inl e | Inr vs' \<Rightarrow> Inr (PList vs'))"
| "resolve_env_refs env PNone = Inr PNone"
| "resolve_env_refs env (PBool b) = Inr (PBool b)"
| "resolve_env_refs env (PInt i) = Inr (PInt i)"
| "resolve_env_refs env (PFloat x) = Inr (PFloat x)"
| "resolve_items env [] = Inr []"
| "resolve_items env (v # vs) = (case resolve_env_refs env v of Inl e \<Rightarrow> Inl e
     | Inr v' \<Rightarrow> (case resolve_items env vs of Inl e \<Rightarrow> Inl e | Inr vs' \<Rightarrow> Inr (v' # vs')))"
| "resolve_entries env [] = Inr []"
| "resolve_entries env ((k, v) # d) = (case resolve_env_refs env v of Inl e \<Rightarrow> Inl e
     | Inr v' \<Rightarrow> (case resolve_entries env d of Inl e \<Rightarrow> Inl e | Inr d' \<Rightarrow> Inr ((k, v') # d')))"
  by pat_completeness auto
termination
  by (relation "measure (\<lambda>x. case x of Inl (e, v) \<Rightarrow> size v | Inr (Inl (e, vs)) \<Rightarrow> size_list size vs
      | Inr (Inr (e, d)) \<Rightarrow> size_list (size_prod (\<lambda>_. 0) size) d)") auto

fun refs :: "pyobj \<Rightarrow> string set" where
  "refs (PStr s) = {n. Inr n \<in> set (env_parts s)}"
| "refs (PDict d) = (\<Union>p \<in> set d. refs (snd p))"
| "refs (PList vs) = (\<Union>v \<in> set vs. refs v)"
| "refs _ = {}"

lemma subst_parts_ok: "(\<exists>t. subst_parts env ps = Inr t) \<longleftrightarrow> (\<forall>n. Inr n \<in> set ps \<longrightarrow> env n \<noteq> None)"
  by (induction env ps rule: subst_parts.induct) (auto split: sum.splits option.splits)

lemma resolves_iff:
  "(\<exists>w. resolve_env_refs env v = Inr w) \<longleftrightarrow> (\<forall>n \<in> refs v. env n \<noteq> None)"
  "(\<exists>ws. resolve_items env vs = Inr ws) \<longleftrightarrow> (\<forall>n \<in> (\<Union>v \<in> set vs. refs v). env n \<noteq> None)"
  "(\<exists>e. resolve_entries env d = Inr e) \<longleftrightarrow> (\<forall>n \<in> (\<Union>p \<in> set d. refs (snd p)). env n \<noteq> None)"
proof (induction env v and env vs and env d rule: resolve_env_refs_resolve_items_resolve_entries.induct)
  case (1 env s)
  then show ?case
    using subst_parts_ok [of env "env_parts s"] by (auto split: sum.splits)
qed (auto simp: bex_Un split: sum.splits)

lemma subst_parts_error: "subst_parts env ps = Inl n \<Longrightarrow> Inr n \<in> set ps \<and> env n = None"
  by (induction env ps rule: subst_parts.induct) (auto split: sum.splits option.splits)

lemma resolve_error:
  "resolve_env_refs env v = Inl n \<Longrightarrow> n \<in> refs v \<and> env n = None"
  "resolve_items env vs = Inl n \<Longrightarrow> n \<in> (\<Union>v \<in> set vs. refs v) \<and> env n = None"
  "resolve_entries env d = Inl n \<Longrightarrow> n \<in> (\<Union>p \<in> set d. refs (snd p)) \<and> env n = None"
  by (induction env v and env vs and env d rule: resolve_env_refs_resolve_items_resolve_entries.induct)
    (auto dest: subst_parts_error split: sum.splits)

text \<open>
  A configuration is loaded if and only if every environment variable it refers to is set; otherwise
  loading stops with the name of a variable that is referred to and not set.
\<close>

theorem config_loads_iff_variables_set:
  "case resolve_env_refs env v of
     Inr w \<Rightarrow> (\<forall>n \<in> refs v. env n \<noteq> None)
   | Inl n \<Rightarrow> n \<in> refs v \<and> env n = None"
  using resolves_iff(1) [of env v] resolve_error(1) [of env v]
  by (cases "resolve_env_refs env v") auto

section \<open>Capabilities\<close>

text \<open>Explicit capabilities decide, else the performance tier.\<close>

definition supports_tools :: "model_config \<Rightarrow> string \<Rightarrow> bool" where
  "supports_tools mc role =
    (let caps = get_model_capabilities mc role
     in if caps \<noteq> [] then ''tools'' \<in> set caps
        else get_model_performance_tier mc role \<in> {''balanced'', ''capable''})"

definition supports_thinking :: "model_config \<Rightarrow> string \<Rightarrow> bool" where
  "supports_thinking mc role =
    (let caps = get_model_capabilities mc role
     in if caps \<noteq> [] then ''thinking'' \<in> set caps
        else get_model_performance_tier mc role = ''capable'')"

text \<open>An explicit empty list of capabilities is the same as none: the tier decides.\<close>

lemma no_capability_is_unset:
  assumes "find_model mc role = Some m" and "en_capabilities m = Some []"
  shows "supports_tools mc role \<longleftrightarrow> en_tier m \<in> {''balanced'', ''capable''}"
  using assms
  by (simp add: supports_tools_def get_model_capabilities_def get_model_performance_tier_def effective_def)

section \<open>What a call may ask for\<close>

text \<open>The checker is present or not; without it everything is allowed.\<close>

definition resolve_tools :: "model_config option \<Rightarrow> 't list \<Rightarrow> string \<Rightarrow> 't list option" where
  "resolve_tools checker requested role =
    (if requested = [] then None
     else case checker of Some mc \<Rightarrow> if supports_tools mc role then Some requested else None
       | None \<Rightarrow> Some requested)"

definition resolve_thinking :: "model_config option \<Rightarrow> bool \<Rightarrow> string \<Rightarrow> bool" where
  "resolve_thinking checker requested role =
    (if \<not> requested then False
     else \<not> (case checker of Some mc \<Rightarrow> \<not> supports_thinking mc role | None \<Rightarrow> False))"

definition resolve_temperature :: "real option \<Rightarrow> real option \<Rightarrow> real option \<Rightarrow> real \<Rightarrow> real" where
  "resolve_temperature explicit level modulation config =
    (case explicit of Some t \<Rightarrow> t | None \<Rightarrow>
      (case level of Some t \<Rightarrow> t | None \<Rightarrow>
        (case modulation of Some t \<Rightarrow> t | None \<Rightarrow> config)))"

section \<open>Providers\<close>

datatype provider_kind = OllamaProvider | OpenRouterProvider | GoogleProvider

text \<open>The registry after \<open>discover_providers\<close> has imported the shipped modules.\<close>

definition provider_registry :: "(string, provider_kind) dict" where
  "provider_registry = [(''ollama'', OllamaProvider), (''openrouter'', OpenRouterProvider), (''google'', GoogleProvider)]"

definition get_provider_class :: "(string, provider_kind) dict \<Rightarrow> string \<Rightarrow> string + provider_kind" where
  "get_provider_class reg t = (case dget reg t of None \<Rightarrow> Inl (''Unknown provider type: '' @ t) | Some p \<Rightarrow> Inr p)"

definition provider_defaults :: "(string, string) dict" where
  "provider_defaults =
    [(''ollama'', ''http://localhost:11434''), (''openrouter'', ''https://openrouter.ai/api/v1''),
     (''google'', ''https://generativelanguage.googleapis.com/v1beta/openai'')]"

definition resolve_connection :: "model_entry \<Rightarrow> model_config \<Rightarrow> string \<times> string" where
  "resolve_connection e mc =
    (let conn = dget (mf_providers mc) (en_provider e);
         url = (case conn of Some c \<Rightarrow> pv_base_url c | None \<Rightarrow> '''');
         key = (case conn of Some c \<Rightarrow> pv_api_key c | None \<Rightarrow> '''')
     in (case dget provider_defaults (en_provider e) of None \<Rightarrow> url | Some d \<Rightarrow> or_else url d, key))"

text \<open>
  The environment of a provider: Ollama only sets variables, the others need a key for every entry.
\<close>

definition validate_environment :: "provider_kind \<Rightarrow> model_entry list \<Rightarrow> model_config \<Rightarrow> bool" where
  "validate_environment p es mc = (case p of
     OllamaProvider \<Rightarrow> True
   | _ \<Rightarrow> list_all (\<lambda>e. case dget (mf_providers mc) (en_provider e) of None \<Rightarrow> False | Some c \<Rightarrow> pv_api_key c \<noteq> []) es)"

text \<open>The object of the provider's library that talks to the model, with what it is created from.\<close>

datatype chat_model =
    ChatOllama string string string bool "(string, pyobj) dict"
  | ChatOpenAI string string string "(string, string) dict" "(string, pyobj) dict"

definition opt_entry :: "string \<Rightarrow> real option \<Rightarrow> (string, pyobj) dict" where
  "opt_entry k v = (case v of None \<Rightarrow> [] | Some x \<Rightarrow> [(k, PFloat x)])"

definition build_create_options :: "model_entry \<Rightarrow> model_config \<Rightarrow> (string, pyobj) dict" where
  "build_create_options e mc =
    [(''num_ctx'', PInt (case en_num_ctx e of None \<Rightarrow> mf_num_ctx mc | Some n \<Rightarrow> n)),
     (''num_gpu'', PInt (case en_num_gpu e of None \<Rightarrow> mf_num_gpu mc | Some n \<Rightarrow> n))]
    @ opt_entry ''presence_penalty'' (en_presence_penalty e)
    @ opt_entry ''frequency_penalty'' (en_frequency_penalty e)
    @ opt_entry ''repeat_penalty'' (en_repeat_penalty e)"

definition create_chat_model :: "provider_kind \<Rightarrow> model_entry \<Rightarrow> string \<Rightarrow> string \<Rightarrow> model_config \<Rightarrow> chat_model" where
  "create_chat_model p e url key mc = (case p of
     OllamaProvider \<Rightarrow> ChatOllama (en_name e) url (case en_keep_alive e of None \<Rightarrow> ''10m'' | Some k \<Rightarrow> or_else k ''10m'')
       (en_reasoning e) (build_create_options e mc)
   | _ \<Rightarrow> ChatOpenAI (en_name e) key url
       (if en_provider e = ''openrouter''
        then [(''HTTP-Referer'', ''https://github.com/ibukani/iris-mind''), (''X-Title'', ''Iris Mind'')] else [])
       (opt_entry ''presence_penalty'' (en_presence_penalty e) @ opt_entry ''frequency_penalty'' (en_frequency_penalty e)))"

text \<open>
  The keyword arguments of a call. Those of the provider are taken out of the caller's dictionary
  (\<open>kwargs.pop\<close>), which is returned changed.
\<close>

definition take_keys :: "string list \<Rightarrow> (string, pyobj) dict \<times> (string, pyobj) dict \<Rightarrow> (string, pyobj) dict \<times> (string, pyobj) dict" where
  "take_keys ks p = fold (\<lambda>k (opts, kw). case dget kw k of None \<Rightarrow> (opts, kw) | Some v \<Rightarrow> (dput k v opts, ddel k kw)) ks p"

definition build_call_options :: "real \<Rightarrow> int \<Rightarrow> model_entry option \<Rightarrow> (string, pyobj) dict \<Rightarrow> (string, pyobj) dict \<times> (string, pyobj) dict" where
  "build_call_options t n e kw =
    (let opts = [(''temperature'', PFloat t), (''num_predict'', PInt n)]
           @ (case e of None \<Rightarrow> [] | Some m \<Rightarrow> opt_entry ''repeat_penalty'' (en_repeat_penalty m));
         (opts1, kw1) = take_keys [''presence_penalty'', ''frequency_penalty'', ''repeat_penalty''] (opts, kw)
     in (case dget kw1 ''num_ctx'' of None \<Rightarrow> opts1 | Some PNone \<Rightarrow> opts1 | Some v \<Rightarrow> dput ''num_ctx'' v opts1,
         ddel ''num_ctx'' kw1))"

definition build_call_kwargs ::
  "provider_kind \<Rightarrow> real \<Rightarrow> int \<Rightarrow> model_entry option \<Rightarrow> (string, pyobj) dict \<Rightarrow> bool option \<Rightarrow>
    (string, pyobj) dict \<times> (string, pyobj) dict" where
  "build_call_kwargs p t n e kw reasoning = (case p of
     OllamaProvider \<Rightarrow>
       (let (opts, kw1) = build_call_options t n e kw
        in (case reasoning of None \<Rightarrow> [(''options'', PDict opts)] | Some b \<Rightarrow> [(''options'', PDict opts), (''reasoning'', PBool b)], kw1))
   | _ \<Rightarrow>
       (let (call, kw1) = take_keys [''presence_penalty'', ''frequency_penalty''] ([(''temperature'', PFloat t), (''max_tokens'', PInt n)], kw)
        in (call, ddel ''num_ctx'' kw1)))"

section \<open>Models of the Ollama server\<close>

definition base_name :: "string \<Rightarrow> string" where
  "base_name n = takeWhile (\<lambda>c. c \<noteq> CHR '':'') n"

text \<open>One entry of the server's list: its \<open>model\<close> and \<open>name\<close>, empty when missing.\<close>

definition extract_model_name :: "string \<times> string \<Rightarrow> string" where
  "extract_model_name m = base_name (or_else (fst m) (snd m))"

text \<open>\<open>None\<close>: the server cannot be asked.\<close>

definition get_available_models :: "(string \<times> string) list option \<Rightarrow> string set" where
  "get_available_models listed = (case listed of None \<Rightarrow> {} | Some ms \<Rightarrow> {n \<in> extract_model_name ` set ms. n \<noteq> []})"

text \<open>What the user types, and whether \<open>ollama pull\<close> succeeds; the second result: a pull was started.\<close>

definition confirmed :: "string option \<Rightarrow> bool" where
  "confirmed reply = (case reply of None \<Rightarrow> False | Some r \<Rightarrow> py_strip r \<in> {''y'', ''Y'', ''yes'', ''Yes'', ''YES'', ''yEs'', ''yeS'', ''YEs'', ''YeS'', ''yES''})"

definition ensure_model_pulled :: "(string \<times> string) list option \<Rightarrow> string option \<Rightarrow> bool \<Rightarrow> string \<Rightarrow> bool \<times> bool" where
  "ensure_model_pulled listed reply pull_ok name =
    (if base_name name \<in> get_available_models listed then (True, False)
     else if \<not> confirmed reply then (False, False)
     else (pull_ok, True))"

text \<open>Any tag of a model counts as the model: the configured one is not fetched.\<close>

lemma other_tag_counts:
  "ensure_model_pulled (Some [(''qwen:4b'', '''')]) reply ok ''qwen:9b'' = (True, False)"
  by (simp add: ensure_model_pulled_def get_available_models_def extract_model_name_def base_name_def)

end
