(* ===== verification/Commands.thy ===== *)
theory Commands
  imports Diagnostics Tools Model_Config Long_Term
begin

text \<open>
  The console and client commands (\<open>iris/kernel/commands\<close>): the table of commands, their arguments and
  what they do to the system. A handler is a function from its arguments and the system to the answer
  and the new system; a component that has not been attached is \<open>None\<close>.

  \<open>cv_int\<close> is \<open>int(text)\<close> (\<open>None\<close>: \<open>ValueError\<close>), \<open>cv_str\<close> is \<open>str\<close> of a value, \<open>cv_json\<close> is \<open>orjson.dumps\<close>,
  \<open>cv_rows\<close> are the rows a semantic search for a query in a room finds, \<open>cv_two\<close> formats a score with
  two decimals (digits of an event count are ASCII), \<open>cv_now\<close> is the date in a report, \<open>cv_texts\<close> holds texts beyond the first 256 code points,
  \<open>cv_marks\<close> the three marks of the health list and \<open>cv_arrow\<close> the arrow of a history line.
\<close>

section \<open>The system as the commands see it\<close>

record command_config =
  cg_model :: model_config
  cg_host :: string
  cg_port :: nat
  cg_episodic_max :: nat
  cg_semantic_max :: nat

record command_env =
  cv_int :: "string \<Rightarrow> int option"
  cv_str :: "pyobj \<Rightarrow> string"
  cv_json :: "pyobj \<Rightarrow> string"
  cv_rows :: "string \<Rightarrow> string \<Rightarrow> (string, pyobj) dict list"
  cv_two :: "pyobj \<Rightarrow> string"
  cv_now :: string
  cv_texts :: capture_texts
  cv_marks :: "string \<times> string \<times> string"
  cv_arrow :: string

record command_world =
  cw_config :: "command_config option"
  cw_on_shutdown :: bool
  cw_on_compact :: "string option"
  cw_stopping :: bool
  cw_memory :: "memory option"
  cw_sessions :: "string option"
  cw_llm :: "bool option"
  cw_registry :: "registry option"
  cw_diagnostics :: "diagnostics option"
  cw_capture :: "debug_capture option"

type_synonym command = "string \<Rightarrow> command_world \<Rightarrow> string \<times> command_world"

section \<open>Memory\<close>

definition extract_room_id :: "string \<Rightarrow> string \<times> string" where
  "extract_room_id args = (case find (starts_with ''room:'') (py_words args) of
     None \<Rightarrow> ([], args) | Some t \<Rightarrow> (drop 5 t, remove_first t args))"

fun count_from :: "nat \<Rightarrow> (nat \<Rightarrow> 'a \<Rightarrow> string) \<Rightarrow> 'a list \<Rightarrow> string list" where
  "count_from i f [] = []"
| "count_from i f (x # xs) = f i x # count_from (Suc i) f xs"

definition memory_recent :: "int \<Rightarrow> string \<Rightarrow> memory \<Rightarrow> string list" where
  "memory_recent n room m =
    (let es = get_episodic_recent n room [] (mm_long m)
     in if es = [] then [''No episodic memories'']
        else (''Recent '' @ show_nat (length es) @ '' episodic memories:'')
          # count_from 1 (\<lambda>i e. ''  '' @ show_nat i @ ''. ['' @ take 19 (ep_timestamp e) @ ''] '' @ take 120 (ep_summary e)) es)"

definition text_field :: "(string, pyobj) dict \<Rightarrow> string \<Rightarrow> string" where
  "text_field r k = (case dget r k of Some (PStr s) \<Rightarrow> s | _ \<Rightarrow> [])"

definition memory_search :: "command_env \<Rightarrow> string \<Rightarrow> string \<Rightarrow> string list" where
  "memory_search env q room =
    (let rows = cv_rows env q room
     in if rows = [] then [''No results for: '' @ q]
        else (''Search results for '' @ [CHR 0x27] @ q @ [CHR 0x27] @ '':'')
          # map (\<lambda>r. ''  ['' @ cv_two env (dget_or r ''score'' (PInt 0)) @ ''] '' @ take 120 (text_field r ''content'')) rows)"

definition memory_clear :: "string \<Rightarrow> memory \<Rightarrow> string \<times> memory" where
  "memory_clear stream m =
    (if stream \<notin> {[], ''episodic'', ''semantic''} then (''Usage: /memory clear [episodic|semantic]'', m)
     else (''Cleared '' @ or_else stream ''all'' @ '' memory'', mm_clear (if stream = [] then None else Some stream) m))"

definition memory_stats :: "memory \<Rightarrow> string list" where
  "memory_stats m = ''Memory stats:''
    # (case lt_episodic (mm_long m) of None \<Rightarrow> [] | Some s \<Rightarrow> [''  Episodic: '' @ show_nat (length (es_entries s)) @ '' entries''])
    @ (case lt_semantic (mm_long m) of None \<Rightarrow> [] | Some s \<Rightarrow> [''  Semantic: '' @ show_nat (length (ss_entries s)) @ '' entries''])"

definition recent_count :: "command_env \<Rightarrow> string \<Rightarrow> int" where
  "recent_count env s = (case cv_int env (or_else s ''5'') of Some n \<Rightarrow> max 1 n | None \<Rightarrow> 5)"

definition memory_command :: "command_env \<Rightarrow> command" where
  "memory_command env args w =
    (case cw_memory w of None \<Rightarrow> (''Memory not available'', w)
     | Some m \<Rightarrow>
        (case extract_room_id args of (room, rest) \<Rightarrow>
         (case split_command rest of (sub, arg) \<Rightarrow>
           if sub = ''recent'' then (lines_text (memory_recent (recent_count env arg) room m), w)
           else if sub = ''search'' then
             (if arg = [] then ''Usage: /memory search <query>'' else lines_text (memory_search env arg room), w)
           else if sub = ''clear'' then
             (case memory_clear (py_lower arg) m of (text, m') \<Rightarrow> (text, w\<lparr>cw_memory := Some m'\<rparr>))
           else (lines_text (memory_stats m), w))))"

section \<open>Information\<close>

definition sessions_command :: "command_world \<Rightarrow> string" where
  "sessions_command w = (case cw_sessions w of None \<Rightarrow> ''Session manager not available''
     | Some s \<Rightarrow> if s = [] then ''No active sessions'' else s)"

definition ping_command :: "command_world \<Rightarrow> string" where
  "ping_command w = (case cw_llm w of None \<Rightarrow> ''LLM not available'' | Some ok \<Rightarrow> ''LLM: '' @ (if ok then ''OK'' else ''UNREACHABLE''))"

definition tools_command :: "command_world \<Rightarrow> string" where
  "tools_command w = (case cw_registry w of None \<Rightarrow> ''Tool registry not available''
     | Some reg \<Rightarrow> let ts = list_tools True reg in if ts = [] then ''No tools registered''
         else lines_text ((''Registered tools ('' @ show_nat (length ts) @ ''):'')
           # map (\<lambda>t. ''  - '' @ td_name t @ '': '' @ take 80 (td_description t)) ts))"

definition status_command :: "command_world \<Rightarrow> string" where
  "status_command w = (case cw_config w of None \<Rightarrow> ''Kernel running (no config)''
     | Some c \<Rightarrow> lines_text
        [''Models: ['' @ join_with '', '' (map (\<lambda>e. [CHR 0x27] @ en_name e @ [CHR 0x27]) (mf_models (cg_model c))) @ '']'',
         ''Session: '' @ cg_host c @ '':'' @ show_nat (cg_port c),
         ''Memory: episodic='' @ show_nat (cg_episodic_max c) @ '', semantic='' @ show_nat (cg_semantic_max c)])"

definition gpu_note :: "string \<Rightarrow> int option \<Rightarrow> string" where
  "gpu_note key v = (case v of None \<Rightarrow> [] | Some n \<Rightarrow> '' '' @ key @ ''='' @ show_int n)"

definition model_line :: "model_config \<Rightarrow> model_entry \<Rightarrow> string" where
  "model_line mc e =
    (let given = (case dget (mf_providers mc) (en_provider e) of None \<Rightarrow> [] | Some c \<Rightarrow> pv_base_url c);
         url = (if given \<noteq> [] then given else dget_or provider_defaults (en_provider e) []);
         ctx = (case en_num_ctx e of Some n \<Rightarrow> if n = 0 then mf_num_ctx mc else n | None \<Rightarrow> mf_num_ctx mc)
     in ''  '' @ en_name e @ '' ['' @ en_provider e @ '':'' @ url @ ''] ctx='' @ show_int ctx
        @ gpu_note ''gpu'' (en_num_gpu e) @ gpu_note ''main_gpu'' (en_main_gpu e) @ '' max_tokens='' @ show_int (en_max_tokens e))"

definition llm_command :: "command_world \<Rightarrow> string" where
  "llm_command w = (case cw_config w of None \<Rightarrow> ''Config not available''
     | Some c \<Rightarrow> lines_text ((''Default model: '' @ get_model (cg_model c) ''medium'')
         # map (model_line (cg_model c)) (mf_models (cg_model c))
         @ (case cw_llm w of None \<Rightarrow> [] | Some ok \<Rightarrow> [''Status: '' @ (if ok then ''available'' else ''unreachable'')])))"

section \<open>State and events\<close>

record state_args =
  sa_path :: string
  sa_history :: bool
  sa_json :: bool
  sa_n :: int

definition state_arg :: "command_env \<Rightarrow> string \<Rightarrow> state_args \<Rightarrow> state_args" where
  "state_arg env p a =
    (if p = ''--history'' then a\<lparr>sa_history := True\<rparr>
     else if p = ''--json'' then a\<lparr>sa_json := True\<rparr>
     else if starts_with ''--n='' p then (case cv_int env (drop 4 p) of Some n \<Rightarrow> a\<lparr>sa_n := n\<rparr> | None \<Rightarrow> a)
     else if \<not> starts_with ''--'' p then a\<lparr>sa_path := p\<rparr> else a)"

definition parse_state_args :: "command_env \<Rightarrow> string \<Rightarrow> state_args" where
  "parse_state_args env args =
    fold (state_arg env) (py_words args) \<lparr>sa_path = [], sa_history = False, sa_json = False, sa_n = 10\<rparr>"

text \<open>\<open>str(v)\<close>, which leaves a string as it is.\<close>

definition str_text :: "command_env \<Rightarrow> pyobj \<Rightarrow> string" where
  "str_text env v = (case v of PStr s \<Rightarrow> s | _ \<Rightarrow> cv_str env v)"

definition indent :: "nat \<Rightarrow> string" where
  "indent k = concat (replicate k ''  '')"

fun format_value :: "command_env \<Rightarrow> nat \<Rightarrow> pyobj \<Rightarrow> string" where
  "format_value env k (PDict d) = (if d = [] then ''{}''
     else lines_text (map (\<lambda>(key, v). indent k @ key @ '': '' @ format_value env (Suc k) v) d))"
| "format_value env k (PList xs) = (if xs = [] then ''[]''
     else if list_all (\<lambda>x. case x of PStr s \<Rightarrow> True | _ \<Rightarrow> False) xs
     then join_with '', '' (map (str_text env) xs)
     else CHR 0x0A # lines_text (map (\<lambda>x. indent k @ ''- '' @ format_value env 0 x) xs))"
| "format_value env k v = str_text env v"

definition format_state :: "command_env \<Rightarrow> string \<Rightarrow> pyobj \<Rightarrow> string" where
  "format_state env path v =
    (if path \<noteq> [] then format_value env 0 v
     else case v of PDict d \<Rightarrow> lines_text (map (\<lambda>(k, x). k @ '': '' @ format_value env 1 x) d)
        | _ \<Rightarrow> str_text env v)"

text \<open>A history entry carries the data and the trigger of a snapshot event.\<close>

definition history_line :: "command_env \<Rightarrow> trace_entry \<Rightarrow> string" where
  "history_line env e = ''['' @ te_timestamp e @ ''] ''
    @ (case te_debug e of None \<Rightarrow> '' '' @ cv_arrow env @ '' ''
       | Some (_, v, trigger) \<Rightarrow> trigger @ '' '' @ cv_arrow env @ '' ''
           @ (case v of PDict d \<Rightarrow> join_with '', '' (map (\<lambda>(k, x). k @ ''='' @ str_text env x) d) | _ \<Rightarrow> []))"

definition handle_state :: "command_env \<Rightarrow> diagnostics option \<Rightarrow> string \<Rightarrow> string" where
  "handle_state env dg args =
    (case dg of None \<Rightarrow> ''Diagnostics not available''
     | Some d \<Rightarrow> let a = parse_state_args env args
       in if sa_history a then
            (case query_history d (sa_path a) (sa_n a) of None \<Rightarrow> ''No history available (tracer not enabled)''
             | Some es \<Rightarrow> lines_text (map (history_line env) es))
          else case query d (sa_path a) of
            None \<Rightarrow> if sa_path a = [] then ''No state available'' else ''Path not found: '' @ [CHR 0x27] @ sa_path a @ [CHR 0x27]
          | Some v \<Rightarrow> if v = PNone then (if sa_path a = [] then ''No state available'' else ''Path not found: '' @ [CHR 0x27] @ sa_path a @ [CHR 0x27])
              else if sa_json a then cv_json env v else format_state env (sa_path a) v)"

record event_args =
  ea_n :: int
  ea_type :: "string option"

definition all_digits :: "string \<Rightarrow> bool" where
  "all_digits s \<longleftrightarrow> s \<noteq> [] \<and> list_all (\<lambda>c. 48 \<le> (of_char c :: nat) \<and> (of_char c :: nat) \<le> 57) s"

definition event_arg :: "command_env \<Rightarrow> string \<Rightarrow> event_args \<Rightarrow> event_args" where
  "event_arg env p a =
    (if starts_with ''--type='' p then a\<lparr>ea_type := Some (drop 7 p)\<rparr>
     else if starts_with ''--n='' p then (case cv_int env (drop 4 p) of Some n \<Rightarrow> a\<lparr>ea_n := n\<rparr> | None \<Rightarrow> a)
     else if all_digits p then a\<lparr>ea_n := int (read_nat p)\<rparr> else a)"

definition event_line :: "trace_entry \<Rightarrow> string" where
  "event_line e = ''['' @ te_timestamp e @ ''] '' @ te_type e @ '' <'' @ te_source e @ ''>'' @ category_note e
    @ '' tid='' @ take 8 (te_trace_id e)"

definition handle_events :: "command_env \<Rightarrow> diagnostics option \<Rightarrow> string \<Rightarrow> string" where
  "handle_events env dg args =
    (case dg of None \<Rightarrow> ''Diagnostics not available''
     | Some d \<Rightarrow> let a = fold (event_arg env) (py_words args) \<lparr>ea_n = 10, ea_type = None\<rparr>
       in case dg_tracer d of None \<Rightarrow> ''Event tracing not enabled''
        | Some t \<Rightarrow> if \<not> tr_enabled t then ''Event tracing not enabled''
            else let es = tracer_recent (ea_n a) (ea_type a) t in if es = [] then ''No events'' else lines_text (map event_line es))"

definition health_line :: "command_env \<Rightarrow> string \<times> string \<Rightarrow> string" where
  "health_line env p = (case cv_marks env of (good, absent, bad) \<Rightarrow>
     if starts_with ''OK'' (snd p) then ''  '' @ good @ '' '' @ fst p @ '': '' @ snd p
     else if snd p = ''NOT_LOADED'' then ''  '' @ absent @ '' '' @ fst p @ '': not loaded''
     else ''  '' @ bad @ '' '' @ fst p @ '': '' @ snd p)"

definition handle_health :: "command_env \<Rightarrow> diagnostics option \<Rightarrow> string" where
  "handle_health env dg =
    (case dg of None \<Rightarrow> ''Diagnostics not available''
     | Some d \<Rightarrow> if health d = [] then ''Health check: no data''
         else lines_text (''Health check:'' # map (health_line env) (health d)))"

definition handle_report :: "command_env \<Rightarrow> diagnostics option \<Rightarrow> string" where
  "handle_report env dg = (case dg of None \<Rightarrow> ''Diagnostics not available''
     | Some d \<Rightarrow> lines_text (generate_report (str_text env) (cv_now env) d))"

section \<open>Debugging\<close>

definition sub_texts :: "string list" where
  "sub_texts = [''help'', ''state'', ''events'', ''health'', ''report'']"

text \<open>\<open>handle_capture\<close>: \<open>None\<close> says that the word is none of its commands.\<close>

definition handle_capture :: "command_env \<Rightarrow> string \<Rightarrow> string \<Rightarrow> debug_capture option \<Rightarrow> string option \<times> debug_capture option" where
  "handle_capture env sub rest dc =
    (if sub = ''on'' then (case dc of None \<Rightarrow> (Some ''DebugCapture not available'', None)
       | Some c \<Rightarrow> (Some ''Debug capture enabled'', Some (set_capture_enabled True c)))
     else if sub = ''off'' then (case dc of None \<Rightarrow> (Some ''DebugCapture not available'', None)
       | Some c \<Rightarrow> (Some ''Debug capture disabled'', Some (set_capture_enabled False c)))
     else if sub \<in> set sub_texts \<or> sub = [] then (None, dc)
     else case dc of
       None \<Rightarrow> (Some ''DebugCapture not available. Available: state, events, health, report'', None)
     | Some c \<Rightarrow>
        if \<not> dc_enabled c then
          (Some ''Debug capture is disabled (use /debug on first). Available: state, events, health, report'', dc)
        else if sub = ''list'' then (Some (lines_text (list_captures c)), dc)
        else if sub = ''last'' then
          (Some (let es = capture_last 1 c in if es = [] then ''No captures''
             else join_with [CHR 0x0A, CHR 0x0A] (map (\<lambda>e. lines_text (format_entry (cv_texts env) e)) es)), dc)
        else if sub \<in> {''show'', ''get''} then
          (Some (case cv_int env rest of None \<Rightarrow> ''Usage: /debug show <id>''
             | Some i \<Rightarrow> if i < 0 then ''Capture #'' @ show_int i @ '' not found'' else capture_show (cv_texts env) (nat i) c), dc)
        else if sub = ''dump'' then
          (case dump_all (cv_texts env) c of (paths, c') \<Rightarrow>
            (Some (if paths = [] then ''No captures to dump''
               else lines_text ((''Wrote '' @ show_nat (length paths) @ '' file(s):'') # paths)), Some c'))
        else (None, dc))"

definition debug_help :: string where
  "debug_help = lines_text
    [''Debug subcommands:'',
     ''  state [<path>] [--history] [--json]   System state query'',
     ''  events [n] [--type=TYPE]              Recent events'',
     ''  health                                 Health check'',
     ''  report                                 Generate Markdown report'',
     ''  capture on|off|list|last|show|dump     LLM prompt/response capture'']"

definition debug_command :: "command_env \<Rightarrow> command" where
  "debug_command env args w =
    (case split_command args of (sub, rest) \<Rightarrow>
      if sub = ''state'' then (handle_state env (cw_diagnostics w) rest, w)
      else if sub = ''events'' then (handle_events env (cw_diagnostics w) rest, w)
      else if sub = ''health'' then (handle_health env (cw_diagnostics w), w)
      else if sub = ''report'' then (handle_report env (cw_diagnostics w), w)
      else (case handle_capture env sub rest (cw_capture w) of
          (Some text, dc) \<Rightarrow> (text, w\<lparr>cw_capture := dc\<rparr>)
        | (None, dc) \<Rightarrow> (debug_help, w\<lparr>cw_capture := dc\<rparr>)))"

section \<open>The table of commands\<close>

definition shutdown_command :: command where
  "shutdown_command args w = (''Shutting down...'', if cw_on_shutdown w then w\<lparr>cw_stopping := True\<rparr> else w)"

definition compact_command :: command where
  "compact_command args w = (case cw_on_compact w of Some s \<Rightarrow> (s, w) | None \<Rightarrow> (''Compact handler not available'', w))"

definition help_text :: string where
  "help_text = lines_text
    [''Available commands:'',
     ''  /help               Show this help'',
     ''  /status             Show kernel status'',
     ''  /shutdown           Graceful shutdown'',
     ''  /compact            Compact context'',
     ''  /memory recent [n]  Show recent episodic memories'',
     ''  /memory search <q>  Search semantic memory'',
     ''  /memory clear [type] Clear episodic/semantic memory'',
     ''  /sessions           Show active sessions'',
     ''  /ping               Check LLM health'',
     ''  /tools               List registered tools'',
     ''  /llm                Show LLM config'',
     ''  /state [<path>]     System state (alias: /debug state)'',
     ''  /events [n]         Recent events (alias: /debug events)'',
     ''  /health             Health check (alias: /debug health)'',
     ''  /report             Debug report (alias: /debug report)'',
     ''  /debug              Debug subsystem (/debug help for subcommands)'',
     ''  /debug on|off       Toggle LLM prompt/response capture'',
     ''  /debug list|last    List or show latest LLM capture'',
     ''  /debug show <id>    Show specific LLM capture'',
     ''  /debug dump         Write all captures to files'']"

abbreviation answer :: "(command_world \<Rightarrow> string) \<Rightarrow> command" where
  "answer f \<equiv> \<lambda>args w. (f w, w)"

definition command_table :: "command_env \<Rightarrow> (string, command) dict" where
  "command_table env =
    [(''help'', answer (\<lambda>_. help_text)), (''status'', answer status_command), (''shutdown'', shutdown_command),
     (''compact'', compact_command), (''memory'', memory_command env), (''sessions'', answer sessions_command),
     (''ping'', answer ping_command), (''tools'', answer tools_command), (''llm'', answer llm_command),
     (''state'', \<lambda>args w. (handle_state env (cw_diagnostics w) args, w)),
     (''events'', \<lambda>args w. (handle_events env (cw_diagnostics w) args, w)),
     (''health'', answer (\<lambda>w. handle_health env (cw_diagnostics w))),
     (''report'', answer (\<lambda>w. handle_report env (cw_diagnostics w))), (''debug'', debug_command env)]"

definition handle :: "command_env \<Rightarrow> string \<Rightarrow> command" where
  "handle env name args w = (case dget (command_table env) name of
     None \<Rightarrow> (''Unknown command: /'' @ name, w) | Some h \<Rightarrow> h args w)"

section \<open>What commands change\<close>

lemma world_parts:
  "w = w\<lparr>cw_capture := cw_capture w\<rparr>" "w = w\<lparr>cw_memory := cw_memory w\<rparr>"
  "w = w\<lparr>cw_stopping := cw_stopping w, cw_memory := cw_memory w, cw_capture := cw_capture w\<rparr>"
  "w\<lparr>cw_memory := m\<rparr> = w\<lparr>cw_stopping := cw_stopping w, cw_memory := m, cw_capture := cw_capture w\<rparr>"
  "w\<lparr>cw_capture := dc\<rparr> = w\<lparr>cw_stopping := cw_stopping w, cw_memory := cw_memory w, cw_capture := dc\<rparr>"
  "w\<lparr>cw_stopping := b\<rparr> = w\<lparr>cw_stopping := b, cw_memory := cw_memory w, cw_capture := cw_capture w\<rparr>"
  by (cases w; simp)+

lemma handle_capture_keeps: "snd (handle_capture env sub rest dc) \<noteq> dc \<Longrightarrow> sub \<in> {''on'', ''off'', ''dump''}"
  by (simp add: handle_capture_def split: if_splits option.splits)

lemma debug_frame:
  "\<exists>dc. snd (debug_command env args w) = w\<lparr>cw_capture := dc\<rparr> \<and>
    (dc \<noteq> cw_capture w \<longrightarrow> fst (split_command args) \<in> {''on'', ''off'', ''dump''})"
proof (cases "split_command args")
  case (Pair sub rest)
  show ?thesis
  proof (cases "handle_capture env sub rest (cw_capture w)")
    case hc: (Pair msg dc)
    have s: "snd (debug_command env args w) =
        (if sub \<in> {''state'', ''events'', ''health'', ''report''} then w else w\<lparr>cw_capture := dc\<rparr>)"
      by (simp add: debug_command_def Pair hc split: option.split)
    show ?thesis
    proof (cases "sub \<in> {''state'', ''events'', ''health'', ''report''}")
      case True
      then have "snd (debug_command env args w) = w" unfolding s by (rule if_P)
      from trans [OF this world_parts(1)] show ?thesis by blast
    next
      case False
      then have d: "snd (debug_command env args w) = w\<lparr>cw_capture := dc\<rparr>" unfolding s by (rule if_not_P)
      have "dc \<noteq> cw_capture w \<longrightarrow> fst (split_command args) \<in> {''on'', ''off'', ''dump''}"
        using handle_capture_keeps [of env sub rest "cw_capture w"] by (simp add: Pair hc)
      with d show ?thesis by blast
    qed
  qed
qed

lemma memory_frame:
  "\<exists>m. snd (memory_command env args w) = w\<lparr>cw_memory := m\<rparr> \<and>
    (m \<noteq> cw_memory w \<longrightarrow> fst (split_command (snd (extract_room_id args))) = ''clear'')"
proof (cases "cw_memory w")
  case None
  then have "snd (memory_command env args w) = w" by (simp add: memory_command_def)
  from trans [OF this world_parts(2)] show ?thesis by blast
next
  case (Some m)
  obtain room rest sub arg where r: "extract_room_id args = (room, rest)" "split_command rest = (sub, arg)"
    by (metis surj_pair)
  show ?thesis
  proof (cases "sub = ''clear''")
    case True
    then have "snd (memory_command env args w) = w\<lparr>cw_memory := Some (snd (memory_clear (py_lower arg) m))\<rparr>"
      by (simp add: memory_command_def Some r split: prod.split)
    with True show ?thesis by (intro exI [of _ "Some (snd (memory_clear (py_lower arg) m))"]) (simp add: r)
  next
    case False
    then have "snd (memory_command env args w) = w" by (simp add: memory_command_def Some r)
    from trans [OF this world_parts(2)] show ?thesis by blast
  qed
qed


definition demo_command_env :: command_env where
  "demo_command_env = \<lparr>cv_int = (\<lambda>s. if all_digits s then Some (int (read_nat s)) else None), cv_str = (\<lambda>_. []), cv_json = (\<lambda>_. []),
     cv_rows = (\<lambda>_ _. []), cv_two = (\<lambda>_. ''0.00''), cv_now = ''2025-01-01 00:00:00'',
     cv_texts = \<lparr>ct_rule = ''-'', ct_full_heading = ''FULL PROMPT''\<rparr>, cv_marks = (''+'', ''o'', ''x''), cv_arrow = ''->''\<rparr>"

definition demo_world :: command_world where
  "demo_world = \<lparr>cw_config = None, cw_on_shutdown = True, cw_on_compact = None, cw_stopping = False, cw_memory = None,
     cw_sessions = None, cw_llm = Some True, cw_registry = None, cw_diagnostics = None, cw_capture = Some (new_capture 10 False)\<rparr>"


text \<open>The debug help names a command \<open>capture on\<close>; it does not switch the capture on.\<close>

lemma documented_capture_command_fails:
  "handle demo_command_env ''debug'' ''capture on'' demo_world =
    (''Debug capture is disabled (use /debug on first). Available: state, events, health, report'', demo_world)"
proof -
  have "split_command ''capture on'' = (''capture'', ''on'')"
    by (simp add: split_command_def py_strip_def py_space_def py_lower_def lower_char_def Let_def)
  then show ?thesis
    by (simp add: handle_def command_table_def debug_command_def handle_capture_def sub_texts_def demo_world_def
        new_capture_def)
qed

lemma clear_all:
  assumes "cw_memory w = Some m" and "extract_room_id args = (r, ''clear '')"
  shows "cw_memory (snd (handle env ''memory'' args w)) = Some (mm_clear None m)"
proof -
  have "split_command ''clear '' = (''clear'', [])"
    by (simp add: split_command_def py_strip_def py_space_def py_lower_def lower_char_def Let_def)
  then show ?thesis
    by (simp add: handle_def command_table_def memory_command_def assms memory_clear_def py_lower_def)
qed

text \<open>
  A request to clear the memory of one room clears the memory of all: the room is taken out of the
  command line and then forgotten, so that \<open>memory clear room:r\<close> empties the short-term memory, the
  episodes and the semantic memory of every room and account.
\<close>

theorem room_clear_clears_all:
  assumes "cw_memory w = Some m" and "\<And>c. c \<in> set r \<Longrightarrow> \<not> py_space c"
  shows "\<exists>m'. cw_memory (snd (handle env ''memory'' (''clear room:'' @ r) w)) = Some m' \<and>
    st_turns (mm_short m') = [] \<and>
    (\<forall>s. lt_episodic (mm_long m') = Some s \<longrightarrow> es_entries s = []) \<and>
    (\<forall>s. lt_semantic (mm_long m') = Some s \<longrightarrow> ss_entries s = [])"
proof -
  have sp: "py_space CHR '' ''" "\<not> py_space CHR ''c''" "\<not> py_space CHR ''l''" "\<not> py_space CHR ''e''" "\<not> py_space CHR ''a''"
    "\<not> py_space CHR ''r''" "\<not> py_space CHR ''o''" "\<not> py_space CHR ''m''" "\<not> py_space CHR '':''"
    by (simp_all add: py_space_def)
  have "py_words (''room:'' @ r) = [''room:'' @ r]"
    using py_words_word [of "''room:'' @ r" "[]"] assms(2) sp by auto
  moreover have "py_words (''clear'' @ '' room:'' @ r) = ''clear'' # py_words ('' room:'' @ r)"
    by (rule py_words_word) (use sp in auto)
  ultimately have "py_words (''clear room:'' @ r) = [''clear'', ''room:'' @ r]"
    by (simp add: py_words_space sp)
  moreover have "remove_first (''room:'' @ r) (''clear room:'' @ r) = ''clear ''"
    by (simp add: starts_with_def)
  ultimately have e: "extract_room_id (''clear room:'' @ r) = (r, ''clear '')"
    by (simp add: extract_room_id_def starts_with_def)
  have "cw_memory (snd (handle env ''memory'' (''clear room:'' @ r) w)) = Some (mm_clear None m)"
    by (rule clear_all [OF assms(1) e])
  then show ?thesis
    by (auto simp: mm_clear_def Let_def clear_short_term_def clear_episodic_def clear_semantic_def episodic_clear_def
        semantic_clear_def)
qed

definition two_rooms :: memory where
  "two_rooms = \<lparr>mm_sensory = new_sensory 1000 10, mm_short = new_short_term 10 5,
     mm_long = \<lparr>lt_episodic = Some \<lparr>es_entries =
         [\<lparr>ep_summary = ''hi'', ep_timestamp = ''t'', ep_room = ''lobby'', ep_account = ''a'', ep_metadata = None\<rparr>,
          \<lparr>ep_summary = ''yo'', ep_timestamp = ''t'', ep_room = ''den'', ep_account = ''b'', ep_metadata = None\<rparr>], es_max = 10\<rparr>,
       lt_semantic = None, lt_vector = False\<rparr>\<rparr>"

end
