(* ===== verification/Debug_Cli.thy ===== *)
theory Debug_Cli
  imports Grpc_Out Commands
begin

text \<open>
  The debug client (\<open>debug_tools/cli.py\<close>): a program of its own that asks a running Iris over gRPC. The
  arguments come as \<open>argparse\<close> leaves them. What the operating system and the grpc library answer is the
  \<open>cli_env\<close>: the variables of the environment, the clock and the outcome of every attempt to connect, what
  is known of a started process, and what a call of the service yields. \<open>cli_state\<close> is the process it has
  started and all it prints; the calls it makes are recorded in their order.
\<close>

section \<open>Arguments and environment\<close>

datatype subcommand =
    State string bool bool int
  | Events int string
  | Health
  | Report

record cli_args =
  dx_spawn :: bool
  dx_keep_alive :: bool
  dx_debug_mode :: bool
  dx_command :: subcommand

text \<open>How a call of the service ends, after the frames that were received.\<close>

datatype rpc_end = Completed | RpcError string string | Interrupted

record cli_env =
  dx_vars :: "(string, string) dict"
  dx_int :: "string \<Rightarrow> int option"
  dx_ports :: "nat \<Rightarrow> real \<times> (real \<times> bool) list"
  dx_main_path :: string
  dx_main_py :: bool
  dx_ready :: "nat \<Rightarrow> bool"
  dx_polled :: bool
  dx_exits :: bool
  dx_call :: "(string, string) dict \<Rightarrow> string \<Rightarrow> real \<Rightarrow> out_frame list \<times> rpc_end"
  dx_pretty :: "string \<Rightarrow> string option"

record cli_state =
  dy_spawned :: bool
  dy_killed :: bool
  dy_out :: "string list"
  dy_err :: "string list"
  dy_calls :: "string list"

definition new_cli :: cli_state where
  "new_cli = \<lparr>dy_spawned = False, dy_killed = False, dy_out = [], dy_err = [], dy_calls = []\<rparr>"

datatype cli_end = Returns | Exits nat | Raises string

definition print_line :: "string \<Rightarrow> cli_state \<Rightarrow> cli_state" where
  "print_line t s = s\<lparr>dy_out := dy_out s @ [t]\<rparr>"

definition print_error :: "string \<Rightarrow> cli_state \<Rightarrow> cli_state" where
  "print_error t s = s\<lparr>dy_err := dy_err s @ [t]\<rparr>"

definition cli_host :: "cli_env \<Rightarrow> string" where
  "cli_host env = dget_or (dx_vars env) ''IRIS_HOST'' ''127.0.0.1''"

definition cli_port :: "cli_env \<Rightarrow> int option" where
  "cli_port env = dx_int env (dget_or (dx_vars env) ''IRIS_PORT'' ''9876'')"

definition cli_address :: "cli_env \<Rightarrow> string" where
  "cli_address env = cli_host env @ '':'' @ (case cli_port env of None \<Rightarrow> [] | Some p \<Rightarrow> show_int p)"

definition build_metadata :: "cli_env \<Rightarrow> (string, string) dict" where
  "build_metadata env =
    [(''access_token'', dget_or (dx_vars env) ''IRIS_ACCESS_TOKEN'' []), (''role'', ''debug_cli''), (''identity'', ''debug-cli''),
     (''permissions'', join_with '','' [''PERMISSION_SEND_COMMAND'', ''PERMISSION_RECEIVE_COMMAND''])]"

section \<open>The other process\<close>

text \<open>Each attempt comes with the clock read before it and with its outcome.\<close>

fun wait_port :: "real \<Rightarrow> (real \<times> bool) list \<Rightarrow> bool" where
  "wait_port deadline [] = False"
| "wait_port deadline ((t, opened) # rest) =
    (if t < deadline then if opened then True else wait_port deadline rest else False)"

definition port_opens :: "cli_env \<Rightarrow> nat \<Rightarrow> real \<Rightarrow> bool" where
  "port_opens env i timeout = (case dx_ports env i of (start, tries) \<Rightarrow> wait_port (start + timeout) tries)"

definition spawn_iris :: "cli_env \<Rightarrow> cli_state \<Rightarrow> cli_state \<times> bool" where
  "spawn_iris env s =
    (if \<not> dx_main_py env then (print_error (''Error: '' @ dx_main_path env @ '' not found'') s, False)
     else if \<not> port_opens env 1 30 then
       (print_error ''Timeout: Iris did not start within 30s'' (s\<lparr>dy_spawned := True, dy_killed := True\<rparr>), False)
     else (s\<lparr>dy_spawned := True\<rparr>, True))"

text \<open>\<open>_cleanup\<close> waits five seconds for the process and kills it if it is still there.\<close>

definition cli_cleanup :: "cli_env \<Rightarrow> cli_state \<Rightarrow> cli_state" where
  "cli_cleanup env s =
    (if \<not> dy_spawned s then s
     else if dx_polled env \<or> dx_exits env then s\<lparr>dy_spawned := False\<rparr>
     else s\<lparr>dy_spawned := False, dy_killed := True\<rparr>)"

text \<open>
  \<open>_shutdown_via_grpc\<close> swallows whatever the call raises; the port is a number, since \<open>main\<close> has read it.
\<close>

definition shutdown_via_grpc :: "cli_env \<Rightarrow> cli_state \<Rightarrow> cli_state" where
  "shutdown_via_grpc env s =
    (if \<not> dy_spawned s then s
     else if \<not> port_opens env 2 3 \<or> \<not> dx_ready env 1 then s
     else s\<lparr>dy_calls := dy_calls s @ [''/shutdown'']\<rparr>)"

section \<open>Asking\<close>

definition command_texts :: "out_frame list \<Rightarrow> string" where
  "command_texts fs = concat (map (\<lambda>f. case f of OutCommand c \<Rightarrow> fc_content c | _ \<Rightarrow> []) fs)"

text \<open>The texts are returned when the stream of answers comes to its end, and only then.\<close>

definition run_command :: "cli_env \<Rightarrow> string \<Rightarrow> rpc_end + string" where
  "run_command env cmd =
    (case dx_call env (build_metadata env) (''/'' @ cmd) 10 of
       (fs, Completed) \<Rightarrow> Inr (py_strip (command_texts fs)) | (fs, e) \<Rightarrow> Inl e)"

definition state_parts :: "string \<Rightarrow> bool \<Rightarrow> bool \<Rightarrow> int \<Rightarrow> string list" where
  "state_parts path history json n =
    (if path = [] then [] else [path]) @ (if history then [''--history''] else []) @ (if json then [''--json''] else [])
      @ [''--n='' @ show_int n]"

fun cli_command :: "subcommand \<Rightarrow> string" where
  "cli_command (State path history json n) =
    (let parts = state_parts path history json n
     in if parts = [] then ''debug state'' else ''debug '' @ join_with '' '' parts)"
| "cli_command (Events n ty) = ''debug events --n='' @ show_int n @ (if ty = [] then [] else '' --type='' @ ty)"
| "cli_command Health = ''debug health''"
| "cli_command Report = ''debug report''"

text \<open>\<open>args.json\<close> is an attribute of the state command alone.\<close>

definition show_answer :: "cli_env \<Rightarrow> cli_args \<Rightarrow> string \<Rightarrow> cli_state \<Rightarrow> cli_state \<times> cli_end" where
  "show_answer env args shown s =
    (let plain = (let s1 = print_line shown s
         in if dy_spawned s1 \<and> \<not> dx_keep_alive args
            then (print_error ''Done.'' (cli_cleanup env (shutdown_via_grpc env (print_error ''Shutting down Iris...'' s1))), Returns)
            else (s1, Returns))
     in case dx_command args of
          State path history json n \<Rightarrow>
            (case (if json then dx_pretty env shown else None) of
               Some t \<Rightarrow> (print_line t s, Returns) | None \<Rightarrow> plain)
        | _ \<Rightarrow> (s, Raises ''AttributeError''))"

definition ask :: "cli_env \<Rightarrow> cli_args \<Rightarrow> cli_state \<Rightarrow> cli_state \<times> cli_end" where
  "ask env args s =
    (if \<not> dx_ready env 0 then
       (cli_cleanup env (print_error (''Error: gRPC connection to '' @ cli_address env @ '' failed'') s), Exits 1)
     else let s1 = s\<lparr>dy_calls := dy_calls s @ [''/'' @ cli_command (dx_command args)]\<rparr>
       in case run_command env (cli_command (dx_command args)) of
            Inr shown \<Rightarrow> show_answer env args shown s1
          | Inl Interrupted \<Rightarrow> (cli_cleanup env (shutdown_via_grpc env s1), Exits 130)
          | Inl (RpcError code details) \<Rightarrow>
              (cli_cleanup env (print_error (''gRPC error: '' @ code @ '' '' @ details) s1), Exits 1)
          | Inl Completed \<Rightarrow> (s1, Returns))"

text \<open>The whole run. \<open>_cleanup\<close> is registered for the end of the program once there is a server.\<close>

definition cli_main :: "cli_env \<Rightarrow> cli_args \<Rightarrow> cli_state \<times> cli_end" where
  "cli_main env args =
    (let served = (\<lambda>s. case ask env args s of (s', e) \<Rightarrow> (cli_cleanup env s', e))
     in case cli_port env of
          None \<Rightarrow> (new_cli, Raises ''ValueError'')
        | Some port \<Rightarrow>
            if port_opens env 0 2 then served new_cli
            else if dx_spawn args then
              (case spawn_iris env new_cli of (s, True) \<Rightarrow> served s | (s, False) \<Rightarrow> (s, Exits 1))
            else (print_error (''Error: Cannot connect to '' @ cli_address env @ [CHR 0x0A] @ ''  Use --spawn to auto-start Iris'') new_cli, Exits 1))"

section \<open>The service it calls\<close>

text \<open>
  A call of the service of this program. A refused authentication aborts it; otherwise the send loop waits
  for more to send for ever, and the call ends when the time of the client is over.
\<close>

definition service_call :: "(pyobj \<Rightarrow> string) \<Rightarrow> (pyobj \<Rightarrow> string) \<Rightarrow> (wire \<Rightarrow> string) \<Rightarrow> room_system gateway \<Rightarrow> string \<Rightarrow> real \<Rightarrow>
    'c \<Rightarrow> 'c env \<Rightarrow> 'c io_state \<Rightarrow> (string, string) dict \<Rightarrow> string \<Rightarrow> real \<Rightarrow> out_frame list \<times> rpc_end" where
  "service_call rep json ids gw fresh now conn e s metadata content timeout =
    (case sm_authenticate fresh now (Some conn) (auth_of metadata) (io_sessions s) of
       (AuthFailure msg, sm) \<Rightarrow> ([], RpcError ''UNAUTHENTICATED'' (or_else msg ''Auth failed''))
     | (AuthSuccess sid, sm) \<Rightarrow>
        (stream_frames rep json ids sid (io_sessions (receive_loop gw sid (or_else (au_role (auth_of metadata)) ''external'')
           [(e, CommandFrame ''debug-1'' content)] (s\<lparr>io_sessions := sm\<rparr>))),
         RpcError ''DEADLINE_EXCEEDED'' ''Deadline Exceeded''))"

section \<open>What the client gets\<close>

lemma cli_permission_text:
  "join_with '','' [''PERMISSION_SEND_COMMAND'', ''PERMISSION_RECEIVE_COMMAND''] = ''PERMISSION_SEND_COMMAND,PERMISSION_RECEIVE_COMMAND''"
  by code_simp

lemma cli_permissions: "parse_permissions ''PERMISSION_SEND_COMMAND,PERMISSION_RECEIVE_COMMAND'' = []"
  by code_simp

lemma cli_auth: "auth_of (build_metadata env) =
    \<lparr>au_token = Some (dget_or (dx_vars env) ''IRIS_ACCESS_TOKEN'' []), au_role = ''debug_cli'', au_permissions = [],
     au_tag = [], au_description = []\<rparr>"
  by (simp add: auth_of_def build_metadata_def cli_permission_text cli_permissions dget_or_def)

lemma no_permissions_lack:
  assumes "sm_authenticate fresh now conn m sm0 = (AuthSuccess sid, sm)" and "au_permissions m = []"
  shows "lacks p sid (s\<lparr>io_sessions := sm\<rparr>)"
  using assms
  by (auto simp: sm_authenticate_def lacks_def get_session_info_def create_session_def new_session_def split: option.splits)

lemma cli_command_refused:
  assumes "sm_authenticate fresh now conn (auth_of (build_metadata env)) sm0 = (AuthSuccess sid, sm)"
  shows "receive_loop gw sid role [(e, CommandFrame i content)] (s\<lparr>io_sessions := sm\<rparr>) = touch e sid (s\<lparr>io_sessions := sm\<rparr>)"
proof -
  have "lacks SEND_COMMAND sid (touch e sid (s\<lparr>io_sessions := sm\<rparr>))"
    using no_permissions_lack [OF assms, of SEND_COMMAND s] by (simp add: cli_auth)
  then have "handle_frame gw e sid role (CommandFrame i content) (touch e sid (s\<lparr>io_sessions := sm\<rparr>)) =
      (touch e sid (s\<lparr>io_sessions := sm\<rparr>), False)"
    by (intro frame_refused [where p = SEND_COMMAND]) simp_all
  then show ?thesis by simp
qed

lemma service_never_completes: "\<exists>code details. snd (service_call rep json ids gw fresh now conn e s metadata content t) = RpcError code details"
  by (simp add: service_call_def split: prod.split auth_result.split)

lemma run_command_fails:
  "\<exists>code details. run_command (env\<lparr>dx_call := service_call rep json ids gw fresh now conn e s\<rparr>) cmd = Inl (RpcError code details)"
  using service_never_completes [of rep json ids gw fresh now conn e s "build_metadata (env\<lparr>dx_call := service_call rep json ids gw fresh now conn e s\<rparr>)" "''/'' @ cmd" 10]
  by (auto simp: run_command_def split: prod.split)

lemma cli_printing [simp]:
  "dy_out (print_error t s) = dy_out s" "dy_out (cli_cleanup env s) = dy_out s"
  by (simp_all add: print_error_def cli_cleanup_def)

lemma ask_failing:
  assumes "run_command env (cli_command (dx_command args)) = Inl (RpcError code details)"
  shows "dy_out (fst (ask env args s)) = dy_out s" "snd (ask env args s) = Exits 1"
  using assms by (simp_all add: ask_def Let_def)

lemma spawn_out: "dy_out (fst (spawn_iris env s)) = dy_out s"
  by (simp add: spawn_iris_def)

lemma cli_main_failing:
  assumes "run_command env (cli_command (dx_command args)) = Inl (RpcError code details)"
  shows "dy_out (fst (cli_main env args)) = [] \<and> snd (cli_main env args) \<in> {Exits 1, Raises ''ValueError''}"
proof -
  have new: "dy_out new_cli = []" by (simp add: new_cli_def)
  define a where "a = (\<lambda>s. fst (ask env args s))"
  have asked: "ask env args s = (a s, Exits 1)" "dy_out (a s) = dy_out s" for s
    using ask_failing [OF assms, of s] by (simp_all add: a_def prod_eq_iff)
  obtain s b where sp: "spawn_iris env new_cli = (s, b)" by fastforce
  then have "dy_out s = []" using spawn_out [of env new_cli] by (simp add: new)
  then show ?thesis
    by (cases b) (simp_all add: cli_main_def Let_def new sp asked split: option.split)
qed


section \<open>Other defects of the client\<close>

text \<open>A process that was started and does not end by itself is killed at the end, \<open>--keep-alive\<close> or not.\<close>

lemma keep_alive_ignored:
  assumes "cli_port env \<noteq> None" and "\<not> port_opens env 0 2" and "dx_spawn args" and "dx_main_py env" and "port_opens env 1 30"
    and "\<not> dx_polled env" and "\<not> dx_exits env"
  shows "dy_killed (fst (cli_main env args))"
proof -
  define live :: "cli_state \<Rightarrow> bool" where "live = (\<lambda>s. dy_spawned s \<or> dy_killed s)"
  have steps [simp]: "live (cli_cleanup env s) = live s" "live (shutdown_via_grpc env s) = live s"
    "live (print_error t s) = live s" "live (print_line t s) = live s" "live (s\<lparr>dy_calls := cs\<rparr>) = live s" for s t cs
    using assms(6,7) by (auto simp: live_def cli_cleanup_def shutdown_via_grpc_def print_error_def print_line_def)
  have "live (fst (show_answer env args ans s)) = live s" for ans s
    by (simp add: show_answer_def Let_def split: subcommand.split option.split)
  then have keep: "live (fst (ask env args s)) = live s" for s
    by (simp add: ask_def Let_def split: sum.split rpc_end.split)
  have killed: "dy_killed (cli_cleanup env s) = live s" for s
    using assms(6,7) by (auto simp: live_def cli_cleanup_def)
  obtain port where port: "cli_port env = Some port" using assms(1) by blast
  have "fst (cli_main env args) = cli_cleanup env (fst (ask env args (new_cli\<lparr>dy_spawned := True\<rparr>)))"
    by (simp add: cli_main_def Let_def spawn_iris_def port assms(2-4) assms(5) [simplified] split: prod.split)
  then show ?thesis by (simp add: killed keep) (simp add: live_def)
qed

text \<open>The other commands raise after the answer has come: only \<open>state\<close> has the attribute \<open>json\<close>.\<close>

lemma only_state_shows:
  assumes "dx_ready env 0" and "run_command env (cli_command (dx_command args)) = Inr shown"
    and "dx_command args = Health \<or> dx_command args = Report \<or> dx_command args = Events n ty"
  shows "snd (ask env args s) = Raises ''AttributeError'' \<and> dy_out (fst (ask env args s)) = dy_out s"
  using assms by (auto simp: ask_def show_answer_def Let_def simp del: cli_command.simps)

lemma debug_ignores_diagnostics:
  assumes "fst (split_command args) \<notin> {''state'', ''events'', ''health'', ''report''}"
  shows "fst (debug_command env args (w\<lparr>cw_diagnostics := d\<rparr>)) = fst (debug_command env args w)"
  using assms by (cases "split_command args"; cases "handle_capture env (fst (split_command args)) (snd (split_command args)) (cw_capture w)")
    (simp add: debug_command_def split: option.split)

lemma split_command_words:
  assumes "w \<noteq> []" and "\<not> py_space (hd w)" 
  shows "\<exists>v. fst (split_command w) = lower_char (hd w) # v"
proof -
  obtain c cs where w: "w = c # cs" using assms(1) by (cases w) auto
  have "\<not> py_space c" using assms(2) w by simp
  then obtain t where t: "py_strip w = c # t"
    using that [of "[]"] that [of "rev (dropWhile py_space (rev cs))"]
    by (cases "\<forall>x \<in> set cs. py_space x") (auto simp: py_strip_def w dropWhile_append)
  with \<open>\<not> py_space c\<close> show ?thesis by (simp add: split_command_def Let_def py_lower_def w)
qed

text \<open>
  The state of the system is never asked for: the word \<open>state\<close> is left out, since the parts are never
  empty. Without a path the command line starts with an option, and what is answered does not depend on
  the diagnostics at all.
\<close>

lemma state_never_queried:
  "cli_command (State [] history json n) = ''debug '' @ args \<Longrightarrow>
    fst (debug_command env args (w\<lparr>cw_diagnostics := d\<rparr>)) = fst (debug_command env args w)"
proof (rule debug_ignores_diagnostics)
  assume "cli_command (State [] history json n) = ''debug '' @ args"
  then have a: "args = join_with '' '' (state_parts [] history json n)" by (simp add: Let_def state_parts_def)
  then obtain v where v: "args = CHR ''-'' # v" by (cases history; cases json) (simp_all add: state_parts_def join_with_def)
  obtain u where "fst (split_command args) = lower_char (CHR ''-'') # u"
    using split_command_words [of args] by (auto simp: v py_space_def)
  moreover have "lower_char (CHR ''-'') = CHR ''-''" by code_simp
  ultimately show "fst (split_command args) \<notin> {''state'', ''events'', ''health'', ''report''}" by auto
qed

end
