(* ===== verification/Listener.thy ===== *)
theory Listener
  imports Iris_Prelude
begin

text \<open>
  The listener of the service (\<open>iris/io/transport/grpc_listener.py\<close>, started and stopped by
  \<open>iris/io/manager.py\<close>): the thread that calls \<open>start\<close> and \<open>stop\<close>, and the server threads it makes, each of
  which runs an event loop. A step is what one thread does between two points at which the others can
  interfere; a server thread reads the listener's \<open>_loop\<close> anew each time it uses it. \<open>stop\<close> is two steps, since it
  joins the server thread in between, for three seconds at most. The threads, loops and servers are
  numbered in the order of their creation; an exception in a server thread is logged and ends the thread.
\<close>

section \<open>The listener\<close>

text \<open>The points of \<open>_run_server\<close>; the number is that of the loop the thread runs.\<close>

datatype server_thread = Spawned | HasServer | Starting nat | Started | Serving nat | Finished

record event_loop =
  lo_running :: bool
  lo_stopping :: bool
  lo_closed :: bool
  lo_cleanup :: bool

definition new_loop :: event_loop where
  "new_loop = \<lparr>lo_running = False, lo_stopping = False, lo_closed = False, lo_cleanup = False\<rparr>"

record listener =
  li_loop :: "nat option"
  li_server :: bool
  li_thread :: "nat option"
  li_joining :: "nat option option"
  li_loops :: "event_loop list"
  li_threads :: "server_thread list"

definition new_listener :: listener where
  "new_listener = \<lparr>li_loop = None, li_server = False, li_thread = None, li_joining = None, li_loops = [], li_threads = []\<rparr>"

definition on_loop :: "nat \<Rightarrow> (event_loop \<Rightarrow> event_loop) \<Rightarrow> listener \<Rightarrow> listener" where
  "on_loop l f s = s\<lparr>li_loops := (li_loops s)[l := f (li_loops s ! l)]\<rparr>"

definition goes :: "nat \<Rightarrow> server_thread \<Rightarrow> listener \<Rightarrow> listener" where
  "goes i t s = s\<lparr>li_threads := (li_threads s)[i := t]\<rparr>"

definition is_running :: "nat \<Rightarrow> listener \<Rightarrow> bool" where
  "is_running l s \<longleftrightarrow> lo_running (li_loops s ! l)"

definition listener_start :: "listener \<Rightarrow> listener" where
  "listener_start s = s\<lparr>li_loop := Some (length (li_loops s)), li_loops := li_loops s @ [new_loop],
     li_thread := Some (length (li_threads s)), li_threads := li_threads s @ [Spawned]\<rparr>"

text \<open>The clean-up is handed to a running loop; a loop that does not run is only told to stop.\<close>

definition listener_stop_begin :: "listener \<Rightarrow> listener" where
  "listener_stop_begin s =
    (case li_loop s of
       Some l \<Rightarrow> if \<not> li_server s then s
         else if is_running l s then on_loop l (lo_cleanup_update (\<lambda>_. True)) s
         else on_loop l (lo_stopping_update (\<lambda>_. True)) s
     | None \<Rightarrow> s)\<lparr>li_joining := Some (li_loop s)\<rparr>"

text \<open>\<open>loop.close()\<close> raises for a running loop, which is suppressed.\<close>

definition listener_stop_end :: "nat option \<Rightarrow> listener \<Rightarrow> listener" where
  "listener_stop_end captured s =
    (case captured of None \<Rightarrow> s
     | Some l \<Rightarrow> (if is_running l s then s else on_loop l (lo_closed_update (\<lambda>_. True)) s)\<lparr>li_loop := None\<rparr>)
    \<lparr>li_thread := None, li_joining := None\<rparr>"

text \<open>Whether \<open>self._loop\<close> can be run.\<close>

definition usable_loop :: "listener \<Rightarrow> nat option" where
  "usable_loop s = (case li_loop s of None \<Rightarrow> None
     | Some l \<Rightarrow> if lo_closed (li_loops s ! l) \<or> is_running l s then None else Some l)"

text \<open>The end of a run of loop \<open>l\<close>, by the clean-up, by its stop flag or because its work is done.\<close>

definition run_ended :: "event_loop \<Rightarrow> event_loop" where
  "run_ended lo = lo\<lparr>lo_running := False, lo_stopping := False\<rparr>"

inductive listener_step :: "listener \<Rightarrow> listener \<Rightarrow> bool" where
  start: "li_joining s = None \<Longrightarrow> listener_step s (listener_start s)"
| stop_begin: "li_joining s = None \<Longrightarrow> listener_step s (listener_stop_begin s)"
| stop_end: "li_joining s = Some captured \<Longrightarrow> listener_step s (listener_stop_end captured s)"
| no_loop: "i < length (li_threads s) \<Longrightarrow> li_threads s ! i = Spawned \<Longrightarrow> li_loop s = None \<Longrightarrow> listener_step s (goes i Finished s)"
| make_server: "i < length (li_threads s) \<Longrightarrow> li_threads s ! i = Spawned \<Longrightarrow> li_loop s = Some l \<Longrightarrow>
    listener_step s ((goes i HasServer s)\<lparr>li_server := True\<rparr>)"
| run_start: "i < length (li_threads s) \<Longrightarrow> li_threads s ! i = HasServer \<Longrightarrow> usable_loop s = Some l \<Longrightarrow>
    listener_step s (on_loop l (lo_running_update (\<lambda>_. True)) (goes i (Starting l) s))"
| cannot_run: "i < length (li_threads s) \<Longrightarrow> li_threads s ! i \<in> {HasServer, Started} \<Longrightarrow> usable_loop s = None \<Longrightarrow>
    listener_step s (goes i Finished s)"
| started: "i < length (li_threads s) \<Longrightarrow> li_threads s ! i = Starting l \<Longrightarrow> \<not> lo_stopping (li_loops s ! l) \<Longrightarrow>
    listener_step s (on_loop l run_ended (goes i Started s))"
| start_fails: "i < length (li_threads s) \<Longrightarrow> li_threads s ! i = Starting l \<Longrightarrow>
    listener_step s (on_loop l run_ended (goes i Finished s))"
| serve: "i < length (li_threads s) \<Longrightarrow> li_threads s ! i = Started \<Longrightarrow> usable_loop s = Some l \<Longrightarrow>
    listener_step s (on_loop l (lo_running_update (\<lambda>_. True)) (goes i (Serving l) s))"
| told_to_stop: "i < length (li_threads s) \<Longrightarrow> li_threads s ! i = Serving l \<Longrightarrow> lo_stopping (li_loops s ! l) \<Longrightarrow>
    listener_step s (on_loop l run_ended (goes i Finished s))"
| cleaned_up: "i < length (li_threads s) \<Longrightarrow> li_threads s ! i \<in> {Starting l, Serving l} \<Longrightarrow> lo_cleanup (li_loops s ! l) \<Longrightarrow>
    listener_step s (on_loop l (\<lambda>lo. run_ended (lo\<lparr>lo_cleanup := False\<rparr>)) (goes i Finished s))"

inductive_cases listener_stepE: "listener_step s s'"

abbreviation listener_steps :: "listener \<Rightarrow> listener \<Rightarrow> bool" where
  "listener_steps \<equiv> listener_step\<^sup>*\<^sup>*"

lemmas listener_ops = listener_start_def listener_stop_begin_def listener_stop_end_def on_loop_def goes_def

section \<open>One thread for each running loop\<close>

fun loop_of :: "server_thread \<Rightarrow> nat option" where
  "loop_of (Starting l) = Some l"
| "loop_of (Serving l) = Some l"
| "loop_of _ = None"

definition listener_ok :: "listener \<Rightarrow> bool" where
  "listener_ok s \<longleftrightarrow>
    (\<forall>l. li_loop s = Some l \<or> li_joining s = Some (Some l) \<longrightarrow> l < length (li_loops s)) \<and>
    (\<forall>i < length (li_threads s). \<forall>l. loop_of (li_threads s ! i) = Some l \<longrightarrow> l < length (li_loops s) \<and> is_running l s) \<and>
    (\<forall>i < length (li_threads s). \<forall>j < length (li_threads s). i \<noteq> j \<longrightarrow>
       loop_of (li_threads s ! i) = None \<or> loop_of (li_threads s ! i) \<noteq> loop_of (li_threads s ! j))"

text \<open>A thread that gets to run a loop, and one that leaves it.\<close>

lemma listener_ok_idle:
  assumes "listener_ok s" and "i < length (li_threads s)" and "loop_of (li_threads s ! i) = None" and "loop_of t = None"
  shows "listener_ok (goes i t s)"
  using assms by (auto simp: listener_ok_def goes_def nth_list_update is_running_def)

lemma listener_ok_enter:
  assumes "listener_ok s" and "i < length (li_threads s)" and "usable_loop s = Some l" and "loop_of t = Some l"
  shows "listener_ok (on_loop l (lo_running_update (\<lambda>_. True)) (goes i t s))"
proof -
  have "li_loop s = Some l" "\<not> is_running l s" using assms(3) by (auto simp: usable_loop_def split: option.splits if_splits)
  then show ?thesis
    using assms by (auto simp: listener_ok_def goes_def on_loop_def nth_list_update is_running_def)
qed

lemma listener_ok_leave:
  assumes "listener_ok s" and "i < length (li_threads s)" and "loop_of (li_threads s ! i) = Some l" and "loop_of t = None"
    and "\<And>lo. f lo = lo\<lparr>lo_running := False, lo_stopping := False, lo_cleanup := c lo\<rparr>"
  shows "listener_ok (on_loop l f (goes i t s))"
proof -
  have "loop_of (li_threads s ! j) \<noteq> Some l" if "j < length (li_threads s)" "j \<noteq> i" for j
    using assms(1-3) that by (metis listener_ok_def option.distinct(1))
  then show ?thesis
    using assms by (auto simp: listener_ok_def goes_def on_loop_def nth_list_update is_running_def)
qed

lemma listener_ok_step: "listener_step s s' \<Longrightarrow> listener_ok s \<Longrightarrow> listener_ok s'"
proof (induction rule: listener_step.induct)
  case (start s)
  then show ?case by (auto simp: listener_ok_def listener_start_def nth_append is_running_def less_Suc_eq)
next
  case (stop_begin s)
  then show ?case
    by (auto simp: listener_ok_def listener_stop_begin_def on_loop_def is_running_def nth_list_update split: option.split)
next
  case (stop_end s captured)
  then show ?case
    by (auto simp: listener_ok_def listener_stop_end_def on_loop_def is_running_def nth_list_update split: option.split)
next
  case (make_server i s l)
  then have "listener_ok (goes i HasServer s)" by (intro listener_ok_idle) auto
  then show ?case by (auto simp: listener_ok_def is_running_def)
next
  case (started i s l)
  then show ?case by (intro listener_ok_leave [where c = lo_cleanup]) (auto simp: run_ended_def)
next
  case (start_fails i s l)
  then show ?case by (intro listener_ok_leave [where c = lo_cleanup]) (auto simp: run_ended_def)
next
  case (told_to_stop i s l)
  then show ?case by (intro listener_ok_leave [where c = lo_cleanup]) (auto simp: run_ended_def)
next
  case (cleaned_up i s l)
  then show ?case by (intro listener_ok_leave [where c = "\<lambda>_. False"]) (auto simp: run_ended_def)
qed (auto intro: listener_ok_idle listener_ok_enter)

lemma listener_ok_reachable: "listener_steps new_listener s \<Longrightarrow> listener_ok s"
proof (induction rule: rtranclp_induct)
  case base
  then show ?case by (simp add: listener_ok_def new_listener_def)
qed (rule listener_ok_step)

text \<open>However starts, stops and server threads interleave, no event loop is ever run by two threads at once.\<close>

theorem one_thread_per_loop:
  assumes "listener_steps new_listener s" and "i < length (li_threads s)" and "j < length (li_threads s)" and "i \<noteq> j"
    and "loop_of (li_threads s ! i) = Some l"
  shows "loop_of (li_threads s ! j) \<noteq> Some l"
  using listener_ok_reachable [OF assms(1)] assms(2-5) by (metis listener_ok_def option.distinct(1))

section \<open>Stopping a server\<close>

text \<open>A server that is up when \<open>stop\<close> is called ends by its clean-up, and its loop is closed.\<close>

lemma orderly_stop:
  assumes "listener_ok s" and "li_joining s = None" and "i < length (li_threads s)" and "li_threads s ! i = Serving l"
    and "li_loop s = Some l" and "li_server s"
  shows "\<exists>s'. listener_steps s s' \<and> li_threads s' ! i = Finished \<and> lo_closed (li_loops s' ! l) \<and> li_loop s' = None \<and> li_joining s' = None"
proof -
  have l: "l < length (li_loops s)" "is_running l s" using assms(1,3,4) by (force simp: listener_ok_def)+
  let ?a = "listener_stop_begin s"
  let ?b = "on_loop l (\<lambda>lo. run_ended (lo\<lparr>lo_cleanup := False\<rparr>)) (goes i Finished ?a)"
  have a: "?a = (on_loop l (lo_cleanup_update (\<lambda>_. True)) s)\<lparr>li_joining := Some (Some l)\<rparr>"
    using assms l by (simp add: listener_stop_begin_def)
  have "listener_step s ?a" by (rule listener_step.stop_begin [OF assms(2)])
  moreover have "listener_step ?a ?b"
    using assms(3,4) l by (intro listener_step.cleaned_up) (simp_all add: a on_loop_def)
  moreover have "listener_step ?b (listener_stop_end (Some l) ?b)"
    by (rule listener_step.stop_end) (simp add: a on_loop_def goes_def)
  ultimately have "listener_steps s (listener_stop_end (Some l) ?b)" 
    by (blast intro: converse_rtranclp_into_rtranclp r_into_rtranclp)
  then show ?thesis
    using l assms(3)
    by (intro exI [of _ "listener_stop_end (Some l) ?b"])
      (simp add: a listener_stop_end_def is_running_def on_loop_def goes_def run_ended_def)
qed

text \<open>A server whose loop the listener has dropped.\<close>

definition abandoned :: "nat \<Rightarrow> nat \<Rightarrow> listener \<Rightarrow> bool" where
  "abandoned i l s \<longleftrightarrow> i < length (li_threads s) \<and> li_threads s ! i = Serving l \<and> l < length (li_loops s) \<and>
    li_loop s \<noteq> Some l \<and> li_joining s \<noteq> Some (Some l) \<and> \<not> lo_stopping (li_loops s ! l) \<and> \<not> lo_cleanup (li_loops s ! l) \<and> is_running l s"

lemma abandoned_other:
  assumes "abandoned i l s" and "j < length (li_threads s)" and "li_threads s ! j \<noteq> Serving l"
  shows "abandoned i l (goes j t s)"
  using assms by (auto simp: abandoned_def goes_def nth_list_update is_running_def)

lemma abandoned_on_loop: "abandoned i l s \<Longrightarrow> k \<noteq> l \<Longrightarrow> abandoned i l (on_loop k f s)"
  by (simp add: abandoned_def on_loop_def is_running_def)

lemma abandoned_loops:
  assumes "listener_ok s" and "abandoned i l s" and "j < length (li_threads s)" and "loop_of (li_threads s ! j) = Some k"
  shows "j = i \<and> k = l \<or> j \<noteq> i \<and> k \<noteq> l"
proof -
  have i: "i < length (li_threads s)" "loop_of (li_threads s ! i) = Some l" using assms(2) by (simp_all add: abandoned_def)
  show ?thesis
  proof (cases "j = i")
    case False
    then have "loop_of (li_threads s ! j) \<noteq> loop_of (li_threads s ! i)"
      using assms(1,3,4) i by (metis listener_ok_def option.distinct(1))
    with assms(4) i(2) False show ?thesis by auto
  qed (use assms(4) i in simp)
qed

lemma abandoned_usable: "abandoned i l s \<Longrightarrow> usable_loop s = Some k \<Longrightarrow> k \<noteq> l"
  by (auto simp: abandoned_def usable_loop_def split: option.splits if_splits)

lemma abandoned_step: "listener_step s s' \<Longrightarrow> listener_ok s \<Longrightarrow> abandoned i l s \<Longrightarrow> abandoned i l s'"
proof (induction rule: listener_step.induct)
  case (start s)
  then show ?case by (simp add: abandoned_def listener_start_def nth_append is_running_def)
next
  case (stop_begin s)
  then show ?case
    by (auto simp: abandoned_def listener_stop_begin_def on_loop_def is_running_def nth_list_update split: option.split)
next
  case (stop_end s captured)
  then show ?case
    by (auto simp: abandoned_def listener_stop_end_def on_loop_def is_running_def nth_list_update split: option.split)
next
  case (no_loop j s)
  then show ?case by (intro abandoned_other) auto
next
  case (make_server j s k)
  then have "abandoned i l (goes j HasServer s)" by (intro abandoned_other) auto
  then show ?case by (simp add: abandoned_def is_running_def)
next
  case (run_start j s k)
  then show ?case by (intro abandoned_on_loop abandoned_other abandoned_usable) auto
next
  case (cannot_run j s)
  then show ?case by (intro abandoned_other) auto
next
  case (started j s k)
  then show ?case using abandoned_loops [of s i l j k] by (intro abandoned_on_loop abandoned_other) (auto simp: abandoned_def)
next
  case (start_fails j s k)
  then show ?case using abandoned_loops [of s i l j k] by (intro abandoned_on_loop abandoned_other) (auto simp: abandoned_def)
next
  case (serve j s k)
  then show ?case by (intro abandoned_on_loop abandoned_other abandoned_usable) auto
next
  case (told_to_stop j s k)
  then show ?case using abandoned_loops [of s i l j k] by (intro abandoned_on_loop abandoned_other) (auto simp: abandoned_def)
next
  case (cleaned_up j s k)
  then have "loop_of (li_threads s ! j) = Some k" by auto
  with cleaned_up show ?case using abandoned_loops [of s i l j k] by (intro abandoned_on_loop abandoned_other) (auto simp: abandoned_def)
qed

lemma abandoned_steps: "listener_steps s s' \<Longrightarrow> listener_ok s \<Longrightarrow> abandoned i l s \<Longrightarrow> abandoned i l s'"
proof (induction rule: rtranclp_induct)
  case (step t u)
  have "listener_ok t" using step.hyps(1) step.prems(1)
    by (induction rule: rtranclp_induct) (auto intro: listener_ok_step)
  then show ?case using step abandoned_step by blast
qed

definition serves_for_ever :: "nat \<Rightarrow> listener \<Rightarrow> bool" where
  "serves_for_ever i s \<longleftrightarrow> (\<forall>s'. listener_steps s s' \<longrightarrow> (\<exists>l. li_threads s' ! i = Serving l))"

text \<open>The run that loses a server: \<open>stop\<close> looks before the new thread has made its server.\<close>

definition early_stop :: "listener list" where
  "early_stop =
    (let s1 = listener_start new_listener; s2 = listener_stop_begin s1; s3 = (goes 0 HasServer s2)\<lparr>li_server := True\<rparr>;
         s4 = on_loop 0 (lo_running_update (\<lambda>_. True)) (goes 0 (Starting 0) s3); s5 = on_loop 0 run_ended (goes 0 Started s4);
         s6 = on_loop 0 (lo_running_update (\<lambda>_. True)) (goes 0 (Serving 0) s5)
     in [new_listener, s1, s2, s3, s4, s5, s6, listener_stop_end (Some 0) s6])"

lemmas early_ops = early_stop_def Let_def listener_ops new_listener_def new_loop_def is_running_def run_ended_def usable_loop_def

lemma early_stop_steps: "successively listener_step early_stop"
proof -
  have "listener_step (early_stop ! 0) (early_stop ! 1)"
    using listener_step.start [of "early_stop ! 0"] by (simp add: early_ops)
  moreover have "listener_step (early_stop ! 1) (early_stop ! 2)"
    using listener_step.stop_begin [of "early_stop ! 1"] by (simp add: early_ops)
  moreover have "listener_step (early_stop ! 2) (early_stop ! 3)"
    using listener_step.make_server [of 0 "early_stop ! 2" 0] by (simp add: early_ops)
  moreover have "listener_step (early_stop ! 3) (early_stop ! 4)"
    using listener_step.run_start [of 0 "early_stop ! 3" 0] by (simp add: early_ops)
  moreover have "listener_step (early_stop ! 4) (early_stop ! 5)"
    using listener_step.started [of 0 "early_stop ! 4" 0] by (simp add: early_ops)
  moreover have "listener_step (early_stop ! 5) (early_stop ! 6)"
    using listener_step.serve [of 0 "early_stop ! 5" 0] by (simp add: early_ops)
  moreover have "listener_step (early_stop ! 6) (early_stop ! 7)"
    using listener_step.stop_end [of "early_stop ! 6" "Some 0"] by (simp add: early_ops)
  ultimately show ?thesis by (simp add: early_stop_def Let_def)
qed

lemma successively_steps: "successively r (x # xs) \<Longrightarrow> r\<^sup>*\<^sup>* x (last (x # xs))"
  by (induction xs arbitrary: x) (auto intro: converse_rtranclp_into_rtranclp)


end
