(* ===== verification/Vector_Index.thy ===== *)
theory Vector_Index
  imports Long_Term Py_Text
begin

text \<open>
  The vector store (\<open>iris/memory/long_term/vector_store.py\<close>): a Chroma collection with a BM25 index over its
  documents, kept beside it. The collection is an abstract \<open>'c\<close>; its library is the record \<open>chroma\<close> of the
  calls the store makes, and \<open>okapi\<close> are the scores of BM25 for a tokenised corpus and the words of a query. The search itself is
  \<open>vector_search\<close> of Long\_Term. The lock is held for each operation.
\<close>

section \<open>The store\<close>

record vector_meta =
  vm_id :: string
  vm_type :: string
  vm_tags :: string
  vm_timestamp :: string
  vm_account :: string

record 'c chroma =
  ch_get :: "'c \<Rightarrow> (string \<times> string) list"
  ch_fetch :: "'c \<Rightarrow> string \<Rightarrow> (string \<times> string) option"
  ch_add :: "string \<Rightarrow> string \<Rightarrow> vector_meta \<Rightarrow> 'c \<Rightarrow> 'c"
  ch_update :: "string \<Rightarrow> string \<Rightarrow> vector_meta \<Rightarrow> 'c \<Rightarrow> 'c"
  ch_delete :: "string list \<Rightarrow> 'c \<Rightarrow> 'c"
  ch_similar :: "'c \<Rightarrow> string \<Rightarrow> nat \<Rightarrow> string option \<Rightarrow> (vector_doc \<times> real) list"

type_synonym index = "(string list \<times> string list list) option"

record 'c vector_store =
  vs_db :: 'c
  vs_index :: index

definition open_store :: "'c \<Rightarrow> 'c vector_store" where
  "open_store c = \<lparr>vs_db = c, vs_index = None\<rparr>"

definition build_index :: "(string \<times> string) list \<Rightarrow> index" where
  "build_index docs = (if docs = [] then None else Some (map fst docs, map (\<lambda>d. py_words (py_lower (snd d))) docs))"

definition rebuild_bm25 :: "'c chroma \<Rightarrow> 'c vector_store \<Rightarrow> 'c vector_store" where
  "rebuild_bm25 db s = s\<lparr>vs_index := build_index (ch_get db (vs_db s))\<rparr>"

text \<open>An entry always has its id when the semantic store hands it over.\<close>

definition entry_meta :: "semantic_entry \<Rightarrow> string \<Rightarrow> vector_meta" where
  "entry_meta e account = \<lparr>vm_id = sy_id e, vm_type = sy_type e, vm_tags = join_with '','' (sy_tags e),
     vm_timestamp = sy_timestamp e, vm_account = account\<rparr>"

definition vector_add :: "'c chroma \<Rightarrow> semantic_entry \<Rightarrow> string \<Rightarrow> 'c vector_store \<Rightarrow> 'c vector_store" where
  "vector_add db e account s =
    rebuild_bm25 db (s\<lparr>vs_db := ch_add db (sy_id e) (sy_content e) (entry_meta e account) (vs_db s)\<rparr>)"

definition vector_update :: "'c chroma \<Rightarrow> semantic_entry \<Rightarrow> string \<Rightarrow> 'c vector_store \<Rightarrow> 'c vector_store" where
  "vector_update db e account s =
    (if sy_id e = [] then s
     else rebuild_bm25 db (s\<lparr>vs_db := ch_update db (sy_id e) (sy_content e) (entry_meta e account) (vs_db s)\<rparr>))"

definition vector_delete :: "'c chroma \<Rightarrow> string \<Rightarrow> 'c vector_store \<Rightarrow> 'c vector_store" where
  "vector_delete db i s = rebuild_bm25 db (s\<lparr>vs_db := ch_delete db [i] (vs_db s)\<rparr>)"

definition vector_clear :: "'c chroma \<Rightarrow> 'c vector_store \<Rightarrow> 'c vector_store" where
  "vector_clear db s =
    (let ids = map fst (ch_get db (vs_db s))
     in \<lparr>vs_db = (if ids = [] then vs_db s else ch_delete db ids (vs_db s)), vs_index = None\<rparr>)"

definition vector_count :: "'c chroma \<Rightarrow> 'c vector_store \<Rightarrow> nat" where
  "vector_count db s = length (ch_get db (vs_db s))"

definition index_scores :: "(string list list \<Rightarrow> string list \<Rightarrow> real list) \<Rightarrow> index \<Rightarrow> string \<Rightarrow> (string, real) dict" where
  "index_scores okapi x query = (case x of None \<Rightarrow> []
     | Some (ids, corpus) \<Rightarrow> bm25_scores ids (okapi corpus) (py_words (py_lower query)))"

definition store_search :: "'c chroma \<Rightarrow> (string list list \<Rightarrow> string list \<Rightarrow> real list) \<Rightarrow> string \<Rightarrow> nat \<Rightarrow> real \<Rightarrow> string \<Rightarrow>
    'c vector_store \<Rightarrow> (string, pyobj) dict list \<times> 'c vector_store" where
  "store_search db okapi query k least account s =
    (if ch_get db (vs_db s) = [] then ([], s)
     else let s1 = (if vs_index s = None then rebuild_bm25 db s else s);
              dense = ch_similar db (vs_db s1) query (k * 2) (if account = [] then None else Some account)
       in (vector_search (ch_fetch db (vs_db s1)) dense (index_scores okapi (vs_index s1) query) k least, s1))"

text \<open>The calls the semantic store has made, carried out.\<close>

fun carry_out :: "'c chroma \<Rightarrow> vector_call \<Rightarrow> 'c vector_store \<Rightarrow> 'c vector_store" where
  "carry_out db (VectorAdd e account) s = vector_add db e account s"
| "carry_out db VectorClear s = vector_clear db s"

datatype vector_op = Call vector_call | Update semantic_entry string | Delete string | Search string nat real string

fun vector_step :: "'c chroma \<Rightarrow> (string list list \<Rightarrow> string list \<Rightarrow> real list) \<Rightarrow> vector_op \<Rightarrow> 'c vector_store \<Rightarrow> 'c vector_store" where
  "vector_step db okapi (Call c) s = carry_out db c s"
| "vector_step db okapi (Update e account) s = vector_update db e account s"
| "vector_step db okapi (Delete i) s = vector_delete db i s"
| "vector_step db okapi (Search q k least account) s = snd (store_search db okapi q k least account s)"

section \<open>The index and the collection\<close>

definition index_current :: "'c chroma \<Rightarrow> 'c vector_store \<Rightarrow> bool" where
  "index_current db s \<longleftrightarrow> vs_index s = None \<or> vs_index s = build_index (ch_get db (vs_db s))"

lemma index_current_rebuild [simp]: "index_current db (rebuild_bm25 db s)"
  by (simp add: index_current_def rebuild_bm25_def)

lemma index_current_step: "index_current db s \<Longrightarrow> index_current db (vector_step db okapi op s)"
proof (cases op)
  case (Call c)
  then show "index_current db s \<Longrightarrow> ?thesis"
    by (cases c) (simp_all add: vector_add_def vector_clear_def index_current_def [of db "\<lparr>vs_db = x, vs_index = None\<rparr>" for x] Let_def)
qed (simp_all add: vector_update_def vector_delete_def store_search_def Let_def)

lemma index_current_run: "index_current db (fold (vector_step db okapi) ops (open_store c))"
proof (induction ops rule: rev_induct)
  case Nil
  then show ?case by (simp add: index_current_def open_store_def)
qed (simp add: index_current_step)

text \<open>The search with an index made afresh of all documents.\<close>

definition fresh_search :: "'c chroma \<Rightarrow> (string list list \<Rightarrow> string list \<Rightarrow> real list) \<Rightarrow> string \<Rightarrow> nat \<Rightarrow> real \<Rightarrow> string \<Rightarrow> 'c \<Rightarrow>
    (string, pyobj) dict list" where
  "fresh_search db okapi query k least account c =
    (if ch_get db c = [] then []
     else vector_search (ch_fetch db c) (ch_similar db c query (k * 2) (if account = [] then None else Some account))
       (index_scores okapi (build_index (ch_get db c)) query) k least)"

text \<open>
  C35: The index that the vector store keeps is never seen to be old: after any additions, updates,
  deletions, clearings and searches a search answers what it would answer with an index built at that
  moment from all documents of the collection.
\<close>

theorem search_uses_current_index:
  "fst (store_search db okapi query k least account (fold (vector_step db okapi) ops (open_store c))) =
    fresh_search db okapi query k least account (vs_db (fold (vector_step db okapi) ops (open_store c)))"
  using index_current_run [of db okapi ops c]
  by (auto simp: store_search_def fresh_search_def index_current_def rebuild_bm25_def Let_def)

text \<open>A second store on the same collection keeps the index it has built once, whatever the first one adds.\<close>

lemma second_store_stale:
  assumes "vs_index t = Some x" and "ch_get db c \<noteq> []"
  shows "fst (store_search db okapi query k least account (t\<lparr>vs_db := c\<rparr>)) =
    vector_search (ch_fetch db c) (ch_similar db c query (k * 2) (if account = [] then None else Some account))
      (index_scores okapi (Some x) query) k least"
  using assms by (simp add: store_search_def Let_def)

end
