(* ===== verification/Emotion_Memory.thy ===== *)
theory Emotion_Memory
  imports Limbic Long_Term Py_Text
begin

text \<open>
  The neural classifier of emotions (\<open>iris/limbic/classifier.py\<close>) around the model it calls, and the search
  for emotionally tagged episodes (\<open>iris/memory/long_term/emotion_search.py\<close>).

  The model is a function from a text to the Python value it returns; what is installed on the machine
  is the \<open>model_site\<close>. \<open>jp\<close> are the ten Japanese labels in the order of the table, \<open>rep\<close> is \<open>str\<close> of a
  value that is no text. Numbers are reals; in the search, \<open>None\<close> stands for a value that is no number, whose further treatment is
  left out.
\<close>

section \<open>Labels\<close>

definition label_map :: "string list \<Rightarrow> (string, plutchik) dict" where
  "label_map jp =
    [(''joy'', JOY), (''happy'', JOY), (''happiness'', JOY), (''sadness'', SADNESS), (''sad'', SADNESS), (''anger'', ANGER),
     (''angry'', ANGER), (''fear'', FEAR), (''surprise'', SURPRISE), (''surprised'', SURPRISE), (''disgust'', DISGUST),
     (''trust'', TRUST), (''anticipation'', ANTICIPATION)]
    @ zip jp [JOY, JOY, SADNESS, ANGER, FEAR, FEAR, SURPRISE, DISGUST, TRUST, ANTICIPATION]"

definition dicts_of :: "pyobj list \<Rightarrow> (string, pyobj) dict list" where
  "dicts_of xs = List.map_filter (\<lambda>x. case x of PDict d \<Rightarrow> Some d | _ \<Rightarrow> None) xs"

definition flatten_results :: "pyobj \<Rightarrow> (string, pyobj) dict list" where
  "flatten_results v = (case v of
      PList (PList nested # rest) \<Rightarrow> dicts_of nested
    | PList xs \<Rightarrow> dicts_of xs
    | _ \<Rightarrow> [])"

definition label_of :: "(pyobj \<Rightarrow> string) \<Rightarrow> (string, pyobj) dict \<Rightarrow> string" where
  "label_of rep d = py_lower (py_strip (case dget_or d ''label'' (PStr []) of PStr s \<Rightarrow> s | v \<Rightarrow> rep v))"

definition score_step :: "string list \<Rightarrow> (pyobj \<Rightarrow> string) \<Rightarrow> (string, pyobj) dict \<Rightarrow> (plutchik, real) dict \<Rightarrow> (plutchik, real) dict" where
  "score_step jp rep d scores =
    (case (dget (label_map jp) (label_of rep d), number_of (dget_or d ''score'' PNone)) of
       (Some e, Some x) \<Rightarrow> dput e (max 0 (min 1 x)) scores
     | _ \<Rightarrow> scores)"

definition map_to_plutchik :: "string list \<Rightarrow> (pyobj \<Rightarrow> string) \<Rightarrow> pyobj \<Rightarrow> (plutchik, real) dict" where
  "map_to_plutchik jp rep v = fold (score_step jp rep) (flatten_results v) []"

section \<open>Loading and calling the model\<close>

record model_site =
  st_transformers :: bool
  st_torch :: bool
  st_cuda :: bool
  st_mps :: bool
  st_pipeline :: "string \<Rightarrow> string \<Rightarrow> string + (string \<Rightarrow> pyobj)"

record classifier =
  cl_model :: string
  cl_device :: string
  cl_factory :: "(string \<Rightarrow> pyobj) option option"
  cl_pipeline :: "(string \<Rightarrow> pyobj) option"

definition new_classifier :: "string \<Rightarrow> string \<Rightarrow> (string \<Rightarrow> pyobj) option option \<Rightarrow> classifier" where
  "new_classifier model device factory =
    \<lparr>cl_model = or_else model ''koshin2001/Japanese-to-emotions'', cl_device = device, cl_factory = factory, cl_pipeline = None\<rparr>"

definition choose_device :: "model_site \<Rightarrow> string \<Rightarrow> string" where
  "choose_device site d =
    (if d = ''auto'' then if st_cuda site then ''cuda'' else if st_mps site then ''mps'' else ''cpu'' else d)"

text \<open>The \<open>RuntimeError\<close> of a missing dependency is \<open>Some\<close>. A factory may also give no pipeline at all.\<close>

definition load_model :: "model_site \<Rightarrow> classifier \<Rightarrow> classifier \<times> string option" where
  "load_model site c =
    (if cl_pipeline c \<noteq> None then (c, None)
     else case cl_factory c of
       Some p \<Rightarrow> (c\<lparr>cl_pipeline := p\<rparr>, None)
     | None \<Rightarrow>
        if \<not> st_transformers site then (c, Some ''transformers'')
        else if \<not> st_torch site then (c, Some ''torch'')
        else case st_pipeline site (cl_model c) (choose_device site (cl_device c)) of
          Inl missing \<Rightarrow> (c, Some missing)
        | Inr p \<Rightarrow> (c\<lparr>cl_pipeline := Some p\<rparr>, None))"

definition classify :: "string list \<Rightarrow> (pyobj \<Rightarrow> string) \<Rightarrow> model_site \<Rightarrow> string \<Rightarrow> classifier \<Rightarrow>
    classifier \<times> (string + (plutchik, real) dict)" where
  "classify jp rep site txt' c =
    (if py_strip txt' = [] then (c, Inr [])
     else case load_model site c of
       (c', Some e) \<Rightarrow> (c', Inl e)
     | (c', None) \<Rightarrow> (c', Inr (case cl_pipeline c' of None \<Rightarrow> [] | Some p \<Rightarrow> map_to_plutchik jp rep (p txt'))))"

section \<open>Emotional search\<close>

definition meta_of :: "episodic_entry \<Rightarrow> (string, pyobj) dict" where
  "meta_of e = (case ep_metadata e of Some (PDict d) \<Rightarrow> d | _ \<Rightarrow> [])"

definition is_tagged :: "episodic_entry \<Rightarrow> bool" where
  "is_tagged e \<longleftrightarrow> dget (meta_of e) ''type'' = Some (PStr ''emotion_tag'')"

definition intensity_of :: "episodic_entry \<Rightarrow> real option" where
  "intensity_of e = number_of (dget_or (meta_of e) ''intensity'' (PInt 0))"

definition pad_distance :: "real \<times> real \<times> real \<Rightarrow> (string, pyobj) dict \<Rightarrow> real option" where
  "pad_distance a d =
    (case (a, number_of (dget_or d ''valence'' (PInt 0)), number_of (dget_or d ''arousal'' (PInt 0)), number_of (dget_or d ''dominance'' (PInt 0))) of
       ((v, ar, dm), Some v', Some ar', Some dm') \<Rightarrow> Some (sqrt ((v - v')\<^sup>2 + (ar - ar')\<^sup>2 + (dm - dm')\<^sup>2))
     | _ \<Rightarrow> None)"

definition emotion_score :: "real \<times> real \<times> real \<Rightarrow> episodic_entry \<Rightarrow> real option" where
  "emotion_score a e =
    (case (pad_distance a (case dget (meta_of e) ''emotion'' of Some (PDict d) \<Rightarrow> d | _ \<Rightarrow> []), intensity_of e) of
       (Some far, Some i) \<Rightarrow> Some (i / max far 0.01) | _ \<Rightarrow> None)"

record emotion_memory =
  ey_entry :: episodic_entry
  ey_score :: real
  ey_intensity :: real

text \<open>\<open>sorted(\<dots>, reverse=True)\<close>, which keeps the order of equal keys, and the first \<open>k\<close>.\<close>

definition ranked :: "('a \<Rightarrow> real) \<Rightarrow> nat \<Rightarrow> 'a list \<Rightarrow> 'a list" where
  "ranked f k xs = take k (sort_key (\<lambda>x. - f x) xs)"

definition tagged_entries :: "string \<Rightarrow> episodic_store \<Rightarrow> episodic_entry list" where
  "tagged_entries room s =
    filter is_tagged (filter (\<lambda>e. room = [] \<or> ep_room e = room) (episodic_recent (int (es_max s)) [] [] s))"

definition search_emotional_typed :: "(real \<times> real \<times> real) option \<Rightarrow> nat \<Rightarrow> string \<Rightarrow> episodic_store \<Rightarrow> emotion_memory list option" where
  "search_emotional_typed current k room s =
    (let es = tagged_entries room s
     in if list_ex (\<lambda>e. intensity_of e = None \<or> (case current of None \<Rightarrow> False | Some a \<Rightarrow> emotion_score a e = None)) es then None
        else case current of
          None \<Rightarrow> Some (map (\<lambda>e. \<lparr>ey_entry = e, ey_score = 0, ey_intensity = the (intensity_of e)\<rparr>)
            (ranked (\<lambda>e. the (intensity_of e)) k es))
        | Some a \<Rightarrow> Some (map (\<lambda>e. \<lparr>ey_entry = e, ey_score = the (emotion_score a e), ey_intensity = the (intensity_of e)\<rparr>)
            (ranked (\<lambda>e. the (emotion_score a e)) k es)))"

definition lt_search_emotional :: "(real \<times> real \<times> real) option \<Rightarrow> nat \<Rightarrow> string \<Rightarrow> episodic_store option \<Rightarrow> emotion_memory list option" where
  "lt_search_emotional current k room episodic =
    (case episodic of None \<Rightarrow> Some [] | Some s \<Rightarrow> search_emotional_typed current k room s)"

section \<open>The classifier's answers\<close>

lemma score_step_cases: "P d \<Longrightarrow> (\<And>e y. P (dput e (max 0 (min 1 y)) d)) \<Longrightarrow> P (score_step jp rep i d)"
  by (simp add: score_step_def split: option.split)

definition scores_fine :: "(plutchik, real) dict \<Rightarrow> bool" where
  "scores_fine d \<longleftrightarrow> distinct (dkeys d) \<and> set (dvalues d) \<subseteq> {0..1}"

lemma scores_fine_dput: "scores_fine d \<Longrightarrow> scores_fine (dput e (max 0 (min 1 y)) d)"
proof -
  assume d: "scores_fine d"
  have "max 0 (min 1 y) \<in> {0..1::real}" by simp
  then have "set (dvalues (dput e (max 0 (min 1 y)) d)) \<subseteq> {0..1}"
    using dvalues_dput [of e "max 0 (min 1 y)" d] d by (meson insert_subset scores_fine_def subset_trans)
  then show ?thesis using d by (simp add: scores_fine_def del: max.coboundedI1 max.coboundedI2)
qed

lemma scores_fine_step: "scores_fine d \<Longrightarrow> scores_fine (score_step jp rep i d)"
  by (rule score_step_cases) (auto intro: scores_fine_dput)

text \<open>
  Whatever the model returns, the classifier answers a dictionary: every emotion at most once, every score between 0 and 1.
\<close>

lemma classifier_scores: "scores_fine (map_to_plutchik jp rep v)"
proof -
  have "scores_fine (fold (score_step jp rep) items d)" if "scores_fine d" for items d
    using that by (induction items arbitrary: d) (auto intro: scores_fine_step)
  from this [of "[]"] show ?thesis by (simp add: map_to_plutchik_def scores_fine_def)
qed

text \<open>Two labels of one emotion do not add up: the one listed last decides, be its score ever so low.\<close>

lemma last_label_wins:
  "map_to_plutchik jp rep (PList [PDict [(''label'', PStr ''joy''), (''score'', PFloat 1)],
      PDict [(''label'', PStr ''happiness''), (''score'', PFloat 0)]]) = [(JOY, 0)]"
proof -
  have l: "py_lower (py_strip ''joy'') = ''joy''" "py_lower (py_strip ''happiness'') = ''happiness''" by code_simp+
  show ?thesis
    by (simp add: map_to_plutchik_def flatten_results_def dicts_of_def map_filter_simps score_step_def label_of_def
        dget_or_def number_of_def l label_map_def)
qed

text \<open>A failed load leaves the classifier as it is, so that the next text tries again; a loaded model stays.\<close>

lemma load_once:
  "snd (load_model site c) \<noteq> None \<Longrightarrow> fst (load_model site c) = c"
  "cl_pipeline c \<noteq> None \<Longrightarrow> load_model site c = (c, None)"
  by (auto simp: load_model_def split: option.splits sum.splits if_splits)

section \<open>The ranking\<close>

lemma ranked_best:
  "length (ranked f k xs) = min k (length xs)"
  "set (ranked f k xs) \<subseteq> set xs"
  "sorted_wrt (\<lambda>x y. f y \<le> f x) (ranked f k xs)"
  "x \<in> set (ranked f k xs) \<Longrightarrow> y \<in> set (drop k (sort_key (\<lambda>x. - f x) xs)) \<Longrightarrow> f y \<le> f x"
proof -
  let ?s = "sort_key (\<lambda>x. - f x) xs"
  have s: "sorted_wrt (\<lambda>x y. f y \<le> f x) ?s"
    using sorted_sort_key [of "\<lambda>x. - f x" xs] by (simp add: sorted_map)
  then have "sorted_wrt (\<lambda>x y. f y \<le> f x) (take k ?s @ drop k ?s)" by simp
  then have p: "sorted_wrt (\<lambda>x y. f y \<le> f x) (take k ?s)" "\<And>x y. x \<in> set (take k ?s) \<Longrightarrow> y \<in> set (drop k ?s) \<Longrightarrow> f y \<le> f x"
    unfolding sorted_wrt_append by blast+
  show "length (ranked f k xs) = min k (length xs)" by (simp add: ranked_def min.commute)
  show "set (ranked f k xs) \<subseteq> set xs" using set_take_subset [of k ?s] by (simp add: ranked_def)
  show "sorted_wrt (\<lambda>x y. f y \<le> f x) (ranked f k xs)" using p(1) by (simp add: ranked_def)
  show "x \<in> set (ranked f k xs) \<Longrightarrow> y \<in> set (drop k ?s) \<Longrightarrow> f y \<le> f x" using p(2) by (simp add: ranked_def)
qed

text \<open>
  A search answers at most the number of episodes asked for, all of them tagged and of the room that
  was named, the best score first.
\<close>

lemma emotional_search_ranked:
  assumes "search_emotional_typed (Some a) k room s = Some ms"
  shows "length ms = min k (length (tagged_entries room s)) \<and> sorted_wrt (\<lambda>x y. ey_score y \<le> ey_score x) ms \<and>
    (\<forall>m \<in> set ms. ey_entry m \<in> set (es_entries s) \<and> is_tagged (ey_entry m) \<and> (room \<noteq> [] \<longrightarrow> ep_room (ey_entry m) = room))"
proof -
  let ?f = "\<lambda>e. the (emotion_score a e)"
  let ?r = "ranked ?f k (tagged_entries room s)"
  have ms: "ms = map (\<lambda>e. \<lparr>ey_entry = e, ey_score = ?f e, ey_intensity = the (intensity_of e)\<rparr>) ?r"
    using assms by (simp add: search_emotional_typed_def Let_def split: if_splits)
  have "set (tagged_entries room s) \<subseteq> {e \<in> set (es_entries s). is_tagged e \<and> (room \<noteq> [] \<longrightarrow> ep_room e = room)}"
    by (auto simp: tagged_entries_def episodic_recent_def scope_filter_def slice_last_def lastn_def dest: in_set_dropD in_set_takeD split: if_splits)
  then show ?thesis
    using ranked_best(1-3) [where f = ?f and k = k and xs = "tagged_entries room s"] by (auto simp: ms sorted_wrt_map)
qed

text \<open>An episode without metadata or with other metadata is never found.\<close>

lemma untagged_never_found:
  "\<forall>e \<in> set (es_entries s). \<not> is_tagged e \<Longrightarrow> search_emotional_typed current k room s = Some []"
proof -
  assume "\<forall>e \<in> set (es_entries s). \<not> is_tagged e"
  then have "tagged_entries room s = []"
    by (auto simp: tagged_entries_def filter_empty_conv episodic_recent_def scope_filter_def slice_last_def lastn_def dest: in_set_dropD in_set_takeD split: if_splits)
  then show ?thesis by (simp add: search_emotional_typed_def Let_def ranked_def split: option.split)
qed

end
