(* ===== verification/Worker.thy ===== *)
theory Worker
  imports Iris_Prelude
begin

text \<open>
  The worker thread that executes plans (\<open>iris/agency/execution/worker.py\<close>), with the parts of
  \<open>FlowExecutor\<close> (\<open>executor.py\<close>) and \<open>AgencyManager\<close> (\<open>iris/agency/manager.py\<close>) that stop it.

  \<open>proc\<close> is the coroutine \<open>process\<close> of a subclass, with the state it works on: it ends, raises an
  \<open>Exception\<close> (\<open>Failed\<close>, which the loop logs), or raises something else (\<open>Killed\<close>, which ends the
  thread). The thread moves in steps; what other threads do happens between them. The result \<open>None\<close> of
  \<open>thread_step\<close> says that the thread has ended or blocks in \<open>queue.get\<close>.
\<close>

section \<open>The worker\<close>

datatype run_outcome = Completed | Failed | Killed

record ('a, 's) worker =
  wk_queue :: "'a option list"
  wk_running :: "'a option"
  wk_alive :: bool
  wk_closed :: bool
  wk_state :: 's

type_synonym ('a, 's) processor = "'a \<Rightarrow> 's \<Rightarrow> 's \<times> run_outcome"

definition new_worker :: "'s \<Rightarrow> ('a, 's) worker" where
  "new_worker s = \<lparr>wk_queue = [], wk_running = None, wk_alive = True, wk_closed = False, wk_state = s\<rparr>"

definition enqueue :: "'a \<Rightarrow> ('a, 's) worker \<Rightarrow> ('a, 's) worker" where
  "enqueue x w = w\<lparr>wk_queue := wk_queue w @ [Some x]\<rparr>"

text \<open>The loop: an item is taken, its coroutine runs to its end, and the next is taken. A closed event
  loop refuses to run anything; the exception is logged like any other.\<close>

definition thread_step :: "('a, 's) processor \<Rightarrow> ('a, 's) worker \<Rightarrow> ('a, 's) worker option" where
  "thread_step proc w =
    (if \<not> wk_alive w then None
     else case wk_running w of
       Some x \<Rightarrow> (case proc x (wk_state w) of
           (s, Killed) \<Rightarrow> Some (w\<lparr>wk_state := s, wk_running := None, wk_alive := False\<rparr>)
         | (s, _) \<Rightarrow> Some (w\<lparr>wk_state := s, wk_running := None\<rparr>))
     | None \<Rightarrow> (case wk_queue w of
           [] \<Rightarrow> None
         | None # q \<Rightarrow> Some (w\<lparr>wk_queue := q, wk_alive := False\<rparr>)
         | Some x # q \<Rightarrow> Some (if wk_closed w then w\<lparr>wk_queue := q\<rparr> else w\<lparr>wk_queue := q, wk_running := Some x\<rparr>)))"

fun thread_steps :: "('a, 's) processor \<Rightarrow> nat \<Rightarrow> ('a, 's) worker \<Rightarrow> ('a, 's) worker" where
  "thread_steps proc 0 w = w"
| "thread_steps proc (Suc n) w = (case thread_step proc w of None \<Rightarrow> w | Some w' \<Rightarrow> thread_steps proc n w')"

text \<open>\<open>shutdown\<close>: \<open>n\<close> is the number of steps the thread makes before \<open>join\<close> times out. \<open>loop.close\<close>
  raises while a coroutine runs on the loop.\<close>

definition worker_shutdown :: "('a, 's) processor \<Rightarrow> nat \<Rightarrow> ('a, 's) worker \<Rightarrow> ('a, 's) worker \<times> string option" where
  "worker_shutdown proc n w =
    (let w' = thread_steps proc n (w\<lparr>wk_queue := wk_queue w @ [None]\<rparr>)
     in if wk_running w' \<noteq> None then (w', Some ''Cannot close a running event loop'')
        else (w'\<lparr>wk_closed := True\<rparr>, None))"

text \<open>\<open>AgencyManager.shutdown\<close>: \<open>flush_memory\<close>, then \<open>FlowExecutor.shutdown\<close>, which flushes once more
  before it stops the thread. A flush that raises ends the call.\<close>

definition agency_shutdown :: "('s \<Rightarrow> 's \<times> bool) \<Rightarrow> ('a, 's) processor \<Rightarrow> nat \<Rightarrow> ('a, 's) worker \<Rightarrow>
    ('a, 's) worker \<times> string option" where
  "agency_shutdown flush proc n w =
    (case flush (wk_state w) of
       (s, False) \<Rightarrow> (w\<lparr>wk_state := s\<rparr>, Some ''flush'')
     | (s, True) \<Rightarrow> (case flush s of
           (s', False) \<Rightarrow> (w\<lparr>wk_state := s'\<rparr>, Some ''flush'')
         | (s', True) \<Rightarrow> worker_shutdown proc n (w\<lparr>wk_state := s'\<rparr>)))"

section \<open>Everything that happens to a worker\<close>

datatype 'a worker_event = Put 'a | Run | Stop_Worker nat

fun worker_act :: "('a, 's) processor \<Rightarrow> 'a worker_event \<Rightarrow> ('a, 's) worker \<Rightarrow> ('a, 's) worker" where
  "worker_act proc (Put x) w = enqueue x w"
| "worker_act proc Run w = thread_steps proc 1 w"
| "worker_act proc (Stop_Worker n) w = fst (worker_shutdown proc n w)"

definition worker_run :: "('a, 's) processor \<Rightarrow> 'a worker_event list \<Rightarrow> ('a, 's) worker \<Rightarrow> ('a, 's) worker" where
  "worker_run proc = fold (worker_act proc)"

text \<open>What has been put before the first shutdown.\<close>

fun submitted :: "'a worker_event list \<Rightarrow> 'a list" where
  "submitted [] = []"
| "submitted (Put x # as) = x # submitted as"
| "submitted (Run # as) = submitted as"
| "submitted (Stop_Worker n # as) = []"

definition stopped :: "'a worker_event list \<Rightarrow> bool" where
  "stopped as \<longleftrightarrow> (\<exists>a \<in> set as. case a of Stop_Worker n \<Rightarrow> True | _ \<Rightarrow> False)"

definition run_items :: "('a, 's) processor \<Rightarrow> 'a list \<Rightarrow> 's \<Rightarrow> 's" where
  "run_items proc = fold (\<lambda>x s. fst (proc x s))"

definition waiting_items :: "('a, 's) worker \<Rightarrow> 'a option list" where
  "waiting_items w = (case wk_running w of Some x \<Rightarrow> [Some x] | None \<Rightarrow> []) @ wk_queue w"

text \<open>The items put before the first shutdown are those already run and, in order, those the thread will
  still meet before the first stop signal.\<close>

definition worker_inv :: "('a, 's) processor \<Rightarrow> 's \<Rightarrow> 'a list \<Rightarrow> bool \<Rightarrow> ('a, 's) worker \<Rightarrow> bool" where
  "worker_inv proc s0 xs stop w \<longleftrightarrow> (\<exists>ran pend. xs = ran @ pend \<and> wk_state w = run_items proc ran s0 \<and>
     (wk_closed w \<longrightarrow> stop \<and> wk_running w = None) \<and>
     (wk_alive w \<and> \<not> wk_closed w \<longrightarrow>
        (if stop then \<exists>q. waiting_items w = map Some pend @ None # q else waiting_items w = map Some pend)))"

lemma worker_inv_new [simp]: "worker_inv proc s [] False (new_worker s)"
  by (simp add: worker_inv_def new_worker_def waiting_items_def run_items_def)

lemma worker_inv_step:
  assumes "worker_inv proc s0 xs stop w" and "thread_step proc w = Some w'"
  shows "worker_inv proc s0 xs stop w'"
proof -
  obtain ran pend where inv: "xs = ran @ pend" "wk_state w = run_items proc ran s0"
    "wk_closed w \<Longrightarrow> stop \<and> wk_running w = None"
    "wk_alive w \<Longrightarrow> \<not> wk_closed w \<Longrightarrow>
      (if stop then \<exists>q. waiting_items w = map Some pend @ None # q else waiting_items w = map Some pend)"
    using assms(1) unfolding worker_inv_def by blast
  have alive: "wk_alive w" using assms(2) by (auto simp: thread_step_def split: if_splits)
  show ?thesis
  proof (cases "wk_running w")
    case (Some x)
    then have open_loop: "\<not> wk_closed w" using inv(3) by auto
    have "\<exists>p. pend = x # p"
      using inv(4) [OF alive open_loop] Some
      by (cases pend) (auto simp: waiting_items_def split: if_splits)
    then obtain p where p: "pend = x # p" by blast
    have w': "wk_state w' = fst (proc x (wk_state w))" "wk_running w' = None" "wk_queue w' = wk_queue w"
        "wk_closed w' = wk_closed w"
      using assms(2) Some alive by (auto simp: thread_step_def split: prod.splits run_outcome.splits)
    have "wk_state w' = run_items proc (ran @ [x]) s0"
      by (simp add: w' run_items_def inv(2))
    moreover have "if stop then \<exists>q. waiting_items w' = map Some p @ None # q else waiting_items w' = map Some p"
      using inv(4) [OF alive open_loop] Some by (auto simp: waiting_items_def p w' split: if_splits)
    ultimately show ?thesis
      unfolding worker_inv_def using inv(1) p open_loop w'
      by (intro exI [of _ "ran @ [x]"] exI [of _ p]) auto
  next
    case None
    show ?thesis
      unfolding worker_inv_def using assms(2) None alive inv
      by (intro exI [of _ ran] exI [of _ pend])
        (auto simp: thread_step_def waiting_items_def split: list.splits option.splits if_splits)
  qed
qed

lemma worker_inv_steps: "worker_inv proc s0 xs stop w \<Longrightarrow> worker_inv proc s0 xs stop (thread_steps proc n w)"
  by (induction n arbitrary: w) (auto intro: worker_inv_step split: option.splits)

lemma waiting_append [simp]: "waiting_items (w\<lparr>wk_queue := wk_queue w @ l\<rparr>) = waiting_items w @ l"
  by (simp add: waiting_items_def split: option.split)

lemma worker_inv_put:
  assumes "worker_inv proc s0 xs stop w"
  shows "worker_inv proc s0 (if stop then xs else xs @ [x]) stop (enqueue x w)"
proof -
  obtain ran pend where inv: "xs = ran @ pend" "wk_state w = run_items proc ran s0"
    "wk_closed w \<Longrightarrow> stop \<and> wk_running w = None"
    "wk_alive w \<Longrightarrow> \<not> wk_closed w \<Longrightarrow>
      (if stop then \<exists>q. waiting_items w = map Some pend @ None # q else waiting_items w = map Some pend)"
    using assms unfolding worker_inv_def by blast
  show ?thesis
    unfolding worker_inv_def using inv
    by (intro exI [of _ ran] exI [of _ "if stop then pend else pend @ [x]"]) (auto simp: enqueue_def)
qed

lemma worker_inv_stop:
  assumes "worker_inv proc s0 xs stop w"
  shows "worker_inv proc s0 xs True (fst (worker_shutdown proc n w))"
proof -
  have "worker_inv proc s0 xs True (w\<lparr>wk_queue := wk_queue w @ [None]\<rparr>)"
  proof -
    obtain ran pend where inv: "xs = ran @ pend" "wk_state w = run_items proc ran s0"
      "wk_closed w \<Longrightarrow> stop \<and> wk_running w = None"
      "wk_alive w \<Longrightarrow> \<not> wk_closed w \<Longrightarrow>
        (if stop then \<exists>q. waiting_items w = map Some pend @ None # q else waiting_items w = map Some pend)"
      using assms unfolding worker_inv_def by blast
    show ?thesis
      unfolding worker_inv_def using inv
      by (intro exI [of _ ran] exI [of _ pend]) (cases stop, auto)
  qed
  from worker_inv_steps [OF this, of n] show ?thesis
    by (auto simp: worker_shutdown_def Let_def worker_inv_def)
qed

lemma submitted_snoc:
  "submitted (as @ [a]) = (case a of Put x \<Rightarrow> if stopped as then submitted as else submitted as @ [x] | _ \<Rightarrow> submitted as)"
  by (induction as rule: submitted.induct) (auto simp: stopped_def split: worker_event.splits)

lemma worker_inv_run: "worker_inv proc s0 (submitted as) (stopped as) (worker_run proc as (new_worker s0))"
proof (induction as rule: rev_induct)
  case Nil
  then show ?case by (simp add: worker_run_def stopped_def)
next
  case (snoc a as)
  have "worker_run proc (as @ [a]) (new_worker s0) = worker_act proc a (worker_run proc as (new_worker s0))"
    by (simp add: worker_run_def)
  moreover have "stopped (as @ [a]) \<longleftrightarrow> stopped as \<or> (case a of Stop_Worker n \<Rightarrow> True | _ \<Rightarrow> False)"
    by (auto simp: stopped_def)
  ultimately show ?case
    using snoc worker_inv_put [OF snoc] worker_inv_stop [OF snoc] worker_inv_steps [OF snoc, of 1]
    by (cases a) (auto simp: submitted_snoc split: if_splits)
qed

text \<open>
  C20: The worker runs plans one after the other and in the order in which they were submitted: whatever
  is submitted and however the calls interleave with the thread, what has been run so far is a beginning
  of what was submitted before the first shutdown, each item once, whether it failed or not; nothing
  submitted later is ever run.
\<close>

theorem worker_runs_in_order:
  "\<exists>n. wk_state (worker_run proc as (new_worker s0)) = run_items proc (take n (submitted as)) s0"
proof -
  obtain ran pend where "submitted as = ran @ pend" "wk_state (worker_run proc as (new_worker s0)) = run_items proc ran s0"
    using worker_inv_run [of proc s0 as] unfolding worker_inv_def by blast
  then show ?thesis by (intro exI [of _ "length ran"]) simp
qed

section \<open>Stopping\<close>

text \<open>Steps the thread needs at most until it meets the stop signal.\<close>

lemma drain:
  assumes "\<And>x s. snd (proc x s) \<noteq> Killed" and "wk_alive w" and "\<not> wk_closed w"
    and "waiting_items w = map Some xs @ None # q" and "2 * length xs < n"
  shows "thread_steps proc n w = w\<lparr>wk_state := run_items proc xs (wk_state w), wk_running := None, wk_alive := False, wk_queue := q\<rparr>"
  using assms(2-)
proof (induction xs arbitrary: w n)
  case Nil
  then obtain m where n: "n = Suc m" by (cases n) auto
  have q: "wk_running w = None" "wk_queue w = None # q"
    using Nil(3) by (auto simp: waiting_items_def split: option.splits)
  have "thread_step proc (w\<lparr>wk_queue := q, wk_alive := False\<rparr>) = None" by (simp add: thread_step_def)
  then have "thread_steps proc m (w\<lparr>wk_queue := q, wk_alive := False\<rparr>) = w\<lparr>wk_queue := q, wk_alive := False\<rparr>"
    by (cases m) simp_all
  then show ?case
    using Nil(1) q by (simp add: n thread_step_def run_items_def)
next
  case (Cons x xs)
  have fin: "thread_steps proc m v = w\<lparr>wk_state := run_items proc (x # xs) (wk_state w), wk_running := None, wk_alive := False, wk_queue := q\<rparr>"
    if v: "v = w\<lparr>wk_queue := map Some xs @ None # q, wk_running := Some x\<rparr>" and m: "2 * length xs + 1 < m" for m v
  proof -
    obtain k where k: "m = Suc k" "2 * length xs < k" using m by (cases m) auto
    obtain s where s: "proc x (wk_state w) = (s, Completed) \<or> proc x (wk_state w) = (s, Failed)"
      using assms(1) [of x "wk_state w"] by (cases "proc x (wk_state w)", cases "snd (proc x (wk_state w))") auto
    have "thread_steps proc m v = thread_steps proc k (v\<lparr>wk_state := s, wk_running := None\<rparr>)"
      using s Cons.prems(1) by (auto simp: k v thread_step_def)
    also have "\<dots> = (v\<lparr>wk_state := s, wk_running := None\<rparr>)\<lparr>wk_state := run_items proc xs s, wk_running := None, wk_alive := False, wk_queue := q\<rparr>"
      using Cons.IH [of "v\<lparr>wk_state := s, wk_running := None\<rparr>" k] Cons.prems k(2) by (simp add: v waiting_items_def)
    finally show ?thesis using s by (auto simp: v run_items_def)
  qed
  show ?case
  proof (cases "wk_running w")
    case (Some y)
    then have "w = w\<lparr>wk_queue := map Some xs @ None # q, wk_running := Some x\<rparr>"
      using Cons.prems(3) by (simp add: waiting_items_def)
    then show ?thesis using fin Cons.prems(4) by auto
  next
    case None
    then have "wk_queue w = Some x # map Some xs @ None # q" using Cons.prems(3) by (simp add: waiting_items_def)
    moreover obtain k where "n = Suc k" "2 * length xs + 1 < k" using Cons.prems(4) by (cases n) auto
    ultimately show ?thesis
      using fin [of _ k] Cons.prems(1,2) None by (simp add: thread_step_def)
  qed
qed

lemma step_keeps_alive:
  assumes "\<And>x s. snd (proc x s) \<noteq> Killed" and "worker_inv proc s0 xs False w" and "wk_alive w" and "thread_step proc w = Some w'"
  shows "wk_alive w'"
proof (cases "wk_running w")
  case (Some x)
  have "snd (proc x (wk_state w)) \<noteq> Killed" by (rule assms(1))
  with assms(3,4) Some show ?thesis
    by (auto simp: thread_step_def split: prod.splits run_outcome.splits)
next
  case None
  obtain pend where "waiting_items w = map Some pend"
    using assms(2,3) unfolding worker_inv_def by auto
  with assms(3,4) None show ?thesis
    by (auto simp: thread_step_def waiting_items_def split: list.splits option.splits if_splits)
qed

lemma run_keeps_alive:
  assumes "\<And>x s. snd (proc x s) \<noteq> Killed" and "\<not> stopped as"
  shows "wk_alive (worker_run proc as (new_worker s0))"
  using assms(2)
proof (induction as rule: rev_induct)
  case Nil
  then show ?case by (simp add: worker_run_def new_worker_def)
next
  case (snoc a as)
  then have run: "\<not> stopped as" "\<not> (\<exists>n. a = Stop_Worker n)" by (auto simp: stopped_def)
  have "worker_run proc (as @ [a]) (new_worker s0) = worker_act proc a (worker_run proc as (new_worker s0))"
    by (simp add: worker_run_def)
  moreover have "wk_alive (worker_run proc as (new_worker s0))" using snoc run by simp
  moreover have "worker_inv proc s0 (submitted as) False (worker_run proc as (new_worker s0))"
    using worker_inv_run [of proc s0 as] run by simp
  ultimately show ?case
    using step_keeps_alive [OF assms(1)] run(2)
    by (cases a) (auto simp: enqueue_def split: option.splits)
qed


text \<open>Two plans, the second still waiting: the memory on disk (second component) lacks its turn.\<close>

definition save :: "string list \<times> string list \<Rightarrow> (string list \<times> string list) \<times> bool" where
  "save s = ((fst s, fst s), True)"

definition remember :: "string \<Rightarrow> string list \<times> string list \<Rightarrow> (string list \<times> string list) \<times> run_outcome" where
  "remember x s = ((fst s @ [x], snd s), Completed)"


text \<open>A thread that is still inside a plan when \<open>join\<close> times out keeps its loop, and \<open>shutdown\<close> raises.\<close>

lemma busy_shutdown_raises:
  "wk_running w = Some x \<Longrightarrow> \<exists>w'. worker_shutdown proc 0 w = (w', Some ''Cannot close a running event loop'')"
  by (simp add: worker_shutdown_def Let_def)

end
