(* ===== verification/Kernel_Process.thy ===== *)
theory Kernel_Process
  imports Plugin_Lifecycle Py_Text Worker
begin

text \<open>
  The life of the whole process: the kernel process (\<open>iris/kernel/process.py\<close>), its assembly
  (\<open>kernel/factory.py\<close>) and the supervisor with its console (\<open>kernel/supervisor.py\<close>).

  Plugin code and \<open>infra\<close> are the parameters of Plugin\_Lifecycle; \<open>handler\<close> builds the command
  handler from the services, \<open>io\<close> is \<open>IOManager.start\<close> and \<open>agency\<close> is \<open>AgencyManager.shutdown\<close> of the
  registered instance (an exception is \<open>Some\<close>). An object whose reference is dropped is gone for the
  program, but its threads are not: the operations also return the plugin manager they leave behind.
\<close>

section \<open>Assembly\<close>

datatype start_error = BuildError build_error | ProvideError registry_error | IoError string | StartError string

definition build_kernel where
  "build_kernel call infra ms disabled handler pm =
    (case build_all call infra ms disabled pm of
       (pm1, Some e) \<Rightarrow> (pm1, Some (BuildError e))
     | (pm1, None) \<Rightarrow>
        (case k_provide (''CommandHandler'', handler (k_di (pm_kernel pm1))) (pm_kernel pm1) of
           (k, Some e) \<Rightarrow> (pm1\<lparr>pm_kernel := k\<rparr>, Some (ProvideError e))
         | (k, None) \<Rightarrow> (pm1\<lparr>pm_kernel := k\<rparr>, None)))"

definition service :: "string \<Rightarrow> ('p, 'h, 'v, 'x) plugin_manager \<Rightarrow> 'v option" where
  "service ty pm = sc_resolve_optional ty ''default'' (k_di (pm_kernel pm))"

definition start_kernel_io :: "('v \<Rightarrow> ('h, 'v, 'x) kernel \<Rightarrow> ('h, 'v, 'x) kernel \<times> string option) \<Rightarrow>
    ('p, 'h, 'v, 'x) plugin_manager \<Rightarrow> ('p, 'h, 'v, 'x) plugin_manager \<times> string option" where
  "start_kernel_io io pm =
    (case service ''IOManager'' pm of
       None \<Rightarrow> (pm, None)
     | Some v \<Rightarrow> (case io v (pm_kernel pm) of (k, e) \<Rightarrow> (pm\<lparr>pm_kernel := k\<rparr>, e)))"

section \<open>The kernel process\<close>

record ('p, 'h, 'v, 'x) kernel_process =
  kp_manager :: "('p, 'h, 'v, 'x) plugin_manager option"

definition new_process :: "('p, 'h, 'v, 'x) kernel_process" where
  "new_process = \<lparr>kp_manager = None\<rparr>"

definition attach_components :: "('p, 'h, 'v, 'x) plugin_manager \<Rightarrow> ('p, 'h, 'v, 'x) kernel_process" where
  "attach_components pm = \<lparr>kp_manager = Some pm\<rparr>"

definition kp_shutdown_requested :: "('p, 'h, 'v, 'x) kernel_process \<Rightarrow> bool" where
  "kp_shutdown_requested p = (case kp_manager p of None \<Rightarrow> False | Some pm \<Rightarrow> ks_shutdown (k_state (pm_kernel pm)))"

text \<open>\<open>_cleanup\<close> of the held manager.\<close>

definition cleanup where
  "cleanup call p = (case kp_manager p of None \<Rightarrow> (p, None) | Some pm \<Rightarrow> (new_process, Some (pm_stop_all call pm)))"

text \<open>\<open>start\<close>: the process afterwards, the manager that was built, and the exception.\<close>

definition kp_start where
  "kp_start call infra ms disabled handler io pm0 p =
    (case build_kernel call infra ms disabled handler pm0 of
       (pm, Some e) \<Rightarrow> (case cleanup call p of (p', _) \<Rightarrow> (p', pm, Some e))
     | (pm, None) \<Rightarrow>
        (case start_kernel_io io pm of
           (pm1, Some e) \<Rightarrow> (new_process, pm_stop_all call pm1, Some (IoError e))
         | (pm1, None) \<Rightarrow>
            (case pm_start_all call pm1 of
               (pm2, Some n) \<Rightarrow> (new_process, pm_stop_all call pm2, Some (StartError n))
             | (pm2, None) \<Rightarrow> (attach_components pm2, pm2, None))))"

text \<open>\<open>shutdown\<close>: an exception of the agency's shutdown is not caught.\<close>

definition kp_shutdown :: "('p, ('h, 'v, 'x) kernel) caller \<Rightarrow>
    ('v \<Rightarrow> ('h, 'v, 'x) kernel \<Rightarrow> ('h, 'v, 'x) kernel \<times> string option) \<Rightarrow>
    ('p, 'h, 'v, 'x) kernel_process \<Rightarrow>
    ('p, 'h, 'v, 'x) kernel_process \<times> ('p, 'h, 'v, 'x) plugin_manager option \<times> string option" where
  "kp_shutdown call agency p =
    (case kp_manager p of
       None \<Rightarrow> (p, None, None)
     | Some pm \<Rightarrow>
        (let k = (pm_kernel pm)\<lparr>k_state := request_shutdown (k_state (pm_kernel pm))\<rparr>
         in case (case service ''AgencyManager'' pm of None \<Rightarrow> (k, None) | Some v \<Rightarrow> agency v k) of
              (k', Some e) \<Rightarrow> (attach_components (pm\<lparr>pm_kernel := k'\<rparr>), Some (pm\<lparr>pm_kernel := k'\<rparr>), Some e)
            | (k', None) \<Rightarrow> (case cleanup call (attach_components (pm\<lparr>pm_kernel := k'\<rparr>)) of (p', pm') \<Rightarrow> (p', pm', None))))"

section \<open>Starting\<close>

lemma build_all_frozen: "build_all call infra ms disabled pm = (pm', None) \<Longrightarrow> sc_frozen (k_di (pm_kernel pm'))"
  by (auto simp: build_all_def freeze_kernel_def sc_freeze_def Let_def split: prod.splits option.splits)

text \<open>
  C19: The kernel never starts. Whatever plugins there are and whatever they do, \<open>start\<close> raises: at the
  latest when the command handler is registered as a service, since the container has been frozen
  when the plugins were initialised. Nothing is cleaned up: the process holds no components, and the
  plugin manager stays as the initialisation left it, so that no initialised plugin is stopped.
\<close>

theorem kernel_never_starts:
  "kp_start call infra ms disabled handler io pm new_process =
    (new_process, fst (build_all call infra ms disabled pm),
     Some (case snd (build_all call infra ms disabled pm) of
        Some e \<Rightarrow> BuildError e | None \<Rightarrow> ProvideError (Frozen ''CommandHandler'')))"
proof (cases "build_all call infra ms disabled pm")
  case (Pair pm' e)
  show ?thesis
  proof (cases e)
    case None
    with Pair have "sc_frozen (k_di (pm_kernel pm'))" by (auto intro: build_all_frozen)
    then have "k_provide (''CommandHandler'', v) (pm_kernel pm') = (pm_kernel pm', Some (Frozen ''CommandHandler''))" for v
      by (simp add: k_provide_def sc_provide_frozen)
    with Pair None show ?thesis
      by (simp add: kp_start_def build_kernel_def cleanup_def new_process_def)
  qed (use Pair in \<open>simp add: kp_start_def build_kernel_def cleanup_def new_process_def\<close>)
qed


section \<open>Stopping\<close>

text \<open>The agency layer of the program: its worker lives in the shared state of the kernel.\<close>

definition agency_of where
  "agency_of flush proc n v k =
    (case agency_shutdown flush proc n (k_ext k) of (w, e) \<Rightarrow> (k\<lparr>k_ext := w\<rparr>, e))"

lemma pm_stop_all_targets:
  "n \<in> set (lc_order (pm_lifecycle pm)) \<Longrightarrow> stop_target (lc_plugins (pm_lifecycle (pm_stop_all call pm))) n = None"
  using stop_loop_target [of call "rev (lc_order (pm_lifecycle pm))" "lc_plugins (pm_lifecycle pm)"
      "notify_pre_shutdown call (lc_order (pm_lifecycle pm)) (lc_plugins (pm_lifecycle pm)) (pm_kernel pm)" n]
  by (auto simp: pm_stop_all_def stop_all_def Let_def split: prod.split)

text \<open>
  When the shutdown of the agency layer returns, the shutdown of the kernel process stops every plugin
  of the start order that still runs and can be reached, drops all components, and a second call does
  nothing. When it raises, the exception ends the shutdown: not one plugin is stopped, and the process
  keeps its components.
\<close>

theorem shutdown_stops_plugins_unless_agency_raises:
  assumes "kp_manager p = Some pm" and "service ''AgencyManager'' pm = Some v"
    and "agency v ((pm_kernel pm)\<lparr>k_state := request_shutdown (k_state (pm_kernel pm))\<rparr>) = (k, e)"
  shows "case e of
      None \<Rightarrow> (\<exists>pm'. kp_shutdown call agency p = (new_process, Some pm', None) \<and>
        (\<forall>n \<in> set (lc_order (pm_lifecycle pm)). stop_target (lc_plugins (pm_lifecycle pm')) n = None) \<and>
        kp_shutdown call agency new_process = (new_process, None, None))
    | Some err \<Rightarrow> (\<exists>p' pm'. kp_shutdown call agency p = (p', Some pm', Some err) \<and> kp_manager p' = Some pm' \<and>
        pm_lifecycle pm' = pm_lifecycle pm)"
proof (cases e)
  case None
  let ?pm = "pm\<lparr>pm_kernel := k\<rparr>"
  have "kp_shutdown call agency p = (new_process, Some (pm_stop_all call ?pm), None)"
    using assms None by (simp add: kp_shutdown_def cleanup_def attach_components_def Let_def)
  moreover have "stop_target (lc_plugins (pm_lifecycle (pm_stop_all call ?pm))) n = None"
    if "n \<in> set (lc_order (pm_lifecycle pm))" for n
    using pm_stop_all_targets [of n ?pm call] that by simp
  ultimately show ?thesis
    using None by (simp add: kp_shutdown_def new_process_def)
next
  case (Some err)
  then show ?thesis
    using assms by (simp add: kp_shutdown_def attach_components_def Let_def)
qed

text \<open>
  A plan that is still executed when the worker's \<open>join\<close> times out, such as a slow call of the
  model, prevents the shutdown: closing the running event loop raises, and no plugin is stopped,
  although the kernel has been asked to shut down.
\<close>

theorem busy_worker_prevents_cleanup:
  assumes "kp_manager p = Some pm" and "service ''AgencyManager'' pm = Some v"
    and "wk_running (k_ext (pm_kernel pm)) = Some plan" and "\<And>s. snd (flush s)"
  shows "\<exists>p' pm'. kp_shutdown call (agency_of flush proc 0) p = (p', Some pm', Some ''Cannot close a running event loop'') \<and>
    pm_lifecycle pm' = pm_lifecycle pm \<and> kp_shutdown_requested p'"
proof -
  define f where "f = (\<lambda>s. fst (flush s))"
  have flush: "flush s = (f s, True)" for s using assms(4) [of s] by (cases "flush s") (simp add: f_def)
  let ?k = "(pm_kernel pm)\<lparr>k_state := request_shutdown (k_state (pm_kernel pm))\<rparr>"
  obtain w where "agency_shutdown flush proc 0 (k_ext ?k) = (w, Some ''Cannot close a running event loop'')"
    using assms(3) by (simp add: agency_shutdown_def flush worker_shutdown_def Let_def)
  then show ?thesis
    using assms(1,2)
    by (simp add: kp_shutdown_def attach_components_def agency_of_def Let_def kp_shutdown_requested_def request_shutdown_def)
qed

text \<open>Stopping, and the two ways it ends: a kernel with the agency's service and a worker.\<close>

definition one_plugin :: "(unit, unit, unit, (string, unit) worker) plugin_manager" where
  "one_plugin = \<lparr>pm_lifecycle = \<lparr>lc_plugins = [(''memory'', \<lparr>pi_manifest = memory_manifest,
       pi_module = Some \<lparr>md_name = ''memory'', md_plugin = Some (), md_classes = [], md_self = None\<rparr>, pi_state = READY\<rparr>)],
       lc_order = [''memory''], lc_builtin = []\<rparr>,
     pm_kernel = \<lparr>k_di = \<lparr>sc_services = [((''AgencyManager'', ''default''), ())], sc_frozen = True\<rparr>,
       k_hooks = new_hook_registry, k_state = new_kernel_state, k_ext = enqueue ''plan'' (new_worker ())\<rparr>\<rparr>"

abbreviation calm :: "(unit, 'w) caller" where
  "calm \<equiv> \<lambda>p k w. (w, True)"

abbreviation no_flush :: "unit \<Rightarrow> unit \<times> bool" where
  "no_flush \<equiv> \<lambda>s. (s, True)"

abbreviation finish :: "(string, unit) processor" where
  "finish \<equiv> \<lambda>x s. (s, Completed)"

section \<open>The supervisor\<close>

text \<open>
  The main thread waits for a reason to stop, the console thread reads lines; a signal handler runs in
  the main thread. \<open>su_begun\<close> and \<open>su_completed\<close> count the calls of the kernel's shutdown, which is taken to
  return. When the main thread is done the process ends, and with it the console thread, a daemon.
\<close>

datatype line_action = Exit_Line | Hint_Line | Command_Line string string

definition parse_line :: "string \<Rightarrow> line_action" where
  "parse_line line =
    (if py_lower line \<in> {''exit'', ''quit''} then Exit_Line
     else if \<not> starts_with ''/'' line then Hint_Line
     else (case split_command (drop 1 line) of (name, args) \<Rightarrow> Command_Line name args))"

datatype main_state = Waiting | MainStopping | MainDone
datatype console_state = Reading | ConsoleStopping | ConsoleDone

record supervisor =
  su_requested :: bool
  su_kernel :: bool
  su_main :: main_state
  su_console :: console_state
  su_begun :: nat
  su_completed :: nat

definition new_supervisor :: supervisor where
  "new_supervisor = \<lparr>su_requested = False, su_kernel = False, su_main = Waiting, su_console = Reading, su_begun = 0, su_completed = 0\<rparr>"

text \<open>What happens: one round of the main loop, the end of a shutdown in either thread, a signal, a line
  or the end of the console's input, and a shutdown command from elsewhere.\<close>

datatype sup_event = MainRound | MainStopped | Signal | Line string | Eof | ConsoleStopped | KernelRequest

definition begin_shutdown :: "supervisor \<Rightarrow> supervisor" where
  "begin_shutdown s = s\<lparr>su_requested := True, su_begun := Suc (su_begun s)\<rparr>"

text \<open>\<open>cmd\<close> says whether the command handler returns; the handler of \<open>shutdown\<close> asks the kernel.\<close>

definition console_line :: "(string \<Rightarrow> string \<Rightarrow> bool) \<Rightarrow> string \<Rightarrow> supervisor \<Rightarrow> supervisor" where
  "console_line cmd text s =
    (let again = s\<lparr>su_console := if su_requested s then ConsoleDone else Reading\<rparr>; line = py_strip text
     in if line = [] then again
        else case parse_line line of
          Exit_Line \<Rightarrow> (begin_shutdown s)\<lparr>su_console := ConsoleStopping\<rparr>
        | Hint_Line \<Rightarrow> again
        | Command_Line name args \<Rightarrow>
            if \<not> cmd name args then s\<lparr>su_console := ConsoleDone\<rparr>
            else if name = ''shutdown'' then s\<lparr>su_kernel := True, su_console := ConsoleDone\<rparr>
            else again)"

definition sup_step :: "(string \<Rightarrow> string \<Rightarrow> bool) \<Rightarrow> supervisor \<Rightarrow> sup_event \<Rightarrow> supervisor option" where
  "sup_step cmd s e =
    (if su_main s = MainDone then None
     else case e of
       MainRound \<Rightarrow> if su_main s \<noteq> Waiting then None
         else if su_requested s then Some (s\<lparr>su_main := MainDone\<rparr>)
         else if su_kernel s then Some ((begin_shutdown s)\<lparr>su_main := MainStopping\<rparr>)
         else Some s
     | MainStopped \<Rightarrow> if su_main s = MainStopping then Some (s\<lparr>su_completed := Suc (su_completed s), su_main := MainDone\<rparr>) else None
     | Signal \<Rightarrow> Some (if su_requested s then s else (begin_shutdown s)\<lparr>su_main := MainStopping\<rparr>)
     | Line text \<Rightarrow> if su_console s = Reading then Some (console_line cmd text s) else None
     | Eof \<Rightarrow> if su_console s = Reading then Some (s\<lparr>su_console := ConsoleDone\<rparr>) else None
     | ConsoleStopped \<Rightarrow> if su_console s = ConsoleStopping
         then Some (s\<lparr>su_completed := Suc (su_completed s), su_console := ConsoleDone\<rparr>) else None
     | KernelRequest \<Rightarrow> Some (s\<lparr>su_kernel := True\<rparr>))"

fun sup_run :: "(string \<Rightarrow> string \<Rightarrow> bool) \<Rightarrow> supervisor \<Rightarrow> sup_event list \<Rightarrow> supervisor option" where
  "sup_run cmd s [] = Some s"
| "sup_run cmd s (e # es) = (case sup_step cmd s e of None \<Rightarrow> None | Some s' \<Rightarrow> sup_run cmd s' es)"

definition exit_typed :: "sup_event \<Rightarrow> bool" where
  "exit_typed e = (case e of Line text \<Rightarrow> py_strip text \<noteq> [] \<and> parse_line (py_strip text) = Exit_Line | _ \<Rightarrow> False)"

definition orderly :: "supervisor \<Rightarrow> bool" where
  "orderly s \<longleftrightarrow> (su_requested s \<longleftrightarrow> su_main s \<noteq> Waiting) \<and> su_console s \<noteq> ConsoleStopping \<and>
     su_begun s = (if su_main s = Waiting then 0 else 1) \<and> su_completed s = (if su_main s = MainDone then 1 else 0)"

lemma orderly_step: "orderly s \<Longrightarrow> sup_step cmd s e = Some s' \<Longrightarrow> \<not> exit_typed e \<Longrightarrow> orderly s'"
  by (auto simp: orderly_def sup_step_def console_line_def exit_typed_def begin_shutdown_def Let_def
      split: sup_event.splits if_splits line_action.splits)



text \<open>After \<open>exit\<close> the main thread may end the process in the middle of the shutdown the console began.\<close>

lemma exit_abandons_shutdown:
  "exit_typed (Line text) \<Longrightarrow> \<exists>s. sup_run cmd new_supervisor [Line text, MainRound] = Some s \<and>
    su_main s = MainDone \<and> su_begun s = 1 \<and> su_completed s = 0"
  by (simp add: sup_step_def console_line_def new_supervisor_def begin_shutdown_def exit_typed_def Let_def)

end
