(* ===== verification/Startup.thy ===== *)
theory Startup
  imports Kernel_Process Model_Config "HOL-Library.List_Lexorder" "HOL-Library.Char_ord"
begin

text \<open>
  The way into the program: \<open>main.py\<close>, the set-up of the logs (\<open>iris/kernel/logging.py\<close>), the search for
  plugins on the disk (\<open>kernel/plugin/loader.py\<close>) and the administration of the access token
  (\<open>iris/admin/__main__.py\<close>). Directory listings, the import of a module and what the providers' own
  programs answer are parameters.
\<close>

section \<open>Log files\<close>

definition digits :: "string \<Rightarrow> bool" where
  "digits s \<longleftrightarrow> list_all (\<lambda>c. 48 \<le> (of_char c :: nat) \<and> (of_char c :: nat) \<le> 57) s"

text \<open>
  \<open>_LOG_PATTERN\<close>: the prefix, 8 digits, an underscore, 6 digits, the suffix and possibly a number. Its end also matches
  before a final newline.
\<close>

definition chomp :: "string \<Rightarrow> string" where
  "chomp s = (if s \<noteq> [] \<and> last s = CHR 0x0A then butlast s else s)"

definition is_log :: "string \<Rightarrow> bool" where
  "is_log name =
    (let s = chomp name; rest = drop 24 s
     in take 5 s = ''iris_'' \<and> length s \<ge> 24 \<and> digits (take 8 (drop 5 s)) \<and> take 1 (drop 13 s) = ''_''
      \<and> digits (take 6 (drop 14 s)) \<and> take 4 (drop 20 s) = ''.log''
      \<and> (rest = [] \<or> take 1 rest = ''.'' \<and> drop 1 rest \<noteq> [] \<and> digits (drop 1 rest)))"

text \<open>\<open>split('.log')[0]\<close>\<close>

fun before_log :: "string \<Rightarrow> string" where
  "before_log [] = []"
| "before_log (c # s) = (if starts_with ''.log'' (c # s) then [] else c # before_log s)"

text \<open>The groups of one start of the program, and the names that are deleted.\<close>

definition log_groups :: "string list \<Rightarrow> (string, string list) dict" where
  "log_groups names = fold (\<lambda>f g. dput (before_log f) (dget_or g (before_log f) [] @ [f]) g) (filter is_log (sort names)) []"

definition old_logs :: "int \<Rightarrow> string list \<Rightarrow> string list" where
  "old_logs keep names =
    (if keep < 1 then []
     else let groups = log_groups names; bases = sort (dkeys groups)
       in if int (length bases) > keep
          then concat (map (\<lambda>b. dget_or groups b []) (take (length bases - nat keep) bases)) else [])"

definition cleanup_old_sessions :: "int \<Rightarrow> string list \<Rightarrow> string list" where
  "cleanup_old_sessions keep names = filter (\<lambda>f. f \<notin> set (old_logs keep names)) names"

text \<open>The first prefix in the order of the configuration decides the level of a module.\<close>

definition module_level_filter :: "(string, int) dict \<Rightarrow> string \<Rightarrow> int \<Rightarrow> bool" where
  "module_level_filter levels name level =
    (if name = [] then True
     else case find (\<lambda>(p, l). starts_with p name) levels of None \<Rightarrow> True | Some (p, l) \<Rightarrow> l \<le> level)"

text \<open>\<open>upper\<close> of the name of a level, which is ASCII.\<close>

definition upper_level :: "string \<Rightarrow> string" where
  "upper_level s = map (\<lambda>c. let n = (of_char c :: nat) in if 97 \<le> n \<and> n \<le> 122 then char_of (n - 32) else c) s"

record logging_config =
  lg_file_level :: string
  lg_console_level :: string
  lg_backup_count :: int
  lg_loggers :: "(string, int) dict"

record log_sink =
  sk_file :: "string option"
  sk_level :: string
  sk_filter :: "(string \<Rightarrow> int \<Rightarrow> bool) option"

text \<open>\<open>--verbose\<close>\<close>

definition verbose_logging :: "bool \<Rightarrow> logging_config \<Rightarrow> logging_config" where
  "verbose_logging verbose cfg = (if verbose then cfg\<lparr>lg_console_level := ''DEBUG''\<rparr> else cfg)"

text \<open>The sinks in their order, and the directory afterwards; \<open>stamp\<close> is the start time in the file's name.\<close>

definition setup_logging :: "logging_config \<Rightarrow> string \<Rightarrow> string list \<Rightarrow> log_sink list \<times> string list" where
  "setup_logging cfg stamp names =
    (let file = ''iris_'' @ stamp @ ''.log'';
         flt = (if lg_loggers cfg = [] then None else Some (module_level_filter (lg_loggers cfg)));
         names' = (if file \<in> set names then names else names @ [file])
     in (\<lparr>sk_file = Some file, sk_level = upper_level (lg_file_level cfg), sk_filter = flt\<rparr>
           # (if lg_console_level cfg = [] then []
              else [\<lparr>sk_file = None, sk_level = upper_level (lg_console_level cfg), sk_filter = flt\<rparr>]),
         cleanup_old_sessions (lg_backup_count cfg) names'))"

section \<open>The search for plugins\<close>

text \<open>What the import of a module leaves: an exception, no manifest, something else under that name, a manifest.\<close>

datatype 'p imported = ImportFails | NoManifest | OtherManifest | Manifest "'p module_obj" manifest

record 'p candidate_dir =
  cd_name :: string
  cd_is_dir :: bool
  cd_has_init :: bool
  cd_import :: "'p imported"

record 'p plugin_path =
  pp_is_dir :: bool
  pp_under_cwd :: bool
  pp_entries :: "'p candidate_dir list"

definition is_candidate :: "'p candidate_dir \<Rightarrow> bool" where
  "is_candidate c \<longleftrightarrow> \<not> starts_with ''_'' (cd_name c) \<and> cd_name c \<noteq> ''kernel'' \<and> cd_name c \<noteq> ''event'' \<and> cd_is_dir c \<and> cd_has_init c"

definition found :: "'p candidate_dir \<Rightarrow> ('p module_obj \<times> manifest) list" where
  "found c = (case cd_import c of Manifest md m \<Rightarrow> [(md, m)] | _ \<Rightarrow> [])"

text \<open>\<open>None\<close>: \<open>relative_to\<close> raises for a plugin outside the working directory.\<close>

fun discover_plugin_manifests :: "'p plugin_path list \<Rightarrow> ('p module_obj \<times> manifest) list option" where
  "discover_plugin_manifests [] = Some []"
| "discover_plugin_manifests (p # ps) =
    (let cs = (if pp_is_dir p then filter is_candidate (sort_key cd_name (pp_entries p)) else [])
     in if cs \<noteq> [] \<and> \<not> pp_under_cwd p then None
        else map_option (\<lambda>rest. concat (map found cs) @ rest) (discover_plugin_manifests ps))"

text \<open>\<open>discover_and_build_all\<close>: the manager's own services are provided before the search.\<close>

datatype discover_error = BuildFailed build_error | OutsideDirectory

definition discover_and_build_all where
  "discover_and_build_all call infra paths disabled pm =
    (case provide_all infra (pm_kernel pm) of
       (k, Some e) \<Rightarrow> (pm\<lparr>pm_kernel := k\<rparr>, Some (BuildFailed (ServiceError e)))
     | (k, None) \<Rightarrow>
        (case discover_plugin_manifests paths of
           None \<Rightarrow> (pm\<lparr>pm_kernel := k\<rparr>, Some OutsideDirectory)
         | Some ms \<Rightarrow> (case build_all call infra ms disabled pm of (pm', e) \<Rightarrow> (pm', map_option BuildFailed e))))"

section \<open>Main\<close>

definition group_models :: "model_entry list \<Rightarrow> (string, model_entry list) dict" where
  "group_models es = fold (\<lambda>e g. dput (en_provider e) (dget_or g (en_provider e) [] @ [e]) g) es []"

text \<open>Only Ollama has anything to prepare: every model must be there or be fetched.\<close>

definition ensure_environment :: "(string \<Rightarrow> bool) \<Rightarrow> provider_kind \<Rightarrow> model_entry list \<Rightarrow> model_config \<Rightarrow> bool" where
  "ensure_environment pulled p es mc \<longleftrightarrow>
    validate_environment p es mc \<and> (case p of OllamaProvider \<Rightarrow> list_all (\<lambda>e. pulled (en_name e)) es | _ \<Rightarrow> True)"

fun check_groups :: "(string \<Rightarrow> bool) \<Rightarrow> model_config \<Rightarrow> (string \<times> model_entry list) list \<Rightarrow> string + bool" where
  "check_groups pulled mc [] = Inr True"
| "check_groups pulled mc ((t, es) # gs) =
    (case get_provider_class provider_registry t of
       Inl e \<Rightarrow> Inl e
     | Inr p \<Rightarrow> (case check_groups pulled mc gs of Inl e \<Rightarrow> Inl e | Inr ok \<Rightarrow> Inr (ensure_environment pulled p es mc \<and> ok)))"

definition check_environment :: "(string \<Rightarrow> bool) \<Rightarrow> model_config \<Rightarrow> string + bool" where
  "check_environment pulled mc = check_groups pulled mc (group_models (mf_models mc))"

datatype main_end = ConfigError string | ProviderError string | Refused | Supervised bool

text \<open>\<open>run\<close>; \<open>config\<close> is the result of \<open>Config.load\<close>.\<close>

definition main_run :: "bool \<Rightarrow> (string \<Rightarrow> bool) \<Rightarrow> string + model_config \<Rightarrow> main_end" where
  "main_run debug pulled config =
    (case config of
       Inl e \<Rightarrow> ConfigError e
     | Inr mc \<Rightarrow>
        if debug then Supervised True
        else case check_environment pulled mc of
          Inl e \<Rightarrow> ProviderError e | Inr ok \<Rightarrow> if ok then Supervised False else Refused)"

section \<open>The access token\<close>

text \<open>The printed lines and the exit status.\<close>

definition cmd_show :: "string \<Rightarrow> string list \<times> nat" where
  "cmd_show token = (if token \<noteq> [] then ([token], 0) else ([''(not set)''], 1))"

text \<open>The new token, and the lines.\<close>

definition cmd_rotate :: "string \<Rightarrow> string \<Rightarrow> string \<times> string list" where
  "cmd_rotate fresh old =
    (fresh, (if old \<noteq> [] then [''Old token: '' @ old] else []) @ [''New token: '' @ fresh])"

section \<open>What the clean-up deletes\<close>

lemma dput_keys: "fst ` set (dput k v d) = insert k (fst ` set d)"
  using set_dkeys_dput [of k v d] by simp

lemma distinct_log_groups: "distinct (dkeys (log_groups names))"
proof -
  have "distinct (dkeys (fold (\<lambda>f g. dput (before_log f) (dget_or g (before_log f) [] @ [f]) g) fs g))" if "distinct (dkeys g)" for fs g
    using that by (induction fs arbitrary: g) auto
  then show ?thesis by (simp add: log_groups_def)
qed

lemma log_group: "dget_or (log_groups names) b [] = filter (\<lambda>f. before_log f = b) (filter is_log (sort names))"
proof -
  have "dget_or (fold (\<lambda>f g. dput (before_log f) (dget_or g (before_log f) [] @ [f]) g) fs g) b [] =
      dget_or g b [] @ filter (\<lambda>f. before_log f = b) fs" for fs g
    by (induction fs arbitrary: g) auto
  from this [of "filter is_log (sort names)" "[]"] show ?thesis by (simp add: log_groups_def dget_or_def)
qed

lemma log_bases: "set (dkeys (log_groups names)) = before_log ` {f \<in> set names. is_log f}"
proof -
  have "set (dkeys (fold (\<lambda>f g. dput (before_log f) (dget_or g (before_log f) [] @ [f]) g) fs g)) = before_log ` set fs \<union> set (dkeys g)" for fs g
    by (induction fs arbitrary: g) (auto simp: dput_keys)
  from this [of "filter is_log (sort names)" "[]"] show ?thesis by (simp add: log_groups_def)
qed

lemma in_take_sorted:
  fixes x :: "'a::linorder"
  assumes "sorted xs" and "distinct xs" and "x \<in> set xs"
  shows "x \<in> set (take (length xs - k) xs) \<longleftrightarrow> k \<le> card {y \<in> set xs. x < y}"
proof -
  obtain i where i: "i < length xs" "xs ! i = x" using assms(3) by (auto simp: in_set_conv_nth)
  have s: "sorted_wrt (<) xs" using assms(1,2) by (simp add: strict_sorted_iff)
  have "{y \<in> set xs. x < y} = set (drop (Suc i) xs)"
  proof (intro set_eqI iffI)
    fix y assume "y \<in> {y \<in> set xs. x < y}"
    then obtain j where j: "j < length xs" "xs ! j = y" "xs ! i < xs ! j" using i by (auto simp: in_set_conv_nth)
    then have "i < j" using s i(1) by (metis linorder_neqE_nat order.asym sorted_wrt_nth_less)
    then show "y \<in> set (drop (Suc i) xs)" using j by (auto simp: in_set_conv_nth intro!: exI [of _ "j - Suc i"])
  next
    fix y assume "y \<in> set (drop (Suc i) xs)"
    then obtain j where "j < length xs - Suc i" "xs ! (Suc i + j) = y" by (auto simp: in_set_conv_nth)
    then have "Suc i + j < length xs" "xs ! (Suc i + j) = y" by simp_all
    then show "y \<in> {y \<in> set xs. x < y}" using s i by (auto simp: sorted_wrt_nth_less)
  qed
  then have "card {y \<in> set xs. x < y} = length xs - Suc i" using assms(2) by (simp add: distinct_card)
  moreover have "x \<in> set (take (length xs - k) xs) \<longleftrightarrow> i < length xs - k"
  proof
    assume "x \<in> set (take (length xs - k) xs)"
    then obtain j where "j < length xs - k" "xs ! j = x" by (auto simp: in_set_conv_nth)
    then show "i < length xs - k" using nth_eq_iff_index_eq [OF assms(2), of i j] i by simp
  next
    assume "i < length xs - k"
    then show "x \<in> set (take (length xs - k) xs)" using i by (auto simp: in_set_conv_nth)
  qed
  ultimately show ?thesis using i(1) by auto
qed

text \<open>
  The clean-up deletes exactly the logs of the starts that at least \<open>keep\<close> newer starts have followed; every
  other file stays, and nothing is deleted with a number below 1.
\<close>

lemma cleanup_keeps_newest:
  "f \<in> set (cleanup_old_sessions keep names) \<longleftrightarrow>
    f \<in> set names \<and> \<not> (1 \<le> keep \<and> is_log f \<and> nat keep \<le> card {b \<in> before_log ` {g \<in> set names. is_log g}. before_log f < b})"
proof -
  let ?bases = "sort (dkeys (log_groups names))"
  let ?K = "before_log ` {g \<in> set names. is_log g}"
  have b: "sorted ?bases" "distinct ?bases" "set ?bases = ?K"
    using distinct_log_groups [of names] log_bases [of names] by simp_all
  have old: "f \<in> set (old_logs keep names) \<longleftrightarrow>
      1 \<le> keep \<and> f \<in> set names \<and> is_log f \<and> before_log f \<in> set (take (length ?bases - nat keep) ?bases)"
    by (cases "int (length ?bases) > keep") (auto simp: old_logs_def Let_def log_group)
  have "before_log f \<in> set (take (length ?bases - nat keep) ?bases) \<longleftrightarrow> nat keep \<le> card {c \<in> ?K. before_log f < c}"
    if "f \<in> set names" "is_log f"
    using in_take_sorted [OF b(1,2), of "before_log f" "nat keep"] b(3) that by auto
  with old show ?thesis by (auto simp: cleanup_old_sessions_def)
qed

text \<open>A file that the rotation of the logging library has renamed is no log to the clean-up.\<close>

lemma rotated_log_stays:
  "is_log ''iris_20240101_120000.log'' \<and> is_log ''iris_20240101_120000.log.2'' \<and>
   \<not> is_log ''iris_20240101_120000.2024-01-02_00-00-00_000000.log''"
  by code_simp

text \<open>A level for a package hides a level for one of its modules that is listed after it.\<close>

lemma package_hides_module:
  "starts_with p m \<Longrightarrow> m \<noteq> [] \<Longrightarrow> starts_with m name \<Longrightarrow>
    module_level_filter ((p, l) # (m, k) # levels) name level = (l \<le> level)"
proof -
  assume a: "starts_with p m" "m \<noteq> []" "starts_with m name"
  have "take (length p) m = p" "take (length m) name = m" using a by (simp_all add: starts_with_def)
  then have "take (length p) name = p" by (metis min.absorb1 length_take take_take min.cobounded1)
  moreover have "name \<noteq> []" using a by (auto simp: starts_with_def)
  ultimately show ?thesis by (simp add: module_level_filter_def starts_with_def)
qed

section \<open>What the search finds\<close>

text \<open>
  A plugin under a path outside the working directory, such as one in the home directory, does not
  just stay unknown: the search raises, whatever other paths hold, and the kernel is not built.
\<close>

lemma outside_plugin_raises:
  assumes "p \<in> set paths" and "pp_is_dir p" and "\<not> pp_under_cwd p" and "c \<in> set (pp_entries p)" and "is_candidate c"
  shows "discover_plugin_manifests paths = None"
    and "snd (discover_and_build_all call infra paths disabled pm) \<noteq> None"
proof -
  show none: "discover_plugin_manifests paths = None"
    using assms
  proof (induction paths)
    case (Cons q paths)
    then show ?case by (auto simp: Let_def filter_empty_conv)
  qed simp
  then show "snd (discover_and_build_all call infra paths disabled pm) \<noteq> None"
    by (simp add: discover_and_build_all_def split: prod.split option.split)
qed

text \<open>Otherwise every candidate directory with a manifest is found, in the order of paths and names.\<close>

lemma found_plugins:
  assumes "discover_plugin_manifests paths = Some ms"
  shows "set ms = {(md, m). \<exists>p \<in> set paths. pp_is_dir p \<and> (\<exists>c \<in> set (pp_entries p). is_candidate c \<and> cd_import c = Manifest md m)}"
  using assms
proof (induction paths arbitrary: ms)
  case (Cons p paths)
  let ?cs = "if pp_is_dir p then filter is_candidate (sort_key cd_name (pp_entries p)) else []"
  obtain rest where r: "discover_plugin_manifests paths = Some rest" "ms = concat (map found ?cs) @ rest"
    using Cons.prems by (auto simp: Let_def split: if_splits)
  have "set (concat (map found ?cs)) = {(md, m). pp_is_dir p \<and> (\<exists>c \<in> set (pp_entries p). is_candidate c \<and> cd_import c = Manifest md m)}"
    by (auto simp: found_def split: imported.splits)
  then show ?case using Cons.IH [OF r(1)] by (auto simp: r(2))
qed simp

section \<open>When the supervisor is reached\<close>

lemma group_models_keys: "set (dkeys (group_models es)) = en_provider ` set es"
proof -
  have "set (dkeys (fold (\<lambda>e g. dput (en_provider e) (dget_or g (en_provider e) [] @ [e]) g) es g)) = en_provider ` set es \<union> set (dkeys g)" for g
    by (induction es arbitrary: g) (auto simp: dput_keys)
  then show ?thesis by (simp add: group_models_def)
qed

lemma check_groups_error: "(\<exists>e. check_groups pulled mc gs = Inl e) \<longleftrightarrow> (\<exists>(t, es) \<in> set gs. dget provider_registry t = None)"
  by (induction gs) (auto simp: get_provider_class_def split: option.splits sum.splits)

text \<open>One model of an unknown provider ends the program with an exception, even if no role uses it.\<close>

lemma unknown_provider_ends_main:
  "(\<exists>e. main_run False pulled (Inr mc) = ProviderError e) \<longleftrightarrow> (\<exists>m \<in> set (mf_models mc). dget provider_registry (en_provider m) = None)"
proof -
  have "(\<exists>e. main_run False pulled (Inr mc) = ProviderError e) \<longleftrightarrow> (\<exists>e. check_environment pulled mc = Inl e)"
    by (auto simp: main_run_def split: sum.splits)
  also have "\<dots> \<longleftrightarrow> (\<exists>t \<in> set (dkeys (group_models (mf_models mc))). dget provider_registry t = None)"
    unfolding check_environment_def check_groups_error by force
  also have "\<dots> \<longleftrightarrow> (\<exists>m \<in> set (mf_models mc). dget provider_registry (en_provider m) = None)"
    unfolding group_models_keys by blast
  finally show ?thesis .
qed

end
