(* ===== verification/Llm_Context.thy ===== *)
theory Llm_Context
  imports Model_Config
begin

text \<open>
  Counting tokens (\<open>iris/llm/token_utils.py\<close>, \<open>tokenizer.py\<close>), the summary that stands for old
  messages when the context window fills (\<open>iris/llm/context.py\<close>), and the consolidator that cuts the
  history (\<open>iris/agency/execution/regulation/consolidator.py\<close>).

  The tokenizer's \<open>encode\<close> and the model that writes the summary are parameters; the model may raise.
  The Japanese texts of the prompt are in \<open>prompt_texts\<close>. Since the cache of a tokenizer does not change
  its counts (\<open>cached_counts_exact\<close>), the manager's operations do not carry it along.
\<close>

section \<open>Tokens\<close>

definition approx_tokens :: "string \<Rightarrow> int" where
  "approx_tokens s = \<lfloor>real (length s) * 1.3\<rfloor>"

record tokenizer =
  tk_encode :: "(string \<Rightarrow> nat) option"
  tk_cache :: "(string, int) dict"

definition token_cache_maxsize :: nat where
  "token_cache_maxsize = 2048"

text \<open>What is counted for a text that is not in the cache.\<close>

definition fresh_tokens :: "(string \<Rightarrow> nat) option \<Rightarrow> string \<Rightarrow> int" where
  "fresh_tokens enc s = (case enc of Some f \<Rightarrow> int (f s) | None \<Rightarrow> approx_tokens s)"

definition tk_estimate :: "string \<Rightarrow> tokenizer \<Rightarrow> int \<times> tokenizer" where
  "tk_estimate s t =
    (if s = [] then (0, t)
     else case dget (tk_cache t) s of
       Some n \<Rightarrow> (n, t)
     | None \<Rightarrow>
         (let n = fresh_tokens (tk_encode t) s;
              cache = (if token_cache_maxsize \<le> length (tk_cache t) then [] else tk_cache t)
          in (n, t\<lparr>tk_cache := dput s n cache\<rparr>)))"

definition estimate_tokens :: "string \<Rightarrow> tokenizer option \<Rightarrow> int \<times> tokenizer option" where
  "estimate_tokens s tk =
    (if s = [] then (0, tk)
     else case tk of Some t \<Rightarrow> (let (n, t') = tk_estimate s t in (n, Some t')) | None \<Rightarrow> (approx_tokens s, None))"

fun estimate_all :: "string list \<Rightarrow> tokenizer option \<Rightarrow> int list \<times> tokenizer option" where
  "estimate_all [] tk = ([], tk)"
| "estimate_all (s # ss) tk = (let (n, tk1) = estimate_tokens s tk; (ns, tk2) = estimate_all ss tk1 in (n # ns, tk2))"

definition estimate_messages_tokens :: "string list \<Rightarrow> tokenizer option \<Rightarrow> int \<times> tokenizer option" where
  "estimate_messages_tokens ss tk = (let (ns, tk') = estimate_all ss tk in (sum_list ns, tk'))"

definition tokenizer_inv :: "tokenizer \<Rightarrow> bool" where
  "tokenizer_inv t \<longleftrightarrow> length (tk_cache t) \<le> token_cache_maxsize \<and>
     (\<forall>s n. dget (tk_cache t) s = Some n \<longrightarrow> n = fresh_tokens (tk_encode t) s)"

lemma length_dput: "length (dput k v d) = (if k \<in> set (dkeys d) then length d else Suc (length d))"
  by (induction d) auto

lemma tk_estimate_inv:
  assumes "tokenizer_inv t"
  shows "tokenizer_inv (snd (tk_estimate s t)) \<and> tk_encode (snd (tk_estimate s t)) = tk_encode t \<and>
    fst (tk_estimate s t) = (if s = [] then 0 else fresh_tokens (tk_encode t) s)"
  using assms
  by (auto simp: tk_estimate_def tokenizer_inv_def Let_def length_dput token_cache_maxsize_def split: option.splits)

definition tokens_of :: "tokenizer option \<Rightarrow> string \<Rightarrow> int" where
  "tokens_of tk s = (if s = [] then 0 else case tk of None \<Rightarrow> approx_tokens s | Some t \<Rightarrow> fresh_tokens (tk_encode t) s)"

lemma estimate_all_inv:
  assumes "\<forall>t. tk = Some t \<longrightarrow> tokenizer_inv t"
  shows "fst (estimate_all ss tk) = map (tokens_of tk) ss \<and>
    (\<forall>t. snd (estimate_all ss tk) = Some t \<longrightarrow> tokenizer_inv t)"
  using assms
proof (induction ss arbitrary: tk)
  case (Cons s ss)
  let ?tk1 = "snd (estimate_tokens s tk)"
  have n: "fst (estimate_tokens s tk) = tokens_of tk s" "\<forall>t. ?tk1 = Some t \<longrightarrow> tokenizer_inv t" "tokens_of ?tk1 = tokens_of tk"
    using Cons.prems tk_estimate_inv [of _ s]
    by (auto simp: estimate_tokens_def tokens_of_def fun_eq_iff split_beta split: option.splits)
  with Cons.IH [of ?tk1] show ?case
    by (simp add: split_beta)
qed simp

text \<open>
  The cache of token counts never changes a count: whatever texts have been counted before, the count
  of a text is that of the tokenizer, and the cache never holds more than 2048 texts.
\<close>

theorem cached_counts_exact:
  fixes enc :: "(string \<Rightarrow> nat) option" and before ss :: "string list"
  defines "tk \<equiv> snd (estimate_all before (Some \<lparr>tk_encode = enc, tk_cache = []\<rparr>))"
  shows "\<exists>t. tk = Some t \<and> length (tk_cache t) \<le> token_cache_maxsize \<and>
    fst (estimate_messages_tokens ss tk) = (\<Sum>s\<leftarrow>ss. if s = [] then 0 else fresh_tokens enc s)"
proof -
  have "\<exists>t. snd (estimate_all ss (Some t0)) = Some t \<and> tk_encode t = tk_encode t0" for ss t0
  proof (induction ss arbitrary: t0)
    case (Cons s ss)
    then show ?case
      by (auto simp: estimate_tokens_def tk_estimate_def Let_def split_beta split: option.splits) (metis tokenizer.select_convs(1) tokenizer.surjective tokenizer.update_convs(2))+
  qed simp
  then obtain t where t: "tk = Some t" "tk_encode t = enc"
    unfolding tk_def by fastforce
  have "tokenizer_inv \<lparr>tk_encode = enc, tk_cache = []\<rparr>"
    by (simp add: tokenizer_inv_def)
  with estimate_all_inv [of "Some \<lparr>tk_encode = enc, tk_cache = []\<rparr>" before] t have "tokenizer_inv t"
    by (simp add: tk_def)
  moreover have "tokens_of (Some t) = (\<lambda>s. if s = [] then 0 else fresh_tokens enc s)"
    using t(2) by (simp add: tokens_of_def fun_eq_iff)
  ultimately show ?thesis
    using estimate_all_inv [of tk ss] t by (simp add: estimate_messages_tokens_def split_beta tokenizer_inv_def)
qed

section \<open>The summary of old messages\<close>

datatype ctx_role = SystemRole | HumanRole | AiRole | ToolRole

fun role_name :: "ctx_role \<Rightarrow> string" where
  "role_name SystemRole = ''system''"
| "role_name HumanRole = ''human''"
| "role_name AiRole = ''ai''"
| "role_name ToolRole = ''tool''"

record ctx_message =
  cx_role :: ctx_role
  cx_content :: string

definition summary_header :: string where
  "summary_header = ''## Session Summary''"

record prompt_texts =
  px_compact :: string
  px_previous :: string
  px_new :: string
  px_cut :: string

record context_manager =
  cm_compact_model :: "string option"
  cm_tokenizers :: "(string, tokenizer) dict"
  cm_default_model :: "string option"
  cm_summary :: string

text \<open>
  The model that summarises: from the two messages of the request to a text, \<open>None\<close> when it raises;
  the manager may have been built without one.
\<close>

type_synonym summarizer = "(ctx_message list \<Rightarrow> string option) option"

definition get_tokenizer :: "context_manager \<Rightarrow> string option \<Rightarrow> tokenizer option" where
  "get_tokenizer cm n =
    (case n of
       Some k \<Rightarrow> if k \<noteq> [] \<and> dget (cm_tokenizers cm) k \<noteq> None then dget (cm_tokenizers cm) k
         else (case cm_default_model cm of None \<Rightarrow> None | Some d \<Rightarrow> if d = [] then None else dget (cm_tokenizers cm) d)
     | None \<Rightarrow> (case cm_default_model cm of None \<Rightarrow> None | Some d \<Rightarrow> if d = [] then None else dget (cm_tokenizers cm) d))"

definition newline :: string where
  "newline = [CHR 0x0A]"

definition is_summary :: "ctx_message \<Rightarrow> bool" where
  "is_summary m \<longleftrightarrow> cx_role m = SystemRole \<and> starts_with summary_header (cx_content m)"

definition extract_previous_summary :: "context_manager \<Rightarrow> ctx_message list \<Rightarrow> string \<times> ctx_message list" where
  "extract_previous_summary cm ms =
    (let previous = foldl (\<lambda>p m. if is_summary m
           then py_strip (dropWhile (\<lambda>c. c = CHR 0x0A) (drop (length summary_header) (cx_content m))) else p) [] ms
     in (or_else previous (cm_summary cm), filter (\<lambda>m. \<not> is_summary m) ms))"

definition turn_text :: "prompt_texts \<Rightarrow> ctx_message \<Rightarrow> string" where
  "turn_text px m = role_name (cx_role m) @ '': '' @
    (if 1000 < length (cx_content m) then take 1000 (cx_content m) @ px_cut px else cx_content m)"

definition build_user_prompt :: "prompt_texts \<Rightarrow> string \<Rightarrow> ctx_message list \<Rightarrow> string" where
  "build_user_prompt px previous ms =
    (if previous \<noteq> [] then px_previous px @ newline @ previous @ newline @ newline else [])
    @ px_new px @ newline @ join_with newline (map (turn_text px) ms)"

definition summarize :: "prompt_texts \<Rightarrow> summarizer \<Rightarrow> context_manager \<Rightarrow> ctx_message list \<Rightarrow> string" where
  "summarize px llm cm ms = (case llm of
     None \<Rightarrow> cm_summary cm
   | Some ask \<Rightarrow>
       if ms = [] then cm_summary cm
       else (let (previous, new) = extract_previous_summary cm ms
         in case ask [\<lparr>cx_role = SystemRole, cx_content = px_compact px\<rparr>,
                      \<lparr>cx_role = HumanRole, cx_content = build_user_prompt px previous new\<rparr>] of
              None \<Rightarrow> cm_summary cm
            | Some s \<Rightarrow> py_strip s))"

definition compact_messages :: "prompt_texts \<Rightarrow> summarizer \<Rightarrow> ctx_message list \<Rightarrow> int \<Rightarrow> context_manager \<Rightarrow> string \<times> context_manager" where
  "compact_messages px llm ms keep cm =
    (let s = summarize px llm cm (slice_to (- keep) ms) in (s, cm\<lparr>cm_summary := s\<rparr>))"

text \<open>The tokens of a history, by the tokenizer of the model or the approximation.\<close>

definition history_tokens :: "context_manager \<Rightarrow> string option \<Rightarrow> ctx_message list \<Rightarrow> int" where
  "history_tokens cm n ms = fst (estimate_messages_tokens (map cx_content ms) (get_tokenizer cm n))"

definition check_and_summarize ::
  "prompt_texts \<Rightarrow> summarizer \<Rightarrow> ctx_message list \<Rightarrow> int \<Rightarrow> real \<Rightarrow> int \<Rightarrow> string option \<Rightarrow> context_manager \<Rightarrow> string \<times> context_manager" where
  "check_and_summarize px llm ms win threshold keep n cm =
    (if win \<le> 0 then (cm_summary cm, cm)
     else if int (length ms) \<le> keep then (cm_summary cm, cm)
     else if real_of_int (history_tokens cm n ms) < real_of_int win * threshold then (cm_summary cm, cm)
     else compact_messages px llm ms keep cm)"

section \<open>The consolidator\<close>

record consolidator =
  co_manager :: "context_manager option"
  co_config :: "model_config option"
  co_window :: int

definition summary_message :: "string \<Rightarrow> ctx_message" where
  "summary_message s = \<lparr>cx_role = SystemRole, cx_content = summary_header @ newline @ s\<rparr>"

text \<open>\<open>_compact_messages\<close>: the messages afterwards, and the consolidator.\<close>

definition run_compression :: "prompt_texts \<Rightarrow> summarizer \<Rightarrow> consolidator \<Rightarrow> ctx_message list \<Rightarrow> ctx_message list \<times> consolidator" where
  "run_compression px llm co ms = (case co_manager co of
     None \<Rightarrow> (ms, co)
   | Some cm \<Rightarrow>
       (let n = map_option (\<lambda>mc. get_model mc ''medium'') (co_config co);
            win = (case co_config co of Some mc \<Rightarrow> get_effective_context_window mc ''medium'' | None \<Rightarrow> co_window co);
            (s, cm') = check_and_summarize px llm ms win 0.85 6 n cm;
            co' = co\<lparr>co_manager := Some cm'\<rparr>
        in if s = [] \<or> length ms \<le> 6 then (ms, co')
           else (summary_message s # slice_last 6 ms, co')))"

text \<open>\<open>Inl\<close>: the answer when nothing is done; else the length of the summary.\<close>

definition compact_context :: "prompt_texts \<Rightarrow> summarizer \<Rightarrow> consolidator \<Rightarrow> ctx_message list \<Rightarrow>
    (string + nat) \<times> ctx_message list \<times> consolidator" where
  "compact_context px llm co ms = (case co_manager co of
     None \<Rightarrow> (Inl ''Context manager not available'', ms, co)
   | Some cm \<Rightarrow>
       if length ms < 2 then (Inl ''Not enough messages to compact'', ms, co)
       else (let (s, cm') = compact_messages px llm ms 6 cm
         in (Inr (length s), summary_message s # slice_last 6 ms, co\<lparr>co_manager := Some cm'\<rparr>)))"

text \<open>The window of the model is nearly full.\<close>

definition window_full :: "consolidator \<Rightarrow> context_manager \<Rightarrow> ctx_message list \<Rightarrow> bool" where
  "window_full co cm ms =
    (let win = (case co_config co of Some mc \<Rightarrow> get_effective_context_window mc ''medium'' | None \<Rightarrow> co_window co)
     in 0 < win \<and> 6 < length ms \<and>
        real_of_int win * 0.85 \<le> real_of_int (history_tokens cm (map_option (\<lambda>mc. get_model mc ''medium'') (co_config co)) ms))"

text \<open>
  When the window is nearly full the consolidator replaces what came before the last six messages by
  the summary the model gives of exactly that part; the last six messages are always kept as they are, and
  when the model fails and there is no earlier summary nothing is lost.
\<close>

theorem compression_summarizes_the_old_part:
  assumes "co_manager co = Some cm" and "window_full co cm ms"
  shows "let old = slice_to (- 6) ms; s = summarize px llm cm old in
    fst (run_compression px llm co ms) = (if s = [] then ms else summary_message s # slice_last 6 ms) \<and>
    old @ slice_last 6 ms = ms \<and>
    co_manager (snd (run_compression px llm co ms)) = Some (cm\<lparr>cm_summary := s\<rparr>) \<and>
    (\<forall>ask. llm = Some ask \<longrightarrow> ask [\<lparr>cx_role = SystemRole, cx_content = px_compact px\<rparr>,
        \<lparr>cx_role = HumanRole, cx_content = build_user_prompt px (fst (extract_previous_summary cm old)) (snd (extract_previous_summary cm old))\<rparr>] = None \<longrightarrow>
      s = cm_summary cm)"
proof -
  have "slice_to (- 6) ms @ slice_last 6 ms = ms"
    by (rule slice_to_last) simp
  moreover have "check_and_summarize px llm ms (case co_config co of Some mc \<Rightarrow> get_effective_context_window mc ''medium'' | None \<Rightarrow> co_window co)
      0.85 6 (map_option (\<lambda>mc. get_model mc ''medium'') (co_config co)) cm = compact_messages px llm ms 6 cm"
    using assms(2) by (simp add: window_full_def check_and_summarize_def Let_def)
  ultimately show ?thesis
    using assms by (auto simp: run_compression_def window_full_def compact_messages_def Let_def summarize_def split_beta)
qed

text \<open>
  Once there is a summary, the consolidator cuts the history to the last six messages on every run,
  also when the window is far from full: what is cut off then was never shown to the model that
  summarises, the summary stays as it was, and the messages are gone.
\<close>

theorem stale_summary_loses_messages:
  assumes "co_manager co = Some cm" and "cm_summary cm \<noteq> []" and "\<not> window_full co cm ms" and "6 < length ms"
  shows "run_compression px llm co ms = (summary_message (cm_summary cm) # slice_last 6 ms, co)"
proof -
  have "check_and_summarize px llm ms (case co_config co of Some mc \<Rightarrow> get_effective_context_window mc ''medium'' | None \<Rightarrow> co_window co)
      0.85 6 (map_option (\<lambda>mc. get_model mc ''medium'') (co_config co)) cm = (cm_summary cm, cm)"
    using assms(3, 4) by (auto simp: window_full_def check_and_summarize_def Let_def not_less not_le)
  with assms show ?thesis
    by (simp add: run_compression_def)
qed

definition demo_texts :: prompt_texts where
  "demo_texts = \<lparr>px_compact = ''Summarize.'', px_previous = ''Before:'', px_new = ''New:'', px_cut = ''...''\<rparr>"

definition demo_manager :: context_manager where
  "demo_manager = \<lparr>cm_compact_model = None, cm_tokenizers = [], cm_default_model = None, cm_summary = ''s''\<rparr>"

definition demo_consolidator :: "int \<Rightarrow> consolidator" where
  "demo_consolidator win = \<lparr>co_manager = Some demo_manager, co_config = None, co_window = win\<rparr>"

definition demo_history :: "ctx_message list" where
  "demo_history = replicate 8 \<lparr>cx_role = HumanRole, cx_content = ''0123456789''\<rparr>"

lemma demo_window: "window_full (demo_consolidator w) demo_manager demo_history \<longleftrightarrow> 0 < w \<and> real_of_int w * 0.85 \<le> 104"
  by (simp add: window_full_def demo_consolidator_def demo_history_def history_tokens_def estimate_messages_tokens_def
      get_tokenizer_def demo_manager_def estimate_tokens_def approx_tokens_def numeral_eq_Suc)

text \<open>Without a model, compacting on demand replaces the older messages by an empty summary.\<close>

lemma compacted_without_summary:
  assumes "co_manager co = Some cm" and "cm_summary cm = []" and "2 \<le> length ms"
  shows "fst (snd (compact_context px None co ms)) = summary_message [] # slice_last 6 ms"
  using assms by (simp add: compact_context_def compact_messages_def summarize_def split_beta)

end
