(* ===== verification/Repetition.thy ===== *)
theory Repetition
  imports Iris_Interfaces "HOL-Library.Sublist"
begin

text \<open>
  The detector of repetition loops in the output of the model (\<open>iris/llm/repetition.py\<close>).

  The two regular expressions are written out: \<open>block_at\<close> is a match of \<open>(.{2,20}?)\1{3,}\<close> at the
  head of a text (the shortest block, as many copies as there are), \<open>find_blocks\<close> is
  \<open>finditer\<close>, whose matches do not overlap, \<open>find_single\<close> is the search for
  \<open>(.)\1{9,}\<close>. The note that replaces the cut text is a parameter.
\<close>

section \<open>The regular expressions\<close>

text \<open>How many copies of \<open>g\<close> a text starts with.\<close>

function copies :: "string \<Rightarrow> string \<Rightarrow> nat" where
  "copies g xs = (if g \<noteq> [] \<and> take (length g) xs = g then Suc (copies g (drop (length g) xs)) else 0)"
  by auto
termination
proof (relation "measure (\<lambda>(g, xs). length xs)")
  fix g xs :: string
  assume "g \<noteq> [] \<and> take (length g) xs = g"
  then have "g \<noteq> []" "xs \<noteq> []" by auto
  then show "((g, drop (length g) xs), g, xs) \<in> measure (\<lambda>(g, xs). length xs)" by simp
qed simp

declare copies.simps [simp del]

definition dot :: "char \<Rightarrow> bool" where
  "dot c \<longleftrightarrow> c \<noteq> CHR 0x0A"

definition block_of :: "nat \<Rightarrow> string \<Rightarrow> bool" where
  "block_of n xs \<longleftrightarrow> n \<le> length xs \<and> list_all dot (take n xs) \<and> 3 \<le> copies (take n xs) (drop n xs)"

definition block_at :: "string \<Rightarrow> (string \<times> nat) option" where
  "block_at xs = (case find (\<lambda>n. block_of n xs) [2..<21] of None \<Rightarrow> None
     | Some n \<Rightarrow> Some (take n xs, n * Suc (copies (take n xs) (drop n xs))))"

lemma block_at_pos [simp]: "block_at xs = Some (g, n) \<Longrightarrow> 0 < n"
  by (auto simp: block_at_def simp del: upt_rec_numeral dest!: find_SomeD split: option.splits)

function find_blocks :: "nat \<Rightarrow> string \<Rightarrow> (nat \<times> string) list" where
  "find_blocks i [] = []"
| "find_blocks i (x # xs) = (case block_at (x # xs) of
     None \<Rightarrow> find_blocks (Suc i) xs
   | Some (g, n) \<Rightarrow> (i, g) # find_blocks (i + n) (drop n (x # xs)))"
  by pat_completeness auto
termination
  by (relation "measure (\<lambda>(i, xs). length xs)") (auto dest: block_at_pos)

fun find_single :: "nat \<Rightarrow> string \<Rightarrow> (nat \<times> char) option" where
  "find_single i [] = None"
| "find_single i (x # xs) = (if dot x \<and> 9 \<le> copies [x] xs then Some (i, x) else find_single (Suc i) xs)"

section \<open>Detection and trimming\<close>

definition varied :: "string \<Rightarrow> bool" where
  "varied g \<longleftrightarrow> 1 < card (set g)"

definition window :: "string \<Rightarrow> string" where
  "window t = slice_last 150 t"

definition detect_repetition :: "string \<Rightarrow> bool" where
  "detect_repetition t \<longleftrightarrow> t \<noteq> [] \<and>
     (list_ex (\<lambda>(i, g). varied g) (find_blocks 0 (window t)) \<or> find_single 0 (window t) \<noteq> None)"

definition trim_repetition :: "string \<Rightarrow> string \<Rightarrow> string" where
  "trim_repetition note t =
    (case find (\<lambda>(i, g). varied g) (find_blocks 0 t) of
       Some (i, g) \<Rightarrow> take i t @ g @ g @ note
     | None \<Rightarrow> (case find_single 0 t of
         Some (i, c) \<Rightarrow> take i t @ replicate 3 c @ note
       | None \<Rightarrow> t))"

section \<open>What a match is\<close>

lemma copies_replicate: "\<exists>ys. xs = concat (replicate (copies g xs) g) @ ys"
proof (induction g xs rule: copies.induct)
  case (1 g xs)
  show ?case
  proof (cases "g \<noteq> [] \<and> take (length g) xs = g")
    case True
    then obtain ys where "drop (length g) xs = concat (replicate (copies g (drop (length g) xs)) g) @ ys"
      using 1 by blast
    with True show ?thesis
      using append_take_drop_id [of "length g" xs] by (intro exI [of _ ys]) (subst copies.simps, simp)
  next
    case False
    then have "copies g xs = 0" by (subst copies.simps) simp
    then show ?thesis by simp
  qed
qed

lemma copies_append: "g \<noteq> [] \<Longrightarrow> n \<le> copies g (concat (replicate n g) @ ys)"
  by (induction n) (simp, subst copies.simps, simp)

lemma three_copies: "g \<noteq> [] \<Longrightarrow> 3 \<le> copies g (g @ g @ g @ ys)"
  using copies_append [of g 3 ys] by (simp add: numeral_3_eq_3)

lemma copies_split:
  assumes "k \<le> copies g xs"
  obtains ys where "xs = concat (replicate k g) @ ys"
proof -
  obtain zs where zs: "xs = concat (replicate (copies g xs) g) @ zs"
    using copies_replicate by blast
  have "replicate (copies g xs) g = replicate k g @ replicate (copies g xs - k) g"
    using assms by (simp flip: replicate_add)
  with zs that show ?thesis
    by (metis append.assoc concat_append)
qed

lemma block_of_iff:
  "block_of n xs \<Longrightarrow> \<exists>g ys. xs = g @ g @ g @ g @ ys \<and> length g = n \<and> list_all dot g"
proof -
  assume b: "block_of n xs"
  then obtain ys where "drop n xs = concat (replicate 3 (take n xs)) @ ys"
    by (auto simp: block_of_def elim: copies_split)
  with b show ?thesis
    using append_take_drop_id [of n xs]
    by (intro exI [of _ "take n xs"] exI [of _ ys]) (simp add: block_of_def numeral_3_eq_3)
qed

lemma block_at_SomeD:
  assumes "block_at xs = Some (g, n)"
  shows "\<exists>ys. xs = g @ g @ g @ g @ ys \<and> 2 \<le> length g \<and> length g \<le> 20 \<and> list_all dot g"
proof -
  obtain k where k: "2 \<le> k" "k \<le> 20" "block_of k xs" "g = take k xs"
    using assms by (auto simp: block_at_def simp del: upt_rec_numeral dest!: find_SomeD split: option.splits)
  moreover obtain h ys where "xs = h @ h @ h @ h @ ys" "length h = k" "list_all dot h"
    using block_of_iff [OF k(3)] by blast
  ultimately show ?thesis
    by auto
qed

lemma block_at_None:
  assumes "block_at xs = None" and "2 \<le> length g" and "length g \<le> 20" and "list_all dot g"
  shows "xs \<noteq> g @ g @ g @ g @ ys"
proof
  assume "xs = g @ g @ g @ g @ ys"
  moreover have "g \<noteq> []"
    using assms(2) by auto
  ultimately have "block_of (length g) xs"
    using assms(4) three_copies [of g ys] by (simp add: block_of_def)
  then show False
    using assms(1-3) by (auto simp: block_at_def find_None_iff' simp del: upt_rec_numeral split: option.splits)
qed

lemma find_blocks_sound:
  "(j, g) \<in> set (find_blocks i xs) \<Longrightarrow>
    i \<le> j \<and> 2 \<le> length g \<and> length g \<le> 20 \<and> list_all dot g \<and> (\<exists>ys. drop (j - i) xs = g @ g @ g @ g @ ys)"
proof (induction i xs rule: find_blocks.induct)
  case (2 i x xs)
  show ?case
  proof (cases "block_at (x # xs)")
    case None
    with 2 have j: "Suc i \<le> j \<and> 2 \<le> length g \<and> length g \<le> 20 \<and> list_all dot g \<and> (\<exists>ys. drop (j - Suc i) xs = g @ g @ g @ g @ ys)"
      by simp
    then have "Suc i \<le> j" by blast
    then have "j - i = Suc (j - Suc i)" by arith
    with j show ?thesis by simp
  next
    case (Some m)
    then obtain h n where m: "block_at (x # xs) = Some (h, n)" by (cases m) auto
    show ?thesis
    proof (cases "(j, g) = (i, h)")
      case True
      with block_at_SomeD [OF m] show ?thesis by auto
    next
      case False
      with 2(3) m have "(j, g) \<in> set (find_blocks (i + n) (drop n (x # xs)))"
        by auto
      then show ?thesis
        using 2(2) [OF m refl] by (auto simp: add.commute)
    qed
  qed
qed simp

lemma find_single_sound:
  "find_single i xs = Some (j, c) \<Longrightarrow>
    i \<le> j \<and> dot c \<and> (\<exists>ys. drop (j - i) xs = replicate 10 c @ ys)"
proof (induction xs arbitrary: i)
  case (Cons x xs)
  show ?case
  proof (cases "dot x \<and> 9 \<le> copies [x] xs")
    case True
    then obtain ys where "xs = concat (replicate 9 [x]) @ ys"
      by (elim conjE copies_split)
    moreover have "concat (replicate n [x]) = replicate n x" for n
      by (induction n) auto
    ultimately show ?thesis
      using True Cons.prems by (auto simp: numeral_eq_Suc)
  next
    case False
    then have "find_single (Suc i) xs = Some (j, c)"
      using Cons.prems by auto
    from Cons.IH [OF this] have j: "Suc i \<le> j \<and> dot c \<and> (\<exists>ys. drop (j - Suc i) xs = replicate 10 c @ ys)" .
    then have "Suc i \<le> j" by blast
    then have "j - i = Suc (j - Suc i)" by arith
    with j show ?thesis by simp
  qed
qed simp

section \<open>Detection\<close>

text \<open>A text without a run of eight equal characters.\<close>

definition no_runs :: "string \<Rightarrow> bool" where
  "no_runs xs \<longleftrightarrow> (\<forall>c. \<not> sublist (replicate 8 c) xs)"

definition looping :: "string \<Rightarrow> bool" where
  "looping xs \<longleftrightarrow> (\<exists>g. 2 \<le> length g \<and> length g \<le> 20 \<and> list_all dot g \<and> sublist (g @ g @ g @ g) xs)"

lemma varied_iff: "g \<noteq> [] \<Longrightarrow> \<not> varied g \<longleftrightarrow> g = replicate (length g) (hd g)"
proof
  assume g: "g \<noteq> []" "\<not> varied g"
  then have "card (set g) = 1"
    by (metis varied_def card_0_eq finite_set less_one linorder_neqE_nat set_empty)
  then obtain c where "set g = {c}"
    by (auto simp: card_1_singleton_iff)
  then show "g = replicate (length g) (hd g)"
    by (metis g(1) list.set_sel(1) replicate_eqI singletonD)
next
  assume "g = replicate (length g) (hd g)"
  then have "set g \<subseteq> {hd g}"
    by (metis in_set_replicate singleton_iff subsetI)
  then have "card (set g) \<le> 1"
    by (metis card.empty card_insert_disjoint card_mono empty_iff finite.emptyI finite.insertI One_nat_def)
  then show "\<not> varied g"
    by (simp add: varied_def)
qed

lemma runs_of_uniform:
  assumes "2 \<le> length g" and "\<not> varied g" and "xs = g @ g @ g @ g @ ys"
  shows "\<not> no_runs xs"
proof -
  from assms(1) have "g \<noteq> []" by auto
  with assms(2) obtain c where g: "g = replicate (length g) c"
    using varied_iff by blast
  have "g @ g @ g @ g = replicate (length g + (length g + (length g + length g))) c"
    by (metis g replicate_add)
  also have "\<dots> = replicate 8 c @ replicate (4 * length g - 8) c"
    using assms(1) by (simp flip: replicate_add)
  finally have "xs = [] @ replicate 8 c @ (replicate (4 * length g - 8) c @ ys)"
    using assms(3) by simp
  then show ?thesis
    unfolding no_runs_def sublist_def by blast
qed

lemma no_runs_tl: "no_runs (x # xs) \<Longrightarrow> no_runs xs"
  by (auto simp: no_runs_def sublist_Cons_right)

lemma no_runs_no_single: "no_runs xs \<Longrightarrow> find_single i xs = None"
proof (rule ccontr)
  assume n: "no_runs xs" and "find_single i xs \<noteq> None"
  then obtain j c where "find_single i xs = Some (j, c)" by auto
  from find_single_sound [OF this] obtain ys where "drop (j - i) xs = replicate 10 c @ ys"
    by auto
  then have "xs = take (j - i) xs @ replicate 8 c @ (replicate 2 c @ ys)"
    using append_take_drop_id [of "j - i" xs] by (simp add: numeral_eq_Suc)
  with n show False
    unfolding no_runs_def sublist_def by blast
qed

lemma looping_found:
  assumes "no_runs xs" and "looping xs"
  shows "list_ex (\<lambda>(i, g). varied g) (find_blocks i xs)"
  using assms
proof (induction xs arbitrary: i)
  case Nil
  then show ?case by (auto simp: looping_def)
next
  case (Cons x xs)
  show ?case
  proof (cases "block_at (x # xs)")
    case None
    obtain g where g: "2 \<le> length g" "length g \<le> 20" "list_all dot g" "sublist (g @ g @ g @ g) (x # xs)"
      using Cons.prems(2) by (auto simp: looping_def)
    have "\<not> prefix (g @ g @ g @ g) (x # xs)"
      using block_at_None [OF None g(1-3)] by (auto simp: prefix_def)
    with g have "looping xs"
      by (auto simp: looping_def sublist_Cons_right)
    with Cons None no_runs_tl show ?thesis
      by auto
  next
    case (Some m)
    then obtain g n where m: "block_at (x # xs) = Some (g, n)" by (cases m) auto
    from block_at_SomeD [OF m] runs_of_uniform Cons.prems(1) have "varied g"
      by blast
    with m show ?thesis by simp
  qed
qed

text \<open>
  C13: On texts without a run of eight equal characters the detector is exact: it reports a loop if and
  only if, within the last 150 characters, a block of 2 to 20 characters on one line stands four times
  in a row.
\<close>

theorem detector_exact:
  assumes "no_runs (window t)"
  shows "detect_repetition t \<longleftrightarrow> looping (window t)"
proof
  assume "detect_repetition t"
  then obtain i g where "(i, g) \<in> set (find_blocks 0 (window t))"
    using no_runs_no_single [OF assms] by (auto simp: detect_repetition_def list_ex_iff)
  from find_blocks_sound [OF this] obtain ys where
    g: "2 \<le> length g" "length g \<le> 20" "list_all dot g" "drop i (window t) = g @ g @ g @ g @ ys"
    by auto
  then have "window t = take i (window t) @ (g @ g @ g @ g) @ ys"
    by (metis append.assoc append_take_drop_id)
  with g(1-3) show "looping (window t)"
    unfolding looping_def sublist_def by blast
next
  assume l: "looping (window t)"
  then have "t \<noteq> []"
    by (auto simp: looping_def window_def slice_last_def lastn_def)
  with looping_found [OF assms l] show "detect_repetition t"
    by (simp add: detect_repetition_def)
qed

lemma detector_exact_witness: "detect_repetition ''hahahaha'' \<longleftrightarrow> looping (window ''hahahaha'')"
proof (rule detector_exact)
  show "no_runs (window ''hahahaha'')"
    by (simp add: window_def slice_last_def no_runs_def sublist_Cons_right numeral_eq_Suc)
qed

text \<open>
  A match of one character only hides what follows inside it: the loop \<open>aab\<close>, four times in a row, is
  not reported behind eight \<open>a\<close>.
\<close>

lemma loop_behind_run_missed:
  "looping (window ''aaaaaaaabaabaabaab'') \<and> \<not> detect_repetition ''aaaaaaaabaabaabaab''"
proof
  have "sublist (''aab'' @ ''aab'' @ ''aab'' @ ''aab'') (window ''aaaaaaaabaabaabaab'')"
    by (simp add: window_def slice_last_def sublist_Cons_right)
  then show "looping (window ''aaaaaaaabaabaabaab'')"
    unfolding looping_def by (intro exI [of _ "''aab''"]) (simp add: dot_def)
  show "\<not> detect_repetition ''aaaaaaaabaabaabaab''"
    by code_simp
qed

text \<open>
  The trimming reads the whole text, the detection its end: here a loop is reported and nothing is
  trimmed, because the match of eight \<open>a\<close> starts outside the window.
\<close>

lemma distinct_no_blocks: "distinct xs \<Longrightarrow> find_blocks i xs = []"
proof (induction xs arbitrary: i)
  case (Cons x xs)
  have "block_at (x # xs) = None"
  proof (rule ccontr)
    assume "block_at (x # xs) \<noteq> None"
    then obtain g n where "block_at (x # xs) = Some (g, n)" by auto
    with block_at_SomeD [OF this] Cons.prems show False by (cases g) auto
  qed
  with Cons show ?case by simp
qed simp

lemma distinct_no_single: "distinct xs \<Longrightarrow> find_single i xs = None"
proof (rule ccontr)
  assume d: "distinct xs" and "find_single i xs \<noteq> None"
  then obtain j c where "find_single i xs = Some (j, c)" by auto
  from find_single_sound [OF this] obtain ys where "drop (j - i) xs = replicate 10 c @ ys" by auto
  with distinct_drop [OF d, of "j - i"] show False by (simp add: numeral_eq_Suc)
qed

definition hidden_loop :: "string \<Rightarrow> string" where
  "hidden_loop r = ''aaaaaaaabaabaabaab'' @ CHR 0x0A # r"

lemma dots_before_newline: "list_all dot g \<Longrightarrow> prefix g (xs @ CHR 0x0A # r) \<Longrightarrow> prefix g xs"
proof (induction g arbitrary: xs)
  case (Cons c g)
  show ?case
  proof (cases xs)
    case Nil
    with Cons.prems show ?thesis by (simp add: dot_def)
  next
    case c: (Cons y ys)
    with Cons.prems Cons.IH [of ys] show ?thesis by simp
  qed
qed simp

lemma take_eq_prefix: "take (length g) xs = g \<longleftrightarrow> prefix g xs"
  by (metis append_eq_conv_conj append_take_drop_id prefixE prefixI)

lemma copies_line: "list_all dot g \<Longrightarrow> copies g (xs @ CHR 0x0A # r) = copies g xs"
proof (induction g xs rule: copies.induct)
  case (1 g xs)
  show ?case
  proof (cases "g \<noteq> [] \<and> prefix g xs")
    case True
    then have "take (length g) xs = g" "length g \<le> length xs"
      by (simp_all add: take_eq_prefix prefix_length_le)
    moreover from this have "take (length g) (xs @ CHR 0x0A # r) = g"
      by simp
    ultimately show ?thesis
      using 1 True by (subst (1 2) copies.simps) simp
  next
    case False
    then have "\<not> (g \<noteq> [] \<and> prefix g (xs @ CHR 0x0A # r))"
      using dots_before_newline 1(2) by blast
    with False show ?thesis
      by (subst (1 2) copies.simps) (simp only: take_eq_prefix if_False)
  qed
qed

lemma block_of_line: "block_of n (xs @ CHR 0x0A # r) = block_of n xs"
proof (cases "n \<le> length xs")
  case True
  then show ?thesis
    by (auto simp: block_of_def copies_line)
next
  case False
  then have "take n (xs @ CHR 0x0A # r) = xs @ CHR 0x0A # take (n - Suc (length xs)) r"
    by (cases "n - length xs") (auto simp: diff_Suc split: nat.splits)
  with False show ?thesis
    by (simp add: block_of_def dot_def)
qed

lemma block_at_line: "block_at (xs @ CHR 0x0A # r) = block_at xs"
proof -
  have "n \<le> length xs \<and> copies (take n xs) (drop n xs @ CHR 0x0A # r) = copies (take n xs) (drop n xs)"
    if "block_of n xs" for n
    using that by (auto simp: block_of_def copies_line)
  then show ?thesis
    unfolding block_at_def block_of_line by (auto simp del: upt_rec_numeral dest!: find_SomeD split: option.splits)
qed

lemma block_length: "block_at xs = Some (g, n) \<Longrightarrow> n \<le> length xs"
proof -
  assume b: "block_at xs = Some (g, n)"
  then obtain k where k: "block_of k xs" "g = take k xs" "n = k * Suc (copies g (drop k xs))"
    by (auto simp: block_at_def simp del: upt_rec_numeral dest!: find_SomeD split: option.splits)
  obtain ys where "drop k xs = concat (replicate (copies g (drop k xs)) g) @ ys"
    using copies_replicate by blast
  from arg_cong [OF this, of length] have "length (drop k xs) = copies g (drop k xs) * length g + length ys"
    by (simp only: length_append length_concat map_replicate sum_list_replicate of_nat_id)
  moreover have "length g = k" "k \<le> length xs"
    using k(1, 2) by (simp_all add: block_of_def)
  ultimately have "copies g (drop k xs) * k \<le> length xs - k" by simp
  with \<open>k \<le> length xs\<close> k(3) show ?thesis
    by (simp only: mult_Suc_right mult.commute [of k])
qed

text \<open>Matches lie on one line.\<close>

lemma find_blocks_lines:
  "find_blocks i (xs @ CHR 0x0A # r) = find_blocks i xs @ find_blocks (i + Suc (length xs)) r"
proof (induction "length xs" arbitrary: i xs rule: less_induct)
  case less
  show ?case
  proof (cases xs)
    case Nil
    have "block_at (CHR 0x0A # r) = None"
    proof -
      have "block_at [] = None" by code_simp
      then show ?thesis using block_at_line [of "[]" r] by simp
    qed
    with Nil show ?thesis by simp
  next
    case (Cons y ys)
    have b: "block_at (y # ys @ CHR 0x0A # r) = block_at (y # ys)"
      using block_at_line [of "y # ys" r] by simp
    show ?thesis
    proof (cases "block_at (y # ys)")
      case None
      then have "find_blocks i (xs @ CHR 0x0A # r) = find_blocks (Suc i) (ys @ CHR 0x0A # r)"
        by (simp only: Cons append_Cons find_blocks.simps b option.case)
      also have "\<dots> = find_blocks (Suc i) ys @ find_blocks (i + Suc (length xs)) r"
        using less [of ys "Suc i"] Cons by (simp only: list.size add_Suc_right add_Suc lessI add_0_right)
      finally show ?thesis
        by (simp only: Cons find_blocks.simps None option.case)
    next
      case (Some m)
      then obtain g n where m: "block_at (y # ys) = Some (g, n)" by (cases m) auto
      then have n: "0 < n" "n \<le> length (y # ys)"
        using block_length [OF m] by simp_all
      have d: "drop n (y # ys @ CHR 0x0A # r) = drop n (y # ys) @ CHR 0x0A # r"
        using drop_append [of n "y # ys" "CHR 0x0A # r"] n(2) by simp
      have l: "length (drop n (y # ys)) < length xs" "i + n + Suc (length (drop n (y # ys))) = i + Suc (length xs)"
        using n Cons by simp_all
      have "find_blocks i (xs @ CHR 0x0A # r) = (i, g) # find_blocks (i + n) (drop n (y # ys) @ CHR 0x0A # r)"
        by (simp only: Cons append_Cons find_blocks.simps b m option.case prod.case d)
      also have "\<dots> = (i, g) # find_blocks (i + n) (drop n (y # ys)) @ find_blocks (i + Suc (length xs)) r"
        by (simp only: less [OF l(1)] l(2) append_Cons)
      finally show ?thesis
        by (simp only: Cons find_blocks.simps m option.case prod.case append_Cons)
    qed
  qed
qed

lemma find_single_line: "find_single i (xs @ CHR 0x0A # r) = (case find_single i xs of None \<Rightarrow> find_single (i + Suc (length xs)) r | m \<Rightarrow> m)"
proof (induction xs arbitrary: i)
  case (Cons x xs)
  show ?case
  proof (cases "dot x")
    case True
    then have "copies [x] (xs @ CHR 0x0A # r) = copies [x] xs"
      by (intro copies_line) simp
    with True Cons.IH [of "Suc i"] show ?thesis by (simp split: option.split)
  qed (use Cons.IH [of "Suc i"] in \<open>simp split: option.split\<close>)
qed (simp add: dot_def)

lemma hidden_loop_blocks:
  "find_blocks 0 (hidden_loop r) = (0, ''aa'') # find_blocks 19 r"
  "find_single 0 (hidden_loop r) = find_single 19 r"
proof -
  have "find_blocks 0 ''aaaaaaaabaabaabaab'' = [(0, ''aa'')]" "find_single 0 ''aaaaaaaabaabaabaab'' = None"
    by code_simp+
  then show "find_blocks 0 (hidden_loop r) = (0, ''aa'') # find_blocks 19 r"
    "find_single 0 (hidden_loop r) = find_single 19 r"
    unfolding hidden_loop_def find_blocks_lines find_single_line
    by (simp_all add: eval_nat_numeral del: find_blocks.simps find_single.simps)
qed

lemma detected_not_trimmed:
  assumes "distinct r" and "length r = 137"
  shows "detect_repetition (hidden_loop r)" "trim_repetition note (hidden_loop r) = hidden_loop r"
proof -
  have w: "window (hidden_loop r) = ''aabaabaabaab'' @ CHR 0x0A # r"
    using assms(2) by (simp add: window_def slice_last_def lastn_def hidden_loop_def)
  have "find_blocks 0 ''aabaabaabaab'' = [(0, ''aab'')]"
    by code_simp
  then show "detect_repetition (hidden_loop r)"
    unfolding detect_repetition_def w find_blocks_lines
    by (simp add: hidden_loop_def varied_def del: find_blocks.simps)
  show "trim_repetition note (hidden_loop r) = hidden_loop r"
    unfolding trim_repetition_def hidden_loop_blocks
    by (simp add: assms distinct_no_blocks distinct_no_single varied_def)
qed

section \<open>Trimming\<close>

text \<open>
  Trimming removes nothing but a loop and what follows it: the text is kept unchanged, or it is cut
  inside a block that stands four times in a row (a character: ten times), of which two copies (three
  characters) are kept, followed by the note.
\<close>

theorem trim_cuts_a_loop:
  "trim_repetition note t = t \<or>
   (\<exists>pre g post. t = pre @ g @ g @ g @ g @ post \<and> varied g \<and> trim_repetition note t = pre @ g @ g @ note) \<or>
   (\<exists>pre c post. t = pre @ replicate 10 c @ post \<and> trim_repetition note t = pre @ replicate 3 c @ note)"
proof (cases "find (\<lambda>(i, g). varied g) (find_blocks 0 t)")
  case (Some m)
  then obtain i g where m: "find (\<lambda>(i, g). varied g) (find_blocks 0 t) = Some (i, g)" by (cases m) auto
  then have "(i, g) \<in> set (find_blocks 0 t)" "varied g"
    by (auto dest!: find_SomeD)
  with find_blocks_sound [OF this(1)] obtain ys where "drop i t = g @ g @ g @ g @ ys" by auto
  then have "t = take i t @ g @ g @ g @ g @ ys"
    by (metis append_take_drop_id)
  with m \<open>varied g\<close> show ?thesis
    unfolding trim_repetition_def by auto
next
  case None
  show ?thesis
  proof (cases "find_single 0 t")
    case (Some m)
    then obtain i c where m: "find_single 0 t = Some (i, c)" by (cases m) auto
    from find_single_sound [OF this] obtain ys where "drop i t = replicate 10 c @ ys" by auto
    then have "t = take i t @ replicate 10 c @ ys"
      by (metis append_take_drop_id)
    with m None show ?thesis
      unfolding trim_repetition_def by auto
  qed (simp add: trim_repetition_def None)
qed

end
