(* ===== verification/Llm_Bridge.thy ===== *)
theory Llm_Bridge
  imports Model_Config Repetition
begin

text \<open>
  The bridge to the language models (\<open>iris/llm/bridge.py\<close>): one chat model per configured entry, the
  provider that serves it, and a call with or without streaming.

  The model itself is a parameter: what it answers to a call, and, for a stream, the chunks it sends.
  \<open>hash_key\<close> is the digest of the API key in the key of a provider instance. A provider instance has
  no state of its own, so an instance is its key with its class.
\<close>

section \<open>Construction\<close>

record bridge =
  br_chat_models :: "(string, chat_model) dict"
  br_entries :: "(string, model_entry) dict"
  br_model_providers :: "(string, string \<times> provider_kind) dict"
  br_provider_instances :: "(string, string \<times> provider_kind) dict"
  br_config :: model_config

definition provider_key :: "(string \<Rightarrow> string) \<Rightarrow> model_entry \<Rightarrow> string \<Rightarrow> string \<Rightarrow> string" where
  "provider_key hash_key e url key = en_provider e @ ''|'' @ url @ ''|'' @ (if key = [] then [] else hash_key key)"

definition dsetdefault :: "'k \<Rightarrow> 'v \<Rightarrow> ('k, 'v) dict \<Rightarrow> 'v \<times> ('k, 'v) dict" where
  "dsetdefault k v d = (case dget d k of Some x \<Rightarrow> (x, d) | None \<Rightarrow> (v, dput k v d))"

definition serve_entry :: "(string \<Rightarrow> string) \<Rightarrow> (string, provider_kind) dict \<Rightarrow> model_entry \<Rightarrow> bridge \<Rightarrow> string + bridge" where
  "serve_entry hash_key reg e b =
    (let (url, key) = resolve_connection e (br_config b)
     in case get_provider_class reg (en_provider e) of
          Inl err \<Rightarrow> Inl err
        | Inr p \<Rightarrow>
            (let pk = provider_key hash_key e url key;
                 (inst, insts) = dsetdefault pk (pk, p) (br_provider_instances b)
             in Inr (b\<lparr>br_chat_models := dput (en_name e) (create_chat_model (snd inst) e url key (br_config b)) (br_chat_models b),
                      br_entries := dput (en_name e) e (br_entries b),
                      br_model_providers := dput (en_name e) inst (br_model_providers b),
                      br_provider_instances := insts\<rparr>)))"

fun add_entries :: "(string \<Rightarrow> string) \<Rightarrow> (string, provider_kind) dict \<Rightarrow> model_entry list \<Rightarrow> bridge \<Rightarrow> string + bridge" where
  "add_entries hash_key reg [] b = Inr b"
| "add_entries hash_key reg (e # es) b = (case serve_entry hash_key reg e b of Inl err \<Rightarrow> Inl err | Inr b' \<Rightarrow> add_entries hash_key reg es b')"

definition new_bridge :: "(string \<Rightarrow> string) \<Rightarrow> (string, provider_kind) dict \<Rightarrow> model_config \<Rightarrow> string + bridge" where
  "new_bridge hash_key reg mc = add_entries hash_key reg (mf_models mc)
    \<lparr>br_chat_models = [], br_entries = [], br_model_providers = [], br_provider_instances = [], br_config = mc\<rparr>"

text \<open>
  What starts the layer (\<open>LlmPlugin.init\<close>): the environment of every provider is checked, grouped in the
  order in which the providers first appear.
\<close>

definition provider_entries :: "model_config \<Rightarrow> (string, model_entry list) dict" where
  "provider_entries mc = fold (\<lambda>e d. dput (en_provider e) (dget_or d (en_provider e) [] @ [e]) d) (mf_models mc) []"

fun check_providers :: "(string, provider_kind) dict \<Rightarrow> model_config \<Rightarrow> (string, model_entry list) dict \<Rightarrow> string option" where
  "check_providers reg mc [] = None"
| "check_providers reg mc ((n, es) # ps) = (case get_provider_class reg n of
     Inl err \<Rightarrow> Some err
   | Inr p \<Rightarrow> if validate_environment p es mc then check_providers reg mc ps
       else Some (''Provider '' @ n @ '' environment validation failed''))"

definition llm_init :: "(string \<Rightarrow> string) \<Rightarrow> (string, provider_kind) dict \<Rightarrow> model_config \<Rightarrow> string + bridge" where
  "llm_init hash_key reg mc = (case check_providers reg mc (provider_entries mc) of
     Some err \<Rightarrow> Inl err
   | None \<Rightarrow> new_bridge hash_key reg mc)"

section \<open>Routing\<close>

text \<open>\<open>next(iter(d.values()))\<close>: \<open>None\<close> is the exception of an empty dictionary.\<close>

definition first_value :: "('k, 'v) dict \<Rightarrow> 'v option" where
  "first_value d = (case d of [] \<Rightarrow> None | (k, v) # _ \<Rightarrow> Some v)"

definition resolve_chat_model :: "bridge \<Rightarrow> string \<Rightarrow> chat_model option" where
  "resolve_chat_model b n = (case dget (br_chat_models b) n of Some c \<Rightarrow> Some c | None \<Rightarrow> first_value (br_chat_models b))"

definition get_provider_for_model :: "bridge \<Rightarrow> string \<Rightarrow> (string \<times> provider_kind) option" where
  "get_provider_for_model b n = (case dget (br_model_providers b) n of Some p \<Rightarrow> Some p | None \<Rightarrow> first_value (br_provider_instances b))"

definition get_default_model :: "bridge \<Rightarrow> string" where
  "get_default_model b = (case br_chat_models b of [] \<Rightarrow> '''' | (n, _) # _ \<Rightarrow> n)"

definition get_chat_model_for_role :: "bridge \<Rightarrow> string \<Rightarrow> chat_model option" where
  "get_chat_model_for_role b role =
    (if role = [] then None
     else let n = get_model (br_config b) role
       in if n = [] then None else dget (br_chat_models b) n)"

text \<open>\<open>check_health\<close> asks the provider's server, \<open>unload\<close> tells it.\<close>

definition is_available :: "(provider_kind \<Rightarrow> chat_model \<Rightarrow> bool) \<Rightarrow> bridge \<Rightarrow> bool" where
  "is_available healthy b = list_ex (\<lambda>(n, c). case dget (br_model_providers b) n of None \<Rightarrow> False | Some p \<Rightarrow> healthy (snd p) c) (br_chat_models b)"

definition unload_model :: "bridge \<Rightarrow> string \<Rightarrow> (provider_kind \<times> chat_model) option" where
  "unload_model b n = (if n = [] then None else (case (dget (br_model_providers b) n, dget (br_chat_models b) n) of
     (Some p, Some c) \<Rightarrow> Some (snd p, c) | _ \<Rightarrow> None))"

definition kind_of :: "chat_model \<Rightarrow> provider_kind \<Rightarrow> bool" where
  "kind_of c p = (case c of ChatOllama _ _ _ _ _ \<Rightarrow> p = OllamaProvider | ChatOpenAI _ _ _ _ _ \<Rightarrow> p \<noteq> OllamaProvider)"

definition serves :: "chat_model \<Rightarrow> string" where
  "serves c = (case c of ChatOllama n _ _ _ _ \<Rightarrow> n | ChatOpenAI n _ _ _ _ \<Rightarrow> n)"

text \<open>
  What construction establishes, for a registry \<open>reg\<close> and the entries \<open>es\<close> added so far: the three
  tables have the same models in the same order; a model has the chat model and the provider instance of
  an entry of that name; and the first model and the first instance are those of the first entry.
\<close>

definition entry_served :: "(string \<Rightarrow> string) \<Rightarrow> (string, provider_kind) dict \<Rightarrow> model_config \<Rightarrow> model_entry \<Rightarrow>
    chat_model \<Rightarrow> string \<times> provider_kind \<Rightarrow> bool" where
  "entry_served h reg mc e c i \<longleftrightarrow>
     get_provider_class reg (en_provider e) = Inr (snd i) \<and>
     fst i = provider_key h e (fst (resolve_connection e mc)) (snd (resolve_connection e mc)) \<and>
     c = create_chat_model (snd i) e (fst (resolve_connection e mc)) (snd (resolve_connection e mc)) mc"

definition instance_ok :: "(string, provider_kind) dict \<Rightarrow> string \<Rightarrow> string \<times> provider_kind \<Rightarrow> bool" where
  "instance_ok reg k i \<longleftrightarrow> fst i = k \<and> get_provider_class reg (takeWhile (\<lambda>c. c \<noteq> CHR ''|'') k) = Inr (snd i)"

definition first_served :: "(string \<Rightarrow> string) \<Rightarrow> (string, provider_kind) dict \<Rightarrow> model_config \<Rightarrow> model_entry list \<Rightarrow>
    (string, chat_model) dict \<Rightarrow> (string, string \<times> provider_kind) dict \<Rightarrow> bool" where
  "first_served h reg mc es chats insts = (case es of
        [] \<Rightarrow> chats = [] \<and> insts = []
      | e # _ \<Rightarrow> (\<exists>c cs i is. chats = (en_name e, c) # cs \<and> insts = (fst i, i) # is \<and> (\<exists>c. entry_served h reg mc e c i)))"

definition bridge_inv :: "(string \<Rightarrow> string) \<Rightarrow> (string, provider_kind) dict \<Rightarrow> model_entry list \<Rightarrow> bridge \<Rightarrow> bool" where
  "bridge_inv h reg es b \<longleftrightarrow>
     (\<forall>n. n \<in> en_name ` set es \<longrightarrow> (\<exists>e \<in> set es. en_name e = n \<and> dget (br_entries b) n = Some e \<and>
        (\<exists>c i. dget (br_chat_models b) n = Some c \<and> dget (br_model_providers b) n = Some i \<and>
           entry_served h reg (br_config b) e c i))) \<and>
     (\<forall>n. n \<notin> en_name ` set es \<longrightarrow> dget (br_chat_models b) n = None \<and> dget (br_model_providers b) n = None) \<and>
     (\<forall>k i. dget (br_provider_instances b) k = Some i \<longrightarrow> instance_ok reg k i) \<and>
     first_served h reg (br_config b) es (br_chat_models b) (br_provider_instances b)"

text \<open>No provider's name contains the separator of the key.\<close>

definition plain_registry :: "(string, provider_kind) dict \<Rightarrow> bool" where
  "plain_registry reg \<longleftrightarrow> (\<forall>n \<in> set (dkeys reg). CHR ''|'' \<notin> set n)"

lemma shipped_plain [simp]: "plain_registry provider_registry"
  by (simp add: plain_registry_def provider_registry_def)

lemma provider_of_key:
  assumes "plain_registry reg" and "get_provider_class reg (en_provider e) = Inr p"
  shows "takeWhile (\<lambda>c. c \<noteq> CHR ''|'') (provider_key h e url key) = en_provider e"
proof -
  have "en_provider e \<in> set (dkeys reg)"
    using assms(2) by (auto simp: get_provider_class_def dget_None_iff split: option.splits dest: dget_Some_in intro: rev_image_eqI)
  then have "CHR ''|'' \<notin> set (en_provider e)"
    using assms(1) by (metis plain_registry_def)
  then have "\<forall>c \<in> set (en_provider e). c \<noteq> CHR ''|''" by auto
  then show ?thesis
    by (simp add: provider_key_def takeWhile_append2)
qed

lemma serve_entry_cases:
  assumes "serve_entry h reg e b = Inr b'" and "plain_registry reg"
    and inst: "\<forall>k i. dget (br_provider_instances b) k = Some i \<longrightarrow> instance_ok reg k i"
  obtains c i insts where "entry_served h reg (br_config b) e c i"
    and "b' = b\<lparr>br_chat_models := dput (en_name e) c (br_chat_models b), br_entries := dput (en_name e) e (br_entries b),
        br_model_providers := dput (en_name e) i (br_model_providers b), br_provider_instances := insts\<rparr>"
    and "insts = br_provider_instances b \<and> dget insts (fst i) = Some i \<or> insts = dput (fst i) i (br_provider_instances b)"
    and "instance_ok reg (fst i) i"
proof -
  let ?url = "fst (resolve_connection e (br_config b))" and ?key = "snd (resolve_connection e (br_config b))"
  obtain p where p: "get_provider_class reg (en_provider e) = Inr p"
    using assms(1) by (auto simp: serve_entry_def split: sum.splits prod.splits)
  let ?k = "provider_key h e ?url ?key"
  note pk = provider_of_key [OF assms(2) p]
  show ?thesis
  proof (cases "dget (br_provider_instances b) ?k")
    case None
    show ?thesis
    proof (rule that [of _ _ "dput ?k (?k, p) (br_provider_instances b)"])
      show "entry_served h reg (br_config b) e (create_chat_model p e ?url ?key (br_config b)) (?k, p)"
        using p by (simp add: entry_served_def)
      show "instance_ok reg (fst (?k, p)) (?k, p)"
        using p pk by (simp add: instance_ok_def)
    qed (use assms(1) None p in \<open>auto simp: serve_entry_def dsetdefault_def Let_def split: prod.splits\<close>)
  next
    case (Some i)
    with inst have ok: "instance_ok reg ?k i" by blast
    then have i: "i = (?k, p)"
      using p pk by (cases i) (simp add: instance_ok_def)
    show ?thesis
    proof (rule that [of _ _ "br_provider_instances b"])
      show "entry_served h reg (br_config b) e (create_chat_model p e ?url ?key (br_config b)) i"
        using p i by (simp add: entry_served_def)
      show "instance_ok reg (fst i) i"
        using i ok by simp
    qed (use assms(1) Some p i in \<open>auto simp: serve_entry_def dsetdefault_def Let_def split: prod.splits\<close>)
  qed
qed

lemma serve_entry_inv:
  assumes "serve_entry h reg e b = Inr b'" and "plain_registry reg" and "bridge_inv h reg es b"
  shows "bridge_inv h reg (es @ [e]) b' \<and> br_config b' = br_config b"
proof -
  have io: "\<forall>k i. dget (br_provider_instances b) k = Some i \<longrightarrow> instance_ok reg k i"
    using assms(3) by (simp add: bridge_inv_def)
  from serve_entry_cases [OF assms(1, 2) io] obtain c i insts where
    served: "entry_served h reg (br_config b) e c i" and
    b': "b' = b\<lparr>br_chat_models := dput (en_name e) c (br_chat_models b), br_entries := dput (en_name e) e (br_entries b),
        br_model_providers := dput (en_name e) i (br_model_providers b), br_provider_instances := insts\<rparr>" and
    insts: "insts = br_provider_instances b \<and> dget insts (fst i) = Some i \<or> insts = dput (fst i) i (br_provider_instances b)" and
    ok: "instance_ok reg (fst i) i" .
  have 1: "\<forall>k i. dget insts k = Some i \<longrightarrow> instance_ok reg k i"
    using insts io ok by (auto split: if_splits)
  have fs: "first_served h reg (br_config b) es (br_chat_models b) (br_provider_instances b)"
    using assms(3) by (simp add: bridge_inv_def)
  have 2: "first_served h reg (br_config b) (es @ [e]) (br_chat_models b') insts"
  proof (cases es)
    case Nil
    with fs insts have "insts = [(fst i, i)]" "br_chat_models b' = [(en_name e, c)]"
      by (auto simp: first_served_def b')
    with Nil served show ?thesis by (cases i) (auto simp: first_served_def)
  next
    case (Cons e0 es0)
    with fs obtain c0 cs0 i0 is0 where h: "br_chat_models b = (en_name e0, c0) # cs0"
        "br_provider_instances b = (fst i0, i0) # is0" "\<exists>c. entry_served h reg (br_config b) e0 c i0"
      unfolding first_served_def by (simp only: list.case) blast
    have "\<exists>is. insts = (fst i0, i0) # is"
    proof (cases "fst i = fst i0")
      case True
      with h(2) have "dget (br_provider_instances b) (fst i) = Some i0" by simp
      with io ok True have "i0 = i"
        by (metis instance_ok_def prod.collapse sum.inject(2))
      with insts h(2) show ?thesis by auto
    next
      case False
      with insts h(2) show ?thesis by auto
    qed
    moreover have "\<exists>c cs. br_chat_models b' = (en_name e0, c) # cs"
      using h(1) by (simp add: b')
    ultimately show ?thesis
      using h(3) Cons unfolding first_served_def by (simp only: append_Cons list.case) blast
  qed
  show ?thesis
    using assms(3) served 1 2 unfolding bridge_inv_def
    by (auto simp: b' simp del: split_paired_Ex split_paired_All)
qed

lemma add_entries_inv:
  "add_entries h reg es b = Inr b' \<Longrightarrow> plain_registry reg \<Longrightarrow> bridge_inv h reg es0 b \<Longrightarrow>
    bridge_inv h reg (es0 @ es) b' \<and> br_config b' = br_config b"
proof (induction es arbitrary: b es0)
  case (Cons e es)
  then obtain b1 where b1: "serve_entry h reg e b = Inr b1" "add_entries h reg es b1 = Inr b'"
    by (auto split: sum.splits)
  from serve_entry_inv [OF b1(1) Cons.prems(2, 3)] have "bridge_inv h reg (es0 @ [e]) b1" "br_config b1 = br_config b"
    by auto
  with Cons.IH [OF b1(2) Cons.prems(2), of "es0 @ [e]"] show ?case by simp
qed simp

lemma new_bridge_inv:
  assumes "new_bridge h reg mc = Inr b" and "plain_registry reg"
  shows "bridge_inv h reg (mf_models mc) b \<and> br_config b = mc"
proof -
  let ?b = "\<lparr>br_chat_models = [], br_entries = [], br_model_providers = [], br_provider_instances = [], br_config = mc\<rparr>"
  have "bridge_inv h reg [] ?b"
    by (simp add: bridge_inv_def first_served_def)
  with add_entries_inv [of h reg "mf_models mc" ?b b "[]"] assms show ?thesis
    by (simp add: new_bridge_def)
qed

lemma serve_entry_ok: "(\<exists>b'. serve_entry h reg e b = Inr b') \<longleftrightarrow> (\<exists>p. get_provider_class reg (en_provider e) = Inr p)"
  by (auto simp: serve_entry_def Let_def split: sum.splits prod.splits)

lemma add_entries_ok: "(\<exists>b'. add_entries h reg es b = Inr b') \<longleftrightarrow> (\<forall>e \<in> set es. \<exists>p. get_provider_class reg (en_provider e) = Inr p)"
proof (induction es arbitrary: b)
  case (Cons e es)
  show ?case
    using Cons serve_entry_ok [of h reg e b] by (cases "serve_entry h reg e b") auto
qed simp

text \<open>The entry that answers for a name: the one of that name, else the first.\<close>

definition entry_for :: "model_config \<Rightarrow> string \<Rightarrow> model_entry" where
  "entry_for mc n = (case find (\<lambda>e. en_name e = n) (mf_models mc) of Some e \<Rightarrow> e | None \<Rightarrow> hd (mf_models mc))"

lemma known_model:
  assumes "bridge_inv h reg es b" and "distinct (map en_name es)" and "e \<in> set es"
  shows "\<exists>c i. dget (br_chat_models b) (en_name e) = Some c \<and> dget (br_model_providers b) (en_name e) = Some i \<and>
    entry_served h reg (br_config b) e c i"
proof -
  obtain e' c i where e': "e' \<in> set es" "en_name e' = en_name e" "dget (br_chat_models b) (en_name e) = Some c"
      "dget (br_model_providers b) (en_name e) = Some i" "entry_served h reg (br_config b) e' c i"
    using assms(1, 3) unfolding bridge_inv_def by (metis image_eqI)
  with distinct_key_eq [OF assms(2) e'(1) assms(3) e'(2)] show ?thesis by blast
qed

text \<open>
  A call is answered by the model that is configured under its name, through the connection and the
  provider of that entry; a name that is not configured is answered by the first entry, again through its
  own provider. (The names of the entries have to be distinct.)
\<close>

theorem calls_routed:
  assumes "new_bridge h provider_registry mc = Inr b" and "distinct (map en_name (mf_models mc))" and "mf_models mc \<noteq> []"
  shows "\<exists>c i. resolve_chat_model b n = Some c \<and> get_provider_for_model b n = Some i \<and>
    entry_served h provider_registry mc (entry_for mc n) c i"
proof -
  have inv: "bridge_inv h provider_registry (mf_models mc) b" "br_config b = mc"
    using new_bridge_inv [OF assms(1)] by simp_all
  show ?thesis
  proof (cases "find (\<lambda>e. en_name e = n) (mf_models mc)")
    case (Some e)
    then have "e \<in> set (mf_models mc)" "en_name e = n"
      by (auto dest: find_SomeD)
    with known_model [OF inv(1) assms(2), of e] Some inv(2) show ?thesis
      by (auto simp: resolve_chat_model_def get_provider_for_model_def entry_for_def simp del: split_paired_Ex)
  next
    case None
    then have "n \<notin> en_name ` set (mf_models mc)"
      by (auto simp: find_None_iff')
    then have none: "dget (br_chat_models b) n = None" "dget (br_model_providers b) n = None"
      using inv(1) unfolding bridge_inv_def by blast+
    obtain e0 es0 where es: "mf_models mc = e0 # es0"
      using assms(3) by (cases "mf_models mc") auto
    from inv(1) have "first_served h provider_registry (br_config b) (mf_models mc) (br_chat_models b) (br_provider_instances b)"
      by (simp add: bridge_inv_def)
    then obtain c cs i js c' where f: "br_chat_models b = (en_name e0, c) # cs" "br_provider_instances b = (fst i, i) # js"
        "entry_served h provider_registry mc e0 c' i"
      unfolding first_served_def inv(2) es by (simp only: list.case) blast
    obtain c1 i1 where k: "dget (br_chat_models b) (en_name e0) = Some c1" "entry_served h provider_registry mc e0 c1 i1"
      using known_model [OF inv(1) assms(2), of e0] es inv(2) by (auto simp del: split_paired_Ex)
    with f have "c1 = c" "i1 = i"
      by (auto simp: entry_served_def prod_eq_iff)
    with none f k None es show ?thesis
      by (simp add: resolve_chat_model_def get_provider_for_model_def first_value_def entry_for_def)
  qed
qed

definition two_providers :: model_config where
  "two_providers = demo_model_config\<lparr>mf_models := [demo_entry, demo_entry\<lparr>en_name := ''gpt'', en_provider := ''openrouter''\<rparr>]\<rparr>"

lemmas bridge_eval = new_bridge_def serve_entry_def get_provider_class_def provider_registry_def resolve_connection_def
  dsetdefault_def provider_key_def Let_def

text \<open>With two entries of one name the fall-back pairs the chat model of one provider with another provider.\<close>

definition same_name :: model_config where
  "same_name = demo_model_config\<lparr>mf_models := [demo_entry, demo_entry\<lparr>en_provider := ''openrouter''\<rparr>]\<rparr>"

lemma fallback_mixes_providers:
  "\<exists>b c i. new_bridge (\<lambda>k. k) provider_registry same_name = Inr b \<and>
    resolve_chat_model b ''other'' = Some c \<and> get_provider_for_model b ''other'' = Some i \<and> \<not> kind_of c (snd i)"
  by (simp add: bridge_eval same_name_def demo_model_config_def demo_entry_def resolve_chat_model_def
      get_provider_for_model_def first_value_def create_chat_model_def kind_of_def)

section \<open>Starting the layer\<close>

text \<open>An entry whose provider is known and has what it needs.\<close>

definition entry_usable :: "model_config \<Rightarrow> model_entry \<Rightarrow> bool" where
  "entry_usable mc e \<longleftrightarrow> en_provider e = ''ollama'' \<or>
     en_provider e \<in> {''openrouter'', ''google''} \<and>
     (\<exists>c. dget (mf_providers mc) (en_provider e) = Some c \<and> pv_api_key c \<noteq> [])"

lemma provider_entries_fold:
  "dget (fold (\<lambda>e d. dput (en_provider e) (dget_or d (en_provider e) [] @ [e]) d) es d) n =
    (let own = dget_or d n [] @ filter (\<lambda>e. en_provider e = n) es
     in if dget d n = None \<and> filter (\<lambda>e. en_provider e = n) es = [] then None else Some own)"
  by (induction es arbitrary: d) (auto simp: Let_def dget_or_def split: option.split)

lemma provider_entries_iff:
  "dget (provider_entries mc) n = (let es = filter (\<lambda>e. en_provider e = n) (mf_models mc) in if es = [] then None else Some es)"
  unfolding provider_entries_def provider_entries_fold by (simp add: Let_def dget_or_def)

lemma distinct_provider_entries: "distinct (dkeys (provider_entries mc))"
proof -
  have "distinct (dkeys d) \<Longrightarrow> distinct (dkeys (fold (\<lambda>e d. dput (en_provider e) (dget_or d (en_provider e) [] @ [e]) d) es d))" for d and es :: "model_entry list"
    by (induction es arbitrary: d) auto
  then show ?thesis by (simp add: provider_entries_def)
qed

lemma check_providers_None:
  "check_providers reg mc ps = None \<longleftrightarrow>
    (\<forall>(n, es) \<in> set ps. \<exists>p. get_provider_class reg n = Inr p \<and> validate_environment p es mc)"
  by (induction reg mc ps rule: check_providers.induct) (auto split: sum.splits)

lemma usable_provider:
  "(\<exists>p. get_provider_class provider_registry n = Inr p \<and> validate_environment p es mc) \<longleftrightarrow>
    n = ''ollama'' \<or> (n = ''openrouter'' \<or> n = ''google'') \<and>
      (\<forall>e \<in> set es. \<exists>c. dget (mf_providers mc) (en_provider e) = Some c \<and> pv_api_key c \<noteq> [])"
  by (auto simp: get_provider_class_def provider_registry_def validate_environment_def list_all_iff split: option.splits)

text \<open>
  The model layer starts if and only if every configured model can be used: its provider is one of the
  three known ones, and the providers on the network have an API key. Otherwise no bridge is made at all.
\<close>

theorem layer_starts_iff_usable:
  "(\<exists>b. llm_init h provider_registry mc = Inr b) \<longleftrightarrow> (\<forall>e \<in> set (mf_models mc). entry_usable mc e)"
proof -
  have "check_providers provider_registry mc (provider_entries mc) = None \<longleftrightarrow>
      (\<forall>n es. dget (provider_entries mc) n = Some es \<longrightarrow>
        (\<exists>p. get_provider_class provider_registry n = Inr p \<and> validate_environment p es mc))"
    unfolding check_providers_None using distinct_provider_entries [of mc] by (auto simp: dget_eq_iff)
  also have "\<dots> \<longleftrightarrow> (\<forall>e \<in> set (mf_models mc). entry_usable mc e)"
    unfolding usable_provider provider_entries_iff
    by (auto simp: Let_def entry_usable_def filter_empty_conv split: if_splits)
  finally have 1: "check_providers provider_registry mc (provider_entries mc) = None \<longleftrightarrow>
      (\<forall>e \<in> set (mf_models mc). entry_usable mc e)" .
  have "\<exists>b. new_bridge h provider_registry mc = Inr b" if "\<forall>e \<in> set (mf_models mc). entry_usable mc e"
    using that unfolding new_bridge_def add_entries_ok
    by (auto simp: entry_usable_def get_provider_class_def provider_registry_def)
  with 1 show ?thesis
    by (auto simp: llm_init_def split: option.split)
qed

text \<open>The two providers of the example lack the key of the second: no bridge.\<close>

section \<open>A call\<close>

text \<open>
  The content of an answer is a text or a list of parts; a part that is a dictionary has a text under
  \<open>text\<close>, and \<open>None\<close> is the exception when it has none. \<open>str_of\<close> is \<open>str\<close> of any other part.
\<close>

datatype content = Text string | Parts "pyobj list"

record ai_message =
  ai_content :: content
  ai_tool_calls :: "pyobj list"

definition part_text :: "(pyobj \<Rightarrow> string) \<Rightarrow> pyobj \<Rightarrow> string option" where
  "part_text str_of p = (case p of PDict d \<Rightarrow> (case dget d ''text'' of Some (PStr s) \<Rightarrow> Some s | _ \<Rightarrow> None) | PStr s \<Rightarrow> Some s | _ \<Rightarrow> Some (str_of p))"

fun join_parts :: "string option list \<Rightarrow> string option" where
  "join_parts [] = Some []"
| "join_parts (None # ps) = None"
| "join_parts (Some s # ps) = map_option (\<lambda>t. s @ t) (join_parts ps)"

definition extract_content :: "(pyobj \<Rightarrow> string) \<Rightarrow> ai_message \<Rightarrow> string option" where
  "extract_content str_of m = (case ai_content m of Text s \<Rightarrow> Some s | Parts ps \<Rightarrow> join_parts (map (part_text str_of) ps))"

definition handle_response_content :: "(pyobj \<Rightarrow> string) \<Rightarrow> string \<Rightarrow> ai_message \<Rightarrow> ai_message option" where
  "handle_response_content str_of note m = (case extract_content str_of m of
     None \<Rightarrow> None
   | Some c \<Rightarrow> Some (if c \<noteq> [] \<and> detect_repetition c
       then \<lparr>ai_content = Text (trim_repetition note c), ai_tool_calls = ai_tool_calls m\<rparr> else m))"

text \<open>
  A stream: the texts of its chunks, each with whether somebody else has cancelled the interrupt token
  by the time the chunk arrives. \<open>st_accumulated\<close> is what the call has seen, \<open>st_delivered\<close> the tokens
  handed to \<open>on_token\<close>, \<open>st_read\<close> the chunks merged into the answer.
\<close>

record stream_state =
  st_accumulated :: "string list"
  st_cancelled :: bool
  st_delivered :: "string list"
  st_read :: "string list"

definition wrapped_on_token :: "string \<Rightarrow> stream_state \<Rightarrow> stream_state" where
  "wrapped_on_token tok st =
    (if st_cancelled st then st
     else let st1 = st\<lparr>st_accumulated := st_accumulated st @ [tok]\<rparr>
       in if detect_repetition (concat (st_accumulated st1)) then st1\<lparr>st_cancelled := True\<rparr>
          else st1\<lparr>st_delivered := st_delivered st1 @ [tok]\<rparr>)"

fun stream_loop :: "(string \<times> bool) list \<Rightarrow> stream_state \<Rightarrow> stream_state" where
  "stream_loop [] st = st"
| "stream_loop ((c, outside) # cs) st =
    (let st1 = st\<lparr>st_cancelled := st_cancelled st \<or> outside, st_read := st_read st @ [c]\<rparr>;
         st2 = (if c \<noteq> [] then wrapped_on_token c st1 else st1)
     in if st_cancelled st2 then st2 else stream_loop cs st2)"

definition stream_start :: "bool \<Rightarrow> stream_state" where
  "stream_start cancelled = \<lparr>st_accumulated = [], st_cancelled = cancelled, st_delivered = [], st_read = []\<rparr>"

text \<open>
  What the model does: it answers a call, or streams chunks and may raise after them; the tool calls are
  those of the chunks merged so far.
\<close>

record 'm llm_world =
  lw_invoke :: "chat_model \<Rightarrow> string list option \<Rightarrow> 'm list \<Rightarrow> (string, pyobj) dict \<Rightarrow> string + ai_message"
  lw_stream :: "chat_model \<Rightarrow> string list option \<Rightarrow> 'm list \<Rightarrow> (string, pyobj) dict \<Rightarrow> (string \<times> bool) list \<times> string option"
  lw_merged_calls :: "string list \<Rightarrow> pyobj list"
  lw_str :: "pyobj \<Rightarrow> string"
  lw_note :: string

record 'm chat_request =
  rq_messages :: "'m list"
  rq_model :: string
  rq_reasoning :: "bool option"
  rq_temperature :: real
  rq_max_tokens :: int
  rq_tools :: "string list option"
  rq_streams :: bool
  rq_priority :: int
  rq_extra :: "(string, pyobj) dict"

datatype 'a call_result = CallFails string | Answer 'a

definition merge_kwargs :: "(string, pyobj) dict \<Rightarrow> (string, pyobj) dict \<Rightarrow> (string, pyobj) dict" where
  "merge_kwargs a b = fold (\<lambda>(k, v) d. dput k v d) b a"

text \<open>The model, the tools bound to it and the arguments of the call.\<close>

definition prepared_call :: "bridge \<Rightarrow> 'm chat_request \<Rightarrow> (chat_model \<times> string list option \<times> (string, pyobj) dict) option" where
  "prepared_call b r =
    (let n = or_else (rq_model r) (get_default_model b)
     in case (resolve_chat_model b n, get_provider_for_model b n) of
          (Some c, Some p) \<Rightarrow>
            (let (call, extra) = build_call_kwargs (snd p) (rq_temperature r) (rq_max_tokens r) (dget (br_entries b) n) (rq_extra r) (rq_reasoning r)
             in Some (c, (case rq_tools r of Some (t # ts) \<Rightarrow> Some (t # ts) | _ \<Rightarrow> None), merge_kwargs call extra))
        | _ \<Rightarrow> None)"

text \<open>
  The answer, the tokens delivered while it came, and whether the interrupt token is cancelled afterwards:
  the loop detection cancels the token of the caller.
\<close>

definition bridge_chat :: "'m llm_world \<Rightarrow> bridge \<Rightarrow> 'm chat_request \<Rightarrow> bool \<Rightarrow> ai_message call_result \<times> string list \<times> bool" where
  "bridge_chat w b r cancelled = (case prepared_call b r of
     None \<Rightarrow> (CallFails ''StopIteration'', [], cancelled)
   | Some (c, tools, kw) \<Rightarrow>
       (let finish = (\<lambda>m. case handle_response_content (lw_str w) (lw_note w) m of
              None \<Rightarrow> CallFails ''KeyError'' | Some m' \<Rightarrow> Answer m')
        in if \<not> rq_streams r
           then (case lw_invoke w c tools (rq_messages r) kw of Inl e \<Rightarrow> CallFails e | Inr m \<Rightarrow> finish m, [], cancelled)
           else (let (chunks, failure) = lw_stream w c tools (rq_messages r) kw;
                     st = stream_loop chunks (stream_start cancelled)
             in (case (if st_cancelled st \<and> chunks \<noteq> [] then None else failure) of
                   Some e \<Rightarrow> CallFails e
                 | None \<Rightarrow> finish \<lparr>ai_content = Text (concat (st_read st)), ai_tool_calls = lw_merged_calls w (st_read st)\<rparr>,
                 st_delivered st, st_cancelled st))))"

section \<open>What a stream delivers\<close>

definition nonempty_chunks :: "(string \<times> bool) list \<Rightarrow> string list" where
  "nonempty_chunks cs = filter (\<lambda>c. c \<noteq> []) (map fst cs)"

lemma stream_loop_delivers:
  assumes "\<not> st_cancelled st" and "st_accumulated st = st_delivered st"
    and "\<forall>p. prefix p (st_delivered st) \<longrightarrow> \<not> detect_repetition (concat p)"
  shows "\<exists>ds n. st_delivered (stream_loop cs st) = st_delivered st @ ds \<and> prefix ds (nonempty_chunks cs) \<and>
    st_read (stream_loop cs st) = st_read st @ map fst (take n cs) \<and>
    (\<forall>p. prefix p (st_delivered st @ ds) \<longrightarrow> \<not> detect_repetition (concat p)) \<and>
    (\<not> st_cancelled (stream_loop cs st) \<longrightarrow> ds = nonempty_chunks cs \<and> length cs \<le> n) \<and>
    (st_cancelled (stream_loop cs st) \<longrightarrow> (\<exists>c \<in> set cs. snd c) \<or>
       (\<exists>t. prefix (ds @ [t]) (nonempty_chunks cs) \<and> detect_repetition (concat (st_delivered st @ ds @ [t]))))"
  using assms
proof (induction cs arbitrary: st)
  case Nil
  then show ?case
    by (intro exI [of _ "[]"] exI [of _ 0]) (simp add: nonempty_chunks_def)
next
  case (Cons x cs)
  obtain c out where x: "x = (c, out)" by fastforce
  let ?st1 = "st\<lparr>st_cancelled := st_cancelled st \<or> out, st_read := st_read st @ [c]\<rparr>"
  show ?case
  proof (cases out)
    case True
    then have "stream_loop (x # cs) st = ?st1"
      using x by (simp add: wrapped_on_token_def Let_def)
    with True x Cons.prems show ?thesis
      by (intro exI [of _ "[]"] exI [of _ 1]) (simp add: nonempty_chunks_def)
  next
    case False
    show ?thesis
    proof (cases "c = []")
      case True
      then have "stream_loop (x # cs) st = stream_loop cs ?st1"
        using x False Cons.prems by simp
      with Cons.IH [of ?st1] Cons.prems True False x show ?thesis
        by (clarsimp simp: nonempty_chunks_def) (metis take_Suc_Cons list.simps(9) fst_conv Suc_le_mono)
    next
      case ne: False
      show ?thesis
      proof (cases "detect_repetition (concat (st_delivered st @ [c]))")
        case True
        then have "stream_loop (x # cs) st = ?st1\<lparr>st_accumulated := st_delivered st @ [c], st_cancelled := True\<rparr>"
          using x False ne Cons.prems by (simp add: wrapped_on_token_def)
        with True x False ne Cons.prems show ?thesis
          by (intro exI [of _ "[]"] exI [of _ 1]) (simp add: nonempty_chunks_def)
      next
        case clean: False
        let ?st2 = "?st1\<lparr>st_accumulated := st_delivered st @ [c], st_delivered := st_delivered st @ [c]\<rparr>"
        have l: "stream_loop (x # cs) st = stream_loop cs ?st2"
          using x False ne clean Cons.prems by (simp add: wrapped_on_token_def)
        have "\<forall>p. prefix p (st_delivered st @ [c]) \<longrightarrow> \<not> detect_repetition (concat p)"
          using Cons.prems(3) clean by simp
        with Cons.IH [of ?st2] False Cons.prems obtain ds n where
          ih: "st_delivered (stream_loop cs ?st2) = (st_delivered st @ [c]) @ ds" "prefix ds (nonempty_chunks cs)"
            "st_read (stream_loop cs ?st2) = (st_read st @ [c]) @ map fst (take n cs)"
            "\<forall>p. prefix p ((st_delivered st @ [c]) @ ds) \<longrightarrow> \<not> detect_repetition (concat p)"
            "\<not> st_cancelled (stream_loop cs ?st2) \<longrightarrow> ds = nonempty_chunks cs \<and> length cs \<le> n"
            "st_cancelled (stream_loop cs ?st2) \<longrightarrow> (\<exists>c \<in> set cs. snd c) \<or>
               (\<exists>t. prefix (ds @ [t]) (nonempty_chunks cs) \<and> detect_repetition (concat ((st_delivered st @ [c]) @ ds @ [t])))"
          by auto
        have "nonempty_chunks (x # cs) = c # nonempty_chunks cs"
          using x ne by (simp add: nonempty_chunks_def)
        with ih x show ?thesis
          unfolding l by (intro exI [of _ "c # ds"] exI [of _ "Suc n"]) auto
      qed
    qed
  qed
qed


definition laughing :: "(string \<times> bool) list" where
  "laughing = [(''haha'', False), ('''', False), (''haha'', False), (''!'', False)]"


text \<open>A trimmed answer keeps its tool calls.\<close>

lemma trimmed_answer_keeps_calls:
  "handle_response_content s note m = Some m' \<Longrightarrow> ai_tool_calls m' = ai_tool_calls m"
  by (auto simp: handle_response_content_def split: option.splits if_splits)

end
