(* ===== verification/Llm_Gateway.thy ===== *)
theory Llm_Gateway
  imports Execution Llm_Bridge
begin

text \<open>
  Between the nodes of the execution and the model (\<open>iris/agency/execution/llm\<close>: gateway,
  prompt\_builder, profile\_builder, node\_prompt\_factory; \<open>iris/llm/prompt.py\<close>;
  \<open>iris/agency/modulation/prompt\_guidance.py\<close>): the system messages, the parameters of a call, and the
  call through the bridge.

  The texts are parameters (\<open>prompt_env\<close>): the template of the system prompt, the headings, the Japanese
  phrases, and what memory and accounts answer. \<open>gateway_model\<close> is the language model that theory
  Execution takes as a parameter.
\<close>

section \<open>Guidance by the affective state\<close>

datatype tone = Tense | Worried | Bright | Friendly | Quick | Quiet | MoodLabel string | Even

datatype directive = Receive | Forward | Brisk | Slow | Tentative | Decisive

definition has_affective_signal :: "modulation \<Rightarrow> bool" where
  "has_affective_signal m \<longleftrightarrow> 0.12 \<le> \<bar>mo_valence m\<bar> \<or> 0.12 \<le> \<bar>mo_arousal m\<bar> \<or> 0.12 \<le> \<bar>mo_dominance m\<bar> \<or> mo_emotion m \<noteq> []"

definition affective_tone :: "modulation \<Rightarrow> tone option" where
  "affective_tone m =
    (if \<not> has_affective_signal m then None
     else Some (if mo_valence m < - 0.35 \<and> mo_arousal m > 0.35 then Tense
       else if mo_valence m < - 0.35 \<and> mo_arousal m \<le> 0.35 then Worried
       else if mo_valence m > 0.35 \<and> mo_arousal m > 0.25 then Bright
       else if mo_valence m > 0.35 then Friendly
       else if mo_arousal m > 0.45 then Quick
       else if mo_arousal m < - 0.35 then Quiet
       else if mo_mood m \<noteq> ''neutral'' then MoodLabel (mo_mood m) else Even))"

definition behavior_directives :: "modulation \<Rightarrow> directive list" where
  "behavior_directives m =
    (if \<not> has_affective_signal m then []
     else (if mo_valence m < - 0.25 then [Receive] else if mo_valence m > 0.25 then [Forward] else [])
       @ (if mo_arousal m > 0.35 then [Brisk] else if mo_arousal m < - 0.25 then [Slow] else [])
       @ (if mo_dominance m < - 0.25 then [Tentative] else if mo_dominance m > 0.35 then [Decisive] else []))"

datatype guidance_line = ToneLine tone | DirectiveLine directive | DontExplain

definition prompt_lines :: "modulation \<Rightarrow> guidance_line list" where
  "prompt_lines m = (case affective_tone m of None \<Rightarrow> []
     | Some t \<Rightarrow> ToneLine t # map DirectiveLine (behavior_directives m) @ [DontExplain])"

section \<open>The system messages\<close>

record prompt_env =
  pn_template :: "string \<Rightarrow> string \<Rightarrow> string"
  pn_name :: string
  pn_agents_md :: string
  pn_principles :: string
  pn_now :: string
  pn_guidance_text :: "guidance_line \<Rightarrow> string"
  pn_preferences :: "string \<Rightarrow> string \<Rightarrow> string list"
  pn_users :: "string \<Rightarrow> string list"
  pn_display_name :: "string \<Rightarrow> string"
  pn_node_text :: "string \<Rightarrow> string"
  pn_head_user :: string
  pn_head_principles :: string
  pn_head_style :: string
  pn_head_hints :: string
  pn_head_guidance :: string
  pn_head_now :: string
  pn_head_partner :: string
  pn_head_participants :: string
  pn_head_context :: string
  pn_rules :: string
  pn_relaxed_rules :: string
  pn_thinking :: "chat_msg \<Rightarrow> chat_msg"

definition nl :: string where
  "nl = [CHR 0x0A]"

text \<open>\<open>str.replace\<close> of a pattern that is not empty.\<close>

function replace_all :: "string \<Rightarrow> string \<Rightarrow> string \<Rightarrow> string" where
  "replace_all old new [] = []"
| "replace_all old new (c # s) =
    (if old \<noteq> [] \<and> starts_with old (c # s) then new @ replace_all old new (drop (length old) (c # s))
     else c # replace_all old new s)"
  by pat_completeness auto
termination
  by (relation "measure (\<lambda>(old, new, s). length s)") auto

definition build_system_prompt :: "prompt_env \<Rightarrow> string \<Rightarrow> string \<Rightarrow> string \<Rightarrow> string \<Rightarrow> string \<Rightarrow> string \<Rightarrow> string" where
  "build_system_prompt pn agents prefs style principles guidance hints =
    py_strip (pn_template pn (pn_name pn) (replace_all ''{name}'' (pn_name pn) agents)
      @ concat (map (\<lambda>(h, c). if c = [] then [] else nl @ nl @ h @ nl @ c)
          [(pn_head_user pn, prefs), (pn_head_principles pn, principles), (pn_head_style pn, style),
           (pn_head_hints pn, hints), (pn_head_guidance pn, guidance)]))"

text \<open>Each preference once, without surrounding white space, empty ones left out.\<close>

fun unique_preferences :: "string list \<Rightarrow> string list \<Rightarrow> string list" where
  "unique_preferences seen [] = []"
| "unique_preferences seen (p # ps) =
    (let c = py_strip p
     in if c \<noteq> [] \<and> c \<notin> set seen then c # unique_preferences (c # seen) ps else unique_preferences seen ps)"

definition user_preferences_section :: "prompt_env \<Rightarrow> string \<Rightarrow> string \<Rightarrow> string" where
  "user_preferences_section pn room account =
    join_with nl (map (\<lambda>c. ''- '' @ c) (unique_preferences [] (pn_preferences pn room account)))"

definition participants_section :: "prompt_env \<Rightarrow> string \<Rightarrow> string \<Rightarrow> string list \<Rightarrow> string" where
  "participants_section pn room display active =
    (let users = (if active = [] \<and> room \<noteq> [] then pn_users pn room else active)
     in case users of
          [] \<Rightarrow> if display = [] then [] else pn_head_partner pn @ nl @ display
        | [u] \<Rightarrow> pn_head_partner pn @ nl @ u
        | _ \<Rightarrow> pn_head_participants pn @ nl @ join_with nl (map (\<lambda>n. ''- '' @ n) users))"

definition profile_message :: "prompt_env \<Rightarrow> string \<Rightarrow> string \<Rightarrow> string \<Rightarrow> string \<Rightarrow> modulation option \<Rightarrow> string" where
  "profile_message pn style display room account m =
    (let base = build_system_prompt pn (pn_agents_md pn) (user_preferences_section pn room account) style (pn_principles pn)
           (case m of None \<Rightarrow> [] | Some mo \<Rightarrow> join_with nl (map (pn_guidance_text pn) (prompt_lines mo))) [];
         people = participants_section pn room display []
     in join_with (nl @ nl) ([base, pn_head_now pn @ nl @ pn_now pn] @ (if people = [] then [] else [people])))"

definition node_message :: "prompt_env \<Rightarrow> real \<Rightarrow> string \<Rightarrow> string \<Rightarrow> real \<Rightarrow> string" where
  "node_message pn draw node_type hint chaos =
    (let base = pn_node_text pn node_type;
         rules = (if 0.5 \<le> chaos \<and> relax_response_rules (from_chaos_level chaos) draw then pn_relaxed_rules pn else pn_rules pn)
     in join_with (nl @ nl) ((if base = [] then [] else [base])
          @ (if hint = [] then [] else [pn_head_context pn @ nl @ hint]) @ [rules]))"

definition build_system_messages ::
  "prompt_env \<Rightarrow> real \<Rightarrow> string \<Rightarrow> string \<Rightarrow> string \<Rightarrow> bool \<Rightarrow> string \<Rightarrow> string \<Rightarrow> modulation \<Rightarrow> string list" where
  "build_system_messages pn draw hint style node_type include_profile room account m =
    (let display = (if account = [] then account else pn_display_name pn account)
     in (if include_profile then [profile_message pn style display room account (Some m)] else [])
        @ [node_message pn draw node_type hint (mo_chaos m)])"

section \<open>The call\<close>

record llm_gateway =
  gy_config :: model_config
  gy_checker :: "model_config option"
  gy_prompts :: prompt_env
  gy_draw :: real

datatype llm_message = SystemText string | Turn chat_msg

text \<open>The keyword arguments of \<open>chat\<close>; \<open>None\<close> for system messages: they are built here.\<close>

record chat_call =
  cc_messages :: "chat_msg list"
  cc_system :: "string list option"
  cc_tools :: "string list option"
  cc_streams :: bool
  cc_context_hint :: string
  cc_model_role :: string
  cc_temperature :: "real option"
  cc_max_tokens :: "int option"
  cc_priority :: int
  cc_show_thinking :: bool
  cc_modulation :: "modulation option"
  cc_room_id :: string
  cc_account_id :: string

definition default_modulation :: modulation where
  "default_modulation = from_chaos_level 0"

definition asks_human :: "chat_msg list \<Rightarrow> bool" where
  "asks_human ms \<longleftrightarrow> ms \<noteq> [] \<and> (case last ms of HumanMsg n t \<Rightarrow> True | _ \<Rightarrow> False)"

text \<open>The messages after the thinking prompt has replaced the text of the last one, in place.\<close>

definition thinking_messages :: "llm_gateway \<Rightarrow> chat_call \<Rightarrow> chat_msg list" where
  "thinking_messages gy c =
    (if cc_show_thinking c \<and> asks_human (cc_messages c)
     then butlast (cc_messages c) @ [pn_thinking (gy_prompts gy) (last (cc_messages c))] else cc_messages c)"

definition system_texts :: "llm_gateway \<Rightarrow> chat_call \<Rightarrow> string list" where
  "system_texts gy c =
    (let m = (case cc_modulation c of None \<Rightarrow> default_modulation | Some m \<Rightarrow> m)
     in case cc_system c of
          Some s \<Rightarrow> s
        | None \<Rightarrow> build_system_messages (gy_prompts gy) (gy_draw gy) (cc_context_hint c) [] ''general_task'' True (cc_room_id c) (cc_account_id c) m)"

definition gateway_request :: "llm_gateway \<Rightarrow> chat_call \<Rightarrow> llm_message chat_request" where
  "gateway_request gy c =
    (let m = (case cc_modulation c of None \<Rightarrow> default_modulation | Some m \<Rightarrow> m);
         role = cc_model_role c;
         temp = resolve_temperature (cc_temperature c) None (Some (sampling_temperature m)) (get_effective_temperature (gy_config gy) role)
     in \<lparr>rq_messages = map SystemText (system_texts gy c) @ map Turn (thinking_messages gy c),
         rq_model = get_model (gy_config gy) role,
         rq_reasoning = (if resolve_thinking (gy_checker gy) (cc_show_thinking c) role then Some True else None),
         rq_temperature = resolve_temperature (Some temp) None None (get_effective_temperature (gy_config gy) role),
         rq_max_tokens = (case cc_max_tokens c of Some n \<Rightarrow> n | None \<Rightarrow> get_effective_max_tokens (gy_config gy) role),
         rq_tools = resolve_tools (gy_checker gy) (case cc_tools c of None \<Rightarrow> [] | Some ts \<Rightarrow> ts) role,
         rq_streams = cc_streams c,
         rq_priority = cc_priority c,
         rq_extra = []\<rparr>)"

definition gateway_chat :: "llm_message llm_world \<Rightarrow> bridge \<Rightarrow> llm_gateway \<Rightarrow> chat_call \<Rightarrow> bool \<Rightarrow> ai_message call_result \<times> string list \<times> bool" where
  "gateway_chat w b gy c cancelled = bridge_chat w b (gateway_request gy c) cancelled"

text \<open>What a node passes to the gateway (\<open>BaseLLMNode.__call__\<close>): the system messages it has built are not among it.\<close>

definition priority_of :: "pyobj \<Rightarrow> int" where
  "priority_of v = (case v of PInt i \<Rightarrow> i | _ \<Rightarrow> 0)"

definition node_call :: "modulation \<Rightarrow> bool \<Rightarrow> chat_msg list \<Rightarrow> string list option \<Rightarrow> chat_params \<Rightarrow> chat_call" where
  "node_call m streams ms tools cp =
    \<lparr>cc_messages = ms, cc_system = None, cc_tools = tools, cc_streams = streams, cc_context_hint = '''',
     cc_model_role = cp_model_role cp, cc_temperature = cp_temperature cp, cc_max_tokens = cp_max_tokens cp,
     cc_priority = priority_of (cp_priority cp), cc_show_thinking = cp_show_thinking cp, cc_modulation = Some m,
     cc_room_id = '''', cc_account_id = ''''\<rparr>"

definition text_of :: "ai_message \<Rightarrow> string" where
  "text_of m = (case ai_content m of Text s \<Rightarrow> s | Parts _ \<Rightarrow> '''')"

text \<open>The language model of theory Execution, for a plan of modulation \<open>m\<close>.\<close>

definition gateway_model :: "llm_message llm_world \<Rightarrow> bridge \<Rightarrow> llm_gateway \<Rightarrow> (pyobj \<Rightarrow> tool_call) \<Rightarrow> bool \<Rightarrow> modulation \<Rightarrow> language_model" where
  "gateway_model w b gy to_call streams m ms tools cp =
    (case gateway_chat w b gy (node_call m streams ms tools cp) False of
       (CallFails e, toks, _) \<Rightarrow> ChatFails toks
     | (Answer a, toks, cancelled) \<Rightarrow> ChatReply toks (text_of a) (map to_call (ai_tool_calls a)) cancelled)"

section \<open>What a request asks for\<close>


definition with_temperatures :: "(model_entry \<Rightarrow> real option) \<Rightarrow> real \<Rightarrow> model_config \<Rightarrow> model_config" where
  "with_temperatures f t mc = mc\<lparr>mf_models := map (\<lambda>e. e\<lparr>en_temperature := f e\<rparr>) (mf_models mc), mf_temperature := t\<rparr>"

lemma find_map: "find P (map f xs) = map_option f (find (\<lambda>x. P (f x)) xs)"
  by (induction xs) auto

lemma find_model_with_temperatures:
  "find_model (with_temperatures f t mc) role = map_option (\<lambda>e. e\<lparr>en_temperature := f e\<rparr>) (find_model mc role)"
  by (auto simp: find_model_def dget_role_map with_temperatures_def default_entry_def find_map rev_map
      split: option.split list.split)

text \<open>
  The temperatures of the configuration have no influence on any request: without an explicit
  temperature the one derived from the affective state is used, always between 0.2 and 0.9.
\<close>

theorem configured_temperature_unused:
  "gateway_request (gy\<lparr>gy_config := with_temperatures f t (gy_config gy)\<rparr>) c = gateway_request gy c \<and>
   rq_temperature (gateway_request gy c) = (case cc_temperature c of Some x \<Rightarrow> x
     | None \<Rightarrow> sampling_temperature (case cc_modulation c of None \<Rightarrow> default_modulation | Some m \<Rightarrow> m)) \<and>
   (cc_temperature c = None \<longrightarrow> 0.2 \<le> rq_temperature (gateway_request gy c) \<and> rq_temperature (gateway_request gy c) \<le> 0.9)"
proof -
  have "get_model (with_temperatures f t (gy_config gy)) role = get_model (gy_config gy) role"
    "get_effective_max_tokens (with_temperatures f t (gy_config gy)) role = get_effective_max_tokens (gy_config gy) role" for role
    by (auto simp: get_model_def get_effective_max_tokens_def effective_def find_model_with_temperatures split: option.split)
  moreover have "0.2 \<le> sampling_temperature m \<and> sampling_temperature m \<le> 0.9" for m
    unfolding sampling_temperature_def Let_def by (rule conjI; simp only: max.cobounded1 max.bounded_iff min.cobounded1) simp
  ultimately show ?thesis
    by (auto simp: gateway_request_def Let_def resolve_temperature_def system_texts_def thinking_messages_def split: option.split)
qed

section \<open>What a node tells the model\<close>

text \<open>The system messages a node builds for a plan and then drops.\<close>

definition node_system_messages :: "llm_gateway \<Rightarrow> node_type \<Rightarrow> plan \<Rightarrow> string list" where
  "node_system_messages gy nt p = build_system_messages (gy_prompts gy) (gy_draw gy) (pl_context_hint p) [] (nt_name nt) True
    (pl_room_id p) (pl_account_id p) (pl_modulation p)"

text \<open>
  Of the plan only its affective state reaches the prompt. The system messages a node builds for the
  room, the account, the context hint and its own kind are dropped: the request is the same for every
  other room, account and hint, and it is that of no room, no account, no hint and of the task node.
\<close>

theorem prompt_ignores_plan:
  fixes p :: plan and streams ms tools nt l
  defines "call q \<equiv> node_call (pl_modulation q) streams ms tools (resolve_chat_params nt l q)"
  shows "gateway_request gy (call (p\<lparr>pl_context_hint := hint, pl_room_id := room, pl_account_id := account\<rparr>)) =
      gateway_request gy (call p) \<and>
    system_texts gy (call p) =
      node_system_messages gy task_node (p\<lparr>pl_context_hint := '''', pl_room_id := '''', pl_account_id := ''''\<rparr>)"
  by (simp add: call_def system_texts_def node_call_def build_system_messages_def node_system_messages_def
      resolve_chat_params_def Let_def task_node_def NODE_TYPES_def)

section \<open>The thinking prompt\<close>

text \<open>The states in which the nodes of a run are entered.\<close>

inductive enters :: "bool \<Rightarrow> graph_env \<Rightarrow> graph_state \<Rightarrow> node \<Rightarrow> graph_state \<Rightarrow> bool" for keep e g0 where
  enters_start: "enters keep e g0 Prepare g0"
| enters_next: "enters keep e g0 n g \<Longrightarrow> exec_node e n g = Some g1 \<Longrightarrow> next_node keep n g1 = Some (n', g2) \<Longrightarrow>
    enters keep e g0 n' g2"

definition answered :: "graph_state \<Rightarrow> bool" where
  "answered g \<longleftrightarrow> es_messages (gs_state g) \<noteq> [] \<and> \<not> asks_human (es_messages (gs_state g))"

lemma messages_after_edge:
  "take_edge keep ts r g = Some (n, g') \<Longrightarrow> es_messages (snd r) = es_messages (gs_state g) \<Longrightarrow>
    es_messages (gs_state g') = es_messages (gs_state g)"
  by (auto simp: take_edge_def)

lemma messages_route [simp]:
  "es_messages (apply_route_transition d s) = es_messages s"
  by (auto simp: apply_route_transition_def Let_def split: option.split)

lemma calls_answered: "ms \<noteq> [] \<Longrightarrow> calls_of (last ms) \<noteq> [] \<Longrightarrow> \<not> asks_human ms"
  by (cases "last ms") (auto simp: asks_human_def)

lemma route_needs_calls:
  assumes "rd_next (decide_next_route s) \<noteq> ''finalize''"
  shows "es_messages s \<noteq> [] \<and> calls_of (last (es_messages s)) \<noteq> []"
  using assms by (auto simp: decide_next_route_def go_to_def split: if_splits option.splits)

lemma llm_edge_answered:
  assumes "take_edge keep llm_targets (route_after_llm (gs_state g)) g = Some (n, g')" and "n \<noteq> Finalize"
  shows "answered g'"
proof -
  let ?s = "gs_state g"
  have "rd_next (decide_next_route ?s) \<noteq> ''finalize''"
    using assms by (auto simp: take_edge_def route_after_llm_def llm_targets_def Let_def)
  from route_needs_calls [OF this] have "es_messages ?s \<noteq> []" "\<not> asks_human (es_messages ?s)"
    using calls_answered by auto
  moreover have "es_messages (gs_state g') = es_messages ?s"
    by (rule messages_after_edge [OF assms(1)]) (simp add: route_after_llm_def Let_def)
  ultimately show ?thesis by (simp add: answered_def)
qed

lemma truncate_keeps_kind: "(\<exists>n t. truncate_output m = HumanMsg n t) \<longleftrightarrow> (\<exists>n t. m = HumanMsg n t)"
  by (cases m) auto

lemma asks_human_iff: "asks_human ms \<longleftrightarrow> ms \<noteq> [] \<and> (\<exists>n t. last ms = HumanMsg n t)"
  by (auto simp: asks_human_def split: chat_msg.split)

lemma run_calls_tool_messages: "m \<in> set (fst (run_calls te tcs)) \<Longrightarrow> \<exists>n c. m = ToolMsg n c"
  by (induction te tcs rule: run_calls.induct) (auto split: option.splits prod.splits if_splits)

lemma tool_node_answered:
  assumes "answered g" and "tool_node e g = Some g1"
  shows "answered g1"
proof (cases "ge_tools e")
  case (Some te)
  let ?ms = "es_messages (gs_state g)"
  let ?new = "fst (run_calls te (calls_of (last ?ms)))"
  have ms: "es_messages (gs_state g1) = map truncate_output (?ms @ ?new)"
    using Some assms by (auto simp: tool_node_def run_tool_calls_def Let_def answered_def split: prod.splits if_splits)
  have "last (?ms @ ?new) \<noteq> HumanMsg n t" for n t
  proof (cases "?new = []")
    case True
    with assms(1) show ?thesis
      unfolding True by (auto simp: answered_def asks_human_iff)
  next
    case False
    with run_calls_tool_messages [OF last_in_set] show ?thesis
      by (metis chat_msg.distinct(3) last_append)
  qed
  then have "\<not> (\<exists>n t. truncate_output (last (?ms @ ?new)) = HumanMsg n t)"
    unfolding truncate_keeps_kind by blast
  moreover have ne: "?ms @ ?new \<noteq> []"
    using assms(1) by (simp add: answered_def)
  moreover have "last (map truncate_output (?ms @ ?new)) = truncate_output (last (?ms @ ?new))"
    by (rule last_map [OF ne])
  ultimately show ?thesis
    unfolding answered_def asks_human_iff ms by (metis map_is_Nil_conv)
qed (use assms in \<open>simp add: tool_node_def\<close>)

lemma enters_answered: "enters keep e g0 n g \<Longrightarrow> n \<in> {TaskNode, ToolsNode} \<Longrightarrow> answered g"
proof (induction rule: enters.induct)
  case (enters_next n g g1 n' g2)
  show ?case
  proof (cases n)
    case ToolsNode
    with enters_next have "answered g1"
      by (auto intro: tool_node_answered)
    moreover have "es_messages (gs_state g2) = es_messages (gs_state g1)"
      using enters_next.hyps(3) ToolsNode
      by (auto simp: route_after_tools_def decide_after_tools_def split: option.splits elim!: messages_after_edge)
    ultimately show ?thesis by (simp add: answered_def)
  qed (use enters_next llm_edge_answered in auto)
qed simp

text \<open>
  The thinking prompt is never used: it would replace a last message of the user, but the only node
  that thinks is the task node, and whenever that is entered the last message is one of the model or of
  a tool. So the gateway never rewrites a message of a run.
\<close>

theorem thinking_prompt_never_used:
  assumes "enters keep e g0 n g" and "n = ChatNode \<and> nt = chat_node \<or> n = TaskNode \<and> nt = task_node"
  shows "thinking_messages gy (node_call m streams (es_messages (gs_state g)) tools (resolve_chat_params nt l p)) =
    es_messages (gs_state g)"
  using assms(2)
proof (elim disjE conjE)
  assume "nt = chat_node"
  then show ?thesis
    by (simp add: thinking_messages_def node_call_def resolve_chat_params_def build_chat_params_def Let_def chat_node_def NODE_TYPES_def)
next
  assume "n = TaskNode"
  with enters_answered [OF assms(1)] have "\<not> asks_human (es_messages (gs_state g))"
    by (simp add: answered_def)
  then show ?thesis
    by (simp add: thinking_messages_def node_call_def)
qed

section \<open>A loop in the answer\<close>

lemma text_content [simp]: "handle_response_content s note \<lparr>ai_content = Text c, ai_tool_calls = ts\<rparr> \<noteq> None"
  by (simp add: handle_response_content_def extract_content_def)

lemma cancelled_stream_answers:
  assumes "prepared_call b r = Some (c, ts, kw)" and "rq_streams r" and "lw_stream w c ts (rq_messages r) kw = (chunks, failure)"
    and "st_cancelled (stream_loop chunks (stream_start False))"
  shows "\<exists>a. bridge_chat w b r False = (Answer a, st_delivered (stream_loop chunks (stream_start False)), True)"
proof -
  have "chunks \<noteq> []"
    using assms(4) by (auto simp: stream_start_def)
  then show ?thesis
    using assms by (simp add: bridge_chat_def Let_def split: option.split)
qed

text \<open>
  A repetition loop in the streamed answer counts as an interruption by the user: the detector cancels
  the token of the executor, so the node drops the whole answer, also the part before the loop and the
  trimmed text the bridge has prepared, and marks the plan as interrupted; only the tokens already shown
  remain.
\<close>

theorem loop_counts_as_interruption:
  fixes g :: graph_state and nt e gy m l
  defines "s \<equiv> gs_state g"
  defines "level \<equiv> current_level_name nt s"
  assumes model: "ge_chat e = gateway_model w b gy to_call True m"
    and "\<not> es_interrupted s" and "dget TASK_LEVELS level = Some l"
  defines "tools \<equiv> get_tools e nt level (es_plan s) @ build_routing_tools nt s"
  defines "r \<equiv> gateway_request gy (node_call m True (es_messages s) (if tools = [] then None else Some tools) (resolve_chat_params nt l (es_plan s)))"
  assumes "prepared_call b r = Some (c, ts, kw)" and "lw_stream w c ts (rq_messages r) kw = (chunks, failure)"
    and "st_cancelled (stream_loop chunks (stream_start False))"
  shows "\<exists>g'. llm_node e nt g = Some g' \<and> es_interrupted (gs_state g') \<and> es_response_text (gs_state g') = '''' \<and>
    es_messages (gs_state g') = es_messages s \<and>
    fst (route_after_llm (gs_state g')) = ''finalize'' \<and>
    gs_out g' = gs_out (emit_tokens e (es_plan s) (st_delivered (stream_loop chunks (stream_start False))) g)"
proof -
  have "rq_streams r"
    by (simp add: r_def gateway_request_def node_call_def Let_def)
  then obtain a where a: "bridge_chat w b r False = (Answer a, st_delivered (stream_loop chunks (stream_start False)), True)"
    using cancelled_stream_answers assms by blast
  have "ge_chat e (es_messages s) (if tools = [] then None else Some tools) (resolve_chat_params nt l (es_plan s)) =
      ChatReply (st_delivered (stream_loop chunks (stream_start False))) (text_of a) (map to_call (ai_tool_calls a)) True"
    using a by (simp add: model gateway_model_def gateway_chat_def r_def)
  then show ?thesis
    using assms(4, 5) unfolding llm_node_def
    by (simp add: Let_def flip: s_def level_def tools_def)
      (simp add: route_after_llm_def decide_next_route_def go_to_def)
qed

section \<open>Witnesses\<close>

definition demo_prompts :: prompt_env where
  "demo_prompts = \<lparr>pn_template = (\<lambda>n a. n @ a), pn_name = ''Iris'', pn_agents_md = '''', pn_principles = '''', pn_now = ''today'',
     pn_guidance_text = (\<lambda>_. ''g''), pn_preferences = (\<lambda>_ _. [''tea'']), pn_users = (\<lambda>_. []), pn_display_name = (\<lambda>a. a),
     pn_node_text = (\<lambda>_. ''''), pn_head_user = ''user'', pn_head_principles = ''p'', pn_head_style = ''s'', pn_head_hints = ''h'',
     pn_head_guidance = ''m'', pn_head_now = ''now'', pn_head_partner = ''with'', pn_head_participants = ''all'',
     pn_head_context = ''context'', pn_rules = ''rules'', pn_relaxed_rules = ''relaxed'', pn_thinking = (\<lambda>m. m)\<rparr>"

definition demo_gateway :: llm_gateway where
  "demo_gateway = \<lparr>gy_config = demo_model_config, gy_checker = Some demo_model_config, gy_prompts = demo_prompts, gy_draw = 0\<rparr>"

definition demo_call :: chat_call where
  "demo_call = node_call default_modulation True [] (Some [''web_search'']) \<lparr>cp_model_role = ''medium'', cp_temperature = None,
     cp_max_tokens = None, cp_priority = PInt 1, cp_show_thinking = True\<rparr>"

lemma demo_supports: "supports_tools demo_model_config ''medium''" "\<not> supports_thinking demo_model_config ''medium''"
proof -
  have "get_model_capabilities demo_model_config ''medium'' = []" "get_model_performance_tier demo_model_config ''medium'' = ''balanced''"
    by (simp_all add: get_model_capabilities_def get_model_performance_tier_def effective_def find_model_def dget_role_map
        default_entry_def demo_model_config_def demo_entry_def)
  then show "supports_tools demo_model_config ''medium''" "\<not> supports_thinking demo_model_config ''medium''"
    by (simp_all add: supports_tools_def supports_thinking_def)
qed


definition demo_llm :: "llm_message llm_world" where
  "demo_llm = \<lparr>lw_invoke = (\<lambda>_ _ _ _. Inl ''''), lw_stream = (\<lambda>_ _ _ _. (laughing, None)), lw_merged_calls = (\<lambda>_. []), lw_str = (\<lambda>_. ''''), lw_note = ''(cut)''\<rparr>"

definition demo_bridge :: bridge where
  "demo_bridge = \<lparr>br_chat_models = [(''qwen'', ChatOllama ''qwen'' '''' ''10m'' False [])], br_entries = [(''qwen'', demo_entry)],
     br_model_providers = [(''qwen'', (''k'', OllamaProvider))], br_provider_instances = [(''k'', (''k'', OllamaProvider))], br_config = demo_model_config\<rparr>"

lemma demo_prepared: "\<exists>c ts kw. prepared_call demo_bridge r = Some (c, ts, kw)"
  by (simp add: prepared_call_def Let_def demo_bridge_def resolve_chat_model_def get_provider_for_model_def first_value_def split_beta)

end
