(* ===== verification/Heartbeat.thy ===== *)
theory Heartbeat
  imports Iris_Prelude
begin

text \<open>
  The heartbeat (\<open>iris/heartbeat/service.py\<close>): a thread publishes a tick, waits for the interval, and so
  on. What the service does is a sequence of events: the calls of its methods and the steps of its
  loop threads, each with the reading of the clock it makes. A call of \<open>stop\<close> is two events, since other
  threads go on while it joins: \<open>Stop_Begin\<close> sets the flag and \<open>Stop_End\<close>, after the thread has ended
  or the timeout has passed, forgets the thread. \<open>Manual\<close> is a call of \<open>tick\<close>, directly or by the timer of
  \<open>schedule_tick\<close>. A \<open>threading.Event\<close> is a flag; the interval is a positive number of seconds.
\<close>

section \<open>The service\<close>

datatype loop_state = AtTop | Published | InWait real | Ended

record timer_service =
  ts_interval :: real
  ts_shutdown :: bool
  ts_reset :: bool
  ts_tick_count :: int
  ts_thread :: "nat option"
  ts_loops :: "loop_state list"
  ts_published :: "(string \<times> int \<times> real) list"

definition new_timer :: "real \<Rightarrow> timer_service" where
  "new_timer i = \<lparr>ts_interval = i, ts_shutdown = False, ts_reset = False, ts_tick_count = 0, ts_thread = None,
     ts_loops = [], ts_published = []\<rparr>"

definition timer_start :: "timer_service \<Rightarrow> timer_service" where
  "timer_start s = (if ts_thread s \<noteq> None then s
     else s\<lparr>ts_shutdown := False, ts_reset := False, ts_thread := Some (length (ts_loops s)), ts_loops := ts_loops s @ [AtTop]\<rparr>)"

definition stop_begin :: "timer_service \<Rightarrow> timer_service" where
  "stop_begin s = s\<lparr>ts_shutdown := True\<rparr>"

definition stop_end :: "timer_service \<Rightarrow> timer_service" where
  "stop_end s = s\<lparr>ts_thread := None\<rparr>"

definition timer_tick :: "real \<Rightarrow> timer_service \<Rightarrow> timer_service" where
  "timer_tick now s = s\<lparr>ts_published := ts_published s @ [(''heartbeat:manual'', - 1, now)]\<rparr>"

definition timer_reset :: "timer_service \<Rightarrow> timer_service" where
  "timer_reset s = s\<lparr>ts_reset := True\<rparr>"

text \<open>One step of loop thread \<open>i\<close>: the publication, the start of the wait, or one round of it.\<close>

definition wait_step :: "nat \<Rightarrow> real \<Rightarrow> real \<Rightarrow> timer_service \<Rightarrow> timer_service" where
  "wait_step i deadline now s =
    (if ts_shutdown s \<or> deadline - now \<le> 0 then s\<lparr>ts_loops := (ts_loops s)[i := AtTop]\<rparr>
     else if ts_reset s then s\<lparr>ts_reset := False, ts_loops := (ts_loops s)[i := AtTop]\<rparr>
     else s)"

definition loop_step :: "nat \<Rightarrow> real \<Rightarrow> timer_service \<Rightarrow> timer_service" where
  "loop_step i now s =
    (if length (ts_loops s) \<le> i then s
     else case ts_loops s ! i of
       AtTop \<Rightarrow> if ts_shutdown s then s\<lparr>ts_loops := (ts_loops s)[i := Ended]\<rparr>
         else s\<lparr>ts_published := ts_published s @ [(''heartbeat'', ts_tick_count s, now)], ts_tick_count := ts_tick_count s + 1,
                ts_loops := (ts_loops s)[i := Published]\<rparr>
     | Published \<Rightarrow> s\<lparr>ts_loops := (ts_loops s)[i := InWait (now + ts_interval s)]\<rparr>
     | InWait deadline \<Rightarrow> wait_step i deadline now s
     | Ended \<Rightarrow> s)"

datatype timer_event = Start_Timer | Stop_Begin | Stop_End | Reset | Manual real | Loop nat real

fun timer_step :: "timer_event \<Rightarrow> timer_service \<Rightarrow> timer_service" where
  "timer_step Start_Timer s = timer_start s"
| "timer_step Stop_Begin s = stop_begin s"
| "timer_step Stop_End s = stop_end s"
| "timer_step Reset s = timer_reset s"
| "timer_step (Manual now) s = timer_tick now s"
| "timer_step (Loop i now) s = loop_step i now s"

definition timer_run :: "timer_event list \<Rightarrow> timer_service \<Rightarrow> timer_service" where
  "timer_run = fold timer_step"

definition beats :: "timer_service \<Rightarrow> (int \<times> real) list" where
  "beats s = map snd (filter (\<lambda>p. fst p = ''heartbeat'') (ts_published s))"

section \<open>Numbering and spacing\<close>

lemmas timer_ops = timer_start_def stop_begin_def stop_end_def timer_tick_def timer_reset_def loop_step_def wait_step_def

definition numbered :: "timer_service \<Rightarrow> bool" where
  "numbered s \<longleftrightarrow> map fst (beats s) = map int [0..<length (beats s)] \<and> ts_tick_count s = int (length (beats s))"

lemma numbered_step: "numbered s \<Longrightarrow> numbered (timer_step e s)"
  by (cases e) (auto simp: numbered_def beats_def timer_ops split: loop_state.split)

lemma numbered_run: "numbered (timer_run es (new_timer i))"
proof (induction es rule: rev_induct)
  case Nil
  then show ?case by (simp add: timer_run_def numbered_def beats_def new_timer_def)
next
  case (snoc e es)
  then show ?case using numbered_step by (simp add: timer_run_def)
qed

definition event_time :: "timer_event \<Rightarrow> real option" where
  "event_time e = (case e of Loop i now \<Rightarrow> Some now | _ \<Rightarrow> None)"

definition clock :: "timer_event list \<Rightarrow> real list" where
  "clock es = List.map_filter event_time es"

text \<open>One loop thread, no reset: the last beat lies an interval before the next can come.\<close>

definition spaced :: "real \<Rightarrow> timer_service \<Rightarrow> bool" where
  "spaced now s \<longleftrightarrow> ts_reset s = False \<and> 0 \<le> ts_interval s \<and>
     successively (\<lambda>a b. a + ts_interval s \<le> b) (map snd (beats s)) \<and>
     (\<forall>t \<in> set (map snd (beats s)). t \<le> now) \<and>
     (beats s \<noteq> [] \<longrightarrow> (case ts_loops s of
        [AtTop] \<Rightarrow> snd (last (beats s)) + ts_interval s \<le> now \<or> ts_shutdown s
      | [Published] \<Rightarrow> True
      | [InWait d] \<Rightarrow> snd (last (beats s)) + ts_interval s \<le> d
      | [Ended] \<Rightarrow> True
      | _ \<Rightarrow> False)) \<and> length (ts_loops s) \<le> 1"

lemma spaced_later: "spaced now s \<Longrightarrow> now \<le> now' \<Longrightarrow> spaced now' s"
  unfolding spaced_def by (auto split: list.splits loop_state.splits)

lemma spaced_loop:
  assumes "spaced now s"
  shows "spaced now (loop_step i now s)"
proof (cases "ts_loops s")
  case Nil
  then show ?thesis using assms by (simp add: loop_step_def)
next
  case (Cons l ls)
  then have ls: "ls = []" using assms by (simp add: spaced_def)
  show ?thesis
  proof (cases i)
    case 0
    have b: "beats (s\<lparr>ts_published := ts_published s @ [(''heartbeat'', n, now)], ts_tick_count := c, ts_loops := x\<rparr>) =
        beats s @ [(n, now)]" "beats (s\<lparr>ts_loops := x\<rparr>) = beats s" for n c x
      by (simp_all add: beats_def)
    show ?thesis
      using assms Cons ls 0
      by (cases l; cases "beats s = []")
        (auto simp: loop_step_def wait_step_def b spaced_def successively_append_iff last_map split: if_splits)
  qed (use assms Cons ls in \<open>simp add: loop_step_def\<close>)
qed

definition starts :: "timer_event list \<Rightarrow> nat" where
  "starts es = length (filter (\<lambda>e. e = Start_Timer) es)"

lemma timer_run_snoc: "timer_run (es @ [e]) s = timer_step e (timer_run es s)"
  by (simp add: timer_run_def)

lemma beats_frame:
  "beats (timer_start s) = beats s" "beats (stop_begin s) = beats s" "beats (stop_end s) = beats s"
  "beats (timer_tick now s) = beats s"
  by (simp_all add: beats_def timer_ops)

lemma spaced_other:
  assumes "spaced now s"
  shows "spaced now (stop_begin s)" and "spaced now (stop_end s)" and "spaced now (timer_tick t s)"
proof -
  have frame: "spaced now s'" if "beats s' = beats s" "ts_loops s' = ts_loops s" "ts_interval s' = ts_interval s"
      "ts_reset s' = ts_reset s" "ts_shutdown s \<Longrightarrow> ts_shutdown s'" for s'
    using assms that by (auto simp: spaced_def split: list.splits loop_state.splits)
  show "spaced now (stop_begin s)" by (rule frame) (simp_all add: beats_frame, simp_all add: stop_begin_def)
  show "spaced now (stop_end s)" by (rule frame) (simp_all add: beats_frame, simp_all add: stop_end_def)
  show "spaced now (timer_tick t s)" by (rule frame) (simp_all add: beats_frame, simp_all add: timer_tick_def)
qed

lemma clock_snoc: "clock (es @ [e]) = clock es @ (case event_time e of Some t \<Rightarrow> [t] | None \<Rightarrow> [])"
  by (simp add: clock_def List.map_filter_def split: option.split)

lemma loops_run: "length (ts_loops (timer_run es (new_timer i))) \<le> starts es"
proof (induction es rule: rev_induct)
  case Nil
  then show ?case by (simp add: timer_run_def new_timer_def starts_def)
next
  case (snoc e es)
  then show ?case
    by (cases e) (auto simp: timer_run_def starts_def timer_ops split: loop_state.split)
qed

lemma no_loop_no_beat: "ts_loops (timer_run es (new_timer i)) = [] \<Longrightarrow> beats (timer_run es (new_timer i)) = []"
proof (induction es rule: rev_induct)
  case Nil
  then show ?case by (simp add: timer_run_def new_timer_def beats_def)
next
  case (snoc e es)
  then show ?case
    by (cases e) (auto simp: timer_run_def timer_ops beats_def split: loop_state.splits if_splits)
qed

lemma spaced_run:
  assumes "0 \<le> i" and "starts es \<le> 1" and "Reset \<notin> set es" and "sorted (t0 # clock es)"
  shows "spaced (last (t0 # clock es)) (timer_run es (new_timer i))"
  using assms(2-)
proof (induction es rule: rev_induct)
  case Nil
  then show ?case using assms(1) by (simp add: timer_run_def spaced_def new_timer_def beats_def clock_def List.map_filter_def)
next
  case (snoc e es)
  let ?s = "timer_run es (new_timer i)"
  have IH: "spaced (last (t0 # clock es)) ?s"
    by (rule snoc.IH) (use snoc.prems in \<open>auto simp: starts_def clock_snoc sorted_append split: option.splits\<close>)
  have run: "timer_run (es @ [e]) (new_timer i) = timer_step e ?s" by (simp add: timer_run_def)
  show ?case
  proof (cases e)
    case (Loop k now)
    then have c: "clock (es @ [e]) = clock es @ [now]" by (simp add: clock_snoc event_time_def)
    have "last (t0 # clock es) \<le> now"
      using snoc.prems(3) unfolding c by (cases "clock es" rule: rev_cases) (auto simp: sorted_append)
    then have "spaced now ?s" by (rule spaced_later [OF IH])
    from spaced_loop [OF this, of k] show ?thesis unfolding run c by (simp add: Loop)
  next
    case Start_Timer
    have c: "clock (es @ [e]) = clock es" using Start_Timer by (simp add: clock_snoc event_time_def)
    have "starts es = 0" using snoc.prems(1) Start_Timer by (simp add: starts_def)
    then have "ts_loops ?s = []" using loops_run [of es i] by simp
    with no_loop_no_beat [OF this] IH show ?thesis
      unfolding run c by (simp add: Start_Timer spaced_def beats_frame) (simp add: timer_start_def)
  next
    case Reset
    then show ?thesis using snoc.prems(2) by simp
  qed (use spaced_other [OF IH] in \<open>simp_all add: timer_run_snoc clock_snoc event_time_def\<close>)
qed

text \<open>
  The heartbeat beats regularly: whatever happens to the service, its beats are numbered 0, 1, 2 and
  so on without a gap; and when it is started once and never reset, two beats are at least
  one interval apart, however long the handlers of a beat take.
\<close>

theorem beats_regular:
  assumes "0 \<le> i"
  shows "map fst (beats (timer_run es (new_timer i))) = map int [0..<length (beats (timer_run es (new_timer i)))] \<and>
    (starts es \<le> 1 \<and> Reset \<notin> set es \<and> sorted (clock es) \<longrightarrow>
      successively (\<lambda>a b. a + i \<le> b) (map snd (beats (timer_run es (new_timer i)))))"
proof (intro conjI impI)
  show "map fst (beats (timer_run es (new_timer i))) = map int [0..<length (beats (timer_run es (new_timer i)))]"
    using numbered_run [of es i] by (simp add: numbered_def)
  assume "starts es \<le> 1 \<and> Reset \<notin> set es \<and> sorted (clock es)"
  then have a: "starts es \<le> 1" "Reset \<notin> set es" "sorted (clock es)" by simp_all
  have "sorted ((if clock es = [] then 0 else hd (clock es)) # clock es)"
    using a(3) by (cases "clock es") auto
  from spaced_run [OF assms a(1,2) this] have "spaced (last ((if clock es = [] then 0 else hd (clock es)) # clock es))
      (timer_run es (new_timer i))" .
  moreover have "ts_interval (timer_run es s) = ts_interval s" for s
    unfolding timer_run_def
    by (induction es arbitrary: s) (simp_all, rename_tac e es s, case_tac e, auto simp: timer_ops split: loop_state.splits)
  ultimately show "successively (\<lambda>a b. a + i \<le> b) (map snd (beats (timer_run es (new_timer i))))"
    by (simp add: spaced_def new_timer_def)
qed

definition two_beats :: "timer_event list" where
  "two_beats = [Start_Timer, Loop 0 0, Loop 0 1, Manual 1, Loop 0 2, Loop 0 11, Loop 0 11]"

text \<open>After \<open>stop\<close> has timed out, \<open>start\<close> clears the flag the old thread waits for: two loops beat, here one
  second apart although the interval is ten.\<close>

lemma two_loops:
  "beats (timer_run [Start_Timer, Loop 0 0, Stop_Begin, Stop_End, Start_Timer, Loop 1 1, Loop 0 1, Loop 0 11, Loop 0 11, Loop 1 12]
     (new_timer 10)) = [(0, 0), (1, 1), (2, 11)] \<and>
   length (filter (\<lambda>l. l \<noteq> Ended) (ts_loops (timer_run [Start_Timer, Loop 0 0, Stop_Begin, Stop_End, Start_Timer] (new_timer 10)))) = 2"
  by (simp add: timer_run_def timer_ops new_timer_def beats_def)

end
