(* ===== verification/Spec2Isabelle.thy ===== *)
theory Spec2Isabelle
  imports Event_Bus Assembly Grpc_Out Context_Hints Execution Long_Term Limbic Procedural Archive Proactive Scheduler
    Priority_Lock Debug_Cli Listener Vector_Index Emotion_Memory Startup Llm_Context Llm_Gateway Kernel_Process Heartbeat Commands
begin

text \<open>
  Verification development of iris-mind, an assistant that talks in rooms: clients send texts over
  gRPC, the agency layer decides whether to answer, a language model writes the answer, and memories
  and an affective state are kept about what was said. Paths below are under \<open>src/iris\<close> unless they
  begin with \<open>src\<close>.

  \<^bold>\<open>The way of a message\<close>. A client stream is authenticated (\<open>io/transport\<close>, theory
  Transport; the thread of the service is in Listener) and becomes a session that holds a connection
  (\<open>io/session\<close>, Session). An incoming text passes the gateway (\<open>io/gateway.py\<close>, Gateway), which checks
  session and room (\<open>room\<close>, Room and Room\_Store; \<open>account\<close>, Account) and publishes an input event on the
  bus (\<open>event\<close>, Event\_Bus, with its tracer in Event\_Tracing). The sensory memory collects the fragments of a
  room and delivers them as one text (\<open>memory/sensory\<close>, Working\_Memory); planning turns the event into a
  plan (\<open>agency/planning\<close>, Planning, with the hints drawn from the memories in Context\_Hints), inhibition
  may deny it (\<open>agency/inhibition\<close>, Inhibition), the worker thread takes it from a queue
  (\<open>agency/execution/worker.py\<close>, Worker), and execution runs the graph of nodes around the model
  (\<open>agency/execution\<close>, Execution). What is to be sent back goes through the queue of the connection and
  becomes frames again (Grpc\_Out).

  \<^bold>\<open>The language model\<close>. A node asks through the gateway of the model (\<open>agency/execution/llm\<close>,
  Llm\_Gateway), which composes the prompt, takes its turn at the priority lock (\<open>llm/priority_lock.py\<close>,
  Priority\_Lock), restricts tools and thinking to what the model can do (\<open>kernel/config/models.py\<close>,
  \<open>llm/capability.py\<close>, Model\_Config) and calls the bridge (\<open>llm/bridge.py\<close>, Llm\_Bridge), whose stream is
  watched for loops (\<open>llm/repetition.py\<close>, Repetition). The context is counted and compressed in
  Llm\_Context (\<open>llm/context.py\<close>, \<open>token_utils.py\<close>); the tools it may call are registered in Tools
  (\<open>tools\<close>).

  \<^bold>\<open>Memory and affect\<close>. The limbic system turns an input event into a modulation state (\<open>limbic\<close>,
  Limbic, with the neural classifier in Emotion\_Memory; \<open>agency/modulation\<close>, Agency\_Plan). Short-term and long-term memory
  (\<open>memory/short\_term\<close>, Working\_Memory; \<open>memory/long\_term\<close>, Long\_Term over Json\_Store, Vector\_Index), the
  raw archive (Archive), and the extraction of lasting memories by a model (\<open>memory/langmem\<close>: Candidates,
  Extractor, Promotion, Scheduler; \<open>memory/procedural\<close>, Procedural) hold what is remembered; the
  timer (\<open>heartbeat\<close>, Heartbeat) may start an utterance on its own (Proactive).

  \<^bold>\<open>The process\<close>. Startup is the way from \<open>src/main.py\<close> to the supervisor: logs, environment, and the
  search for plugins. The plugin layer orders, initialises, starts and stops the plugins
  (\<open>kernel/plugin\<close>, \<open>kernel/manager.py\<close>: Plugin\_Order, Plugin\_Services, Plugin\_Lifecycle); Assembly runs the
  \<open>init\<close> of the nine shipped plugins with their builders, as a state monad over the objects they make, and
  shows what is wired to what. Kernel\_Process is the process and its supervisor, Diagnostics and
  Commands are the inspection of a running system and the command lines of console and clients,
  Debug\_Cli is the separate debug client (\<open>src/debug_tools/cli.py\<close>).

  \<^bold>\<open>How the model corresponds to the code\<close>. A class with state is a record, its methods are functions
  from the record to a result and the new record; a dataclass is a record, an enumeration a datatype. A
  raised exception is \<open>Inl\<close> of an error or a value of the result, a Python \<open>dict\<close> is an association list in
  insertion order (Iris\_Prelude), an unbounded integer is \<open>int\<close> or \<open>nat\<close>, a \<open>float\<close> is \<open>real\<close> (rounding
  is not modelled), a text is a list of the first 256 code points (Py\_Text has the methods of \<open>str\<close>).
  Event handlers, callbacks and other code the caller supplies are function arguments. Threads that
  interfere are sequences of events or a step relation (Priority\_Lock, Worker, Heartbeat, Listener, the
  supervisor); elsewhere a lock is held for a whole operation, so that one operation runs at a time, and
  the properties quantify over all sequences of operations.

  \<^bold>\<open>What the lemmas show\<close>. Each theory proves an invariant of its records kept by every operation (rooms and
  members, accounts and identities, sessions and tags, locks, tasks), the effect of an operation on
  every branch, and bounds (rounds of tools, size of a relationship change, length of what is kept).
  Abstract specifications are refined where a component has one: the presence of users in rooms by a relation, the
  detector of repetitions by what it looks for, the cached index of the vector store by one made
  afresh, the stored files by their content. Round trips are shown for stored records and for relayed
  frames. Properties that span components are Assembly.clients\_reach\_no\_room (start-up order, wiring and
  gateway), Grpc\_Out.relay\_roundtrip (both directions of the service), Context\_Hints.semantic\_memory\_never\_hinted (search, formatting
  and hints), Kernel\_Process.kernel\_never\_starts (container and assembly) and
  Debug\_Cli.debug\_cli\_gets\_no\_answer (client and service). Several of them show that the program does not
  do what it means to; the lemmas that only show a defect stand beside the operation they are about.

  \<^bold>\<open>Bounds and fuel\<close>. The graph of nodes runs at most \<open>limit\<close> steps, as the recursion limit of the graph
  library has it: an execution that needs more ends with that error, and Execution shows that the rounds
  of tools are bounded by the level of the task. The worker's queue is empty after twice the number of submitted plans and
  one step. All other loops are structural recursions over the data they consume, or have a measure.

  \<^bold>\<open>Contracts\<close>. Iris\_Interfaces states the contracts several components share as locales (keyed record
  stores, bounded logs, priority registries); every provider interprets them on its own definitions.

  \<^bold>\<open>Parameters\<close>. Third-party code is an argument: orjson (\<open>dump\<close> and \<open>parse\<close>, with the round trip as
  a named hypothesis where a property needs it), Chroma and BM25, the model, hash functions, the clock,
  random draws, fresh identifiers, directory listings, the import of modules, and the texts, word lists and
  regular expressions in Japanese.

  \<^bold>\<open>Not modelled\<close>. Generated protobuf code, the asyncio and gRPC runtimes, HTTP and the file system below a
  store's content; logging calls; the parsing of YAML and of command lines and the validation pydantic
  makes of a configuration; the prompts of the extraction, which are data; typing protocols and
  re-exports; the exception classes of \<open>errors.py\<close>, which nothing raises; the regular expressions of the entity
  extractor; accessors that only return a field or delegate to the
  method that is modelled; and methods that nothing calls (\<open>GoalStore.save\<close> and \<open>load\<close>, \<open>discover_sub_plugins\<close>,
  \<open>chat_with_structured_output\<close>).
\<close>

end
